(* ===== verification/Zen_Float64.thy ===== *)
theory Zen_Float64
  imports Complex_Main Zen_Prelude
begin

text \<open>
  Go's \<^verbatim>\<open>float64\<close> (IEEE 754 binary64) as exact rationals with correct rounding, and what the sources
  use of it: comparison, negation, conversion from integers, \<^verbatim>\<open>strconv.ParseFloat(s, 64)\<close> and the
  text \<^verbatim>\<open>fmt.Sprintf("%v", x)\<close> gives. A finite value is \<open>Fin q\<close> with \<open>q\<close> representable;
  negative zero is kept apart because it prints as \<open>-0\<close>.
\<close>

datatype f64 = Fin rat | NegZero | PosInf | NegInf | NaN

section \<open>Rounding to nearest, ties to even\<close>

definition pow2 :: "int \<Rightarrow> rat" where
  "pow2 e = (if 0 \<le> e then 2 ^ nat e else 1 / 2 ^ nat (- e))"

definition pow10 :: "int \<Rightarrow> rat" where
  "pow10 e = (if 0 \<le> e then 10 ^ nat e else 1 / 10 ^ nat (- e))"

function bit_len :: "int \<Rightarrow> nat" where
  "bit_len n = (if n \<le> 0 then 0 else Suc (bit_len (n div 2)))"
  by pat_completeness auto
termination
  by (relation "measure nat") auto

declare bit_len.simps [simp del]

text \<open>The exponent \<open>e\<close> with \<open>pow2 e \<le> x < pow2 (e + 1)\<close>, for \<open>0 < x\<close>.\<close>

definition floor_log2 :: "rat \<Rightarrow> int" where
  "floor_log2 x =
     (let (a, b) = quotient_of x; k = int (bit_len a) - int (bit_len b)
      in if pow2 k \<le> x then k else k - 1)"

definition round_even :: "rat \<Rightarrow> int" where
  "round_even x =
     (let n = \<lfloor>x\<rfloor>; r = x - of_int n
      in if r < 1 / 2 then n else if 1 / 2 < r then n + 1 else if even n then n else n + 1)"

text \<open>The weight of the last mantissa bit for a magnitude \<open>x\<close>: 53 significant bits, gradual
  underflow below \<open>2 ^ -1022\<close>.\<close>

definition ulp_exp :: "rat \<Rightarrow> int" where
  "ulp_exp x = max (floor_log2 x - 52) (- 1074)"

text \<open>The largest finite value is \<open>(2 ^ 53 - 1) * pow2 971\<close>: a rounded mantissa \<open>m\<close> of weight \<open>u\<close>
  overflows when \<open>m * pow2 u\<close> reaches \<open>pow2 1024\<close>.\<close>

definition overflows :: "int \<Rightarrow> int \<Rightarrow> bool" where
  "overflows m u \<longleftrightarrow> 971 < u \<or> u = 971 \<and> 2 ^ 53 \<le> m"

definition rnd64 :: "rat \<Rightarrow> f64" where
  "rnd64 x =
     (if x = 0 then Fin 0
      else let a = \<bar>x\<bar>; u = ulp_exp a; m = round_even (a * pow2 (- u)); y = of_int m * pow2 u
           in if overflows m u then (if x < 0 then NegInf else PosInf)
              else if m = 0 then (if x < 0 then NegZero else Fin 0)
              else Fin (if x < 0 then - y else y))"

definition f64_of_int :: "int \<Rightarrow> f64" where
  "f64_of_int n = rnd64 (of_int n)"

section \<open>Negation and comparison\<close>

fun f64_neg :: "f64 \<Rightarrow> f64" where
  "f64_neg (Fin q) = (if q = 0 then NegZero else Fin (- q))"
| "f64_neg NegZero = Fin 0"
| "f64_neg PosInf = NegInf"
| "f64_neg NegInf = PosInf"
| "f64_neg NaN = NaN"

text \<open>The operator \<^verbatim>\<open><\<close>: false as soon as one side is NaN; the two zeros are equal.\<close>

fun f64_less :: "f64 \<Rightarrow> f64 \<Rightarrow> bool" where
  "f64_less NaN y = False"
| "f64_less x NaN = False"
| "f64_less PosInf y = False"
| "f64_less x NegInf = False"
| "f64_less NegInf y = True"
| "f64_less x PosInf = True"
| "f64_less (Fin p) (Fin q) = (p < q)"
| "f64_less (Fin p) NegZero = (p < 0)"
| "f64_less NegZero (Fin q) = (0 < q)"
| "f64_less NegZero NegZero = False"

abbreviation f64_greater :: "f64 \<Rightarrow> f64 \<Rightarrow> bool" where
  "f64_greater x y \<equiv> f64_less y x"

definition f64_ge :: "f64 \<Rightarrow> rat \<Rightarrow> bool" where
  "f64_ge x q \<longleftrightarrow> (case x of Fin p \<Rightarrow> q \<le> p | NegZero \<Rightarrow> q \<le> 0 | PosInf \<Rightarrow> True | _ \<Rightarrow> False)"

section \<open>Arithmetic\<close>

definition f64_sign :: "f64 \<Rightarrow> bool" where
  "f64_sign x = (case x of Fin q \<Rightarrow> q < 0 | NegZero \<Rightarrow> True | NegInf \<Rightarrow> True | _ \<Rightarrow> False)"

definition f64_val :: "f64 \<Rightarrow> rat" where
  "f64_val x = (case x of Fin q \<Rightarrow> q | _ \<Rightarrow> 0)"

abbreviation f64_inf :: "f64 \<Rightarrow> bool" where
  "f64_inf x \<equiv> x = PosInf \<or> x = NegInf"

abbreviation f64_zero :: "f64 \<Rightarrow> bool" where
  "f64_zero x \<equiv> x = Fin 0 \<or> x = NegZero"

abbreviation f64_signed :: "bool \<Rightarrow> f64 \<Rightarrow> f64" where
  "f64_signed neg x \<equiv> (if neg then f64_neg x else x)"

definition f64_add :: "f64 \<Rightarrow> f64 \<Rightarrow> f64" where
  "f64_add x y =
     (if x = NaN \<or> y = NaN then NaN
      else if f64_inf x then (if f64_inf y \<and> x \<noteq> y then NaN else x)
      else if f64_inf y then y
      else if f64_zero x \<and> f64_zero y then (if x = NegZero \<and> y = NegZero then NegZero else Fin 0)
      else rnd64 (f64_val x + f64_val y))"

definition f64_mul :: "f64 \<Rightarrow> f64 \<Rightarrow> f64" where
  "f64_mul x y =
     (let neg = (f64_sign x \<noteq> f64_sign y)
      in if x = NaN \<or> y = NaN then NaN
         else if f64_inf x \<or> f64_inf y then (if f64_zero x \<or> f64_zero y then NaN else f64_signed neg PosInf)
         else f64_signed neg (rnd64 (\<bar>f64_val x * f64_val y\<bar>)))"

definition f64_div :: "f64 \<Rightarrow> f64 \<Rightarrow> f64" where
  "f64_div x y =
     (let neg = (f64_sign x \<noteq> f64_sign y)
      in if x = NaN \<or> y = NaN then NaN
         else if f64_inf x then (if f64_inf y then NaN else f64_signed neg PosInf)
         else if f64_inf y then f64_signed neg (Fin 0)
         else if f64_zero y then (if f64_zero x then NaN else f64_signed neg PosInf)
         else f64_signed neg (rnd64 (\<bar>f64_val x / f64_val y\<bar>)))"

text \<open>\<^verbatim>\<open>Duration.Seconds\<close> and \<^verbatim>\<open>Duration.Minutes\<close> of a non-negative number of nanoseconds.\<close>

definition dur_in :: "int \<Rightarrow> int \<Rightarrow> f64" where
  "dur_in unit d = f64_add (f64_of_int (d div unit)) (f64_div (f64_of_int (d mod unit)) (f64_of_int unit))"

definition dur_seconds :: "int \<Rightarrow> f64" where
  "dur_seconds = dur_in 1000000000"

definition dur_minutes :: "int \<Rightarrow> f64" where
  "dur_minutes = dur_in 60000000000"

section \<open>Parsing: strconv.ParseFloat(s, 64)\<close>

definition hex_digit_val :: "char \<Rightarrow> int" where
  "hex_digit_val c = (if is_digit_char c then byte_of c - 48 else byte_of (to_lower_char c) - 87)"

definition is_hex_letter :: "char \<Rightarrow> bool" where
  "is_hex_letter c \<longleftrightarrow> in_range 97 102 (to_lower_char c)"

text \<open>The mantissa loop of \<^verbatim>\<open>readFloat\<close>. The state is the mantissa read so far, the number of digits
  after the point, and whether a point and a digit were seen; underscores are skipped.\<close>

record mant =
  m_val :: int
  m_frac :: nat
  m_dot :: bool
  m_digits :: bool

fun scan_mant :: "bool \<Rightarrow> mant \<Rightarrow> string \<Rightarrow> mant \<times> string" where
  "scan_mant hex m [] = (m, [])"
| "scan_mant hex m (c # cs) =
     (if c = CHR ''_'' then scan_mant hex m cs
      else if c = CHR ''.'' then
        (if m_dot m then (m, c # cs) else scan_mant hex (m\<lparr>m_dot := True\<rparr>) cs)
      else if is_digit_char c \<or> hex \<and> is_hex_letter c then
        scan_mant hex (m\<lparr>m_val := (if hex then 16 else 10) * m_val m + hex_digit_val c,
                         m_frac := m_frac m + (if m_dot m then 1 else 0), m_digits := True\<rparr>) cs
      else (m, c # cs))"

text \<open>The exponent digits: accumulation stops once the value reaches 10000.\<close>

fun scan_exp :: "int \<Rightarrow> string \<Rightarrow> int \<times> string" where
  "scan_exp e [] = (e, [])"
| "scan_exp e (c # cs) =
     (if is_digit_char c then scan_exp (if e < 10000 then 10 * e + digit_val c else e) cs
      else if c = CHR ''_'' then scan_exp e cs
      else (e, c # cs))"

text \<open>\<^verbatim>\<open>underscoreOK\<close>: an underscore stands between two digits, or between the base prefix and a
  digit. The state is the class of the last character seen.\<close>

datatype us_class = UStart | UDigit | UUnder | UOther

fun underscore_scan :: "bool \<Rightarrow> us_class \<Rightarrow> string \<Rightarrow> bool" where
  "underscore_scan hex st [] = (st \<noteq> UUnder)"
| "underscore_scan hex st (c # cs) =
     (if is_digit_char c \<or> hex \<and> is_hex_letter c then underscore_scan hex UDigit cs
      else if c = CHR ''_'' then (if st = UDigit then underscore_scan hex UUnder cs else False)
      else if st = UUnder then False
      else underscore_scan hex UOther cs)"

definition strip_sign :: "string \<Rightarrow> bool \<times> string" where
  "strip_sign s = (case s of [] \<Rightarrow> (False, [])
     | c # cs \<Rightarrow> if c = CHR ''-'' then (True, cs) else if c = CHR ''+'' then (False, cs) else (False, s))"

definition hex_prefixed :: "string \<Rightarrow> bool" where
  "hex_prefixed s \<longleftrightarrow> to_lower (take 2 s) = ''0x''"

definition underscore_ok :: "string \<Rightarrow> bool" where
  "underscore_ok s =
     (let r = snd (strip_sign s)
      in if to_lower (take 2 r) \<in> {''0b'', ''0o'', ''0x''}
         then underscore_scan (hex_prefixed r) UDigit (drop 2 r)
         else underscore_scan False UStart r)"

text \<open>The unsigned number: mantissa, then the exponent (\<open>e\<close>, optional, for a decimal; \<open>p\<close>, required,
  for a hexadecimal). The result is the exact value.\<close>

definition read_exp :: "bool \<Rightarrow> string \<Rightarrow> int option" where
  "read_exp hex t =
     (case t of
        [] \<Rightarrow> if hex then None else Some 0
      | c # cs \<Rightarrow>
          if to_lower_char c = (if hex then CHR ''p'' else CHR ''e'') then
            (let (neg, ds) = strip_sign cs
             in case ds of [] \<Rightarrow> None
                | d # _ \<Rightarrow> if is_digit_char d
                    then (let (e, rest) = scan_exp 0 ds
                          in if rest = [] then Some (if neg then - e else e) else None)
                    else None)
          else None)"

definition read_number :: "string \<Rightarrow> rat option" where
  "read_number r =
     (let hex = (hex_prefixed r \<and> 2 < length r);
          (m, t) = scan_mant hex \<lparr>m_val = 0, m_frac = 0, m_dot = False, m_digits = False\<rparr>
                     (if hex then drop 2 r else r)
      in if \<not> m_digits m then None
         else (case read_exp hex t of None \<Rightarrow> None
               | Some e \<Rightarrow> Some (if hex then of_int (m_val m) * pow2 (e - 4 * int (m_frac m))
                                 else of_int (m_val m) * pow10 (e - int (m_frac m)))))"

text \<open>A syntax error and a value out of range are both errors (\<open>None\<close>).\<close>

definition parse_float :: "string \<Rightarrow> f64 option" where
  "parse_float s =
     (let (neg, r) = strip_sign s
      in if to_lower r \<in> {''inf'', ''infinity''} then Some (if neg then NegInf else PosInf)
         else if to_lower s = ''nan'' then Some NaN
         else if CHR ''_'' \<in> set s \<and> \<not> underscore_ok s then None
         else (case read_number r of None \<Rightarrow> None
               | Some q \<Rightarrow> (let x = rnd64 q
                           in if x = PosInf then None else Some (if neg then f64_neg x else x))))"

section \<open>Printing: the verb %v on a float64\<close>

definition floor_log10 :: "rat \<Rightarrow> int" where
  "floor_log10 x =
     (let (a, b) = quotient_of x;
          k = int (length (show_pos a)) - int (length (show_pos b))
      in if pow10 k \<le> x then k else k - 1)"

text \<open>The shortest decimal that reads back as \<open>x\<close>, the closest one among those: its digits and its
  decimal exponent. Seventeen digits always suffice.\<close>

definition shortest_at :: "rat \<Rightarrow> int \<Rightarrow> nat \<Rightarrow> int option" where
  "shortest_at x k n =
     (let sc = pow10 (k - int n + 1); lo = \<lfloor>x / sc\<rfloor>; r = x / sc - of_int lo;
          ok = (\<lambda>c. rnd64 (of_int c * sc) = Fin x)
      in if ok lo \<and> ok (lo + 1) then Some (if r < 1 / 2 \<or> r = 1 / 2 \<and> even lo then lo else lo + 1)
         else if ok lo then Some lo else if ok (lo + 1) then Some (lo + 1) else None)"

fun strip_zeros :: "string \<Rightarrow> string" where
  "strip_zeros s = rev (dropWhile (\<lambda>c. c = CHR ''0'') (rev s))"

definition shortest_digits :: "rat \<Rightarrow> string \<times> int" where
  "shortest_digits x =
     (let k = floor_log10 x
      in case List.find (\<lambda>n. shortest_at x k n \<noteq> None) [1..<18] of
           None \<Rightarrow> ([], 0)
         | Some n \<Rightarrow> (let ds = show_int (the (shortest_at x k n))
                     in (strip_zeros ds, k + int (length ds) - int n)))"

definition exp_text :: "int \<Rightarrow> string" where
  "exp_text e = (let ds = show_pos \<bar>e\<bar>
     in (if e < 0 then ''-'' else ''+'') @ (if length ds < 2 then CHR ''0'' # ds else ds))"

text \<open>\<^verbatim>\<open>%g\<close> at shortest precision: the exponent form when the decimal exponent is below -4 or at
  least 6.\<close>

definition fmt_pos :: "rat \<Rightarrow> string" where
  "fmt_pos x =
     (let (ds, e) = shortest_digits x; n = length ds
      in if e < - 4 \<or> 6 \<le> e then
           take 1 ds @ (if 1 < n then CHR ''.'' # drop 1 ds else []) @ ''e'' @ exp_text e
         else if e < 0 then ''0.'' @ replicate (nat (- e - 1)) (CHR ''0'') @ ds
         else if n \<le> nat e + 1 then ds @ replicate (nat e + 1 - n) (CHR ''0'')
         else take (nat e + 1) ds @ CHR ''.'' # drop (nat e + 1) ds)"

fun fmt_f64 :: "f64 \<Rightarrow> string" where
  "fmt_f64 (Fin q) = (if q = 0 then ''0'' else if q < 0 then CHR ''-'' # fmt_pos (- q) else fmt_pos q)"
| "fmt_f64 NegZero = ''-0''"
| "fmt_f64 PosInf = ''+Inf''"
| "fmt_f64 NegInf = ''-Inf''"
| "fmt_f64 NaN = ''NaN''"

text \<open>The conversion \<^verbatim>\<open>int(x)\<close>: truncation; out of range and for NaN the value amd64 gives.\<close>

definition f64_to_int :: "f64 \<Rightarrow> int" where
  "f64_to_int x =
     (case x of
        Fin q \<Rightarrow> (let n = (if q < 0 then \<lceil>q\<rceil> else \<lfloor>q\<rfloor>) in if in_int64 n then n else - (2 ^ 63))
      | NegZero \<Rightarrow> 0
      | _ \<Rightarrow> - (2 ^ 63))"

text \<open>Integers below \<open>2 ^ 53\<close> are represented exactly.\<close>

lemma bit_len_bounds: "0 < n \<Longrightarrow> 0 < bit_len n \<and> 2 ^ (bit_len n - 1) \<le> n \<and> n < 2 ^ bit_len n"
proof (induction n rule: bit_len.induct)
  case (1 n)
  have len: "bit_len n = Suc (bit_len (n div 2))" using 1(2) by (subst bit_len.simps) simp
  show ?case
  proof (cases "0 < n div 2")
    case True
    then have b: "0 < bit_len (n div 2)" "2 ^ (bit_len (n div 2) - 1) \<le> n div 2" "n div 2 < 2 ^ bit_len (n div 2)" using 1 by auto
    then have "(2 :: int) ^ bit_len (n div 2) = 2 * 2 ^ (bit_len (n div 2) - 1)" by (metis Suc_pred' power_Suc)
    moreover have "n = 2 * (n div 2) + n mod 2" "0 \<le> n mod 2" "n mod 2 < 2" by simp_all
    ultimately have "2 ^ bit_len (n div 2) \<le> n" "n < 2 * 2 ^ bit_len (n div 2)" using b(2,3) by linarith+
    with len show ?thesis by simp
  next
    case False
    then have "n = 1" using 1(2) by auto
    with len show ?thesis by (simp add: bit_len.simps [of 0])
  qed
qed

lemma round_even_int: "round_even (of_int k) = k"
  by (simp add: round_even_def)

lemma pow2_of_nat: "0 \<le> e \<Longrightarrow> pow2 e = of_int (2 ^ nat e)"
  by (simp add: pow2_def)

lemma f64_of_int_exact:
  assumes "0 \<le> n" "n < 2 ^ 53"
  shows "f64_of_int n = Fin (of_int n)"
proof (cases "n = 0")
  case False
  define b where "b = bit_len n"
  have b: "0 < b" "2 ^ (b - 1) \<le> n" "n < 2 ^ b" using bit_len_bounds [of n] False assms(1) by (auto simp: b_def)
  have "(2 :: int) ^ (b - 1) < 2 ^ 53" using b(2) assms(2) by linarith
  then have b53: "b \<le> 53" using power_less_imp_less_exp [of "2 :: int" "b - 1" 53] b(1) by linarith
  have one: "bit_len 1 = 1" by (simp add: bit_len.simps)
  have "pow2 (int b - 1) \<le> of_int n" using b(1,2) by (simp add: pow2_of_nat nat_diff_distrib flip: of_int_power)
  then have fl: "floor_log2 (of_int n) = int b - 1" by (simp add: floor_log2_def quotient_of_int one Let_def flip: b_def)
  define u where "u = ulp_exp (of_int n)"
  have u: "- 52 \<le> u" "u \<le> 0" using fl b(1) b53 by (auto simp: u_def ulp_exp_def)
  define s where "s = nat (- u)"
  have p: "pow2 (- u) = of_int (2 ^ s)" "pow2 u = 1 / of_int (2 ^ s)" using u by (auto simp: pow2_def s_def)
  have "round_even (of_int n * pow2 (- u)) = n * 2 ^ s"
    unfolding p(1) of_int_mult [symmetric] by (rule round_even_int)
  moreover have "\<not> overflows (n * 2 ^ s) u" using u by (simp add: overflows_def)
  moreover have "of_int (n * 2 ^ s) * pow2 u = (of_int n :: rat)" by (simp add: p(2))
  ultimately show ?thesis using False assms(1) by (simp add: f64_of_int_def rnd64_def Let_def flip: u_def)
qed (simp add: f64_of_int_def rnd64_def)

end
