(* ===== verification/Zen_Values.thy ===== *)
theory Zen_Values
  imports Zen_Float64 "HOL-Library.Char_ord" "HOL-Library.List_Lexorder"
begin

text \<open>
  The dynamic values of the program: Go's \<^verbatim>\<open>interface{}\<close> as it occurs in event data, observations and
  custom resources (\<^verbatim>\<open>map[string]interface{}\<close>). The integer types are kept apart, since the sources
  distinguish them by type assertion. A \<^verbatim>\<open>float32\<close> carries its value and the text \<^verbatim>\<open>%v\<close> gives it; a
  value of any other dynamic type is \<open>VOther\<close> with its \<^verbatim>\<open>%v\<close> text.
\<close>

datatype val =
    VNil
  | VBool bool
  | VStr string
  | VInt int
  | VInt32 int
  | VInt64 int
  | VFloat f64
  | VFloat32 f64 string
  | VBytes string
  | VList "val list"
  | VMap "(string \<times> val) list"
  | VOther string

type_synonym obj = "(string, val) gomap"

section \<open>Type assertions\<close>

fun as_string :: "val \<Rightarrow> string option" where
  "as_string (VStr s) = Some s"
| "as_string _ = None"

fun as_bool :: "val \<Rightarrow> bool option" where
  "as_bool (VBool b) = Some b"
| "as_bool _ = None"

fun as_float :: "val \<Rightarrow> f64 option" where
  "as_float (VFloat x) = Some x"
| "as_float _ = None"

fun as_int :: "val \<Rightarrow> int option" where
  "as_int (VInt n) = Some n"
| "as_int _ = None"

fun as_map :: "val \<Rightarrow> obj option" where
  "as_map (VMap m) = Some m"
| "as_map _ = None"

fun as_list :: "val \<Rightarrow> val list option" where
  "as_list (VList vs) = Some vs"
| "as_list _ = None"

text \<open>An index expression \<^verbatim>\<open>m[k]\<close> gives the zero value \<^verbatim>\<open>nil\<close> for a missing key, also on a nil map.\<close>

definition idx :: "obj \<Rightarrow> string \<Rightarrow> val" where
  "idx m k = (case map_of m k of None \<Rightarrow> VNil | Some v \<Rightarrow> v)"

section \<open>The verb %v\<close>

definition fmt_bool :: "bool \<Rightarrow> string" where
  "fmt_bool b = (if b then ''true'' else ''false'')"

text \<open>A map prints its entries in key order.\<close>

definition fmt_entries :: "(string \<times> string) list \<Rightarrow> string" where
  "fmt_entries kvs =
     ''map['' @ join_with '' '' (map (\<lambda>(k, t). k @ '':'' @ t) (sort_key fst kvs)) @ '']''"

primrec fmt_v :: "val \<Rightarrow> string" where
  "fmt_v VNil = ''<nil>''"
| "fmt_v (VBool b) = fmt_bool b"
| "fmt_v (VStr s) = s"
| "fmt_v (VInt n) = show_int n"
| "fmt_v (VInt32 n) = show_int n"
| "fmt_v (VInt64 n) = show_int n"
| "fmt_v (VFloat x) = fmt_f64 x"
| "fmt_v (VFloat32 x t) = t"
| "fmt_v (VBytes bs) = ''['' @ join_with '' '' (map (\<lambda>b. show_int (byte_of b)) bs) @ '']''"
| "fmt_v (VList vs) = ''['' @ join_with '' '' (map fmt_v vs) @ '']''"
| "fmt_v (VMap m) = fmt_entries (map (map_prod id fmt_v) m)"
| "fmt_v (VOther t) = t"

section \<open>Walking nested maps\<close>

text \<open>Follow a path of keys through nested maps; \<open>None\<close> when a key is missing or a value on the way
  is not a map.\<close>

fun walk :: "val \<Rightarrow> string list \<Rightarrow> val option" where
  "walk v [] = Some v"
| "walk v (k # ks) =
     (case as_map v of None \<Rightarrow> None
      | Some m \<Rightarrow> (case map_of m k of None \<Rightarrow> None | Some v' \<Rightarrow> walk v' ks))"

text \<open>Store a value under a path, creating the maps that are missing; a value on the way that is not
  a map is replaced when \<open>force\<close> holds and is an error otherwise.\<close>

definition sub_map :: "bool \<Rightarrow> obj \<Rightarrow> string \<Rightarrow> obj option" where
  "sub_map force m k =
     (case map_of m k of
        None \<Rightarrow> Some []
      | Some w \<Rightarrow> (case as_map w of Some sub \<Rightarrow> Some sub | None \<Rightarrow> if force then Some [] else None))"

fun store :: "bool \<Rightarrow> obj \<Rightarrow> string list \<Rightarrow> val \<Rightarrow> obj option" where
  "store force m [] v = None"
| "store force m [k] v = Some (put k v m)"
| "store force m (k # k' # ks) v =
     (case sub_map force m k of
        None \<Rightarrow> None
      | Some sub \<Rightarrow> map_option (\<lambda>sub'. put k (VMap sub') m) (store force sub (k' # ks) v))"

section \<open>Lemmas\<close>

lemma as_string_eq [simp]: "as_string v = Some s \<longleftrightarrow> v = VStr s"
  by (cases v) auto

lemma as_map_eq [simp]: "as_map v = Some m \<longleftrightarrow> v = VMap m"
  by (cases v) auto

lemma as_list_eq [simp]: "as_list v = Some vs \<longleftrightarrow> v = VList vs"
  by (cases v) auto

lemma as_bool_eq [simp]: "as_bool v = Some b \<longleftrightarrow> v = VBool b"
  by (cases v) auto

lemma as_float_eq [simp]: "as_float v = Some x \<longleftrightarrow> v = VFloat x"
  by (cases v) auto

lemma as_int_eq [simp]: "as_int v = Some n \<longleftrightarrow> v = VInt n"
  by (cases v) auto

lemma walk_append: "walk v (ks @ ks') = (case walk v ks of None \<Rightarrow> None | Some w \<Rightarrow> walk w ks')"
  by (induction ks arbitrary: v) (auto split: option.splits)

lemma walk_nonmap: "as_map v = None \<Longrightarrow> ks \<noteq> [] \<Longrightarrow> walk v ks = None"
  by (cases ks) auto

text \<open>What is stored is found again, and a path that leaves the stored one is not disturbed.\<close>

lemma walk_store_same: "store f m ks v = Some m' \<Longrightarrow> walk (VMap m') ks = Some v"
  by (induction f m ks v arbitrary: m' rule: store.induct) (auto split: option.split_asm)

lemma walk_store_other:
  "store f m (k # ks) v = Some m' \<Longrightarrow> k' \<noteq> k \<Longrightarrow> walk (VMap m') (k' # ks') = walk (VMap m) (k' # ks')"
  by (cases ks) (auto split: option.splits)

lemma store_forced: "ks \<noteq> [] \<Longrightarrow> store True m ks v \<noteq> None"
  by (induction "True" m ks v rule: store.induct) (auto simp: sub_map_def split: option.splits)

end
