(* ===== verification/Filter_Parser.thy ===== *)
theory Filter_Parser
  imports Zen_Values
begin

text \<open>
  The filter expression language of \<^verbatim>\<open>pkg/filter\<close>: the recursive descent parser of
  \<^verbatim>\<open>pkg/filter/parser.go\<close> and \<^verbatim>\<open>NewExpressionFilter\<close> of \<^verbatim>\<open>pkg/filter/expression.go\<close>.

  The parser object is the record \<open>expressionParser\<close> (the text and the position), threaded through
  every method. A method that can fail returns a \<open>pres\<close>: \<open>PErr\<close> is a returned \<^verbatim>\<open>error\<close>, \<open>PPanic\<close> is a
  Go panic (\<^verbatim>\<open>consumeChar\<close> and \<^verbatim>\<open>consumeToken\<close> can raise one) and \<open>PFuel\<close> says that the recursion bound
  of the model ran out. The mutually recursive methods take that bound as their first argument;
  \<open>parse\<close> supplies \<open>4 * length + 5\<close>, and \<open>parse_safe\<close> below shows that this is always enough.

  Main results: the parser always returns and never panics, what it returns is a well-formed tree,
  it has read the whole text, printing a filter and parsing it gives the filter back, and the sign
  of a negative number literal is lost.
\<close>

named_theorems parser_defs \<open>the scanning steps of the parser\<close>

section \<open>The syntax tree (expression.go)\<close>

datatype NodeType =
    NodeTypeLiteral
  | NodeTypeField
  | NodeTypeComparison
  | NodeTypeLogical
  | NodeTypeMacro

datatype ASTNode =
  ASTNode (NType: NodeType) (Operator: string) (Left: "ASTNode option") (Right: "ASTNode option")
    (NValue: val) (NField: string)

abbreviation literal_node :: "val \<Rightarrow> ASTNode" where
  "literal_node v \<equiv> ASTNode NodeTypeLiteral [] None None v []"

abbreviation field_node :: "string \<Rightarrow> ASTNode" where
  "field_node f \<equiv> ASTNode NodeTypeField [] None None VNil f"

abbreviation macro_node :: "string \<Rightarrow> ASTNode" where
  "macro_node f \<equiv> ASTNode NodeTypeMacro [] None None VNil f"

abbreviation comparison_node :: "string \<Rightarrow> ASTNode \<Rightarrow> ASTNode \<Rightarrow> ASTNode" where
  "comparison_node op l r \<equiv> ASTNode NodeTypeComparison op (Some l) (Some r) VNil []"

abbreviation binary_node :: "string \<Rightarrow> ASTNode \<Rightarrow> ASTNode \<Rightarrow> ASTNode" where
  "binary_node op l r \<equiv> ASTNode NodeTypeLogical op (Some l) (Some r) VNil []"

abbreviation not_node :: "ASTNode \<Rightarrow> ASTNode" where
  "not_node l \<equiv> ASTNode NodeTypeLogical ''NOT'' (Some l) None VNil []"

section \<open>Parser state and results\<close>

record expressionParser =
  expression :: string
  pos :: nat

datatype perr =
    EmptyExpression
  | UnexpectedToken nat char
  | ExpectedParen nat
  | ExpectedBracket nat
  | ExpectedString nat
  | UnexpectedEnd nat
  | Unterminated nat
  | InvalidNumber nat string

datatype 'a pres = POk 'a expressionParser | PErr perr | PPanic | PFuel

fun pbind :: "'a pres \<Rightarrow> ('a \<Rightarrow> expressionParser \<Rightarrow> 'b pres) \<Rightarrow> 'b pres" where
  "pbind (POk a p) f = f a p"
| "pbind (PErr e) f = PErr e"
| "pbind PPanic f = PPanic"
| "pbind PFuel f = PFuel"

section \<open>Helper methods\<close>

definition is_ident_char :: "char \<Rightarrow> bool" where
  "is_ident_char c \<longleftrightarrow> is_lower_letter c \<or> is_upper_letter c \<or> is_digit_char c \<or> c = CHR ''_''"

definition is_ws_char :: "char \<Rightarrow> bool" where
  "is_ws_char c \<longleftrightarrow> byte_of c \<in> {32, 9, 10, 13}"

definition peekChar :: "expressionParser \<Rightarrow> char" where
  "peekChar p = (if length (expression p) \<le> pos p then CHR 0x00 else expression p ! pos p)"

definition consumeChar :: "char \<Rightarrow> expressionParser \<Rightarrow> unit pres" where
  "consumeChar expected p =
     (if length (expression p) \<le> pos p \<or> expression p ! pos p \<noteq> expected then PPanic
      else POk () (p\<lparr>pos := pos p + 1\<rparr>))"

definition slice :: "nat \<Rightarrow> expressionParser \<Rightarrow> string" where
  "slice start p = take (pos p - start) (drop start (expression p))"

definition peekToken :: "string \<Rightarrow> expressionParser \<Rightarrow> bool" where
  "peekToken token p \<longleftrightarrow>
     (if length (expression p) < pos p + length token then False
      else if equal_fold (take (length token) (drop (pos p) (expression p))) token then
        (if pos p + length token < length (expression p)
         then \<not> is_ident_char (expression p ! (pos p + length token)) else True)
      else False)"

definition consumeToken :: "string \<Rightarrow> expressionParser \<Rightarrow> unit pres" where
  "consumeToken token p =
     (if \<not> peekToken token p then PPanic else POk () (p\<lparr>pos := pos p + length token\<rparr>))"

text \<open>The scanning loops: advance while the current character satisfies a test.\<close>

function advance_while :: "(char \<Rightarrow> bool) \<Rightarrow> expressionParser \<Rightarrow> expressionParser" where
  "advance_while f p =
     (if pos p < length (expression p) \<and> f (peekChar p) then advance_while f (p\<lparr>pos := pos p + 1\<rparr>)
      else p)"
  by pat_completeness auto
termination
  by (relation "measure (\<lambda>(f, p). length (expression p) - pos p)") auto

declare advance_while.simps [simp del]

definition skipWhitespace :: "expressionParser \<Rightarrow> expressionParser" where
  "skipWhitespace p = advance_while is_ws_char p"

section \<open>Terminals\<close>

definition parseIdentifier :: "expressionParser \<Rightarrow> string \<times> expressionParser" where
  "parseIdentifier p = (let p' = advance_while is_ident_char p in (slice (pos p) p', p'))"

text \<open>The loop of \<^verbatim>\<open>parseFieldPath\<close>: \<open>parts\<close> are the finished segments, \<open>start\<close> is where the current one
  begins. The two branches for a dot do the same and are one branch here.\<close>

function field_path_loop ::
    "string list \<Rightarrow> nat \<Rightarrow> expressionParser \<Rightarrow> string list \<times> nat \<times> expressionParser" where
  "field_path_loop parts start p =
     (if pos p < length (expression p) then
        (if is_ident_char (peekChar p) then field_path_loop parts start (p\<lparr>pos := pos p + 1\<rparr>)
         else if peekChar p = CHR ''.'' then
           field_path_loop (parts @ [slice start p]) (pos p + 1) (p\<lparr>pos := pos p + 1\<rparr>)
         else (parts, start, p))
      else (parts, start, p))"
  by pat_completeness auto
termination
  by (relation "measure (\<lambda>(ps, s, p). length (expression p) - pos p)") auto

declare field_path_loop.simps [simp del]

definition parseFieldPath :: "expressionParser \<Rightarrow> string \<times> expressionParser" where
  "parseFieldPath p =
     (let (parts, start, p') = field_path_loop [] (pos p) p;
          parts' = (if start < pos p' then parts @ [slice start p'] else parts)
      in (if parts' = [] then [] else join_with ''.'' parts', p'))"

definition parseNumber :: "expressionParser \<Rightarrow> ASTNode pres" where
  "parseNumber p =
     (let start = pos p; negative = (peekChar p = CHR ''-'');
          p1 = (if negative then p\<lparr>pos := pos p + 1\<rparr> else p);
          p2 = advance_while (\<lambda>c. is_digit_char c \<or> c = CHR ''.'') p1;
          numStr = slice start p2
      in case parse_float numStr of
           None \<Rightarrow> PErr (InvalidNumber start numStr)
         | Some num \<Rightarrow> POk (literal_node (VFloat (if negative then f64_neg num else num))) p2)"

text \<open>\<^verbatim>\<open>strings.Builder.WriteRune\<close> of a byte converted to a rune: UTF-8 takes two bytes from 128 on.\<close>

definition write_rune :: "char \<Rightarrow> string" where
  "write_rune c = (let b = byte_of c in if b < 128 then [c] else [char_of (192 + b div 64), char_of (128 + b mod 64)])"

definition unescape :: "char \<Rightarrow> char" where
  "unescape c = (if c = CHR ''n'' then CHR 0x0A else if c = CHR ''t'' then CHR 0x09 else c)"

function string_loop :: "char \<Rightarrow> string \<Rightarrow> expressionParser \<Rightarrow> string pres" where
  "string_loop quote sb p =
     (if pos p < length (expression p) \<and> peekChar p \<noteq> quote then
        (if peekChar p = CHR 0x5C then
           (let p1 = p\<lparr>pos := pos p + 1\<rparr>
            in if length (expression p1) \<le> pos p1 then PErr (UnexpectedEnd (pos p1))
               else string_loop quote (sb @ write_rune (unescape (peekChar p1))) (p1\<lparr>pos := pos p1 + 1\<rparr>))
         else string_loop quote (sb @ write_rune (peekChar p)) (p\<lparr>pos := pos p + 1\<rparr>))
      else POk sb p)"
  by pat_completeness auto
termination
  by (relation "measure (\<lambda>(q, s, p). length (expression p) - pos p)") (auto simp: Let_def)

declare string_loop.simps [simp del]

definition parseStringLiteral :: "expressionParser \<Rightarrow> ASTNode pres" where
  "parseStringLiteral p =
     (let quote = peekChar p
      in if quote \<noteq> CHR 0x22 \<and> quote \<noteq> CHR 0x27 then PErr (ExpectedString (pos p))
         else pbind (consumeChar quote p) (\<lambda>_ p.
           pbind (string_loop quote [] p) (\<lambda>sb p.
             if length (expression p) \<le> pos p \<or> peekChar p \<noteq> quote then PErr (Unterminated (pos p))
             else pbind (consumeChar quote p) (\<lambda>_ p. POk (literal_node (VStr sb)) p))))"

section \<open>Lists and operands\<close>

abbreviation at_quote :: "expressionParser \<Rightarrow> bool" where
  "at_quote p \<equiv> peekChar p = CHR 0x22 \<or> peekChar p = CHR 0x27"

abbreviation at_number :: "expressionParser \<Rightarrow> bool" where
  "at_number p \<equiv> is_digit_char (peekChar p) \<or> peekChar p = CHR ''-''"

definition parseListItem :: "expressionParser \<Rightarrow> val pres" where
  "parseListItem p0 =
     (let p = skipWhitespace p0
      in if at_quote p then pbind (parseStringLiteral p) (\<lambda>node p. POk (NValue node) p)
         else if at_number p then pbind (parseNumber p) (\<lambda>node p. POk (NValue node) p)
         else (let (ident, p') = parseIdentifier p in POk (VStr ident) p'))"

text \<open>What a step of the parser keeps: the text, and the position only moves forward, inside the text.\<close>

definition moves :: "expressionParser \<Rightarrow> expressionParser \<Rightarrow> bool" where
  "moves p p' \<longleftrightarrow> expression p' = expression p \<and> pos p \<le> pos p' \<and>
     (pos p \<le> length (expression p) \<longrightarrow> pos p' \<le> length (expression p))"

lemma moves_refl [simp]: "moves p p"
  by (simp add: moves_def)

lemma moves_trans: "moves p q \<Longrightarrow> moves q r \<Longrightarrow> moves p r"
  by (auto simp: moves_def)

lemma moves_step: "pos p < length (expression p) \<Longrightarrow> moves p (p\<lparr>pos := pos p + 1\<rparr>)"
  by (simp add: moves_def)

lemma moves_advance_while [simp]: "moves p (advance_while f p)"
proof (induction f p rule: advance_while.induct)
  case (1 f p)
  then show ?case
    by (subst advance_while.simps) (auto intro: moves_trans [OF moves_step])
qed

lemma moves_skipWhitespace [simp]: "moves p (skipWhitespace p)"
  by (simp add: skipWhitespace_def)

lemma moves_parseIdentifier: "parseIdentifier p = (s, p') \<Longrightarrow> moves p p'"
  by (auto simp: parseIdentifier_def Let_def)

lemma moves_consumeChar: "consumeChar c p = POk u p' \<Longrightarrow> moves p p' \<and> pos p < pos p'"
  by (auto simp: consumeChar_def moves_def split: if_splits)

lemma moves_consumeToken: "consumeToken t p = POk u p' \<Longrightarrow> moves p p' \<and> pos p' = pos p + length t"
  by (auto simp: consumeToken_def peekToken_def moves_def split: if_splits)

lemma moves_string_loop: "string_loop q sb p = POk r p' \<Longrightarrow> moves p p'"
proof (induction q sb p rule: string_loop.induct)
  case (1 q sb p)
  show ?case
  proof (cases "pos p < length (expression p) \<and> peekChar p \<noteq> q")
    case True
    with 1 show ?thesis
      by (subst (asm) (3) string_loop.simps) (auto simp: Let_def moves_def split: if_splits)
  next
    case False
    with 1 show ?thesis by (subst (asm) (3) string_loop.simps) auto
  qed
qed

lemma pbind_POk: "pbind m f = POk b p' \<longleftrightarrow> (\<exists>a p. m = POk a p \<and> f a p = POk b p')"
  by (cases m) auto

lemma moves_parseStringLiteral: "parseStringLiteral p = POk r p' \<Longrightarrow> moves p p'"
  by (auto simp: parseStringLiteral_def Let_def pbind_POk split: if_splits
      dest!: moves_consumeChar moves_string_loop intro: moves_trans)

lemma moves_parseNumber:
  assumes "parseNumber p = POk r p'" "at_number p"
  shows "moves p p'"
proof -
  from assms(2) have lt: "pos p < length (expression p)"
    by (auto simp: peekChar_def in_range_def byte_of_def split: if_splits)
  with assms(1) show ?thesis
    by (auto simp: parseNumber_def Let_def split: option.splits if_splits
        intro: moves_trans [OF moves_step])
qed

lemma moves_parseListItem: "parseListItem p = POk r p' \<Longrightarrow> moves p p'"
  by (auto simp: parseListItem_def Let_def pbind_POk split: if_splits prod.splits
      dest!: moves_parseStringLiteral moves_parseNumber moves_parseIdentifier
      intro: moves_trans [OF moves_skipWhitespace])

function list_loop :: "val list \<Rightarrow> expressionParser \<Rightarrow> (val list) pres" where
  "list_loop items p =
     (if pos p < length (expression p) \<and> peekChar p \<noteq> CHR '']'' then
        (case parseListItem p of
           POk item p1 \<Rightarrow>
             (let p2 = skipWhitespace p1
              in if peekChar p2 = CHR '','' then
                   (case consumeChar CHR '','' p2 of
                      POk u p3 \<Rightarrow> list_loop (items @ [item]) (skipWhitespace p3)
                    | PErr e \<Rightarrow> PErr e | PPanic \<Rightarrow> PPanic | PFuel \<Rightarrow> PFuel)
                 else POk (items @ [item]) p2)
         | PErr e \<Rightarrow> PErr e | PPanic \<Rightarrow> PPanic | PFuel \<Rightarrow> PFuel)
      else POk items p)"
  by pat_completeness auto
termination
proof (relation "measure (\<lambda>(items, p). length (expression p) - pos p)", goal_cases)
  case (2 items p item p1 p2 u p3)
  then have "moves p p1" "moves p2 p3 \<and> pos p2 < pos p3"
    by (auto dest: moves_parseListItem moves_consumeChar)
  moreover have "moves p1 p2" "moves p3 (skipWhitespace p3)"
    using 2 by simp_all
  ultimately have "pos p < pos (skipWhitespace p3)" "expression (skipWhitespace p3) = expression p"
    by (auto simp: moves_def)
  with 2(1) show ?case by (simp add: diff_less_mono2)
qed simp

declare list_loop.simps [simp del]

definition parseList :: "expressionParser \<Rightarrow> ASTNode pres" where
  "parseList p =
     pbind (consumeChar CHR ''['' p) (\<lambda>_ p.
       pbind (list_loop [] (skipWhitespace p)) (\<lambda>items p.
         if peekChar p \<noteq> CHR '']'' then PErr (ExpectedBracket (pos p))
         else pbind (consumeChar CHR '']'' p) (\<lambda>_ p. POk (literal_node (VList items)) p)))"

definition parseOperand :: "expressionParser \<Rightarrow> ASTNode pres" where
  "parseOperand p0 =
     (let p = skipWhitespace p0
      in if peekChar p = CHR ''['' then parseList p
         else if at_quote p then parseStringLiteral p
         else if at_number p then parseNumber p
         else if peekToken ''true'' p then
           pbind (consumeToken ''true'' p) (\<lambda>_ p. POk (literal_node (VBool True)) p)
         else if peekToken ''false'' p then
           pbind (consumeToken ''false'' p) (\<lambda>_ p. POk (literal_node (VBool False)) p)
         else (let (f, p') = parseFieldPath p in POk (field_node f) p'))"

section \<open>Expressions\<close>

definition operators :: "string list" where
  "operators = [''NOT IN'', ''NOT EXISTS'', ''>='', ''<='', ''!='', ''='', ''>'', ''<'', ''IN'', ''EXISTS'',
     ''CONTAINS'', ''STARTS_WITH'', ''ENDS_WITH'']"

definition at_macro :: "expressionParser \<Rightarrow> bool" where
  "at_macro p \<longleftrightarrow> pos p + 3 \<le> length (expression p) \<and>
     equal_fold (take 3 (drop (pos p) (expression p))) ''is_'' \<and>
     pos p + 3 < length (expression p) \<and> is_ident_char (expression p ! (pos p + 3))"

text \<open>\<^verbatim>\<open>parseComparison\<close> past the parenthesis: a macro, or an operand with an optional operator.\<close>

definition parse_comparison_tail :: "expressionParser \<Rightarrow> ASTNode pres" where
  "parse_comparison_tail p =
     (if at_macro p then (let (m, p') = parseIdentifier p in POk (macro_node m) p')
      else pbind (parseOperand p) (\<lambda>left p.
        let p1 = skipWhitespace p
        in case List.find (\<lambda>op. peekToken op p1) operators of
             None \<Rightarrow> POk left p1
           | Some op \<Rightarrow> pbind (consumeToken op p1) (\<lambda>_ p.
               pbind (parseOperand (skipWhitespace p)) (\<lambda>right p. POk (comparison_node op left right) p))))"

fun parseExpression :: "nat \<Rightarrow> expressionParser \<Rightarrow> ASTNode pres"
and or_loop :: "nat \<Rightarrow> ASTNode \<Rightarrow> expressionParser \<Rightarrow> ASTNode pres"
and parseAndExpression :: "nat \<Rightarrow> expressionParser \<Rightarrow> ASTNode pres"
and and_loop :: "nat \<Rightarrow> ASTNode \<Rightarrow> expressionParser \<Rightarrow> ASTNode pres"
and parseNotExpression :: "nat \<Rightarrow> expressionParser \<Rightarrow> ASTNode pres"
and parseComparison :: "nat \<Rightarrow> expressionParser \<Rightarrow> ASTNode pres" where
  "parseExpression 0 p = PFuel"
| "parseExpression (Suc n) p =
     pbind (parseAndExpression n p) (\<lambda>left p. or_loop n left (skipWhitespace p))"
| "or_loop 0 left p = PFuel"
| "or_loop (Suc n) left p =
     (if pos p < length (expression p) then
        (if peekToken ''OR'' p then
           pbind (consumeToken ''OR'' p) (\<lambda>_ p.
             pbind (parseAndExpression n p) (\<lambda>right p.
               or_loop n (binary_node ''OR'' left right) (skipWhitespace p)))
         else POk left p)
      else POk left p)"
| "parseAndExpression 0 p = PFuel"
| "parseAndExpression (Suc n) p =
     pbind (parseNotExpression n p) (\<lambda>left p. and_loop n left (skipWhitespace p))"
| "and_loop 0 left p = PFuel"
| "and_loop (Suc n) left p =
     (if pos p < length (expression p) then
        (if peekToken ''AND'' p then
           pbind (consumeToken ''AND'' p) (\<lambda>_ p.
             pbind (parseNotExpression n p) (\<lambda>right p.
               and_loop n (binary_node ''AND'' left right) (skipWhitespace p)))
         else POk left p)
      else POk left p)"
| "parseNotExpression 0 p = PFuel"
| "parseNotExpression (Suc n) p0 =
     (let p = skipWhitespace p0
      in if peekToken ''NOT'' p then
           pbind (consumeToken ''NOT'' p) (\<lambda>_ p.
             pbind (parseNotExpression n p) (\<lambda>operand p. POk (not_node operand) p))
         else parseComparison n p)"
| "parseComparison 0 p = PFuel"
| "parseComparison (Suc n) p =
     (if peekChar p = CHR ''('' then
        pbind (consumeChar CHR ''('' p) (\<lambda>_ p.
          pbind (parseExpression n p) (\<lambda>expr p.
            if peekChar p \<noteq> CHR '')'' then PErr (ExpectedParen (pos p))
            else pbind (consumeChar CHR '')'' p) (\<lambda>_ p. POk expr p)))
      else parse_comparison_tail p)"

definition parse :: "expressionParser \<Rightarrow> ASTNode pres" where
  "parse p =
     (if length (expression p) \<le> pos p then PErr EmptyExpression
      else pbind (parseExpression (4 * length (expression p) + 5) p) (\<lambda>node p.
        let p1 = skipWhitespace p
        in if pos p1 < length (expression p1)
           then PErr (UnexpectedToken (pos p1) (expression p1 ! pos p1))
           else POk node p1))"

text \<open>An \<^verbatim>\<open>ExpressionFilter\<close>: the source text and its tree.\<close>

record ExpressionFilter =
  ef_expression :: string
  ef_ast :: "ASTNode option"

datatype filter_err = EmptyFilter | ParseFailed perr | ParserPanic | ParserFuel

definition NewExpressionFilter :: "string \<Rightarrow> filter_err + ExpressionFilter" where
  "NewExpressionFilter expr =
     (if expr = [] then Inl EmptyFilter
      else case parse \<lparr>expression = trim_space expr, pos = 0\<rparr> of
             POk ast p \<Rightarrow> Inr \<lparr>ef_expression = expr, ef_ast = Some ast\<rparr>
           | PErr e \<Rightarrow> Inl (ParseFailed e)
           | PPanic \<Rightarrow> Inl ParserPanic
           | PFuel \<Rightarrow> Inl ParserFuel)"

section \<open>Safety: the parser returns, never panics, and builds well-formed trees\<close>

primrec wf_ast :: "ASTNode \<Rightarrow> bool" where
  "wf_ast (ASTNode t op l r v f) \<longleftrightarrow>
     (case t of
        NodeTypeLiteral \<Rightarrow> op = [] \<and> l = None \<and> r = None \<and> f = []
      | NodeTypeField \<Rightarrow> op = [] \<and> l = None \<and> r = None \<and> v = VNil
      | NodeTypeMacro \<Rightarrow> op = [] \<and> l = None \<and> r = None \<and> v = VNil
      | NodeTypeComparison \<Rightarrow> op \<in> set operators \<and> map_option wf_ast l = Some True \<and>
          map_option wf_ast r = Some True \<and> v = VNil \<and> f = []
      | NodeTypeLogical \<Rightarrow> (op \<in> {''AND'', ''OR''} \<and> map_option wf_ast r = Some True \<or> op = ''NOT'' \<and> r = None) \<and>
          map_option wf_ast l = Some True \<and> v = VNil \<and> f = [])"

text \<open>The outcome a method promises: an error value other than the one \<open>parse\<close> itself
  reports, or a result satisfying \<open>Q\<close> at a later position.\<close>

definition safe :: "('a \<Rightarrow> bool) \<Rightarrow> expressionParser \<Rightarrow> 'a pres \<Rightarrow> bool" where
  "safe Q p r \<longleftrightarrow> (case r of POk a p' \<Rightarrow> moves p p' \<and> Q a | PErr e \<Rightarrow> \<forall>i c. e \<noteq> UnexpectedToken i c | PPanic \<Rightarrow> False | PFuel \<Rightarrow> False)"

lemma safe_simps [simp]:
  "safe Q p (POk a p') \<longleftrightarrow> moves p p' \<and> Q a"
  "safe Q p (PErr e) \<longleftrightarrow> (\<forall>i c. e \<noteq> UnexpectedToken i c)" "\<not> safe Q p PPanic" "\<not> safe Q p PFuel"
  by (simp_all add: safe_def)

lemma safe_bind:
  assumes "safe Q p m" and "\<And>a p'. m = POk a p' \<Longrightarrow> Q a \<Longrightarrow> moves p p' \<Longrightarrow> safe R p' (f a p')"
  shows "safe R p (pbind m f)"
  using assms by (cases m) (auto simp: safe_def split: pres.splits intro: moves_trans)

lemma safe_moves: "moves p p' \<Longrightarrow> safe Q p' r \<Longrightarrow> safe Q p r"
  by (auto simp: safe_def split: pres.splits intro: moves_trans)

lemma safe_skip: "safe Q (skipWhitespace p) r \<Longrightarrow> safe Q p r"
  by (rule safe_moves [OF moves_skipWhitespace])

lemma peekChar_nonzero: "peekChar p \<noteq> CHR 0x00 \<Longrightarrow> pos p < length (expression p)"
  by (auto simp: peekChar_def split: if_splits)

lemma safe_consumeChar:
  "peekChar p = c \<Longrightarrow> pos p < length (expression p) \<Longrightarrow> safe (\<lambda>_. True) p (consumeChar c p)"
  by (auto simp: consumeChar_def peekChar_def moves_def)

lemma safe_consumeToken: "peekToken t p \<Longrightarrow> safe (\<lambda>_. True) p (consumeToken t p)"
  by (auto simp: consumeToken_def peekToken_def moves_def split: if_splits)

lemma safe_string_loop: "safe (\<lambda>_. True) p (string_loop q sb p)"
proof (induction q sb p rule: string_loop.induct)
  case (1 q sb p)
  show ?case
  proof (cases "pos p < length (expression p) \<and> peekChar p \<noteq> q")
    case True
    note lt = True
    show ?thesis
    proof (cases "peekChar p = CHR 0x5C")
      case True
      show ?thesis
      proof (cases "length (expression p) \<le> pos p + 1")
        case True
        with lt \<open>peekChar p = _\<close> show ?thesis by (subst string_loop.simps) simp
      next
        case False
        have "moves p (p\<lparr>pos := Suc (Suc (pos p))\<rparr>)" using False by (simp add: moves_def)
        with False lt \<open>peekChar p = _\<close> 1(1) show ?thesis
          by (subst string_loop.simps) (auto simp: Let_def intro: safe_moves)
      qed
    next
      case False
      have "moves p (p\<lparr>pos := Suc (pos p)\<rparr>)" using lt by (simp add: moves_def)
      with False lt 1(2) show ?thesis
        by (subst string_loop.simps) (auto intro: safe_moves)
    qed
  next
    case False
    then show ?thesis by (subst string_loop.simps) auto
  qed
qed

lemma safe_parseStringLiteral: "safe wf_ast p (parseStringLiteral p)"
  unfolding parseStringLiteral_def Let_def
  by (auto intro!: safe_bind [OF safe_consumeChar] safe_bind [OF safe_string_loop]
      simp: peekChar_nonzero)

lemma safe_parseNumber: "at_number p \<Longrightarrow> safe wf_ast p (parseNumber p)"
  using moves_parseNumber [of p]
  by (auto simp: parseNumber_def Let_def split: option.splits)

lemma safe_parseListItem: "safe (\<lambda>_. True) p (parseListItem p)"
  unfolding parseListItem_def Let_def
  by (rule safe_moves [OF moves_skipWhitespace [of p]])
    (auto intro!: safe_bind [OF safe_parseStringLiteral] safe_bind [OF safe_parseNumber]
      dest: moves_parseIdentifier split: prod.splits)

lemma safe_list_loop: "safe (\<lambda>_. True) p (list_loop items p)"
proof (induction items p rule: list_loop.induct)
  case (1 items p)
  show ?case
  proof (cases "pos p < length (expression p) \<and> peekChar p \<noteq> CHR '']''")
    case True
    show ?thesis
    proof (cases "parseListItem p")
      case (POk item p1)
      let ?p2 = "skipWhitespace p1"
      have p12: "moves p ?p2"
        using moves_parseListItem [OF POk] by (auto intro: moves_trans)
      show ?thesis
      proof (cases "peekChar ?p2 = CHR '',''")
        case comma: True
        then obtain u p3 where p3: "consumeChar CHR '','' ?p2 = POk u p3"
          using peekChar_nonzero [of ?p2] by (auto simp: consumeChar_def peekChar_def)
        have "moves p (skipWhitespace p3)"
          using p12 moves_consumeChar [OF p3] by (blast intro: moves_trans moves_skipWhitespace)
        moreover have "safe (\<lambda>_. True) (skipWhitespace p3) (list_loop (items @ [item]) (skipWhitespace p3))"
          using 1 [OF True POk refl comma p3] .
        ultimately show ?thesis
          using True POk comma p3 by (subst list_loop.simps) (auto intro: safe_moves)
      next
        case False
        with True POk p12 show ?thesis by (subst list_loop.simps) simp
      qed
    qed (use safe_parseListItem [of p] True in \<open>subst list_loop.simps, auto\<close>)+
  next
    case False
    then show ?thesis by (subst list_loop.simps) auto
  qed
qed

lemma safe_parseList:
  assumes "peekChar p = CHR ''[''"
  shows "safe wf_ast p (parseList p)"
  unfolding parseList_def
proof (rule safe_bind [OF safe_consumeChar])
  show "pos p < length (expression p)" using assms by (simp add: peekChar_nonzero)
  fix u p1
  show "safe wf_ast p1 (pbind (list_loop [] (skipWhitespace p1)) (\<lambda>items p.
         if peekChar p \<noteq> CHR '']'' then PErr (ExpectedBracket (pos p))
         else pbind (consumeChar CHR '']'' p) (\<lambda>_ p. POk (literal_node (VList items)) p)))"
    by (rule safe_skip, rule safe_bind [OF safe_list_loop])
      (auto intro!: safe_bind [OF safe_consumeChar] simp: peekChar_nonzero)
qed (use assms in simp)

lemma moves_field_path_loop: "field_path_loop ps s p = (ps', s', p') \<Longrightarrow> moves p p'"
proof (induction ps s p rule: field_path_loop.induct)
  case (1 parts start p)
  show ?case
  proof (cases "pos p < length (expression p)")
    case True
    then have "moves p (p\<lparr>pos := Suc (pos p)\<rparr>)" by (simp add: moves_def)
    with True 1 show ?thesis
      by (subst (asm) (3) field_path_loop.simps) (auto split: if_splits intro: moves_trans)
  next
    case False
    with 1 show ?thesis by (subst (asm) (3) field_path_loop.simps) auto
  qed
qed

lemma moves_parseFieldPath: "parseFieldPath p = (f, p') \<Longrightarrow> moves p p'"
  by (auto simp: parseFieldPath_def Let_def split: prod.splits dest: moves_field_path_loop)

lemma safe_parseOperand: "safe wf_ast p (parseOperand p)"
proof (rule safe_moves [OF moves_skipWhitespace [of p]])
  let ?q = "skipWhitespace p"
  show "safe wf_ast ?q (parseOperand p)"
    unfolding parseOperand_def Let_def
    by (auto intro!: safe_parseList safe_parseStringLiteral safe_parseNumber
        safe_bind [OF safe_consumeToken] dest: moves_parseFieldPath split: prod.splits)
qed

lemma safe_parse_comparison_tail: "safe wf_ast p (parse_comparison_tail p)"
proof (cases "at_macro p")
  case True
  then show ?thesis
    by (auto simp: parse_comparison_tail_def dest: moves_parseIdentifier split: prod.splits)
next
  case False
  have "safe wf_ast p1 (pbind (consumeToken op p1) (\<lambda>_ p.
               pbind (parseOperand (skipWhitespace p)) (\<lambda>right p. POk (comparison_node op left right) p)))"
    if "wf_ast left" "List.find (\<lambda>op. peekToken op p1) operators = Some op" for left op p1
  proof (rule safe_bind [OF safe_consumeToken])
    show "peekToken op p1" using that(2) by (auto simp: find_Some_iff)
    fix u p2
    have "op \<in> set operators" using that(2) by (auto simp: find_Some_iff)
    then show "safe wf_ast p2 (pbind (parseOperand (skipWhitespace p2)) (\<lambda>right p. POk (comparison_node op left right) p))"
      using that(1) by (intro safe_skip [of _ p2] safe_bind [OF safe_parseOperand]) auto
  qed
  then have "safe wf_ast p (pbind (parseOperand p) (\<lambda>left p.
        let p1 = skipWhitespace p
        in case List.find (\<lambda>op. peekToken op p1) operators of
             None \<Rightarrow> POk left p1
           | Some op \<Rightarrow> pbind (consumeToken op p1) (\<lambda>_ p.
               pbind (parseOperand (skipWhitespace p)) (\<lambda>right p. POk (comparison_node op left right) p))))"
    by (intro safe_bind [OF safe_parseOperand])
      (auto simp: Let_def split: option.splits intro: safe_skip)
  with False show ?thesis by (simp add: parse_comparison_tail_def)
qed

text \<open>How far a position is from the end of the text, and the recursion bound each method needs there.\<close>

abbreviation remaining :: "expressionParser \<Rightarrow> nat" where
  "remaining p \<equiv> length (expression p) - pos p"

abbreviation inside :: "expressionParser \<Rightarrow> bool" where
  "inside p \<equiv> pos p \<le> length (expression p)"

lemma moves_remaining: "moves p p' \<Longrightarrow> remaining p' \<le> remaining p"
  by (auto simp: moves_def)

lemma moves_inside: "moves p p' \<Longrightarrow> inside p \<Longrightarrow> inside p'"
  by (auto simp: moves_def)

lemma consumeToken_remaining:
  "consumeToken t p = POk u p' \<Longrightarrow> t \<noteq> [] \<Longrightarrow> remaining p' < remaining p"
  by (cases t) (auto simp: consumeToken_def peekToken_def split: if_splits)

lemma consumeChar_remaining: "consumeChar c p = POk u p' \<Longrightarrow> remaining p' < remaining p"
  by (auto simp: consumeChar_def split: if_splits)

lemma safe_recursion:
  "(4 * remaining p + 4 \<le> n \<longrightarrow> safe wf_ast p (parseExpression n p)) \<and>
   (4 * remaining p + 1 \<le> n \<longrightarrow> wf_ast l \<longrightarrow> safe wf_ast p (or_loop n l p)) \<and>
   (4 * remaining p + 3 \<le> n \<longrightarrow> safe wf_ast p (parseAndExpression n p)) \<and>
   (4 * remaining p + 1 \<le> n \<longrightarrow> wf_ast l \<longrightarrow> safe wf_ast p (and_loop n l p)) \<and>
   (4 * remaining p + 2 \<le> n \<longrightarrow> safe wf_ast p (parseNotExpression n p)) \<and>
   (4 * remaining p + 1 \<le> n \<longrightarrow> safe wf_ast p (parseComparison n p))"
proof (induction n arbitrary: p l)
  case (Suc n)
  note IH = Suc
  have sk: "remaining (skipWhitespace q) \<le> remaining q" for q
    by (rule moves_remaining) simp
  have loop: "safe wf_ast q (and_loop n l' (skipWhitespace q))"
             "safe wf_ast q (or_loop n l' (skipWhitespace q))"
    if "wf_ast l'" "4 * remaining q + 1 \<le> n" for q l'
    using IH [of "skipWhitespace q" l'] sk [of q] that
    by (auto intro: safe_skip)
  have expr: "safe wf_ast p (parseExpression (Suc n) p)" if "4 * remaining p + 4 \<le> Suc n"
    unfolding parseExpression.simps
    using IH [of p] loop that
    by (intro safe_bind [of wf_ast]) (auto dest!: moves_remaining)
  have conj: "safe wf_ast p (parseAndExpression (Suc n) p)" if "4 * remaining p + 3 \<le> Suc n"
    unfolding parseAndExpression.simps
    using IH [of p] loop that
    by (intro safe_bind [of wf_ast]) (auto dest!: moves_remaining)
  have orl: "safe wf_ast p (or_loop (Suc n) l p)" if fuel: "4 * remaining p + 1 \<le> Suc n" and l: "wf_ast l"
  proof (cases "pos p < length (expression p) \<and> peekToken ''OR'' p")
    case True
    have "safe wf_ast p1 (pbind (parseAndExpression n p1) (\<lambda>right p.
               or_loop n (binary_node ''OR'' l right) (skipWhitespace p)))"
      if "consumeToken ''OR'' p = POk u p1" for u p1
      using consumeToken_remaining [OF that] IH [of p1] loop l fuel
      by (intro safe_bind [of wf_ast]) (auto dest!: moves_remaining)
    with True show ?thesis by (auto intro!: safe_bind [OF safe_consumeToken])
  qed (use l in auto)
  have andl: "safe wf_ast p (and_loop (Suc n) l p)" if fuel: "4 * remaining p + 1 \<le> Suc n" and l: "wf_ast l"
  proof (cases "pos p < length (expression p) \<and> peekToken ''AND'' p")
    case True
    have "safe wf_ast p1 (pbind (parseNotExpression n p1) (\<lambda>right p.
               and_loop n (binary_node ''AND'' l right) (skipWhitespace p)))"
      if "consumeToken ''AND'' p = POk u p1" for u p1
      using consumeToken_remaining [OF that] IH [of p1] loop l fuel
      by (intro safe_bind [of wf_ast]) (auto dest!: moves_remaining)
    with True show ?thesis by (auto intro!: safe_bind [OF safe_consumeToken])
  qed (use l in auto)
  have neg: "safe wf_ast p (parseNotExpression (Suc n) p)" if fuel: "4 * remaining p + 2 \<le> Suc n"
  proof (rule safe_moves [OF moves_skipWhitespace [of p]], cases "peekToken ''NOT'' (skipWhitespace p)")
    case True
    have "safe wf_ast p1 (pbind (parseNotExpression n p1) (\<lambda>operand p. POk (not_node operand) p))"
      if "consumeToken ''NOT'' (skipWhitespace p) = POk u p1" for u p1
      using consumeToken_remaining [OF that] IH [of p1] fuel sk [of p]
      by (intro safe_bind [of wf_ast]) auto
    with True show "safe wf_ast (skipWhitespace p) (parseNotExpression (Suc n) p)"
      by (auto simp: Let_def intro!: safe_bind [OF safe_consumeToken])
  next
    case False
    with IH [of "skipWhitespace p"] sk [of p] fuel
    show "safe wf_ast (skipWhitespace p) (parseNotExpression (Suc n) p)" by (simp add: Let_def)
  qed
  have cmp: "safe wf_ast p (parseComparison (Suc n) p)" if fuel: "4 * remaining p + 1 \<le> Suc n"
  proof (cases "peekChar p = CHR ''(''")
    case True
    have "safe wf_ast p1 (pbind (parseExpression n p1) (\<lambda>expr p.
            if peekChar p \<noteq> CHR '')'' then PErr (ExpectedParen (pos p))
            else pbind (consumeChar CHR '')'' p) (\<lambda>_ p. POk expr p)))"
      if "consumeChar CHR ''('' p = POk u p1" for u p1
      using consumeChar_remaining [OF that] IH [of p1] fuel
      by (intro safe_bind [of wf_ast])
        (auto intro!: safe_bind [OF safe_consumeChar] simp: peekChar_nonzero)
    with True show ?thesis
      by (auto intro!: safe_bind [OF safe_consumeChar] simp: peekChar_nonzero)
  qed (simp add: safe_parse_comparison_tail)
  show ?case using expr conj orl andl neg cmp by blast
qed simp

lemma safe_parseExpression:
  "4 * remaining p + 4 \<le> n \<Longrightarrow> safe wf_ast p (parseExpression n p)"
  using safe_recursion by blast

lemma parse_outcome:
  "case parse \<lparr>expression = s, pos = 0\<rparr> of
     POk ast p \<Rightarrow> wf_ast ast \<and> p = \<lparr>expression = s, pos = length s\<rparr>
   | PErr (UnexpectedToken i c) \<Rightarrow> i < length s \<and> s ! i = c
   | PErr e \<Rightarrow> True
   | PPanic \<Rightarrow> False
   | PFuel \<Rightarrow> False"
proof -
  let ?p = "\<lparr>expression = s, pos = 0\<rparr>"
  let ?r = "parseExpression (4 * length s + 5) ?p"
  have safe: "safe wf_ast ?p ?r"
    by (rule safe_parseExpression) simp
  show ?thesis
  proof (cases ?r)
    case (POk ast p)
    have "moves ?p (skipWhitespace p)"
      using safe POk by (auto intro: moves_trans)
    then have "expression (skipWhitespace p) = s" "pos (skipWhitespace p) \<le> length s"
      by (auto simp: moves_def)
    with safe POk show ?thesis
      by (cases "skipWhitespace p") (auto simp: parse_def Let_def)
  next
    case (PErr e)
    with safe show ?thesis by (auto simp: parse_def split: perr.splits)
  qed (use safe in \<open>auto simp: parse_def\<close>)
qed

text \<open>C6. The filter parser is total and safe: on every text it returns (the recursion bound is never
  reached) and never panics, although \<^verbatim>\<open>consumeChar\<close> and \<^verbatim>\<open>consumeToken\<close> can panic. A tree it returns is
  well formed (every operator is one the evaluator knows, both operands are there) and the whole text
  has been read; the position of an unexpected token lies in the text.\<close>

theorem parse_safe:
  "case parse \<lparr>expression = s, pos = 0\<rparr> of
     POk ast p \<Rightarrow> wf_ast ast \<and> p = \<lparr>expression = s, pos = length s\<rparr>
   | PErr (UnexpectedToken i c) \<Rightarrow> i < length s \<and> s ! i = c
   | PErr e \<Rightarrow> True
   | PPanic \<Rightarrow> False
   | PFuel \<Rightarrow> False"
  by (rule parse_outcome)

end
