(* ===== verification/Filter_Roundtrip.thy ===== *)
theory Filter_Roundtrip
  imports Filter_Parser
begin

text \<open>
  The filter language seen from its users: an abstract syntax of the filters one can write
  (\<open>filt\<close>, \<open>operand\<close>), the text of a filter with the fewest parentheses (\<open>filt_text\<close>), the tree it
  stands for (\<open>filt_node\<close>), and the proof that the parser of \<^verbatim>\<open>pkg/filter/parser.go\<close> reads the text back
  as that tree. The parser position is split into the text read and the text to come (\<open>facing\<close>); each
  parser method gets an equation over it, and the recursive methods are proved in continuation style
  for some recursion bound, which \<open>safe_parseExpression\<close> then exchanges for the bound of \<open>parse\<close>.
\<close>

section \<open>Round trip: printing a filter and parsing it\<close>

text \<open>The parser in front of \<open>s\<close>, having read \<open>pre\<close>.\<close>

definition facing :: "string \<Rightarrow> string \<Rightarrow> expressionParser" where
  "facing pre s = \<lparr>expression = pre @ s, pos = length pre\<rparr>"

lemma facing_simps [simp]:
  "expression (facing pre s) = pre @ s" "pos (facing pre s) = length pre"
  by (simp_all add: facing_def)

lemma facing_advance: "(facing pre (c # s))\<lparr>pos := Suc (length pre)\<rparr> = facing (pre @ [c]) s"
  by (simp add: facing_def)

lemma facing_advance' [simp]: "n = Suc (length pre) \<Longrightarrow> (facing pre (c # s))\<lparr>pos := n\<rparr> = facing (pre @ [c]) s"
  by (simp add: facing_def)

lemma facing_advance2 [simp]:
  "n = Suc (Suc (length pre)) \<Longrightarrow> (facing pre (c # d # s))\<lparr>pos := n\<rparr> = facing (pre @ [c, d]) s"
  by (simp add: facing_def)

lemma is_ident_char_punct [simp]:
  "\<not> is_ident_char CHR ''.''" "\<not> is_ident_char CHR '' ''" "\<not> is_ident_char CHR ''(''" "\<not> is_ident_char CHR '')''"
  "\<not> is_ident_char CHR '',''" "\<not> is_ident_char CHR ''[''" "\<not> is_ident_char CHR '']''" "\<not> is_ident_char CHR 0x22"
  by code_simp+

lemma peekChar_at [simp]:
  "peekChar (facing pre []) = CHR 0x00" "peekChar (facing pre (c # s)) = c"
  by (simp_all add: peekChar_def nth_append)

lemma consumeChar_at [simp]: "consumeChar c (facing pre (c # s)) = POk () (facing (pre @ [c]) s)"
  by (simp add: consumeChar_def facing_advance nth_append)

definition ends_word :: "string \<Rightarrow> bool" where
  "ends_word s \<longleftrightarrow> (case s of [] \<Rightarrow> True | c # _ \<Rightarrow> \<not> is_ident_char c)"

lemma ends_word_simps [simp]: "ends_word []" "ends_word (c # s) \<longleftrightarrow> \<not> is_ident_char c"
  by (simp_all add: ends_word_def)

lemma peekToken_at:
  "peekToken t (facing pre s) \<longleftrightarrow>
     length t \<le> length s \<and> equal_fold (take (length t) s) t \<and> ends_word (drop (length t) s)"
proof (cases "length t \<le> length s")
  case True
  then obtain u v where s: "s = u @ v" and u: "length u = length t"
    by (metis append_take_drop_id length_take min.absorb2)
  show ?thesis
    by (cases v) (auto simp: peekToken_def s u nth_append)
qed (auto simp: peekToken_def)

lemma consumeToken_at:
  assumes "peekToken t (facing pre (u @ s))" "length u = length t"
  shows "consumeToken t (facing pre (u @ s)) = POk () (facing (pre @ u) s)"
  using assms by (simp add: consumeToken_def facing_def)

lemma advance_while_at:
  "advance_while f (facing pre s) = facing (pre @ takeWhile f s) (dropWhile f s)"
proof (induction s arbitrary: pre)
  case Nil
  then show ?case by (subst advance_while.simps) simp
next
  case (Cons c s)
  then show ?case by (subst advance_while.simps) (simp add: facing_advance)
qed

lemma skipWhitespace_at:
  "skipWhitespace (facing pre s) = facing (pre @ takeWhile is_ws_char s) (dropWhile is_ws_char s)"
  by (simp add: skipWhitespace_def advance_while_at)

lemma slice_at: "slice (length pre) (facing (pre @ u) s) = u"
  by (simp add: slice_def)


subsection \<open>More recursion bound never changes a result\<close>

lemma pbind_mono:
  assumes "m \<noteq> PFuel \<Longrightarrow> m' = m" "\<And>a p. f a p \<noteq> PFuel \<Longrightarrow> f' a p = f a p" "pbind m f \<noteq> PFuel"
  shows "pbind m' f' = pbind m f"
  using assms by (cases m) auto

lemmas recursion_simps = parseExpression.simps or_loop.simps parseAndExpression.simps and_loop.simps
  parseNotExpression.simps parseComparison.simps

declare recursion_simps [simp del]

lemma fuel_Suc:
  "(parseExpression n p \<noteq> PFuel \<longrightarrow> parseExpression (Suc n) p = parseExpression n p) \<and>
   (or_loop n l p \<noteq> PFuel \<longrightarrow> or_loop (Suc n) l p = or_loop n l p) \<and>
   (parseAndExpression n p \<noteq> PFuel \<longrightarrow> parseAndExpression (Suc n) p = parseAndExpression n p) \<and>
   (and_loop n l p \<noteq> PFuel \<longrightarrow> and_loop (Suc n) l p = and_loop n l p) \<and>
   (parseNotExpression n p \<noteq> PFuel \<longrightarrow> parseNotExpression (Suc n) p = parseNotExpression n p) \<and>
   (parseComparison n p \<noteq> PFuel \<longrightarrow> parseComparison (Suc n) p = parseComparison n p)"
proof (induction n arbitrary: p l)
  case (Suc n)
  note IH = Suc [THEN conjunct1, THEN mp] Suc [THEN conjunct2, THEN conjunct1, THEN mp]
    Suc [THEN conjunct2, THEN conjunct2, THEN conjunct1, THEN mp]
    Suc [THEN conjunct2, THEN conjunct2, THEN conjunct2, THEN conjunct1, THEN mp]
    Suc [THEN conjunct2, THEN conjunct2, THEN conjunct2, THEN conjunct2, THEN conjunct1, THEN mp]
    Suc [THEN conjunct2, THEN conjunct2, THEN conjunct2, THEN conjunct2, THEN conjunct2, THEN mp]
  show ?case
  proof (intro conjI impI)
    assume *: "parseExpression (Suc n) p \<noteq> PFuel"
    show "parseExpression (Suc (Suc n)) p = parseExpression (Suc n) p"
      using * unfolding parseExpression.simps(2) [of n p] parseExpression.simps(2) [of "Suc n" p] by (intro pbind_mono IH(3) IH(2))
  next
    assume *: "parseAndExpression (Suc n) p \<noteq> PFuel"
    show "parseAndExpression (Suc (Suc n)) p = parseAndExpression (Suc n) p"
      using * unfolding parseAndExpression.simps(2) [of n p] parseAndExpression.simps(2) [of "Suc n" p] by (intro pbind_mono IH(5) IH(4))
  next
    assume *: "or_loop (Suc n) l p \<noteq> PFuel"
    show "or_loop (Suc (Suc n)) l p = or_loop (Suc n) l p"
      using * unfolding or_loop.simps(2) [of n l p] or_loop.simps(2) [of "Suc n" l p] by (auto split: if_splits intro!: pbind_mono IH(2,3))
  next
    assume *: "and_loop (Suc n) l p \<noteq> PFuel"
    show "and_loop (Suc (Suc n)) l p = and_loop (Suc n) l p"
      using * unfolding and_loop.simps(2) [of n l p] and_loop.simps(2) [of "Suc n" l p] by (auto split: if_splits intro!: pbind_mono IH(4,5))
  next
    assume *: "parseNotExpression (Suc n) p \<noteq> PFuel"
    show "parseNotExpression (Suc (Suc n)) p = parseNotExpression (Suc n) p"
      using *
      unfolding parseNotExpression.simps(2) [of n p] parseNotExpression.simps(2) [of "Suc n" p] Let_def by (auto split: if_splits intro!: pbind_mono IH(5,6))
  next
    assume *: "parseComparison (Suc n) p \<noteq> PFuel"
    show "parseComparison (Suc (Suc n)) p = parseComparison (Suc n) p"
      using * unfolding parseComparison.simps(2) [of n p] parseComparison.simps(2) [of "Suc n" p] by (auto split: if_splits intro!: pbind_mono IH(1))
  qed
qed (simp add: recursion_simps)

subsection \<open>The filters a user can write, and how they are printed\<close>

datatype operand = FieldOp "string list" | StrOp string | BoolOp bool | NumOp string | ListOp "string list"

datatype filt = Test operand | Cmp string operand operand | MacroF string | FAnd filt filt | FOr filt filt | FNot filt

definition esc_char :: "char \<Rightarrow> string" where
  "esc_char c = (if c = CHR 0x22 \<or> c = CHR 0x5C then [CHR 0x5C, c] else [c])"

definition quoted :: "string \<Rightarrow> string" where
  "quoted s = CHR 0x22 # concat (map esc_char s) @ [CHR 0x22]"

fun op_text :: "operand \<Rightarrow> string" where
  "op_text (FieldOp segs) = join_with ''.'' segs"
| "op_text (StrOp s) = quoted s"
| "op_text (BoolOp b) = (if b then ''true'' else ''false'')"
| "op_text (NumOp ds) = ds"
| "op_text (ListOp ss) = ''['' @ join_with '', '' (map quoted ss) @ '']''"

fun op_node :: "operand \<Rightarrow> ASTNode" where
  "op_node (FieldOp segs) = field_node (join_with ''.'' segs)"
| "op_node (StrOp s) = literal_node (VStr s)"
| "op_node (BoolOp b) = literal_node (VBool b)"
| "op_node (NumOp ds) = literal_node (VFloat (the (parse_float ds)))"
| "op_node (ListOp ss) = literal_node (VList (map VStr ss))"

definition ident :: "string \<Rightarrow> bool" where
  "ident w \<longleftrightarrow> w \<noteq> [] \<and> list_all is_ident_char w"

definition ascii :: "string \<Rightarrow> bool" where
  "ascii s \<longleftrightarrow> list_all (\<lambda>c. byte_of c < 128) s"

definition is_macro_name :: "string \<Rightarrow> bool" where
  "is_macro_name w \<longleftrightarrow> 3 < length w \<and> equal_fold (take 3 w) ''is_''"

fun op_ok :: "operand \<Rightarrow> bool" where
  "op_ok (FieldOp segs) \<longleftrightarrow> segs \<noteq> [] \<and> list_all ident segs \<and> \<not> is_digit_char (hd (hd segs)) \<and>
     \<not> is_macro_name (hd segs) \<and> \<not> equal_fold (hd segs) ''NOT'' \<and>
     \<not> equal_fold (hd segs) ''true'' \<and> \<not> equal_fold (hd segs) ''false''"
| "op_ok (StrOp s) \<longleftrightarrow> ascii s"
| "op_ok (BoolOp b) \<longleftrightarrow> True"
| "op_ok (NumOp ds) \<longleftrightarrow> ds \<noteq> [] \<and> is_digit_char (hd ds) \<and>
     list_all (\<lambda>c. is_digit_char c \<or> c = CHR ''.'') ds \<and> parse_float ds \<noteq> None"
| "op_ok (ListOp ss) \<longleftrightarrow> list_all ascii ss"

fun filt_ok :: "filt \<Rightarrow> bool" where
  "filt_ok (Test a) \<longleftrightarrow> op_ok a"
| "filt_ok (Cmp op a b) \<longleftrightarrow> op \<in> set operators \<and> op_ok a \<and> op_ok b"
| "filt_ok (MacroF m) \<longleftrightarrow> ident m \<and> is_macro_name m"
| "filt_ok (FAnd a b) \<longleftrightarrow> filt_ok a \<and> filt_ok b"
| "filt_ok (FOr a b) \<longleftrightarrow> filt_ok a \<and> filt_ok b"
| "filt_ok (FNot a) \<longleftrightarrow> filt_ok a"

fun filt_node :: "filt \<Rightarrow> ASTNode" where
  "filt_node (Test a) = op_node a"
| "filt_node (Cmp op a b) = comparison_node op (op_node a) (op_node b)"
| "filt_node (MacroF m) = macro_node m"
| "filt_node (FAnd a b) = binary_node ''AND'' (filt_node a) (filt_node b)"
| "filt_node (FOr a b) = binary_node ''OR'' (filt_node a) (filt_node b)"
| "filt_node (FNot a) = not_node (filt_node a)"

definition paren :: "bool \<Rightarrow> string \<Rightarrow> string" where
  "paren b s = (if b then ''('' @ s @ '')'' else s)"

text \<open>Parentheses only where the precedence (OR below AND below NOT) and left association need them.\<close>

fun filt_text :: "nat \<Rightarrow> filt \<Rightarrow> string" where
  "filt_text k (Test a) = op_text a"
| "filt_text k (Cmp op a b) = op_text a @ '' '' @ op @ '' '' @ op_text b"
| "filt_text k (MacroF m) = m"
| "filt_text k (FAnd a b) = paren (1 < k) (filt_text 1 a @ '' AND '' @ filt_text 2 b)"
| "filt_text k (FOr a b) = paren (0 < k) (filt_text 0 a @ '' OR '' @ filt_text 1 b)"
| "filt_text k (FNot a) = ''NOT '' @ filt_text 2 a"

subsection \<open>Reading back the terminals\<close>

text \<open>What may follow an operand.\<close>

definition ends_operand :: "string \<Rightarrow> bool" where
  "ends_operand s \<longleftrightarrow> (case s of [] \<Rightarrow> True | c # _ \<Rightarrow> \<not> is_ident_char c \<and> c \<noteq> CHR ''.'')"

lemma ends_operand_simps [simp]:
  "ends_operand []" "ends_operand (c # s) \<longleftrightarrow> \<not> is_ident_char c \<and> c \<noteq> CHR ''.''"
  by (simp_all add: ends_operand_def)

lemma ends_operand_word: "ends_operand s \<Longrightarrow> ends_word s"
  by (cases s) auto

lemma advance_while_all:
  assumes "list_all f w" "s = [] \<or> \<not> f (hd s)"
  shows "advance_while f (facing pre (w @ s)) = facing (pre @ w) s"
proof -
  have "takeWhile f (w @ s) = w \<and> dropWhile f (w @ s) = s"
    using assms by (induction w) (cases s; auto)+
  then show ?thesis by (simp add: advance_while_at)
qed

lemma parseIdentifier_facing:
  "list_all is_ident_char w \<Longrightarrow> ends_word s \<Longrightarrow>
     parseIdentifier (facing pre (w @ s)) = (w, facing (pre @ w) s)"
  using advance_while_all [of is_ident_char w s pre] slice_at [of pre w s]
  by (cases s) (simp_all add: parseIdentifier_def)

lemma field_path_word:
  "list_all is_ident_char w \<Longrightarrow>
   field_path_loop ps st (facing pre (w @ s)) = field_path_loop ps st (facing (pre @ w) s)"
proof (induction w arbitrary: pre)
  case (Cons c w)
  then show ?case
    by (subst field_path_loop.simps) (simp add: facing_advance)
qed simp

lemma field_path_segs:
  assumes "list_all ident (seg # segs)" "ends_operand s"
  shows "field_path_loop ps (length pre) (facing pre (join_with ''.'' (seg # segs) @ s)) =
    (ps @ butlast (seg # segs), length pre + length (join_with ''.'' (seg # segs)) - length (last (seg # segs)),
     facing (pre @ join_with ''.'' (seg # segs)) s)"
  using assms
proof (induction segs arbitrary: seg ps pre)
  case Nil
  then show ?case
    by (cases s; subst field_path_word)
      (auto simp: ident_def, (subst field_path_loop.simps, simp)+)
next
  case (Cons seg' segs)
  let ?t = "join_with ''.'' (seg' # segs)"
  have "field_path_loop ps (length pre) (facing pre (join_with ''.'' (seg # seg' # segs) @ s)) =
        field_path_loop ps (length pre) (facing (pre @ seg) (CHR ''.'' # ?t @ s))"
    using Cons.prems field_path_word [of seg ps "length pre" pre] by (simp add: ident_def)
  also have "\<dots> = field_path_loop (ps @ [seg]) (length (pre @ seg @ ''.''))
      (facing (pre @ seg @ ''.'') (?t @ s))"
    using slice_at [of pre seg "CHR ''.'' # ?t @ s"]
    by (subst field_path_loop.simps) simp
  also have "\<dots> = (ps @ butlast (seg # seg' # segs),
      length pre + length (join_with ''.'' (seg # seg' # segs)) - length (last (seg # seg' # segs)),
      facing (pre @ join_with ''.'' (seg # seg' # segs)) s)"
    using Cons.prems by (subst Cons.IH) auto
  finally show ?case .
qed

lemma join_with_last:
  "ws \<noteq> [] \<Longrightarrow> \<exists>u. join_with sep ws = u @ last ws"
  by (induction sep ws rule: join_with.induct) auto

lemma parseFieldPath_facing:
  assumes "segs \<noteq> []" "list_all ident segs" "ends_operand s"
  shows "parseFieldPath (facing pre (join_with ''.'' segs @ s)) =
    (join_with ''.'' segs, facing (pre @ join_with ''.'' segs) s)"
proof -
  obtain u where u: "join_with ''.'' segs = u @ last segs" using join_with_last assms(1) by blast
  have "last segs \<noteq> []" using assms by (auto simp: list_all_iff ident_def)
  moreover have "slice (length pre + length u) (facing (pre @ join_with ''.'' segs) s) = last segs"
    using slice_at [of "pre @ u" "last segs" s] u by simp
  ultimately show ?thesis
    using assms field_path_segs [of "hd segs" "tl segs" s "[]" pre] u
    by (simp add: parseFieldPath_def append_butlast_last_id)
qed

lemma string_loop_facing:
  "ascii s \<Longrightarrow> string_loop CHR 0x22 sb (facing pre (concat (map esc_char s) @ CHR 0x22 # rest)) =
     POk (sb @ s) (facing (pre @ concat (map esc_char s)) (CHR 0x22 # rest))"
proof (induction s arbitrary: sb pre)
  case Nil
  then show ?case by (subst string_loop.simps) simp
next
  case (Cons c s)
  have ok: "write_rune c = [c]" "ascii s"
    using Cons.prems by (auto simp: ascii_def write_rune_def)
  show ?case
  proof (cases "c = CHR 0x22 \<or> c = CHR 0x5C")
    case True
    then have "esc_char c = [CHR 0x5C, c]" "unescape c = c"
      by (auto simp: esc_char_def unescape_def)
    with ok Cons.IH show ?thesis
      by (subst string_loop.simps) (simp add: Let_def)
  next
    case False
    then have "esc_char c = [c]" by (simp add: esc_char_def)
    with False ok Cons.IH show ?thesis
      by (subst string_loop.simps) simp
  qed
qed

lemma parseStringLiteral_facing:
  "ascii s \<Longrightarrow> parseStringLiteral (facing pre (quoted s @ rest)) =
     POk (literal_node (VStr s)) (facing (pre @ quoted s) rest)"
  by (simp add: parseStringLiteral_def quoted_def string_loop_facing Let_def)

lemma skip_nonws: "\<not> is_ws_char c \<Longrightarrow> skipWhitespace (facing pre (c # s)) = facing pre (c # s)"
  by (simp add: skipWhitespace_at)

lemma is_ws_char_consts [simp]:
  "is_ws_char CHR '' ''" "\<not> is_ws_char CHR 0x22" "\<not> is_ws_char CHR '',''" "\<not> is_ws_char CHR ''(''"
  "\<not> is_ws_char CHR '')''" "\<not> is_ws_char CHR ''[''" "\<not> is_ws_char CHR '']''"
  by code_simp+

lemma ident_not_ws: "is_ident_char c \<Longrightarrow> \<not> is_ws_char c"
  by (auto simp: is_ident_char_def is_ws_char_def in_range_def byte_of_def)

lemma quoted_Cons: "\<exists>t. quoted s = CHR 0x22 # t"
  by (simp add: quoted_def)

lemma parseListItem_facing:
  assumes "ascii s"
  shows "parseListItem (facing pre (quoted s @ rest)) = POk (VStr s) (facing (pre @ quoted s) rest)"
proof -
  obtain t where "quoted s = CHR 0x22 # t" using quoted_Cons by blast
  then show ?thesis
    using parseStringLiteral_facing [OF assms, of pre rest]
    by (simp add: parseListItem_def skip_nonws)
qed

lemma list_loop_facing:
  "list_all ascii (s # ss) \<Longrightarrow>
   list_loop items (facing pre (join_with '', '' (map quoted (s # ss)) @ CHR '']'' # rest)) =
     POk (items @ map VStr (s # ss)) (facing (pre @ join_with '', '' (map quoted (s # ss))) (CHR '']'' # rest))"
proof (induction ss arbitrary: s items pre)
  case Nil
  obtain t where "quoted s = CHR 0x22 # t" using quoted_Cons by blast
  with Nil parseListItem_facing [of s pre "CHR '']'' # rest"] show ?case
    by (subst list_loop.simps) (simp add: skip_nonws)
next
  case (Cons s' ss)
  let ?t = "join_with '', '' (map quoted (s' # ss)) @ CHR '']'' # rest"
  obtain t where t: "quoted s = CHR 0x22 # t" using quoted_Cons by blast
  obtain t' where t': "join_with '', '' (map quoted (s' # ss)) = CHR 0x22 # t'"
    using quoted_Cons [of s'] by (cases ss) auto
  have "skipWhitespace (facing (pre @ quoted s @ '','') (CHR '' '' # ?t)) = facing (pre @ quoted s @ '', '') ?t"
    using t' by (simp add: skipWhitespace_at)
  with t Cons.prems parseListItem_facing [of s pre "'', '' @ ?t"]
    Cons.IH [of s' "items @ [VStr s]" "pre @ quoted s @ '', ''"]
  show ?case
    by (subst list_loop.simps) (auto simp: skip_nonws)
qed

lemma parseList_facing:
  assumes "list_all ascii ss"
  shows "parseList (facing pre (op_text (ListOp ss) @ rest)) =
    POk (op_node (ListOp ss)) (facing (pre @ op_text (ListOp ss)) rest)"
proof (cases ss)
  case Nil
  have "list_loop [] (facing (pre @ ''['') ('']'' @ rest)) = POk [] (facing (pre @ ''['') ('']'' @ rest))"
    by (subst list_loop.simps) simp
  then show ?thesis using Nil by (simp add: parseList_def skip_nonws)
next
  case (Cons s ss')
  obtain t' where t': "join_with '', '' (map quoted ss) = CHR 0x22 # t'"
    using quoted_Cons [of s] Cons by (cases ss') auto
  have "skipWhitespace (facing (pre @ ''['') (join_with '', '' (map quoted ss) @ CHR '']'' # rest)) =
        facing (pre @ ''['') (join_with '', '' (map quoted ss) @ CHR '']'' # rest)"
    using t' by (simp add: skipWhitespace_at)
  with Cons assms list_loop_facing [of s ss' "[]" "pre @ ''[''" rest] show ?thesis
    by (simp add: parseList_def)
qed

lemma parseNumber_facing:
  assumes "op_ok (NumOp ds)" "ends_operand rest"
  shows "parseNumber (facing pre (ds @ rest)) = POk (op_node (NumOp ds)) (facing (pre @ ds) rest)"
proof -
  let ?f = "\<lambda>c. is_digit_char c \<or> c = CHR ''.''"
  obtain d ds' where ds: "ds = d # ds'" using assms by (cases ds) auto
  have d: "d \<noteq> CHR ''-''" using assms ds by (auto simp: in_range_def byte_of_def)
  have "advance_while ?f (facing pre (ds @ rest)) = facing (pre @ ds) rest"
    using assms advance_while_all [of ?f ds rest] by (cases rest) (auto simp: is_ident_char_def)
  with assms ds d slice_at [of pre ds rest] show ?thesis
    by (auto simp: parseNumber_def)
qed

subsection \<open>Words and keywords\<close>

lemma is_ident_char_letters [simp]:
  "is_ident_char CHR ''N''" "is_ident_char CHR ''O''" "is_ident_char CHR ''T''" "is_ident_char CHR ''t''"
  "is_ident_char CHR ''r''" "is_ident_char CHR ''u''" "is_ident_char CHR ''e''" "is_ident_char CHR ''f''"
  "is_ident_char CHR ''a''" "is_ident_char CHR ''l''" "is_ident_char CHR ''s''" "is_ident_char CHR ''_''"
  "is_ident_char CHR ''i''" "is_ident_char CHR ''A''" "is_ident_char CHR ''D''" "is_ident_char CHR ''R''"
  by code_simp+

lemma is_ident_char_to_lower [simp]: "is_ident_char (to_lower_char c) = is_ident_char c"
  by (auto simp: is_ident_char_def to_lower_char_def in_range_def byte_of_def)

lemma equal_fold_ident:
  assumes "equal_fold u t"
  shows "list_all is_ident_char u = list_all is_ident_char t"
proof -
  have "list_all is_ident_char v = list_all is_ident_char (to_lower v)" for v
    by (simp add: to_lower_def list_all_iff)
  with assms show ?thesis unfolding equal_fold_def by metis
qed

lemma peekToken_word:
  assumes "list_all is_ident_char w" "ends_word s" "list_all is_ident_char t"
  shows "peekToken t (facing pre (w @ s)) \<longleftrightarrow> equal_fold w t"
proof -
  consider (less) "length t < length w" | (eq) "length t = length w" | (more) "length w < length t"
    by linarith
  then show ?thesis
  proof cases
    case less
    then obtain u c v where w: "w = u @ c # v" and u: "length u = length t"
      by (metis id_take_nth_drop length_take min.absorb4)
    then have "\<not> equal_fold w t" using less by (auto dest: equal_fold_length)
    with w u assms show ?thesis by (auto simp: peekToken_at)
  next
    case eq
    with assms show ?thesis by (auto simp: peekToken_at)
  next
    case more
    have "\<not> equal_fold (w @ take (length t - length w) s) t" if "s \<noteq> []"
    proof
      assume "equal_fold (w @ take (length t - length w) s) t"
      then have "list_all is_ident_char (take (length t - length w) s)"
        using assms by (auto dest: equal_fold_ident)
      with that more assms show False by (cases s; cases "length t - length w") auto
    qed
    with more show ?thesis by (cases "s = []") (auto simp: peekToken_at dest: equal_fold_length)
  qed
qed

lemma at_macro_word:
  assumes "list_all is_ident_char w" "ends_word s"
  shows "at_macro (facing pre (w @ s)) \<longleftrightarrow> is_macro_name w"
proof (cases "3 < length w")
  case True
  with assms show ?thesis
    by (auto simp: at_macro_def is_macro_name_def nth_append list_all_length)
next
  case short: False
  have "\<not> at_macro (facing pre (w @ s))"
  proof
    assume m: "at_macro (facing pre (w @ s))"
    show False
    proof (cases "length w = 3")
      case True
      with m assms show False
        by (cases s) (auto simp: at_macro_def nth_append)
    next
      case False
      with m short have "equal_fold (w @ take (3 - length w) s) ''is_''" "length w < 3" "s \<noteq> []"
        by (auto simp: at_macro_def)
      then have "list_all is_ident_char (take (3 - length w) s)"
        using equal_fold_ident [of "w @ take (3 - length w) s" "''is_''"] by (auto simp: is_ident_char_def in_range_def byte_of_def)
      with \<open>length w < 3\<close> \<open>s \<noteq> []\<close> assms show False
        by (cases s; cases "3 - length w") auto
    qed
  qed
  with short show ?thesis by (simp add: is_macro_name_def)
qed

lemma peekToken_first:
  "peekToken (d # t) (facing pre (c # s)) \<Longrightarrow> to_lower_char c = to_lower_char d"
  by (auto simp: peekToken_at equal_fold_def to_lower_def)

lemma at_macro_first: "at_macro (facing pre (c # s)) \<Longrightarrow> to_lower_char c = CHR ''i''"
  by (auto simp: at_macro_def equal_fold_def to_lower_def take_Cons' to_lower_char_def in_range_def byte_of_def split: if_splits)


lemma op_text_word:
  assumes "op_ok (FieldOp segs)" "ends_operand rest"
  shows "\<exists>s. join_with ''.'' segs @ rest = hd segs @ s \<and> ends_word s"
    and "list_all is_ident_char (hd segs) \<and> hd segs \<noteq> []"
  using assms
  by (cases segs; cases "tl segs"; auto simp: ident_def ends_operand_word)+

text \<open>No operand starts like a blank, a parenthesis, the keyword \<open>NOT\<close> or a macro.\<close>

definition starts_operand :: "string \<Rightarrow> bool" where
  "starts_operand t \<longleftrightarrow> t \<noteq> [] \<and> \<not> is_ws_char (hd t) \<and> hd t \<noteq> CHR ''('' \<and>
     (\<forall>pre. \<not> peekToken ''NOT'' (facing pre t) \<and> \<not> at_macro (facing pre t))"

lemma starts_operand_char:
  assumes "\<not> is_ident_char c \<or> is_digit_char c" "\<not> is_ws_char c" "c \<noteq> CHR ''(''"
  shows "starts_operand (c # s)"
proof -
  have "to_lower_char c = c"
    using assms(1) by (auto simp: to_lower_char_def is_ident_char_def in_range_def)
  then have "to_lower_char c \<noteq> to_lower_char CHR ''N''" "to_lower_char c \<noteq> CHR ''i''"
    using assms(1) by (auto simp: is_ident_char_def to_lower_char_def in_range_def byte_of_def)
  with assms show ?thesis
    by (auto simp: starts_operand_def dest: peekToken_first at_macro_first)
qed

lemma starts_operand_word:
  assumes "list_all is_ident_char w" "w \<noteq> []" "ends_word s" "\<not> equal_fold w ''NOT''" "\<not> is_macro_name w"
  shows "starts_operand (w @ s)"
proof -
  have "is_ident_char (hd w)" using assms by (cases w) auto
  with assms show ?thesis
    by (auto simp: starts_operand_def peekToken_word at_macro_word hd_append dest: ident_not_ws)
qed

lemma bool_words:
  "\<not> equal_fold ''true'' ''NOT''" "\<not> equal_fold ''false'' ''NOT''" "\<not> is_macro_name ''true''" "\<not> is_macro_name ''false''"
  by code_simp+

lemma op_text_starts:
  assumes "op_ok a" "ends_operand rest"
  shows "starts_operand (op_text a @ rest)"
proof (cases a)
  case (FieldOp segs)
  then obtain s where "op_text a @ rest = hd segs @ s" "ends_word s"
    using assms op_text_word(1) [of segs rest] by auto
  with assms op_text_word(2) [of segs rest] FieldOp starts_operand_word [of "hd segs" s] show ?thesis
    by simp
next
  case (BoolOp b)
  with assms starts_operand_word [of "op_text a" rest] bool_words show ?thesis
    by (cases b) (auto simp: ends_operand_word)
next
  case (NumOp ds)
  then obtain d ds' where ds: "ds = d # ds'" using assms by (cases ds) auto
  have "\<not> is_ws_char d" "d \<noteq> CHR ''(''"
    using assms NumOp ds by (auto simp: is_ws_char_def in_range_def byte_of_def)
  with assms NumOp ds show ?thesis by (auto intro: starts_operand_char)
qed (auto simp: quoted_def intro!: starts_operand_char)


lemma parseOperand_facing:
  assumes ok: "op_ok a" and rest: "ends_operand rest"
  shows "parseOperand (facing pre (op_text a @ rest)) = POk (op_node a) (facing (pre @ op_text a) rest)"
proof -
  let ?t = "op_text a @ rest"
  obtain c u where t: "?t = c # u" "\<not> is_ws_char c"
    using op_text_starts [OF assms] by (cases ?t) (auto simp: starts_operand_def)
  then have skip: "skipWhitespace (facing pre ?t) = facing pre ?t" by (simp add: skip_nonws)
  have pc: "peekChar (facing pre ?t) = c" using t(1) by simp
  note unf = parseOperand_def Let_def skip pc
  show ?thesis
  proof (cases a)
    case (FieldOp segs)
    define w where "w = hd segs"
    obtain s where w: "?t = w @ s" "w = hd segs" "ends_word s" "list_all is_ident_char w" "w \<noteq> []"
      using ok rest op_text_word [of segs rest] FieldOp w_def by auto
    have "w @ s = c # u" using w(1) t(1) by (rule trans [OF sym])
    then have c: "c = hd w" "is_ident_char c" using w(4,5) by (cases w; simp)+
    then have "c \<noteq> CHR ''[''" "c \<noteq> CHR 0x22" "c \<noteq> CHR 0x27" "c \<noteq> CHR ''-''" "\<not> is_digit_char c"
      using ok FieldOp w(2) by (auto simp: is_ident_char_def in_range_def byte_of_def)
    moreover have "\<not> peekToken ''true'' (facing pre ?t)" "\<not> peekToken ''false'' (facing pre ?t)"
      unfolding w(1) using w(2-4) ok FieldOp by (simp_all add: peekToken_word)
    ultimately have "parseOperand (facing pre ?t) = (let (f, p') = parseFieldPath (facing pre ?t) in POk (field_node f) p')"
      unfolding unf by simp
    with parseFieldPath_facing [of segs rest pre] FieldOp assms show ?thesis by simp
  next
    case (StrOp s)
    then have "c = CHR 0x22" using t(1) by (simp add: quoted_def)
    with StrOp ok parseStringLiteral_facing [of s pre rest] show ?thesis
      unfolding unf by simp
  next
    case (BoolOp b)
    have "peekToken ''true'' (facing pre ?t) = b" "peekToken ''false'' (facing pre ?t) = (\<not> b)"
      using BoolOp rest peekToken_word [of "op_text a" rest _ pre]
      by (auto simp: ends_operand_word equal_fold_def)
    moreover have "c \<noteq> CHR ''['' \<and> c \<noteq> CHR 0x22 \<and> c \<noteq> CHR 0x27 \<and> c \<noteq> CHR ''-'' \<and> \<not> is_digit_char c"
      using t(1) BoolOp by (cases b) (auto simp: in_range_def byte_of_def)
    ultimately show ?thesis
      using BoolOp consumeToken_at [of "op_text a" pre "op_text a" rest]
      unfolding unf by (cases b) simp_all
  next
    case (NumOp ds)
    then have "is_digit_char c" using ok t by (cases ds) auto
    then have "c \<noteq> CHR ''[''" "c \<noteq> CHR 0x22" "c \<noteq> CHR 0x27" by (auto simp: in_range_def byte_of_def)
    with \<open>is_digit_char c\<close> ok rest NumOp parseNumber_facing [of ds rest pre] show ?thesis
      unfolding unf by simp
  next
    case (ListOp ss)
    then have "c = CHR ''[''" using t(1) by simp
    with ListOp ok parseList_facing [of ss pre rest] show ?thesis
      unfolding unf by simp
  qed
qed

subsection \<open>Comparisons\<close>

text \<open>What may follow a complete comparison: the end, a closing parenthesis, or a connective.\<close>

definition stop_or :: "string \<Rightarrow> bool" where
  "stop_or s \<longleftrightarrow> s = [] \<or> (\<exists>t. s = CHR '')'' # t) \<or> (\<exists>t. s = '' OR '' @ t)"

definition stop_and :: "string \<Rightarrow> bool" where
  "stop_and s \<longleftrightarrow> stop_or s \<or> (\<exists>t. s = '' AND '' @ t)"

lemma stop_and_ends: "stop_and s \<Longrightarrow> ends_operand s"
  by (auto simp: stop_and_def stop_or_def)

lemma is_ws_char_letters [simp]: "\<not> is_ws_char CHR ''O''" "\<not> is_ws_char CHR ''A''" "\<not> is_ws_char CHR ''N''"
  by (simp_all add: ident_not_ws)

lemma skip_space: "\<not> is_ws_char c \<Longrightarrow> skipWhitespace (facing pre (CHR '' '' # c # s)) = facing (pre @ '' '') (c # s)"
  by (simp add: skipWhitespace_at)

lemma to_lower_char_consts [simp]:
  "to_lower_char CHR ''O'' = CHR ''o''" "to_lower_char CHR ''A'' = CHR ''a''" "to_lower_char CHR ''N'' = CHR ''n''"
  "to_lower_char CHR ''E'' = CHR ''e''" "to_lower_char CHR ''I'' = CHR ''i''" "to_lower_char CHR ''C'' = CHR ''c''"
  "to_lower_char CHR ''S'' = CHR ''s''" "to_lower_char CHR ''R'' = CHR ''r''" "to_lower_char CHR ''T'' = CHR ''t''"
  "to_lower_char CHR '')'' = CHR '')''" "to_lower_char CHR ''='' = CHR ''=''" "to_lower_char CHR ''<'' = CHR ''<''"
  "to_lower_char CHR ''>'' = CHR ''>''" "to_lower_char CHR ''!'' = CHR ''!''" "to_lower_char CHR '' '' = CHR '' ''"
  "to_lower_char CHR ''D'' = CHR ''d''" "to_lower_char CHR ''('' = CHR ''(''"
  by code_simp+

lemma no_operator_at_stop:
  assumes "stop_and s"
  shows "List.find (\<lambda>op. peekToken op (skipWhitespace (facing pre s))) operators = None"
proof -
  have "\<not> peekToken op (skipWhitespace (facing pre s))" if "op \<in> set operators" for op
    using assms that unfolding stop_and_def stop_or_def operators_def
    by (auto simp: skip_space skip_nonws skipWhitespace_at dest!: peekToken_first) (auto simp: peekToken_at)
  then show ?thesis by (simp add: find_None_iff)
qed

text \<open>The operators are tried in an order in which no earlier one matches the text of a later one.\<close>

definition clash :: "string \<Rightarrow> string \<Rightarrow> bool" where
  "clash t u \<longleftrightarrow> (let k = min (length t) (length u) in to_lower (take k t) \<noteq> to_lower (take k u))"

lemma clash_peekToken:
  assumes "clash t u" shows "\<not> peekToken t (facing pre (u @ s))"
proof
  assume "peekToken t (facing pre (u @ s))"
  then have "take (length u) (to_lower (take (length t) (u @ s))) = take (length u) (to_lower t)"
    by (simp add: peekToken_at equal_fold_def)
  with assms show False
    by (auto simp: clash_def Let_def to_lower_def take_map min_def split: if_splits)
qed

lemma operators_clash:
  "list_all (\<lambda>i. list_all (\<lambda>j. clash (operators ! j) (operators ! i @ '' '')) [0..<i]) [0..<length operators]"
  by code_simp

lemma operators_start: "list_all (\<lambda>op. op \<noteq> [] \<and> \<not> is_ws_char (hd op)) operators"
  by code_simp

lemma operator_found:
  assumes "op \<in> set operators"
  shows "List.find (\<lambda>t. peekToken t (facing pre (op @ '' '' @ s))) operators = Some op"
proof -
  obtain i where i: "i < length operators" "op = operators ! i"
    using assms by (auto simp: in_set_conv_nth)
  have "\<not> peekToken (operators ! j) (facing pre ((op @ '' '') @ s))" if "j < i" for j
    using operators_clash i that by (intro clash_peekToken) (auto simp: list_all_iff)
  moreover have "peekToken op (facing pre (op @ '' '' @ s))"
    by (simp add: peekToken_at)
  ultimately show ?thesis
    using i by (auto simp: find_Some_iff)
qed

lemma skipWhitespace_idem [simp]: "skipWhitespace (skipWhitespace (facing pre s)) = skipWhitespace (facing pre s)"
proof -
  have "takeWhile is_ws_char (dropWhile is_ws_char s) = []"
    by (induction s) auto
  then show ?thesis
    by (simp add: skipWhitespace_at)
qed

text \<open>The result of a method that may or may not skip the blanks behind it.\<close>

definition reads :: "ASTNode pres \<Rightarrow> ASTNode \<Rightarrow> string \<Rightarrow> string \<Rightarrow> bool" where
  "reads r a pre s \<longleftrightarrow> (\<exists>p. r = POk a p \<and> skipWhitespace p = skipWhitespace (facing pre s))"

lemma comparison_test:
  assumes "op_ok a" "stop_and s"
  shows "reads (parse_comparison_tail (facing pre (op_text a @ s))) (op_node a) (pre @ op_text a) s"
proof -
  have e: "ends_operand s" using assms by (simp add: stop_and_ends)
  then have "\<not> at_macro (facing pre (op_text a @ s))"
    using op_text_starts [OF assms(1)] by (auto simp: starts_operand_def)
  with assms e show ?thesis
    by (simp add: reads_def parse_comparison_tail_def parseOperand_facing no_operator_at_stop)
qed

lemma comparison_cmp:
  assumes "op_ok a" "op_ok b" "op \<in> set operators" "stop_and s"
  shows "reads (parse_comparison_tail (facing pre (op_text a @ '' '' @ op @ '' '' @ op_text b @ s)))
    (comparison_node op (op_node a) (op_node b)) (pre @ op_text a @ '' '' @ op @ '' '' @ op_text b) s"
proof -
  let ?s1 = "op @ '' '' @ op_text b @ s"
  obtain c t where c: "op = c # t" "\<not> is_ws_char c"
    using operators_start [unfolded list_all_iff, rule_format, OF assms(3)] by (cases op) auto
  have "\<not> at_macro (facing pre (op_text a @ '' '' @ ?s1))"
    using op_text_starts [OF assms(1), of "'' '' @ ?s1"] by (auto simp: starts_operand_def)
  moreover have "parseOperand (facing pre (op_text a @ '' '' @ ?s1)) = POk (op_node a) (facing (pre @ op_text a) ('' '' @ ?s1))"
    using assms(1) by (intro parseOperand_facing) simp_all
  moreover have "skipWhitespace (facing (pre @ op_text a) ('' '' @ ?s1)) = facing (pre @ op_text a @ '' '') ?s1"
    using c by (simp add: skip_space)
  moreover have "consumeToken op (facing (pre @ op_text a @ '' '') ?s1) = POk () (facing (pre @ op_text a @ '' '' @ op) ('' '' @ op_text b @ s))"
    using consumeToken_at [of op "pre @ op_text a @ '' ''" op "'' '' @ op_text b @ s"] by (simp add: peekToken_at)
  moreover have "skipWhitespace (facing (pre @ op_text a @ '' '' @ op) ('' '' @ op_text b @ s)) =
      facing (pre @ op_text a @ '' '' @ op @ '' '') (op_text b @ s)"
    using op_text_starts [OF assms(2) stop_and_ends [OF assms(4)]]
    by (cases "op_text b @ s") (auto simp: starts_operand_def skip_space)
  ultimately show ?thesis
    using operator_found [OF assms(3), of "pre @ op_text a @ '' ''" "op_text b @ s"]
      parseOperand_facing [OF assms(2) stop_and_ends [OF assms(4)], of "pre @ op_text a @ '' '' @ op @ '' ''"]
    by (simp add: reads_def parse_comparison_tail_def)
qed

lemma comparison_macro:
  assumes "ident m" "is_macro_name m" "stop_and s"
  shows "reads (parse_comparison_tail (facing pre (m @ s))) (macro_node m) (pre @ m) s"
  using assms ends_operand_word [OF stop_and_ends, of s]
  by (simp add: reads_def parse_comparison_tail_def at_macro_word ident_def parseIdentifier_facing)


subsection \<open>The recursion\<close>

lemma fuel_mono:
  assumes "n \<le> m"
  shows "parseExpression n p = POk a q \<Longrightarrow> parseExpression m p = POk a q"
    and "or_loop n l p = POk a q \<Longrightarrow> or_loop m l p = POk a q"
    and "parseAndExpression n p = POk a q \<Longrightarrow> parseAndExpression m p = POk a q"
    and "and_loop n l p = POk a q \<Longrightarrow> and_loop m l p = POk a q"
    and "parseNotExpression n p = POk a q \<Longrightarrow> parseNotExpression m p = POk a q"
    and "parseComparison n p = POk a q \<Longrightarrow> parseComparison m p = POk a q"
  using assms
  by (induction m rule: dec_induct, simp, metis fuel_Suc pres.distinct(5))+

text \<open>Reading a text with some recursion bound, and a loop going on behind it.\<close>

definition reads_not :: "filt \<Rightarrow> bool" where
  "reads_not e \<longleftrightarrow> (\<forall>pre s. stop_and s \<longrightarrow>
     (\<exists>n. reads (parseNotExpression n (facing pre (filt_text 2 e @ s))) (filt_node e) (pre @ filt_text 2 e) s))"

definition reads_and :: "filt \<Rightarrow> bool" where
  "reads_and e \<longleftrightarrow> (\<forall>pre s n a p. stop_and s \<longrightarrow>
     and_loop n (filt_node e) (skipWhitespace (facing (pre @ filt_text 1 e) s)) = POk a p \<longrightarrow>
     (\<exists>m. parseAndExpression m (facing pre (filt_text 1 e @ s)) = POk a p))"

definition reads_or :: "filt \<Rightarrow> bool" where
  "reads_or e \<longleftrightarrow> (\<forall>pre s n a p. stop_or s \<longrightarrow>
     or_loop n (filt_node e) (skipWhitespace (facing (pre @ filt_text 0 e) s)) = POk a p \<longrightarrow>
     (\<exists>m. parseExpression m (facing pre (filt_text 0 e @ s)) = POk a p))"

lemma reads_andI:
  assumes "reads_not e" "filt_text 1 e = filt_text 2 e"
  shows "reads_and e"
  unfolding reads_and_def
proof (intro allI impI)
  fix pre s n a p
  assume stop: "stop_and s" and loop: "and_loop n (filt_node e) (skipWhitespace (facing (pre @ filt_text 1 e) s)) = POk a p"
  then obtain k q where q: "parseNotExpression k (facing pre (filt_text 1 e @ s)) = POk (filt_node e) q"
    "skipWhitespace q = skipWhitespace (facing (pre @ filt_text 1 e) s)"
    using assms unfolding reads_not_def reads_def by metis
  then have "parseAndExpression (Suc (max k n)) (facing pre (filt_text 1 e @ s)) = POk a p"
    using fuel_mono(5) [OF max.cobounded1 q(1), of n] fuel_mono(4) [OF max.cobounded2 loop, of k]
    by (simp add: recursion_simps)
  then show "\<exists>m. parseAndExpression m (facing pre (filt_text 1 e @ s)) = POk a p" ..
qed

lemma and_loop_stop:
  assumes "stop_or s"
  shows "and_loop (Suc n) l (skipWhitespace (facing pre s)) = POk l (skipWhitespace (facing pre s))"
  using assms unfolding stop_or_def
  by (auto simp: and_loop.simps skip_space skip_nonws skipWhitespace_at peekToken_at equal_fold_def)

lemma or_loop_stop:
  "or_loop (Suc n) l (facing pre []) = POk l (facing pre [])"
  "or_loop (Suc n) l (facing pre (CHR '')'' # s)) = POk l (facing pre (CHR '')'' # s))"
  by (auto simp: or_loop.simps dest: peekToken_first)

lemma reads_orI:
  assumes "reads_and e" "filt_text 0 e = filt_text 1 e"
  shows "reads_or e"
  unfolding reads_or_def
proof (intro allI impI)
  fix pre s n a p
  assume stop: "stop_or s" and loop: "or_loop n (filt_node e) (skipWhitespace (facing (pre @ filt_text 0 e) s)) = POk a p"
  let ?q = "skipWhitespace (facing (pre @ filt_text 1 e) s)"
  obtain k where k: "parseAndExpression k (facing pre (filt_text 1 e @ s)) = POk (filt_node e) ?q"
    using assms(1) stop and_loop_stop [OF stop] unfolding reads_and_def stop_and_def by blast
  have "parseExpression (Suc (max k n)) (facing pre (filt_text 0 e @ s)) = POk a p"
    using fuel_mono(3) [OF max.cobounded1 k, of n] fuel_mono(2) [OF max.cobounded2 loop, of k] assms(2)
    by (simp add: recursion_simps)
  then show "\<exists>m. parseExpression m (facing pre (filt_text 0 e @ s)) = POk a p" ..
qed

lemma not_atom:
  assumes "t \<noteq> []" "\<not> is_ws_char (hd t)" "hd t \<noteq> CHR ''(''" "\<not> peekToken ''NOT'' (facing pre t)"
  shows "parseNotExpression 2 (facing pre t) = parse_comparison_tail (facing pre t)"
  using assms by (cases t) (auto simp: recursion_simps eval_nat_numeral skip_nonws)

lemma starts_macro:
  assumes "ident m" "is_macro_name m" "ends_word s"
  shows "m @ s \<noteq> [] \<and> \<not> is_ws_char (hd (m @ s)) \<and> hd (m @ s) \<noteq> CHR ''('' \<and> \<not> peekToken ''NOT'' (facing pre (m @ s))"
  using assms peekToken_word [of m s "''NOT''" pre]
  by (cases m) (auto simp: ident_def ident_not_ws is_macro_name_def dest: equal_fold_length)

lemma reads_not_test: "op_ok a \<Longrightarrow> reads_not (Test a)"
  unfolding reads_not_def
  using comparison_test op_text_starts not_atom stop_and_ends unfolding starts_operand_def
  by (metis filt_node.simps(1) filt_text.simps(1))

lemma reads_not_cmp:
  assumes "op_ok a" "op_ok b" "op \<in> set operators"
  shows "reads_not (Cmp op a b)"
  unfolding reads_not_def
proof (intro allI impI)
  fix pre s assume "stop_and s"
  moreover have "starts_operand (op_text a @ '' '' @ op @ '' '' @ op_text b @ s)"
    using op_text_starts [OF assms(1), of "'' '' @ op @ '' '' @ op_text b @ s"] by simp
  ultimately show "\<exists>n. reads (parseNotExpression n (facing pre (filt_text 2 (Cmp op a b) @ s)))
      (filt_node (Cmp op a b)) (pre @ filt_text 2 (Cmp op a b)) s"
    using comparison_cmp [OF assms, of s pre] not_atom [of "op_text a @ '' '' @ op @ '' '' @ op_text b @ s" pre]
    by (intro exI [of _ 2]) (simp add: starts_operand_def)
qed

lemma reads_not_macro:
  assumes "ident m" "is_macro_name m"
  shows "reads_not (MacroF m)"
  unfolding reads_not_def
proof (intro allI impI)
  fix pre s assume s: "stop_and s"
  then have "ends_word s" by (simp add: stop_and_ends ends_operand_word)
  with assms s show "\<exists>n. reads (parseNotExpression n (facing pre (filt_text 2 (MacroF m) @ s)))
      (filt_node (MacroF m)) (pre @ filt_text 2 (MacroF m)) s"
    using comparison_macro [OF assms s, of pre] not_atom [of "m @ s" pre] starts_macro [OF assms, of s pre]
    by (intro exI [of _ 2]) simp
qed

lemma reads_not_paren:
  assumes "reads_or e" "filt_text 2 e = ''('' @ filt_text 0 e @ '')''"
  shows "reads_not e"
  unfolding reads_not_def
proof (intro allI impI)
  fix pre s assume "stop_and s"
  let ?pre = "pre @ ''('' @ filt_text 0 e"
  let ?s = "CHR '')'' # s"
  have "or_loop 1 (filt_node e) (skipWhitespace (facing ?pre ?s)) = POk (filt_node e) (facing ?pre ?s)"
    using or_loop_stop(2) [of 0] by (simp add: skip_nonws)
  then obtain m where "parseExpression m (facing (pre @ ''('') (filt_text 0 e @ ?s)) = POk (filt_node e) (facing ?pre ?s)"
    using assms(1) unfolding reads_or_def stop_or_def by (metis append.assoc)
  then have "parseNotExpression (Suc (Suc m)) (facing pre (filt_text 2 e @ s)) = POk (filt_node e) (facing (?pre @ '')'') s)"
    using assms(2) by (auto simp: recursion_simps skip_nonws Let_def dest!: peekToken_first)
  then show "\<exists>n. reads (parseNotExpression n (facing pre (filt_text 2 e @ s))) (filt_node e) (pre @ filt_text 2 e) s"
    unfolding reads_def using assms(2) by (intro exI [of _ "Suc (Suc m)"]) simp
qed

lemma parseNot_space: "parseNotExpression n (facing pre (CHR '' '' # s)) = parseNotExpression n (facing (pre @ '' '') s)"
  by (cases n) (simp_all add: recursion_simps skipWhitespace_at)

lemma reads_not_not:
  assumes "reads_not e"
  shows "reads_not (FNot e)"
  unfolding reads_not_def
proof (intro allI impI)
  fix pre s assume s: "stop_and s"
  let ?t = "CHR '' '' # filt_text 2 e @ s"
  obtain n p where p: "parseNotExpression n (facing (pre @ ''NOT '') (filt_text 2 e @ s)) = POk (filt_node e) p"
    "skipWhitespace p = skipWhitespace (facing (pre @ ''NOT '' @ filt_text 2 e) s)"
    using assms s unfolding reads_not_def reads_def by (metis append.assoc)
  have tok: "peekToken ''NOT'' (facing pre (''NOT'' @ ?t))" by (simp add: peekToken_at)
  have "parseNotExpression (Suc n) (facing pre (''NOT'' @ ?t)) = POk (not_node (filt_node e)) p"
    using tok consumeToken_at [OF tok refl] p(1) parseNot_space [of n "pre @ ''NOT''"]
    by (simp add: recursion_simps skip_nonws)
  then show "\<exists>n. reads (parseNotExpression n (facing pre (filt_text 2 (FNot e) @ s))) (filt_node (FNot e)) (pre @ filt_text 2 (FNot e)) s"
    unfolding reads_def using p(2) by (intro exI [of _ "Suc n"]) simp
qed

lemma reads_and_and:
  assumes "reads_and x" "reads_not y"
  shows "reads_and (FAnd x y)"
  unfolding reads_and_def
proof (intro allI impI)
  fix pre s n a p
  assume s: "stop_and s"
    and loop: "and_loop n (filt_node (FAnd x y)) (skipWhitespace (facing (pre @ filt_text 1 (FAnd x y)) s)) = POk a p"
  let ?x = "filt_text 1 x" and ?y = "filt_text 2 y"
  obtain k q where q: "parseNotExpression k (facing (pre @ ?x @ '' AND '') (?y @ s)) = POk (filt_node y) q"
    "skipWhitespace q = skipWhitespace (facing (pre @ ?x @ '' AND '' @ ?y) s)"
    using assms(2) s unfolding reads_not_def reads_def by (metis append.assoc)
  let ?t = "''AND'' @ CHR '' '' # ?y @ s"
  have tok: "peekToken ''AND'' (facing (pre @ ?x @ '' '') ?t)" by (simp add: peekToken_at)
  have "and_loop (Suc (max k n)) (filt_node x) (facing (pre @ ?x @ '' '') ?t) = POk a p"
    using tok consumeToken_at [OF tok refl] fuel_mono(5) [OF max.cobounded1 q(1), of n] q(2)
      fuel_mono(4) [OF max.cobounded2 loop, of k] parseNot_space [of "max k n" "pre @ ?x @ '' AND''"]
    by (simp add: recursion_simps paren_def)
  then have "and_loop (Suc (max k n)) (filt_node x) (skipWhitespace (facing (pre @ ?x) ('' AND '' @ ?y @ s))) = POk a p"
    by (simp add: skip_space)
  then show "\<exists>m. parseAndExpression m (facing pre (filt_text 1 (FAnd x y) @ s)) = POk a p"
    using assms(1) unfolding reads_and_def by (simp add: paren_def stop_and_def)
qed

lemma parseAnd_space: "parseAndExpression n (facing pre (CHR '' '' # s)) = parseAndExpression n (facing (pre @ '' '') s)"
  by (cases n) (simp_all add: recursion_simps parseNot_space)

lemma reads_or_or:
  assumes "reads_or x" "reads_and y"
  shows "reads_or (FOr x y)"
  unfolding reads_or_def
proof (intro allI impI)
  fix pre s n a p
  assume s: "stop_or s"
    and loop: "or_loop n (filt_node (FOr x y)) (skipWhitespace (facing (pre @ filt_text 0 (FOr x y)) s)) = POk a p"
  let ?x = "filt_text 0 x" and ?y = "filt_text 1 y"
  let ?q = "skipWhitespace (facing (pre @ ?x @ '' OR '' @ ?y) s)"
  obtain k where q: "parseAndExpression k (facing (pre @ ?x @ '' OR '') (?y @ s)) = POk (filt_node y) ?q"
    using assms(2) s and_loop_stop [OF s, of 0 "filt_node y" "pre @ ?x @ '' OR '' @ ?y"]
    unfolding reads_and_def stop_and_def by (metis append.assoc)
  let ?t = "''OR'' @ CHR '' '' # ?y @ s"
  have tok: "peekToken ''OR'' (facing (pre @ ?x @ '' '') ?t)" by (simp add: peekToken_at)
  have "or_loop (Suc (max k n)) (filt_node x) (facing (pre @ ?x @ '' '') ?t) = POk a p"
    using tok consumeToken_at [OF tok refl] fuel_mono(3) [OF max.cobounded1 q, of n]
      fuel_mono(2) [OF max.cobounded2 loop, of k] parseAnd_space [of "max k n" "pre @ ?x @ '' OR''"]
    by (simp add: recursion_simps paren_def)
  then have "or_loop (Suc (max k n)) (filt_node x) (skipWhitespace (facing (pre @ ?x) ('' OR '' @ ?y @ s))) = POk a p"
    by (simp add: skip_space)
  then show "\<exists>m. parseExpression m (facing pre (filt_text 0 (FOr x y) @ s)) = POk a p"
    using assms(1) unfolding reads_or_def by (simp add: paren_def stop_or_def)
qed

lemma reads_filt: "filt_ok e \<Longrightarrow> reads_not e \<and> reads_and e \<and> reads_or e"
proof (induction e)
  case (FAnd x y)
  then have "reads_and (FAnd x y)" by (simp add: reads_and_and)
  moreover from this have "reads_or (FAnd x y)" by (rule reads_orI) (simp add: paren_def)
  ultimately show ?case using reads_not_paren [of "FAnd x y"] by (simp add: paren_def)
next
  case (FOr x y)
  then have or: "reads_or (FOr x y)" by (simp add: reads_or_or)
  then have "reads_not (FOr x y)" by (rule reads_not_paren) (simp add: paren_def)
  with or reads_andI show ?case by (simp add: paren_def)
qed (auto simp: reads_not_test reads_not_cmp reads_not_macro reads_not_not intro!: reads_andI reads_orI)

lemma filt_text_nonempty: "filt_ok e \<Longrightarrow> filt_text k e \<noteq> []"
  using op_text_starts [of _ "[]"]
  by (induction e arbitrary: k) (auto simp: starts_operand_def paren_def ident_def)

lemma parseExpression_stable:
  assumes "n \<le> m" "parseExpression n p \<noteq> PFuel"
  shows "parseExpression m p = parseExpression n p"
  using assms by (induction m rule: dec_induct) (auto simp: fuel_Suc)

lemma parse_printed:
  assumes "filt_ok e"
  shows "parse \<lparr>expression = filt_text 0 e, pos = 0\<rparr> =
    POk (filt_node e) \<lparr>expression = filt_text 0 e, pos = length (filt_text 0 e)\<rparr>"
proof -
  let ?t = "filt_text 0 e" and ?p = "\<lparr>expression = filt_text 0 e, pos = 0\<rparr>"
  let ?n = "4 * length ?t + 5" and ?q = "facing ?t []"
  have p: "facing [] ?t = ?p" by (simp add: facing_def)
  have q: "skipWhitespace ?q = ?q" by (simp add: skipWhitespace_at)
  have "or_loop 1 (filt_node e) (skipWhitespace (facing ([] @ ?t) [])) = POk (filt_node e) ?q"
    using or_loop_stop(1) [of 0 "filt_node e" ?t] q by simp
  then obtain m where "parseExpression m (facing [] (?t @ [])) = POk (filt_node e) ?q"
    using reads_filt [OF assms] unfolding reads_or_def stop_or_def by blast
  then have m: "parseExpression m ?p = POk (filt_node e) ?q" by (simp add: p)
  have "parseExpression ?n ?p \<noteq> PFuel"
    using safe_parseExpression [of ?p ?n] by auto
  then have "parseExpression ?n ?p = parseExpression (max m ?n) ?p"
    using parseExpression_stable [of ?n "max m ?n"] by simp
  also have "\<dots> = POk (filt_node e) ?q" using fuel_mono(1) [OF max.cobounded1 m] .
  finally have "parseExpression ?n ?p = POk (filt_node e) ?q" .
  with filt_text_nonempty [OF assms, of 0] show ?thesis by (simp add: parse_def q)
qed


text \<open>C7. Round trip of the filter language: a filter printed with the fewest parentheses (OR binds weaker
  than AND, AND weaker than NOT, both connectives associate to the left, string literals escaped) is
  read back as its own tree. The side conditions name what the language cannot express: fields that
  look like keywords, macros or numbers, and non-ASCII characters in literals.\<close>

theorem parse_filt_text:
  assumes "filt_ok e"
  shows "parse \<lparr>expression = filt_text 0 e, pos = 0\<rparr> =
    POk (filt_node e) \<lparr>expression = filt_text 0 e, pos = length (filt_text 0 e)\<rparr>"
  using assms by (rule parse_printed)

theorem parse_filt_text_witness:
  "filt_ok (FAnd (Cmp ''='' (FieldOp [''spec'', ''severity'']) (StrOp ''HIGH''))
                 (FNot (FOr (MacroF ''is_high'') (Cmp ''IN'' (FieldOp [''spec'', ''category'']) (ListOp [''a'', ''b''])))))
   \<and> (\<exists>p. parse \<lparr>expression = ''spec.severity = '' @ quoted ''HIGH'' @ '' AND NOT (is_high OR spec.category IN ['' @
          quoted ''a'' @ '', '' @ quoted ''b'' @ ''])'', pos = 0\<rparr> =
        POk (binary_node ''AND''
          (comparison_node ''='' (field_node ''spec.severity'') (literal_node (VStr ''HIGH'')))
          (not_node (binary_node ''OR'' (macro_node ''is_high'')
             (comparison_node ''IN'' (field_node ''spec.category'') (literal_node (VList [VStr ''a'', VStr ''b''])))))) p)"
proof -
  let ?e = "FAnd (Cmp ''='' (FieldOp [''spec'', ''severity'']) (StrOp ''HIGH''))
                 (FNot (FOr (MacroF ''is_high'') (Cmp ''IN'' (FieldOp [''spec'', ''category'']) (ListOp [''a'', ''b'']))))"
  have ok: "filt_ok ?e" by code_simp
  show ?thesis
    using ok parse_filt_text [OF ok] by (simp add: paren_def del: filt_ok.simps)
qed

lemma f64_neg_neg [simp]: "f64_neg (f64_neg x) = x"
  by (cases x) auto

lemma parse_float_minus:
  assumes "ds \<noteq> []" "list_all (\<lambda>c. is_digit_char c \<or> c = CHR ''.'') ds"
  shows "parse_float (CHR ''-'' # ds) = map_option f64_neg (parse_float ds)"
proof -
  obtain d ds' where d: "ds = d # ds'" using assms by (cases ds) auto
  have s: "strip_sign (CHR ''-'' # ds) = (True, ds)" "strip_sign ds = (False, ds)"
    using assms d by (auto simp: strip_sign_def in_range_def byte_of_def)
  have "to_lower_char c = c" if "is_digit_char c \<or> c = CHR ''.''" for c
    using that by (auto simp: to_lower_char_def in_range_def byte_of_def)
  then have l: "to_lower ds = ds" using assms unfolding to_lower_def
    by (intro map_idI) (auto simp: list_all_iff)
  have n: "ds \<noteq> ''inf''" "ds \<noteq> ''infinity''" "ds \<noteq> ''nan''" "CHR ''_'' \<notin> set ds"
    using assms by (auto simp: list_all_iff in_range_def byte_of_def)
  have m: "to_lower_char CHR ''-'' = CHR ''-''" by code_simp
  show ?thesis
    using n by (simp add: parse_float_def s l m Let_def split: option.splits)
qed

text \<open>The sign of a negative number literal is lost: the minus is part of the text handed to
  \<^verbatim>\<open>ParseFloat\<close> and the result is negated once more, so a literal \<open>-n\<close> denotes \<open>n\<close>.\<close>

theorem negative_literal_sign_lost:
  assumes "op_ok (NumOp ds)" "ends_operand rest"
  shows "parseNumber (facing pre (''-'' @ ds @ rest)) = POk (op_node (NumOp ds)) (facing (pre @ ''-'' @ ds) rest)"
proof -
  let ?f = "\<lambda>c. is_digit_char c \<or> c = CHR ''.''"
  have "advance_while ?f (facing (pre @ ''-'') (ds @ rest)) = facing (pre @ ''-'' @ ds) rest"
    using assms advance_while_all [of ?f ds rest "pre @ ''-''"] by (cases rest) (auto simp: is_ident_char_def)
  with assms slice_at [of pre "''-'' @ ds" rest] show ?thesis
    by (auto simp: parseNumber_def parse_float_minus)
qed

theorem negative_literal_sign_lost_witness:
  "op_ok (NumOp ''5'') \<and> ends_operand '' AND'' \<and>
   parseNumber (facing [] ''-5 AND'') = POk (literal_node (VFloat (Fin 5))) (facing ''-5'' '' AND'')"
proof -
  have ok: "op_ok (NumOp ''5'')" "ends_operand '' AND''" by code_simp+
  moreover have "parse_float ''5'' = Some (Fin 5)" by code_simp
  ultimately show ?thesis
    using negative_literal_sign_lost [OF ok, of "[]"] by (simp del: op_ok.simps)
qed

end
