(* ===== verification/Filter_Eval.thy ===== *)
theory Filter_Eval
  imports Filter_Roundtrip
begin

text \<open>
  The evaluator of filter expressions, \<^verbatim>\<open>pkg/filter/expression.go\<close>: \<open>Evaluate\<close> and the helpers it is made
  of. An observation is its \<^verbatim>\<open>Object\<close> map; a returned error is an \<open>eval_err\<close>.

  Main results: on trees the parser builds, the only evaluation errors are unknown macros and
  connectives applied to something that is no boolean; for filters whose leaves are comparisons the
  whole chain of parsing and evaluating computes the boolean meaning of the filter; severities are
  compared by rank whatever their letter case.
\<close>

datatype eval_err =
    MissingOperands string
  | UnknownMacro string
  | UnknownOperator string
  | NonBooleanOperand
  | NonBooleanResult

section \<open>Values\<close>

definition getFieldValue :: "string \<Rightarrow> obj \<Rightarrow> val" where
  "getFieldValue fieldPath obs =
     (case walk (VMap obs) (split_on CHR ''.'' fieldPath) of None \<Rightarrow> VNil | Some v \<Rightarrow> v)"

definition toString :: "val \<Rightarrow> string" where
  "toString v = (case v of VNil \<Rightarrow> [] | VStr s \<Rightarrow> s | _ \<Rightarrow> fmt_v v)"

definition toNumber :: "val \<Rightarrow> f64 option" where
  "toNumber v = (case v of
       VFloat x \<Rightarrow> Some x
     | VInt n \<Rightarrow> Some (f64_of_int n)
     | VInt64 n \<Rightarrow> Some (f64_of_int n)
     | VStr s \<Rightarrow> parse_float s
     | _ \<Rightarrow> None)"

definition severityLevels :: "(string \<times> int) list" where
  "severityLevels = [(''CRITICAL'', 5), (''HIGH'', 4), (''MEDIUM'', 3), (''LOW'', 2), (''UNKNOWN'', 1)]"

definition isSeverity :: "val \<Rightarrow> bool" where
  "isSeverity v \<longleftrightarrow> to_upper (toString v) \<in> set [''CRITICAL'', ''HIGH'', ''MEDIUM'', ''LOW'', ''UNKNOWN'']"

definition level :: "string \<Rightarrow> int" where
  "level s = (case map_of severityLevels s of None \<Rightarrow> 0 | Some n \<Rightarrow> n)"

definition compareSeverity :: "val \<Rightarrow> val \<Rightarrow> int" where
  "compareSeverity left right = level (to_upper (toString left)) - level (to_upper (toString right))"

section \<open>Comparisons\<close>

definition compareEqual :: "val \<Rightarrow> val \<Rightarrow> bool" where
  "compareEqual left right =
     (if left = VNil \<and> right = VNil then True
      else if left = VNil \<or> right = VNil then False
      else equal_fold (toString left) (toString right))"

definition compareGreater :: "val \<Rightarrow> val \<Rightarrow> bool" where
  "compareGreater left right =
     (case (toNumber left, toNumber right) of
        (Some x, Some y) \<Rightarrow> f64_greater x y
      | _ \<Rightarrow> if isSeverity left \<and> isSeverity right then 0 < compareSeverity left right
             else toString right < toString left)"

definition compareIn :: "val \<Rightarrow> val \<Rightarrow> bool" where
  "compareIn v l = (case as_list l of None \<Rightarrow> False | Some vs \<Rightarrow> list_ex (compareEqual v) vs)"

definition compareContains :: "val \<Rightarrow> val \<Rightarrow> bool" where
  "compareContains s t = contains_str (to_lower (toString s)) (to_lower (toString t))"

definition compareStartsWith :: "val \<Rightarrow> val \<Rightarrow> bool" where
  "compareStartsWith s t = has_prefix (to_lower (toString s)) (to_lower (toString t))"

definition compareEndsWith :: "val \<Rightarrow> val \<Rightarrow> bool" where
  "compareEndsWith s t = has_suffix (to_lower (toString s)) (to_lower (toString t))"

definition evaluateEqualityOperator :: "string \<Rightarrow> val \<Rightarrow> val \<Rightarrow> eval_err + bool" where
  "evaluateEqualityOperator op l r =
     Inr (if op = ''!='' then \<not> compareEqual l r else compareEqual l r)"

definition evaluateNumericComparisonOperator :: "string \<Rightarrow> val \<Rightarrow> val \<Rightarrow> eval_err + bool" where
  "evaluateNumericComparisonOperator op l r =
     (if op = ''>'' then Inr (compareGreater l r)
      else if op = ''>='' then Inr (compareEqual l r \<or> compareGreater l r)
      else if op = ''<'' then Inr (compareGreater r l)
      else if op = ''<='' then Inr (compareEqual l r \<or> compareGreater r l)
      else Inl (UnknownOperator op))"

definition evaluateInOperator :: "string \<Rightarrow> val \<Rightarrow> val \<Rightarrow> eval_err + bool" where
  "evaluateInOperator op l r = Inr (if op = ''NOT IN'' then \<not> compareIn l r else compareIn l r)"

definition evaluateStringOperator :: "string \<Rightarrow> val \<Rightarrow> val \<Rightarrow> eval_err + bool" where
  "evaluateStringOperator op l r =
     (if op = ''CONTAINS'' then Inr (compareContains l r)
      else if op = ''STARTS_WITH'' then Inr (compareStartsWith l r)
      else if op = ''ENDS_WITH'' then Inr (compareEndsWith l r)
      else Inl (UnknownOperator op))"

definition evaluateExistenceOperator :: "string \<Rightarrow> val \<Rightarrow> eval_err + bool" where
  "evaluateExistenceOperator op l = Inr (if op = ''NOT EXISTS'' then \<not> l \<noteq> VNil else l \<noteq> VNil)"

definition evaluateComparisonOperator :: "string \<Rightarrow> val \<Rightarrow> val \<Rightarrow> eval_err + bool" where
  "evaluateComparisonOperator op l r =
     (if op \<in> {''='', ''!=''} then evaluateEqualityOperator op l r
      else if op \<in> {''>'', ''>='', ''<'', ''<=''} then evaluateNumericComparisonOperator op l r
      else if op \<in> {''IN'', ''NOT IN''} then evaluateInOperator op l r
      else if op \<in> {''CONTAINS'', ''STARTS_WITH'', ''ENDS_WITH''} then evaluateStringOperator op l r
      else if op \<in> {''EXISTS'', ''NOT EXISTS''} then evaluateExistenceOperator op l
      else Inl (UnknownOperator op))"

definition evaluateMacro :: "string \<Rightarrow> obj \<Rightarrow> eval_err + bool" where
  "evaluateMacro macroName obs =
     (if macroName = ''is_critical'' then Inr (compareEqual (getFieldValue ''spec.severity'' obs) (VStr ''CRITICAL''))
      else if macroName = ''is_high'' then Inr (compareEqual (getFieldValue ''spec.severity'' obs) (VStr ''HIGH''))
      else if macroName = ''is_security'' then Inr (compareEqual (getFieldValue ''spec.category'' obs) (VStr ''security''))
      else if macroName = ''is_compliance'' then Inr (compareEqual (getFieldValue ''spec.category'' obs) (VStr ''compliance''))
      else Inl (UnknownMacro macroName))"

section \<open>The recursion over the tree\<close>

fun ebind :: "'e + 'a \<Rightarrow> ('a \<Rightarrow> 'e + 'b) \<Rightarrow> 'e + 'b" where
  "ebind (Inl e) f = Inl e"
| "ebind (Inr a) f = f a"

lemma ebind_cong [fundef_cong]:
  "m = m' \<Longrightarrow> (\<And>a. m' = Inr a \<Longrightarrow> f a = f' a) \<Longrightarrow> ebind m f = ebind m' f'"
  by (cases m') auto

abbreviation boolean :: "eval_err + bool \<Rightarrow> eval_err + val" where
  "boolean r \<equiv> ebind r (\<lambda>b. Inr (VBool b))"

lemma size_ASTNode_child [termination_simp]:
  "Left n = Some a \<Longrightarrow> size a < size n" "Right n = Some a \<Longrightarrow> size a < size n"
  by (cases n; simp)+

function evaluateNode :: "ASTNode \<Rightarrow> obj \<Rightarrow> eval_err + val"
and evaluateComparison :: "ASTNode \<Rightarrow> obj \<Rightarrow> eval_err + bool"
and evaluateLogicalOperator :: "ASTNode \<Rightarrow> obj \<Rightarrow> eval_err + bool"
and evaluateAND :: "ASTNode \<Rightarrow> obj \<Rightarrow> eval_err + bool"
and evaluateOR :: "ASTNode \<Rightarrow> obj \<Rightarrow> eval_err + bool"
and evaluateNOT :: "ASTNode \<Rightarrow> obj \<Rightarrow> eval_err + bool" where
  "evaluateNode node obs =
     (case NType node of
        NodeTypeLiteral \<Rightarrow> Inr (NValue node)
      | NodeTypeField \<Rightarrow> Inr (getFieldValue (NField node) obs)
      | NodeTypeComparison \<Rightarrow> boolean (evaluateComparison node obs)
      | NodeTypeLogical \<Rightarrow> boolean (evaluateLogicalOperator node obs)
      | NodeTypeMacro \<Rightarrow> boolean (evaluateMacro (NField node) obs))"
| "evaluateComparison node obs =
     (case (Left node, Right node) of
        (Some l, Some r) \<Rightarrow>
          ebind (evaluateNode l obs) (\<lambda>leftVal.
            ebind (evaluateNode r obs) (\<lambda>rightVal.
              evaluateComparisonOperator (Operator node) leftVal rightVal))
      | _ \<Rightarrow> Inl (MissingOperands ''comparison''))"
| "evaluateLogicalOperator node obs =
     (if Operator node = ''AND'' then evaluateAND node obs
      else if Operator node = ''OR'' then evaluateOR node obs
      else if Operator node = ''NOT'' then evaluateNOT node obs
      else Inl (UnknownOperator (Operator node)))"
| "evaluateAND node obs =
     (case (Left node, Right node) of
        (Some l, Some r) \<Rightarrow>
          ebind (evaluateNode l obs) (\<lambda>leftVal.
            if as_bool leftVal = Some False then Inr False
            else ebind (evaluateNode r obs) (\<lambda>rightVal.
              case as_bool rightVal of Some b \<Rightarrow> Inr b | None \<Rightarrow> Inl NonBooleanOperand))
      | _ \<Rightarrow> Inl (MissingOperands ''AND''))"
| "evaluateOR node obs =
     (case (Left node, Right node) of
        (Some l, Some r) \<Rightarrow>
          ebind (evaluateNode l obs) (\<lambda>leftVal.
            if as_bool leftVal = Some True then Inr True
            else ebind (evaluateNode r obs) (\<lambda>rightVal.
              case as_bool rightVal of Some b \<Rightarrow> Inr b | None \<Rightarrow> Inl NonBooleanOperand))
      | _ \<Rightarrow> Inl (MissingOperands ''OR''))"
| "evaluateNOT node obs =
     (case Left node of
        Some l \<Rightarrow>
          ebind (evaluateNode l obs) (\<lambda>leftVal.
            case as_bool leftVal of Some b \<Rightarrow> Inr (\<not> b) | None \<Rightarrow> Inl NonBooleanOperand)
      | None \<Rightarrow> Inl (MissingOperands ''NOT''))"
  by pat_completeness auto
termination
  by (relation "measures [
      case_sum (case_sum (\<lambda>(n, _). size n) (case_sum (\<lambda>(n, _). size n) (\<lambda>(n, _). size n)))
        (case_sum (\<lambda>(n, _). size n) (case_sum (\<lambda>(n, _). size n) (\<lambda>(n, _). size n))),
      case_sum (case_sum (\<lambda>_. 2) (case_sum (\<lambda>_. 0) (\<lambda>_. 1))) (\<lambda>_. 0)]")
    (auto simp: size_ASTNode_child)

definition Evaluate :: "ExpressionFilter option \<Rightarrow> obj \<Rightarrow> eval_err + bool" where
  "Evaluate ef obs =
     (case ef of None \<Rightarrow> Inr True
      | Some f \<Rightarrow> (case ef_ast f of None \<Rightarrow> Inr True
          | Some ast \<Rightarrow> ebind (evaluateNode ast obs) (\<lambda>result.
              case as_bool result of Some b \<Rightarrow> Inr b | None \<Rightarrow> Inl NonBooleanResult)))"

declare evaluateNode.simps [simp del] evaluateComparison.simps [simp del] evaluateLogicalOperator.simps [simp del]
  evaluateAND.simps [simp del] evaluateOR.simps [simp del] evaluateNOT.simps [simp del]

lemma evaluate_nodes:
  "evaluateNode (literal_node v) obs = Inr v"
  "evaluateNode (field_node f) obs = Inr (getFieldValue f obs)"
  "evaluateNode (macro_node m) obs = boolean (evaluateMacro m obs)"
  "evaluateNode (comparison_node op l r) obs =
     ebind (evaluateNode l obs) (\<lambda>a. ebind (evaluateNode r obs) (\<lambda>b. boolean (evaluateComparisonOperator op a b)))"
  "evaluateNode (binary_node ''AND'' l r) obs =
     ebind (evaluateNode l obs) (\<lambda>a. if as_bool a = Some False then Inr (VBool False)
       else ebind (evaluateNode r obs) (\<lambda>b. case as_bool b of Some c \<Rightarrow> Inr (VBool c) | None \<Rightarrow> Inl NonBooleanOperand))"
  "evaluateNode (binary_node ''OR'' l r) obs =
     ebind (evaluateNode l obs) (\<lambda>a. if as_bool a = Some True then Inr (VBool True)
       else ebind (evaluateNode r obs) (\<lambda>b. case as_bool b of Some c \<Rightarrow> Inr (VBool c) | None \<Rightarrow> Inl NonBooleanOperand))"
  "evaluateNode (not_node l) obs =
     ebind (evaluateNode l obs) (\<lambda>a. case as_bool a of Some c \<Rightarrow> Inr (VBool (\<not> c)) | None \<Rightarrow> Inl NonBooleanOperand)"
  by (subst evaluateNode.simps; cases "evaluateNode l obs"; cases "evaluateNode r obs";
      auto simp: evaluateComparison.simps evaluateLogicalOperator.simps evaluateAND.simps
        evaluateOR.simps evaluateNOT.simps split: option.splits)+

section \<open>Errors of well-formed trees\<close>

definition known_macros :: "string list" where
  "known_macros = [''is_critical'', ''is_high'', ''is_security'', ''is_compliance'']"

fun expected_err :: "eval_err \<Rightarrow> bool" where
  "expected_err (UnknownMacro m) \<longleftrightarrow> m \<notin> set known_macros"
| "expected_err NonBooleanOperand \<longleftrightarrow> True"
| "expected_err NonBooleanResult \<longleftrightarrow> True"
| "expected_err _ \<longleftrightarrow> False"

definition errs_ok :: "eval_err + 'a \<Rightarrow> bool" where
  "errs_ok r \<longleftrightarrow> (case r of Inl e \<Rightarrow> expected_err e | Inr a \<Rightarrow> True)"

lemma errs_ok_simps [simp]: "errs_ok (Inr a)" "errs_ok (Inl e) \<longleftrightarrow> expected_err e"
  by (simp_all add: errs_ok_def)

lemma errs_ok_bind: "errs_ok m \<Longrightarrow> (\<And>a. m = Inr a \<Longrightarrow> errs_ok (f a)) \<Longrightarrow> errs_ok (ebind m f)"
  by (cases m) auto

lemma evaluateMacro_errs: "errs_ok (evaluateMacro m obs)"
  by (simp add: evaluateMacro_def known_macros_def)

lemma comparison_operator_total:
  "op \<in> set operators \<Longrightarrow> \<exists>b. evaluateComparisonOperator op l r = Inr b"
  by (auto simp: operators_def evaluateComparisonOperator_def evaluateEqualityOperator_def
      evaluateNumericComparisonOperator_def evaluateInOperator_def evaluateStringOperator_def
      evaluateExistenceOperator_def)

lemma wf_ast_cases:
  assumes "wf_ast n"
  obtains v where "n = literal_node v" | f where "n = field_node f" | m where "n = macro_node m"
  | op l r where "n = comparison_node op l r" "op \<in> set operators" "wf_ast l" "wf_ast r"
  | l r where "n = binary_node ''AND'' l r" "wf_ast l" "wf_ast r"
  | l r where "n = binary_node ''OR'' l r" "wf_ast l" "wf_ast r"
  | l where "n = not_node l" "wf_ast l"
  using assms by (cases n) (auto split: NodeType.splits)

lemma evaluateNode_errs: "wf_ast n \<Longrightarrow> errs_ok (evaluateNode n obs)"
proof (induction n rule: measure_induct_rule [where f = size])
  case (less n)
  from less.prems show ?case
  proof (cases rule: wf_ast_cases)
    case (4 op l r)
    with less.IH [of l] less.IH [of r] comparison_operator_total [OF 4(2)] show ?thesis
      by (auto simp: evaluate_nodes intro!: errs_ok_bind) (metis errs_ok_simps(1))
  qed (use less.IH in \<open>auto simp: evaluate_nodes evaluateMacro_errs intro!: errs_ok_bind split: option.splits\<close>)
qed

lemma NewExpressionFilter_wf:
  assumes "NewExpressionFilter s = Inr ef"
  obtains ast where "ef_ast ef = Some ast" "wf_ast ast" "ef_expression ef = s"
  using assms parse_outcome [of "trim_space s"]
  by (auto simp: NewExpressionFilter_def split: if_splits pres.splits)

text \<open>On a filter that was accepted at load time, evaluation fails only in the three ways the
  code means it to: an unknown macro, a connective over a value that is no boolean, or a result that
  is no boolean. Missing operands, unknown operators and unknown node types do not occur.\<close>

theorem evaluate_errors:
  assumes "NewExpressionFilter s = Inr ef"
  shows "case Evaluate (Some ef) obs of
           Inr b \<Rightarrow> True
         | Inl (UnknownMacro m) \<Rightarrow> m \<notin> set known_macros
         | Inl NonBooleanOperand \<Rightarrow> True
         | Inl NonBooleanResult \<Rightarrow> True
         | Inl e \<Rightarrow> False"
proof -
  obtain ast where ast: "ef_ast ef = Some ast" "wf_ast ast"
    using assms by (rule NewExpressionFilter_wf)
  then have "errs_ok (Evaluate (Some ef) obs)"
    by (auto simp: Evaluate_def intro!: errs_ok_bind evaluateNode_errs split: option.splits)
  then show ?thesis
    by (cases "Evaluate (Some ef) obs") (auto simp: errs_ok_def split: eval_err.splits)
qed

theorem evaluate_errors_witness:
  "\<exists>ef. NewExpressionFilter ''is_foo'' = Inr ef \<and> Evaluate (Some ef) [] = Inl (UnknownMacro ''is_foo'') \<and>
     ''is_foo'' \<notin> set known_macros"
proof -
  let ?ef = "\<lparr>ef_expression = ''is_foo'', ef_ast = Some (macro_node ''is_foo'')\<rparr>"
  have new: "NewExpressionFilter ''is_foo'' = Inr ?ef" by code_simp
  moreover have "Evaluate (Some ?ef) [] = Inl (UnknownMacro ''is_foo'')" by code_simp
  ultimately show ?thesis using evaluate_errors [OF new, of "[]"] by auto
qed

section \<open>The meaning of a filter\<close>

fun op_val :: "operand \<Rightarrow> obj \<Rightarrow> val" where
  "op_val (FieldOp segs) obs = (case walk (VMap obs) segs of None \<Rightarrow> VNil | Some v \<Rightarrow> v)"
| "op_val (StrOp s) obs = VStr s"
| "op_val (BoolOp b) obs = VBool b"
| "op_val (NumOp ds) obs = VFloat (the (parse_float ds))"
| "op_val (ListOp ss) obs = VList (map VStr ss)"

definition members :: "val \<Rightarrow> val list" where
  "members v = (case as_list v of None \<Rightarrow> [] | Some vs \<Rightarrow> vs)"

definition cmp_meaning :: "(string \<times> (val \<Rightarrow> val \<Rightarrow> bool)) list" where
  "cmp_meaning =
     [(''='', compareEqual), (''!='', \<lambda>a b. \<not> compareEqual a b),
      (''>'', compareGreater), (''<'', \<lambda>a b. compareGreater b a),
      (''>='', \<lambda>a b. compareEqual a b \<or> compareGreater a b), (''<='', \<lambda>a b. compareEqual a b \<or> compareGreater b a),
      (''IN'', \<lambda>a b. \<exists>v\<in>set (members b). compareEqual a v),
      (''NOT IN'', \<lambda>a b. \<forall>v\<in>set (members b). \<not> compareEqual a v),
      (''CONTAINS'', compareContains), (''STARTS_WITH'', compareStartsWith), (''ENDS_WITH'', compareEndsWith),
      (''EXISTS'', \<lambda>a b. a \<noteq> VNil), (''NOT EXISTS'', \<lambda>a b. a = VNil)]"

definition macro_meaning :: "(string \<times> string list \<times> string) list" where
  "macro_meaning =
     [(''is_critical'', [''spec'', ''severity''], ''CRITICAL''), (''is_high'', [''spec'', ''severity''], ''HIGH''),
      (''is_security'', [''spec'', ''category''], ''security''), (''is_compliance'', [''spec'', ''category''], ''compliance'')]"

fun denote :: "filt \<Rightarrow> obj \<Rightarrow> bool" where
  "denote (Test a) obs = (op_val a obs = VBool True)"
| "denote (Cmp op a b) obs = the (map_of cmp_meaning op) (op_val a obs) (op_val b obs)"
| "denote (MacroF m) obs =
     (case the (map_of macro_meaning m) of (path, w) \<Rightarrow> compareEqual (op_val (FieldOp path) obs) (VStr w))"
| "denote (FAnd a b) obs = (denote a obs \<and> denote b obs)"
| "denote (FOr a b) obs = (denote a obs \<or> denote b obs)"
| "denote (FNot a) obs = (\<not> denote a obs)"

text \<open>Filters whose leaves are comparisons, known macros or boolean constants.\<close>

fun bool_filt :: "filt \<Rightarrow> bool" where
  "bool_filt (Test a) = (case a of BoolOp b \<Rightarrow> True | _ \<Rightarrow> False)"
| "bool_filt (Cmp op a b) = True"
| "bool_filt (MacroF m) = (m \<in> set known_macros)"
| "bool_filt (FAnd a b) = (bool_filt a \<and> bool_filt b)"
| "bool_filt (FOr a b) = (bool_filt a \<and> bool_filt b)"
| "bool_filt (FNot a) = bool_filt a"

lemma split_join_idents:
  "segs \<noteq> [] \<Longrightarrow> list_all ident segs \<Longrightarrow> split_on CHR ''.'' (join_with ''.'' segs) = segs"
proof (induction "''.''" segs rule: join_with.induct)
  case (2 w)
  then have "CHR ''.'' \<notin> set w" by (auto simp: ident_def list_all_iff)
  then show ?case by (simp add: split_on_no_sep)
next
  case (3 w w' ws)
  then have "CHR ''.'' \<notin> set w" by (auto simp: ident_def list_all_iff)
  with 3 show ?case by (simp add: split_on_append_sep)
qed simp

lemma evaluate_operand: "op_ok a \<Longrightarrow> evaluateNode (op_node a) obs = Inr (op_val a obs)"
  by (cases a) (auto simp: evaluate_nodes getFieldValue_def split_join_idents)

lemma compareIn_iff: "compareIn a b \<longleftrightarrow> (\<exists>v\<in>set (members b). compareEqual a v)"
  by (cases b) (auto simp: compareIn_def members_def list_ex_iff)

lemma evaluate_cmp:
  "op \<in> set operators \<Longrightarrow> evaluateComparisonOperator op a b = Inr (the (map_of cmp_meaning op) a b)"
  by (auto simp: operators_def cmp_meaning_def evaluateComparisonOperator_def evaluateEqualityOperator_def
      evaluateNumericComparisonOperator_def evaluateInOperator_def evaluateStringOperator_def
      evaluateExistenceOperator_def compareIn_iff)

lemma getFieldValue_spec:
  "getFieldValue ''spec.severity'' obs = op_val (FieldOp [''spec'', ''severity'']) obs"
  "getFieldValue ''spec.category'' obs = op_val (FieldOp [''spec'', ''category'']) obs"
  by (simp_all add: getFieldValue_def)

lemma evaluate_macro:
  "m \<in> set known_macros \<Longrightarrow> evaluateMacro m obs = Inr (denote (MacroF m) obs)"
  unfolding known_macros_def
  by (auto simp: evaluateMacro_def macro_meaning_def getFieldValue_spec simp del: op_val.simps)

lemma evaluate_filt:
  "filt_ok e \<Longrightarrow> bool_filt e \<Longrightarrow> evaluateNode (filt_node e) obs = Inr (VBool (denote e obs))"
proof (induction e)
  case (Test a)
  then show ?case by (cases a) (auto simp: evaluate_nodes)
next
  case (Cmp op a b)
  then show ?case by (simp add: evaluate_nodes evaluate_operand evaluate_cmp)
next
  case (MacroF m)
  then show ?case by (simp add: evaluate_nodes evaluate_macro del: denote.simps)
qed (auto simp: evaluate_nodes)

text \<open>The text of a filter neither starts nor ends with a blank, so trimming leaves it alone.\<close>

definition trimmed :: "string \<Rightarrow> bool" where
  "trimmed s \<longleftrightarrow> s \<noteq> [] \<and> \<not> is_space_char (hd s) \<and> \<not> is_space_char (last s)"

lemma trim_trimmed:
  assumes "trimmed s" shows "trim_space s = s"
proof -
  have d: "dropWhile is_space_char t = t" if "t \<noteq> []" "\<not> is_space_char (hd t)" for t
    using that by (cases t) auto
  show ?thesis
    using assms d [of s] d [of "rev s"] by (simp add: trimmed_def trim_space_def hd_rev)
qed

lemma trimmed_append: "trimmed s \<Longrightarrow> trimmed t \<Longrightarrow> trimmed (s @ u @ t)"
  by (cases s) (auto simp: trimmed_def)

lemma ident_char_not_space: "is_ident_char c \<Longrightarrow> \<not> is_space_char c"
  by (auto simp: is_ident_char_def is_space_char_def in_range_def byte_of_def)

lemma trimmed_ident: "ident w \<Longrightarrow> trimmed w"
  by (cases w rule: rev_cases) (auto simp: ident_def trimmed_def hd_append ident_char_not_space list_all_iff)

lemma trimmed_join: "ws \<noteq> [] \<Longrightarrow> list_all trimmed ws \<Longrightarrow> trimmed (join_with sep ws)"
  by (induction sep ws rule: join_with.induct) (auto intro: trimmed_append)

lemma is_space_char_consts [simp]:
  "\<not> is_space_char CHR 0x22" "\<not> is_space_char CHR ''[''" "\<not> is_space_char CHR '']''" "\<not> is_space_char CHR ''(''"
  "\<not> is_space_char CHR '')''" "\<not> is_space_char CHR ''.''" "\<not> is_space_char CHR ''N''"
  by code_simp+

lemma trimmed_op_text: "op_ok a \<Longrightarrow> trimmed (op_text a)"
proof (cases a)
  case (FieldOp segs)
  moreover assume "op_ok a"
  ultimately show ?thesis by (auto intro!: trimmed_join simp: list_all_iff trimmed_ident)
next
  case (BoolOp b)
  have "trimmed ''true''" "trimmed ''false''" by code_simp+
  then show ?thesis using BoolOp by simp
next
  case (NumOp ds)
  moreover assume "op_ok a"
  moreover have "\<not> is_space_char c" if "is_digit_char c \<or> c = CHR ''.''" for c
    using that by (auto simp: is_ident_char_def ident_char_not_space)
  ultimately have "ds \<noteq> []" "\<forall>c\<in>set ds. \<not> is_space_char c"
    by (auto simp: list_all_iff)
  then have "\<not> is_space_char (hd ds)" "\<not> is_space_char (last ds)"
    by auto
  then show ?thesis using NumOp \<open>ds \<noteq> []\<close> by (simp add: trimmed_def)
qed (auto simp: trimmed_def quoted_def)

lemma trimmed_filt_text: "filt_ok e \<Longrightarrow> trimmed (filt_text k e)"
proof (induction e arbitrary: k)
  case (Cmp op a b)
  then show ?case
    using trimmed_append [of "op_text a" "op_text b" "'' '' @ op @ '' ''"] by (simp add: trimmed_op_text)
next
  case (FAnd a b)
  then have "trimmed (filt_text 1 a @ '' AND '' @ filt_text 2 b)" by (intro trimmed_append) auto
  then show ?case by (auto simp: paren_def trimmed_def)
next
  case (FOr a b)
  then have "trimmed (filt_text 0 a @ '' OR '' @ filt_text 1 b)" by (intro trimmed_append) auto
  then show ?case by (auto simp: paren_def trimmed_def)
next
  case (FNot a)
  then have "trimmed (filt_text 2 a)" by simp
  then show ?case by (simp add: trimmed_def)
qed (simp_all add: trimmed_op_text trimmed_ident)

text \<open>C5. A filter means what it says: creating a filter from the text of \<open>e\<close> succeeds, and evaluating it on
  any observation gives the boolean meaning of \<open>e\<close>, with AND, OR and NOT as conjunction, disjunction
  and negation although the code short-circuits, and field paths looked up in the observation.\<close>

theorem filter_end_to_end:
  assumes "filt_ok e" "bool_filt e"
  shows "\<exists>ef. NewExpressionFilter (filt_text 0 e) = Inr ef \<and>
    (\<forall>obs. Evaluate (Some ef) obs = Inr (denote e obs))"
proof -
  have "filt_text 0 e \<noteq> []" by (rule filt_text_nonempty [OF assms(1)])
  then have "NewExpressionFilter (filt_text 0 e) = Inr \<lparr>ef_expression = filt_text 0 e, ef_ast = Some (filt_node e)\<rparr>"
    using parse_printed [OF assms(1)] trim_trimmed [OF trimmed_filt_text [OF assms(1)], of 0]
    by (simp add: NewExpressionFilter_def)
  with evaluate_filt [OF assms] show ?thesis by (simp add: Evaluate_def)
qed


theorem filter_end_to_end_witness:
  "filt_ok (FOr (Cmp ''>='' (FieldOp [''spec'', ''severity'']) (StrOp ''HIGH'')) (FNot (MacroF ''is_security'')))
   \<and> bool_filt (FOr (Cmp ''>='' (FieldOp [''spec'', ''severity'']) (StrOp ''HIGH'')) (FNot (MacroF ''is_security'')))
   \<and> (\<exists>ef. NewExpressionFilter (''spec.severity >= '' @ quoted ''HIGH'' @ '' OR NOT is_security'') = Inr ef \<and>
       Evaluate (Some ef) [(''spec'', VMap [(''severity'', VStr ''low''), (''category'', VStr ''Security'')])] = Inr False)"
proof -
  let ?e = "FOr (Cmp ''>='' (FieldOp [''spec'', ''severity'']) (StrOp ''HIGH'')) (FNot (MacroF ''is_security''))"
  let ?obs = "[(''spec'', VMap [(''severity'', VStr ''low''), (''category'', VStr ''Security'')])]"
  have ok: "filt_ok ?e" "bool_filt ?e" by code_simp+
  have "filt_text 0 ?e = ''spec.severity >= '' @ quoted ''HIGH'' @ '' OR NOT is_security''" by code_simp
  moreover have "\<not> denote ?e ?obs" by code_simp
  ultimately show ?thesis
    using ok filter_end_to_end [OF ok] by (metis (full_types))
qed

section \<open>Severities\<close>

lemma scan_mant_letter:
  "\<not> is_digit_char c \<Longrightarrow> c \<noteq> CHR ''_'' \<Longrightarrow> c \<noteq> CHR ''.'' \<Longrightarrow> scan_mant False m (c # cs) = (m, c # cs)"
  by simp

lemma parse_float_word:
  assumes "is_lower_letter (to_lower_char c)" "to_lower (c # cs) \<notin> {''inf'', ''infinity'', ''nan''}"
  shows "parse_float (c # cs) = None"
proof -
  have c: "\<not> is_digit_char c" "c \<noteq> CHR ''_''" "c \<noteq> CHR ''.''" "c \<noteq> CHR ''-''" "c \<noteq> CHR ''+''"
    using assms(1) by (auto simp: to_lower_char_def in_range_def byte_of_def split: if_splits)
  have "to_lower_char c \<noteq> CHR ''0''"
    using assms(1) by (auto simp: in_range_def byte_of_def)
  then have "\<not> hex_prefixed (c # cs)" by (auto simp: hex_prefixed_def take_Cons' )
  with c have "read_number (c # cs) = None" by (simp add: read_number_def scan_mant_letter)
  moreover have "strip_sign (c # cs) = (False, c # cs)" using c by (simp add: strip_sign_def)
  ultimately show ?thesis using assms(2) by (auto simp: parse_float_def)
qed

lemma severity_no_number:
  assumes "isSeverity (VStr s)" shows "toNumber (VStr s) = None"
proof -
  have *: "to_upper s \<in> set [''CRITICAL'', ''HIGH'', ''MEDIUM'', ''LOW'', ''UNKNOWN'']"
    using assms by (simp add: isSeverity_def toString_def)
  have "to_lower s = to_lower (to_upper s)" by simp
  moreover have "to_lower t \<noteq> [] \<and> is_lower_letter (hd (to_lower t)) \<and> to_lower t \<notin> {''inf'', ''infinity'', ''nan''}"
    if "t \<in> set [''CRITICAL'', ''HIGH'', ''MEDIUM'', ''LOW'', ''UNKNOWN'']" for t
  proof -
    have "list_all (\<lambda>t. to_lower t \<noteq> [] \<and> is_lower_letter (hd (to_lower t)) \<and> to_lower t \<notin> {''inf'', ''infinity'', ''nan''})
      [''CRITICAL'', ''HIGH'', ''MEDIUM'', ''LOW'', ''UNKNOWN'']" by code_simp
    with that show ?thesis unfolding list_all_iff by blast
  qed
  ultimately have "to_lower s \<noteq> []" "is_lower_letter (hd (to_lower s))" "to_lower s \<notin> {''inf'', ''infinity'', ''nan''}"
    using * by metis+
  then show ?thesis by (cases s) (auto simp: toNumber_def parse_float_word)
qed

text \<open>The rank of a severity name: its position in the list from the lowest to the highest.\<close>

definition rank :: "string \<Rightarrow> nat" where
  "rank s = length (takeWhile (\<lambda>t. t \<noteq> to_upper s) [''UNKNOWN'', ''LOW'', ''MEDIUM'', ''HIGH'', ''CRITICAL''])"

lemma level_rank:
  assumes "isSeverity (VStr s)" shows "level (to_upper s) = int (rank s) + 1"
proof -
  have "to_upper s \<in> set [''CRITICAL'', ''HIGH'', ''MEDIUM'', ''LOW'', ''UNKNOWN'']"
    using assms by (simp add: isSeverity_def toString_def)
  then show ?thesis by (auto simp: level_def severityLevels_def rank_def)
qed

lemma severity_eq_rank:
  assumes "isSeverity (VStr s)" "isSeverity (VStr t)"
  shows "equal_fold s t \<longleftrightarrow> rank s = rank t"
proof -
  have "to_upper s \<in> set [''CRITICAL'', ''HIGH'', ''MEDIUM'', ''LOW'', ''UNKNOWN'']"
       "to_upper t \<in> set [''CRITICAL'', ''HIGH'', ''MEDIUM'', ''LOW'', ''UNKNOWN'']"
    using assms by (simp_all add: isSeverity_def toString_def)
  then show ?thesis by (auto simp: equal_fold_upper rank_def)
qed

text \<open>Severities are ordered UNKNOWN, LOW, MEDIUM, HIGH, CRITICAL whatever their letter case, and all
  five comparison operators agree with that order; neither the numeric nor the textual comparison
  gets in the way.\<close>

theorem severity_comparison:
  assumes "isSeverity (VStr s)" "isSeverity (VStr t)"
  shows "evaluateComparisonOperator ''='' (VStr s) (VStr t) = Inr (rank s = rank t) \<and>
    evaluateComparisonOperator ''>'' (VStr s) (VStr t) = Inr (rank s > rank t) \<and>
    evaluateComparisonOperator ''>='' (VStr s) (VStr t) = Inr (rank s \<ge> rank t) \<and>
    evaluateComparisonOperator ''<'' (VStr s) (VStr t) = Inr (rank s < rank t) \<and>
    evaluateComparisonOperator ''<='' (VStr s) (VStr t) = Inr (rank s \<le> rank t)"
proof -
  have gt: "compareGreater (VStr u) (VStr v) \<longleftrightarrow> rank u > rank v"
    if "isSeverity (VStr u)" "isSeverity (VStr v)" for u v
    using that by (simp add: compareGreater_def severity_no_number compareSeverity_def toString_def level_rank)
  have eq: "compareEqual (VStr s) (VStr t) \<longleftrightarrow> rank s = rank t"
    using assms severity_eq_rank by (simp add: compareEqual_def toString_def)
  note defs = evaluateComparisonOperator_def evaluateEqualityOperator_def evaluateNumericComparisonOperator_def
  show ?thesis
    using assms by (simp add: defs eq gt; linarith)
qed


theorem severity_comparison_witness:
  "isSeverity (VStr ''Critical'') \<and> isSeverity (VStr ''medium'') \<and>
   evaluateComparisonOperator ''>'' (VStr ''Critical'') (VStr ''medium'') = Inr True"
proof -
  have ok: "isSeverity (VStr ''Critical'')" "isSeverity (VStr ''medium'')" by code_simp+
  moreover have "rank ''Critical'' > rank ''medium''" by code_simp
  ultimately show ?thesis using severity_comparison [OF ok] by simp
qed

text \<open>Equality compares the printed values, so an integer from the cluster and the float literal of the
  same value can differ: \<open>1000000\<close> of type \<^verbatim>\<open>int64\<close> prints differently from the literal \<open>1000000\<close>
  (\<^verbatim>\<open>1e+06\<close>), and \<open>>=\<close> is false on them.\<close>

theorem equal_numbers_differ:
  "evaluateComparisonOperator ''>='' (VInt64 1000000) (VFloat (f64_of_int 1000000)) = Inr False"
proof -
  have "fmt_f64 (f64_of_int 1000000) = ''1e+06''" by code_simp
  moreover have "show_int 1000000 = ''1000000''" by code_simp
  moreover have "\<not> equal_fold ''1000000'' ''1e+06''" by code_simp
  moreover have "\<not> f64_greater (f64_of_int 1000000) (f64_of_int 1000000)" by code_simp
  ultimately show ?thesis
    by (simp add: evaluateComparisonOperator_def evaluateNumericComparisonOperator_def
        compareEqual_def compareGreater_def toString_def toNumber_def)
qed

end
