(* ===== verification/Filter_Merge.thy ===== *)
theory Filter_Merge
  imports Zen_Values
begin

text \<open>
  Filter configurations: merging (\<^verbatim>\<open>pkg/filter/merger.go\<close>), loading with the normalisation of ignored
  kinds (\<^verbatim>\<open>pkg/filter/config.go\<close>) and the filter object (\<^verbatim>\<open>pkg/filter/rules.go\<close>).

  \<^verbatim>\<open>SourceFilter\<close> and \<^verbatim>\<open>FilterConfig\<close> are types of the SDK; the record holds the fields these sources use.
  The lists built from the map \<open>seen\<close> come out in the iteration order of that map, which Go leaves
  open; here it is the insertion order, and every statement is about the set of elements.
  The SDK's filter, the lookup of a ConfigMap, the environment and JSON decoding are parameters.

  The contract of a merge (\<open>merge_op\<close>) is that it is an associative, commutative, idempotent combination of
  what the merged values restrict; then the result of merging many does not depend on their order.
  Unions, severities and the enabled flag obey it; the intersection of include lists does not, since
  an empty intersection is taken for "no restriction" by the next merge.
\<close>

section \<open>Data\<close>

record SourceFilter =
  MinSeverity :: string
  IncludeSeverity :: "string list"
  ExcludeEventTypes :: "string list"
  IncludeEventTypes :: "string list"
  ExcludeNamespaces :: "string list"
  IncludeNamespaces :: "string list"
  ExcludeKinds :: "string list"
  IncludeKinds :: "string list"
  ExcludeCategories :: "string list"
  IncludeCategories :: "string list"
  ExcludeRules :: "string list"
  IgnoreKinds :: "string list"
  Enabled :: "bool option"

text \<open>\<open>Sources\<close> is \<open>None\<close> for a nil map.\<close>

record GlobalNamespaceFilter =
  gn_Enabled :: bool
  IncludedNamespaces :: "string list"
  ExcludedNamespaces :: "string list"

record FilterConfig =
  Sources :: "(string, SourceFilter) gomap option"
  fc_Expression :: string
  fc_GlobalNamespaceFilter :: "GlobalNamespaceFilter option"

text \<open>A composite literal that names only \<open>Sources\<close>.\<close>

definition sources_config :: "(string, SourceFilter) gomap option \<Rightarrow> FilterConfig" where
  "sources_config s = \<lparr>Sources = s, fc_Expression = [], fc_GlobalNamespaceFilter = None\<rparr>"

lemma Sources_sources_config [simp]: "Sources (sources_config s) = s"
  by (simp add: sources_config_def)

lemma sources_config_update [simp]: "(sources_config s)\<lparr>Sources := t\<rparr> = sources_config t"
  by (simp add: sources_config_def)

section \<open>Merging (merger.go)\<close>

definition add_seen :: "(string, string) gomap \<Rightarrow> string \<Rightarrow> (string, string) gomap" where
  "add_seen seen item =
     (case map_of seen (to_lower item) of None \<Rightarrow> put (to_lower item) item seen | Some _ \<Rightarrow> seen)"

definition unionStringLists :: "string list \<Rightarrow> string list \<Rightarrow> string list" where
  "unionStringLists list1 list2 =
     (if list1 = [] then list2
      else if list2 = [] then list1
      else map snd (foldl add_seen (foldl add_seen [] list1) list2))"

definition intersectStringLists :: "string list \<Rightarrow> string list \<Rightarrow> string list" where
  "intersectStringLists list1 list2 =
     (if list1 = [] then list2
      else if list2 = [] then list1
      else (let seen = foldl add_seen [] list1
            in List.map_filter (\<lambda>item. map_of seen (to_lower item)) list2))"

definition priority :: "string \<Rightarrow> int" where
  "priority s =
     (case map_of [(''CRITICAL'', 5), (''HIGH'', 4), (''MEDIUM'', 3), (''LOW'', 2), (''UNKNOWN'', 1)] s of
        None \<Rightarrow> 0 | Some n \<Rightarrow> n)"

definition moreRestrictiveSeverity :: "string \<Rightarrow> string \<Rightarrow> string" where
  "moreRestrictiveSeverity s1 s2 =
     (if s1 = [] then s2
      else if s2 = [] then s1
      else (let p1 = priority (to_upper s1); p2 = priority (to_upper s2)
            in if p2 < p1 then s1 else if p1 < p2 then s2 else s1))"

definition mergeEnabled :: "bool option \<Rightarrow> bool option \<Rightarrow> bool option" where
  "mergeEnabled e1 e2 =
     (if e1 = Some False then Some False
      else if e2 = Some False then Some False
      else if e1 \<noteq> None then e1
      else if e2 \<noteq> None then e2
      else None)"

definition mergeSourceFilters :: "SourceFilter \<Rightarrow> SourceFilter \<Rightarrow> SourceFilter" where
  "mergeSourceFilters f1 f2 =
     \<lparr>MinSeverity = moreRestrictiveSeverity (MinSeverity f1) (MinSeverity f2),
      IncludeSeverity = intersectStringLists (IncludeSeverity f1) (IncludeSeverity f2),
      ExcludeEventTypes = unionStringLists (ExcludeEventTypes f1) (ExcludeEventTypes f2),
      IncludeEventTypes = intersectStringLists (IncludeEventTypes f1) (IncludeEventTypes f2),
      ExcludeNamespaces = unionStringLists (ExcludeNamespaces f1) (ExcludeNamespaces f2),
      IncludeNamespaces = intersectStringLists (IncludeNamespaces f1) (IncludeNamespaces f2),
      ExcludeKinds = unionStringLists (ExcludeKinds f1) (ExcludeKinds f2),
      IncludeKinds = intersectStringLists (IncludeKinds f1) (IncludeKinds f2),
      ExcludeCategories = unionStringLists (ExcludeCategories f1) (ExcludeCategories f2),
      IncludeCategories = intersectStringLists (IncludeCategories f1) (IncludeCategories f2),
      ExcludeRules = unionStringLists (ExcludeRules f1) (ExcludeRules f2),
      IgnoreKinds = unionStringLists (IgnoreKinds f1) (IgnoreKinds f2),
      Enabled = mergeEnabled (Enabled f1) (Enabled f2)\<rparr>"

text \<open>The body of the loops of \<^verbatim>\<open>MergeFilterConfigs\<close>: one source of one configuration, one configuration.\<close>

definition merge_source ::
    "(string, SourceFilter) gomap \<Rightarrow> string \<times> SourceFilter \<Rightarrow> (string, SourceFilter) gomap" where
  "merge_source acc kv =
     (let sourceName = to_lower (fst kv)
      in case map_of acc sourceName of
           None \<Rightarrow> put sourceName (snd kv) acc
         | Some existing \<Rightarrow> put sourceName (mergeSourceFilters existing (snd kv)) acc)"

definition sources_of :: "FilterConfig option \<Rightarrow> (string, SourceFilter) gomap" where
  "sources_of c = (case c of None \<Rightarrow> [] | Some cfg \<Rightarrow> (case Sources cfg of None \<Rightarrow> [] | Some m \<Rightarrow> m))"

definition MergeFilterConfigs :: "FilterConfig option list \<Rightarrow> FilterConfig" where
  "MergeFilterConfigs configs =
     (case configs of
        [] \<Rightarrow> (sources_config (Some []))
      | [c] \<Rightarrow> (sources_config (Some (foldl (\<lambda>acc (k, v). put k v acc) [] (sources_of c))))
      | _ \<Rightarrow> (sources_config (Some (foldl (\<lambda>acc c. foldl merge_source acc (sources_of c)) [] configs))))"

section \<open>Loading (config.go)\<close>

text \<open>The environment \<open>getenv\<close> (unset is empty), the cluster's ConfigMaps \<open>get_cm\<close> (namespace, name; \<open>None\<close> is any
  error) and the JSON decoder \<open>unmarshal\<close> are parameters.\<close>

definition env_or :: "(string \<Rightarrow> string) \<Rightarrow> string \<Rightarrow> string \<Rightarrow> string" where
  "env_or getenv k dflt = (if getenv k = [] then dflt else getenv k)"

definition normalizeKinds :: "SourceFilter \<Rightarrow> SourceFilter" where
  "normalizeKinds f =
     (if IgnoreKinds f = [] then f
      else f\<lparr>ExcludeKinds := map snd (foldl add_seen (foldl add_seen [] (ExcludeKinds f)) (IgnoreKinds f))\<rparr>)"

definition LoadFilterConfig ::
    "(string \<Rightarrow> string) \<Rightarrow> (string \<Rightarrow> string \<Rightarrow> (string, string) gomap option) \<Rightarrow> (string \<Rightarrow> FilterConfig option) \<Rightarrow>
     string + FilterConfig" where
  "LoadFilterConfig getenv get_cm unmarshal =
     (let name = env_or getenv ''FILTER_CONFIGMAP_NAME'' ''zen-watcher-filter'';
          ns = env_or getenv ''FILTER_CONFIGMAP_NAMESPACE'' (env_or getenv ''WATCH_NAMESPACE'' ''zen-system'');
          key = env_or getenv ''FILTER_CONFIGMAP_KEY'' ''filter.json''
      in case get_cm ns name of
           None \<Rightarrow> Inr (sources_config (Some []))
         | Some data \<Rightarrow>
             (case map_of data key of
                None \<Rightarrow> Inr (sources_config (Some []))
              | Some filterJSON \<Rightarrow>
                  (case unmarshal filterJSON of
                     None \<Rightarrow> Inl ''failed to parse filter config''
                   | Some config \<Rightarrow>
                       Inr (config\<lparr>Sources := map_option (map (map_prod id normalizeKinds)) (Sources config)\<rparr>))))"

section \<open>The filter object (rules.go)\<close>

text \<open>The state of a \<^verbatim>\<open>Filter\<close>: its configuration, whether it has metrics, the SDK filter inside, and the
  decisions counted in \<^verbatim>\<open>FilterDecisions\<close>. The SDK filter is a value of a type parameter, made by
  \<open>sdk_new\<close> and asked by \<open>sdk_allow\<close>; \<open>nested\<close> is \<^verbatim>\<open>unstructured.NestedFieldCopy\<close> (\<open>None\<close>: not found or an error).\<close>

record 's Filter =
  config :: "FilterConfig option"
  has_metrics :: bool
  sdkFilter :: "'s option"
  decisions :: "(string \<times> string \<times> string) list"

definition NewFilterWithMetrics :: "(FilterConfig option \<Rightarrow> 's) \<Rightarrow> FilterConfig option \<Rightarrow> bool \<Rightarrow> 's Filter" where
  "NewFilterWithMetrics sdk_new cfg m =
     \<lparr>config = cfg, has_metrics = m, sdkFilter = Some (sdk_new cfg), decisions = []\<rparr>"

definition UpdateConfig :: "(FilterConfig option \<Rightarrow> 's) \<Rightarrow> FilterConfig option \<Rightarrow> 's Filter option \<Rightarrow> 's Filter option" where
  "UpdateConfig sdk_new cfg f =
     map_option (\<lambda>flt.
       let cfg' = map_option (\<lambda>c. if Sources c = None then c\<lparr>Sources := Some []\<rparr> else c) cfg
       in flt\<lparr>config := cfg', sdkFilter := (if sdkFilter flt = None then None else Some (sdk_new cfg'))\<rparr>) f"

definition GetConfig :: "'s Filter \<Rightarrow> FilterConfig" where
  "GetConfig f = (case config f of None \<Rightarrow> (sources_config (Some [])) | Some c \<Rightarrow> c)"

definition Allow :: "('s \<Rightarrow> obj \<Rightarrow> bool) \<Rightarrow> 's Filter option \<Rightarrow> obj \<Rightarrow> bool" where
  "Allow sdk_allow f observation =
     (case f of None \<Rightarrow> True
      | Some flt \<Rightarrow> (case sdkFilter flt of None \<Rightarrow> True | Some s \<Rightarrow> sdk_allow s observation))"

definition source_label :: "(obj \<Rightarrow> string list \<Rightarrow> val option) \<Rightarrow> obj \<Rightarrow> string" where
  "source_label nested observation =
     (case nested observation [''spec'', ''source''] of
        None \<Rightarrow> ''unknown''
      | Some VNil \<Rightarrow> ''unknown''
      | Some (VStr s) \<Rightarrow> s
      | Some v \<Rightarrow> fmt_v v)"

definition AllowWithReason ::
    "('s \<Rightarrow> obj \<Rightarrow> bool) \<Rightarrow> (obj \<Rightarrow> string list \<Rightarrow> val option) \<Rightarrow> 's Filter option \<Rightarrow> obj \<Rightarrow>
     (bool \<times> string) \<times> 's Filter option" where
  "AllowWithReason sdk_allow nested f observation =
     (case f of None \<Rightarrow> ((True, []), None)
      | Some flt \<Rightarrow>
          (case sdkFilter flt of None \<Rightarrow> ((True, []), f)
           | Some s \<Rightarrow>
               if \<not> sdk_allow s observation then
                 ((False, ''sdk_filtered''),
                  Some (if has_metrics flt
                        then flt\<lparr>decisions := decisions flt @ [(source_label nested observation, ''filter'', ''sdk_filtered'')]\<rparr>
                        else flt))
               else ((True, []), f)))"

section \<open>The contract of a merge\<close>

text \<open>\<open>merge\<close> combines two settings; \<open>abs\<close> is what a setting restricts and \<open>comb\<close> the combination of two
  restrictions.\<close>

locale merge_op =
  fixes merge :: "'a \<Rightarrow> 'a \<Rightarrow> 'a"
    and abs :: "'a \<Rightarrow> 'b"
    and comb :: "'b \<Rightarrow> 'b \<Rightarrow> 'b"
  assumes abs_merge: "abs (merge x y) = comb (abs x) (abs y)"
    and comb_assoc: "comb (comb a b) c = comb a (comb b c)"
    and comb_commute: "comb a b = comb b a"
    and comb_idem: "comb a a = a"

sublocale merge_op < restr: semilattice_set comb
  by unfold_locales (rule comb_assoc comb_commute comb_idem)+

context merge_op
begin

text \<open>The order of the merges and repetitions do not matter: the result restricts what the set of the
  merged settings restricts.\<close>

lemma abs_foldl: "abs (foldl merge x xs) = restr.F (insert (abs x) (abs ` set xs))"
proof (induction xs arbitrary: x)
  case (Cons y ys)
  let ?S = "abs ` set ys"
  have "restr.F (insert (comb (abs x) (abs y)) ?S) = restr.F (insert (abs x) (insert (abs y) ?S))"
    by (cases "?S = {}") (simp_all add: comb_assoc)
  then show ?case by (simp add: Cons.IH abs_merge)
qed simp

lemma abs_foldl_set:
  "set (x # xs) = set (y # ys) \<Longrightarrow> abs (foldl merge x xs) = abs (foldl merge y ys)"
  unfolding abs_foldl by (metis image_insert list.simps(15))

end

section \<open>Lists of names compared without case\<close>

definition lower_set :: "string list \<Rightarrow> string set" where
  "lower_set l = to_lower ` set l"

lemma lower_set_simps [simp]:
  "lower_set [] = {}" "lower_set (x # xs) = insert (to_lower x) (lower_set xs)"
  "lower_set (xs @ ys) = lower_set xs \<union> lower_set ys"
  by (auto simp: lower_set_def)

text \<open>The map \<open>seen\<close>: each key is the lower-case form of its value.\<close>

definition seen_ok :: "(string, string) gomap \<Rightarrow> bool" where
  "seen_ok seen \<longleftrightarrow> wf_map seen \<and> (\<forall>(k, v) \<in> set seen. k = to_lower v)"

lemma set_put_new: "k \<notin> fst ` set m \<Longrightarrow> set (put k v m) = insert (k, v) (set m)"
  by (induction m) auto

lemma add_seen_ok:
  assumes "seen_ok seen"
  shows "seen_ok (add_seen seen x) \<and> fst ` set (add_seen seen x) = insert (to_lower x) (fst ` set seen)"
proof (cases "map_of seen (to_lower x)")
  case None
  then have "to_lower x \<notin> fst ` set seen" by (simp add: map_of_eq_None_iff)
  with None assms show ?thesis by (auto simp: add_seen_def seen_ok_def set_put_new)
next
  case (Some y)
  then have "to_lower x \<in> fst ` set seen" by (force dest: map_of_SomeD)
  with Some assms show ?thesis by (auto simp: add_seen_def)
qed

lemma foldl_add_seen:
  "seen_ok seen \<Longrightarrow> seen_ok (foldl add_seen seen l) \<and> fst ` set (foldl add_seen seen l) = fst ` set seen \<union> lower_set l"
proof (induction l arbitrary: seen)
  case (Cons x l)
  then show ?case using add_seen_ok [OF Cons.prems, of x] by auto
qed simp

lemma seen_ok_Nil [simp]: "seen_ok []"
  by (simp add: seen_ok_def)

lemma lower_set_seen: "seen_ok seen \<Longrightarrow> lower_set (map snd seen) = fst ` set seen"
  by (force simp: seen_ok_def lower_set_def)

lemma distinct_seen: "seen_ok seen \<Longrightarrow> map to_lower (map snd seen) = keys seen"
  by (induction seen) (auto simp: seen_ok_def wf_map_def)

lemma lower_set_union: "lower_set (unionStringLists l1 l2) = lower_set l1 \<union> lower_set l2"
  using foldl_add_seen [of "[]" l1] foldl_add_seen [of "foldl add_seen [] l1" l2]
  by (auto simp: unionStringLists_def lower_set_seen)

lemma seen_lookup:
  assumes "seen_ok seen"
  shows "map_of seen (to_lower x) = Some y \<Longrightarrow> to_lower y = to_lower x"
    and "(\<exists>y. map_of seen (to_lower x) = Some y) \<longleftrightarrow> to_lower x \<in> fst ` set seen"
proof -
  show "map_of seen (to_lower x) = Some y \<Longrightarrow> to_lower y = to_lower x"
    using assms by (fastforce simp: seen_ok_def dest: map_of_SomeD)
  show "(\<exists>y. map_of seen (to_lower x) = Some y) \<longleftrightarrow> to_lower x \<in> fst ` set seen"
    using map_of_eq_None_iff [of seen "to_lower x"] by auto
qed

lemma lower_set_intersect:
  assumes "l1 \<noteq> []" "l2 \<noteq> []"
  shows "lower_set (intersectStringLists l1 l2) = lower_set l1 \<inter> lower_set l2"
proof -
  let ?seen = "foldl add_seen [] l1"
  have ok: "seen_ok ?seen" "fst ` set ?seen = lower_set l1" using foldl_add_seen [of "[]" l1] by auto
  have "lower_set (List.map_filter (\<lambda>x. map_of ?seen (to_lower x)) l) = lower_set l1 \<inter> lower_set l" for l
  proof (induction l)
    case (Cons x l)
    show ?case
    proof (cases "map_of ?seen (to_lower x)")
      case None
      then have "to_lower x \<notin> lower_set l1" using seen_lookup(2) [OF ok(1), of x] ok(2) by auto
      with None Cons.IH show ?thesis by (simp add: map_filter_simps)
    next
      case (Some y)
      then have "to_lower x \<in> lower_set l1" "to_lower y = to_lower x"
        using seen_lookup [OF ok(1), of x] ok(2) by auto
      with Some Cons.IH show ?thesis by (simp add: map_filter_simps)
    qed
  qed (simp add: map_filter_simps)
  with assms show ?thesis by (simp add: intersectStringLists_def Let_def)
qed

section \<open>Merges that keep the contract\<close>

text \<open>The restriction a minimum severity makes: its priority, below every name when it is not set.\<close>

definition sev_level :: "string \<Rightarrow> int" where
  "sev_level s = (if s = [] then - 1 else priority (to_upper s))"

lemma priority_nonneg: "0 \<le> priority s"
  by (auto simp: priority_def split: option.splits if_splits)

interpretation excl: merge_op unionStringLists lower_set "(\<union>)"
  by unfold_locales (auto simp: lower_set_union)

interpretation sev: merge_op moreRestrictiveSeverity sev_level max
proof unfold_locales
  fix x y
  show "sev_level (moreRestrictiveSeverity x y) = max (sev_level x) (sev_level y)"
    using priority_nonneg [of "to_upper x"] priority_nonneg [of "to_upper y"]
    by (auto simp: sev_level_def moreRestrictiveSeverity_def Let_def)
qed auto

interpretation enab: merge_op mergeEnabled "\<lambda>e. e = Some False" "(\<or>)"
  by unfold_locales (auto simp: mergeEnabled_def)

lemma excl_F: "finite S \<Longrightarrow> S \<noteq> {} \<Longrightarrow> semilattice_set.F (\<union>) S = \<Union>S"
  by (metis Sup_fin_def Sup_fin_Sup)

lemma sev_F: "semilattice_set.F max S = Max S"
  by (simp add: Max_def)

lemma enab_F: "finite S \<Longrightarrow> S \<noteq> {} \<Longrightarrow> semilattice_set.F (\<or>) S \<longleftrightarrow> True \<in> S"
  by (induction S rule: finite_ne_induct) auto

section \<open>The merged configuration\<close>

definition filters_for :: "string \<Rightarrow> FilterConfig option list \<Rightarrow> SourceFilter list" where
  "filters_for k configs = map snd (filter (\<lambda>kv. to_lower (fst kv) = k) (concat (map sources_of configs)))"

definition merge_all :: "SourceFilter list \<Rightarrow> SourceFilter option" where
  "merge_all fs = (case fs of [] \<Rightarrow> None | f # fs' \<Rightarrow> Some (foldl mergeSourceFilters f fs'))"

lemma merge_all_snoc:
  "merge_all (fs @ [f]) = Some (case merge_all fs of None \<Rightarrow> f | Some g \<Rightarrow> mergeSourceFilters g f)"
  by (cases fs) (simp_all add: merge_all_def)

lemma foldl_merge_source:
  "map_of (foldl merge_source [] kvs) k = merge_all (map snd (filter (\<lambda>kv. to_lower (fst kv) = k) kvs))"
proof (induction kvs rule: rev_induct)
  case Nil
  then show ?case by (simp add: merge_all_def)
next
  case (snoc kv kvs)
  then show ?case
    by (auto simp: merge_source_def Let_def merge_all_snoc split: option.splits)
qed

lemma foldl_foldl: "foldl (\<lambda>acc c. foldl g acc (h c)) a cs = foldl g a (concat (map h cs))"
  by (induction cs arbitrary: a) auto

lemma MergeFilterConfigs_lookup:
  assumes "2 \<le> length configs"
  shows "map_of (the (Sources (MergeFilterConfigs configs))) k = merge_all (filters_for k configs)"
proof -
  obtain c c' cs where "configs = c # c' # cs"
    using assms by (metis One_nat_def Suc_1 Suc_le_length_iff)
  then show ?thesis
    unfolding MergeFilterConfigs_def filters_for_def
    by (simp add: foldl_merge_source [symmetric] foldl_foldl del: concat.simps map_append foldl_append)
qed

lemma foldl_field:
  assumes "\<And>f g. fld (mergeSourceFilters f g) = m (fld f) (fld g)"
  shows "fld (foldl mergeSourceFilters f fs) = foldl m (fld f) (map fld fs)"
  using assms by (induction fs arbitrary: f) auto


lemma merge_fields:
  "MinSeverity (mergeSourceFilters f g) = moreRestrictiveSeverity (MinSeverity f) (MinSeverity g)"
  "ExcludeEventTypes (mergeSourceFilters f g) = unionStringLists (ExcludeEventTypes f) (ExcludeEventTypes g)"
  "ExcludeNamespaces (mergeSourceFilters f g) = unionStringLists (ExcludeNamespaces f) (ExcludeNamespaces g)"
  "ExcludeKinds (mergeSourceFilters f g) = unionStringLists (ExcludeKinds f) (ExcludeKinds g)"
  "ExcludeCategories (mergeSourceFilters f g) = unionStringLists (ExcludeCategories f) (ExcludeCategories g)"
  "ExcludeRules (mergeSourceFilters f g) = unionStringLists (ExcludeRules f) (ExcludeRules g)"
  "IgnoreKinds (mergeSourceFilters f g) = unionStringLists (IgnoreKinds f) (IgnoreKinds g)"
  "Enabled (mergeSourceFilters f g) = mergeEnabled (Enabled f) (Enabled g)"
  by (simp_all add: mergeSourceFilters_def)

lemma merge_all_Some:
  assumes "merge_all fs = Some f" obtains g gs where "fs = g # gs" "f = foldl mergeSourceFilters g gs"
  using assms by (cases fs) (auto simp: merge_all_def)

lemma merged_excludes:
  assumes "\<And>f g. fld (mergeSourceFilters f g) = unionStringLists (fld f) (fld g)" "merge_all fs = Some f"
  shows "lower_set (fld f) = (\<Union>g\<in>set fs. lower_set (fld g))"
proof -
  from assms(2) obtain g gs where "fs = g # gs" "f = foldl mergeSourceFilters g gs"
    by (rule merge_all_Some)
  then show ?thesis
    using excl.abs_foldl [of "fld g" "map fld gs"] by (simp add: foldl_field [of fld unionStringLists, OF assms(1)] excl_F image_image)
qed

lemma merged_severity:
  assumes "merge_all fs = Some f"
  shows "sev_level (MinSeverity f) = Max ((\<lambda>g. sev_level (MinSeverity g)) ` set fs)"
proof -
  from assms obtain g gs where "fs = g # gs" "f = foldl mergeSourceFilters g gs"
    by (rule merge_all_Some)
  then show ?thesis
    using sev.abs_foldl [of "MinSeverity g" "map MinSeverity gs"]
    by (simp add: foldl_field [of MinSeverity, OF merge_fields(1)] sev_F image_image del: Max_insert)
qed

lemma merged_disabled:
  assumes "merge_all fs = Some f"
  shows "Enabled f = Some False \<longleftrightarrow> (\<exists>g\<in>set fs. Enabled g = Some False)"
proof -
  from assms obtain g gs where "fs = g # gs" "f = foldl mergeSourceFilters g gs"
    by (rule merge_all_Some)
  then show ?thesis
    using enab.abs_foldl [of "Enabled g" "map Enabled gs"]
    by (auto simp: foldl_field [of Enabled, OF merge_fields(8)] enab_F image_iff eq_commute [of "Some False"])
qed

text \<open>C14. Merging filter configurations: a source gets a filter exactly when some configuration has one under
  that name (in any letter case), and the merged filter is the most restrictive combination whatever
  the order of the configurations: it excludes what any of them excludes, its minimum severity is the
  highest of theirs, and it is disabled when one of them is.\<close>

theorem merge_most_restrictive:
  assumes "2 \<le> length configs" "filters_for k configs \<noteq> []"
  shows "\<exists>f. map_of (the (Sources (MergeFilterConfigs configs))) k = Some f \<and>
    lower_set (ExcludeEventTypes f) = (\<Union>g\<in>set (filters_for k configs). lower_set (ExcludeEventTypes g)) \<and>
    lower_set (ExcludeNamespaces f) = (\<Union>g\<in>set (filters_for k configs). lower_set (ExcludeNamespaces g)) \<and>
    lower_set (ExcludeKinds f) = (\<Union>g\<in>set (filters_for k configs). lower_set (ExcludeKinds g)) \<and>
    lower_set (ExcludeCategories f) = (\<Union>g\<in>set (filters_for k configs). lower_set (ExcludeCategories g)) \<and>
    lower_set (ExcludeRules f) = (\<Union>g\<in>set (filters_for k configs). lower_set (ExcludeRules g)) \<and>
    lower_set (IgnoreKinds f) = (\<Union>g\<in>set (filters_for k configs). lower_set (IgnoreKinds g)) \<and>
    sev_level (MinSeverity f) = Max ((\<lambda>g. sev_level (MinSeverity g)) ` set (filters_for k configs)) \<and>
    (Enabled f = Some False \<longleftrightarrow> (\<exists>g\<in>set (filters_for k configs). Enabled g = Some False))"
proof -
  obtain f where f: "merge_all (filters_for k configs) = Some f"
    using assms(2) by (cases "filters_for k configs") (auto simp: merge_all_def)
  then show ?thesis
    using assms(1) merged_severity [OF f] merged_disabled [OF f] merge_fields(2-7) [THEN merged_excludes, OF f]
    by (auto simp: MergeFilterConfigs_lookup)
qed

definition no_filter :: SourceFilter where
  "no_filter = \<lparr>MinSeverity = [], IncludeSeverity = [], ExcludeEventTypes = [], IncludeEventTypes = [],
     ExcludeNamespaces = [], IncludeNamespaces = [], ExcludeKinds = [], IncludeKinds = [],
     ExcludeCategories = [], IncludeCategories = [], ExcludeRules = [], IgnoreKinds = [], Enabled = None\<rparr>"

theorem merge_most_restrictive_witness:
  "\<exists>f. map_of (the (Sources (MergeFilterConfigs
       [Some (sources_config (Some [(''Trivy'', no_filter\<lparr>MinSeverity := ''LOW'', ExcludeKinds := [''Pod'']\<rparr>)])), None,
        Some (sources_config (Some [(''trivy'', no_filter\<lparr>MinSeverity := ''high'', ExcludeKinds := [''Job'', ''pod'']\<rparr>)]))]))) ''trivy'' = Some f
     \<and> lower_set (ExcludeKinds f) = {''pod'', ''job''} \<and> sev_level (MinSeverity f) = 4 \<and> Enabled f \<noteq> Some False"
proof -
  let ?a = "no_filter\<lparr>MinSeverity := ''LOW'', ExcludeKinds := [''Pod'']\<rparr>"
  let ?b = "no_filter\<lparr>MinSeverity := ''high'', ExcludeKinds := [''Job'', ''pod'']\<rparr>"
  let ?cs = "[Some (sources_config (Some [(''Trivy'', ?a)])), None, Some (sources_config (Some [(''trivy'', ?b)]))]"
  have fs: "filters_for ''trivy'' ?cs = [?a, ?b]" by code_simp
  have sets: "lower_set [''Pod''] = {''pod''}" "lower_set [''Job'', ''pod''] = {''job'', ''pod''}" by code_simp+
  have levels: "sev_level ''LOW'' = 2" "sev_level ''high'' = 4" by code_simp+
  have "\<exists>f. map_of (the (Sources (MergeFilterConfigs ?cs))) ''trivy'' = Some f \<and>
     lower_set (ExcludeKinds f) = (\<Union>g\<in>set [?a, ?b]. lower_set (ExcludeKinds g)) \<and>
     sev_level (MinSeverity f) = Max ((\<lambda>g. sev_level (MinSeverity g)) ` set [?a, ?b]) \<and>
     (Enabled f = Some False \<longleftrightarrow> (\<exists>g\<in>set [?a, ?b]. Enabled g = Some False))"
    using merge_most_restrictive [of ?cs "''trivy''"] unfolding fs by auto
  then show ?thesis by (auto simp: sets levels no_filter_def insert_commute simp del: lower_set_simps)
qed

text \<open>The include lists of two filters are intersected, but an empty intersection is taken for "no
  restriction" by the next merge: three filters whose first two include lists have nothing in common
  end up including what the third one includes.\<close>

theorem include_lists_intersect:
  assumes "l1 \<noteq> []" "l2 \<noteq> []"
  shows "lower_set (intersectStringLists l1 l2) = lower_set l1 \<inter> lower_set l2 \<and>
    (lower_set l1 \<inter> lower_set l2 = {} \<longrightarrow> intersectStringLists (intersectStringLists l1 l2) l3 = l3)"
proof (intro conjI impI)
  show eq: "lower_set (intersectStringLists l1 l2) = lower_set l1 \<inter> lower_set l2"
    using assms by (rule lower_set_intersect)
  assume "lower_set l1 \<inter> lower_set l2 = {}"
  with eq have "intersectStringLists l1 l2 = []" by (simp add: lower_set_def)
  then show "intersectStringLists (intersectStringLists l1 l2) l3 = l3"
    by (simp add: intersectStringLists_def)
qed

theorem include_lists_intersect_witness:
  "intersectStringLists (intersectStringLists [''Pod''] [''Job'']) [''Node''] = [''Node'']"
  using include_lists_intersect [of "[''Pod'']" "[''Job'']" "[''Node'']"] by (simp add: lower_set_def) code_simp

section \<open>Loading and the filter object\<close>

lemma normalizeKinds_excludes:
  "lower_set (ExcludeKinds (normalizeKinds f)) = lower_set (ExcludeKinds f) \<union> lower_set (IgnoreKinds f)"
  using foldl_add_seen [of "[]" "ExcludeKinds f"]
    foldl_add_seen [of "foldl add_seen [] (ExcludeKinds f)" "IgnoreKinds f"]
  by (auto simp: normalizeKinds_def lower_set_seen)

lemma IgnoreKinds_normalizeKinds [simp]: "IgnoreKinds (normalizeKinds f) = IgnoreKinds f"
  by (simp add: normalizeKinds_def)

lemma sources_of_map:
  "sources_of (Some (c\<lparr>Sources := map_option (map g) (Sources c)\<rparr>)) = map g (sources_of (Some c))"
  by (cases "Sources c") (simp_all add: sources_of_def)

lemma nil_sources:
  "(if Sources c = None then c\<lparr>Sources := Some []\<rparr> else c) = c\<lparr>Sources := Some (sources_of (Some c))\<rparr>"
  by (cases c) (auto simp: sources_of_def)

text \<open>Whatever the cluster and the decoder return, a loaded configuration excludes the kinds it ignores;
  a missing ConfigMap or key gives the configuration that allows everything.\<close>

theorem load_excludes_ignored:
  assumes "LoadFilterConfig getenv get_cm unmarshal = Inr cfg" "(k, f) \<in> set (sources_of (Some cfg))"
  shows "lower_set (IgnoreKinds f) \<subseteq> lower_set (ExcludeKinds f)"
proof -
  have "f \<in> range normalizeKinds"
    using assms by (auto simp: LoadFilterConfig_def Let_def sources_of_map split: option.splits)
      (simp_all add: sources_of_def)
  then show ?thesis by (auto simp: normalizeKinds_excludes)
qed

theorem load_excludes_ignored_witness:
  "\<exists>cfg f. LoadFilterConfig (\<lambda>_. []) (\<lambda>ns n. if ns = ''zen-system'' \<and> n = ''zen-watcher-filter'' then Some [(''filter.json'', ''x'')] else None)
       (\<lambda>_. Some (sources_config (Some [(''kyverno'', no_filter\<lparr>IgnoreKinds := [''Pod'']\<rparr>)]))) = Inr cfg \<and>
     (''kyverno'', f) \<in> set (sources_of (Some cfg)) \<and> ''pod'' \<in> lower_set (ExcludeKinds f)"
proof -
  let ?un = "\<lambda>_. Some (sources_config (Some [(''kyverno'', no_filter\<lparr>IgnoreKinds := [''Pod'']\<rparr>)]))"
  let ?cm = "\<lambda>ns n. if ns = ''zen-system'' \<and> n = ''zen-watcher-filter'' then Some [(''filter.json'', ''x'')] else None"
  let ?f = "normalizeKinds (no_filter\<lparr>IgnoreKinds := [''Pod'']\<rparr>)"
  let ?cfg = "(sources_config (Some [(''kyverno'', ?f)]))"
  have load: "LoadFilterConfig (\<lambda>_. []) ?cm ?un = Inr ?cfg"
    by (simp add: LoadFilterConfig_def env_or_def)
  have mem: "(''kyverno'', ?f) \<in> set (sources_of (Some ?cfg))" by (simp add: sources_of_def)
  have "''pod'' \<in> lower_set [''Pod'']" by code_simp
  then have "''pod'' \<in> lower_set (ExcludeKinds ?f)"
    using load_excludes_ignored [OF load mem] by (auto simp: no_filter_def simp del: lower_set_simps)
  with load mem show ?thesis by blast
qed

text \<open>The filter object delegates to the SDK filter of its current configuration: after an update the
  new configuration decides (with a nil \<^verbatim>\<open>Sources\<close> map made empty), an absent filter allows everything,
  and the variant with a reason takes the same decision and counts each rejection once.\<close>

theorem filter_delegates:
  "(Allow sdk_allow (UpdateConfig sdk_new cfg (Some (NewFilterWithMetrics sdk_new cfg0 m))) obs \<longleftrightarrow>
      sdk_allow (sdk_new (map_option (\<lambda>c. c\<lparr>Sources := Some (sources_of (Some c))\<rparr>) cfg)) obs) \<and>
   Allow sdk_allow None obs \<and>
   fst (AllowWithReason sdk_allow nested f obs) =
     (Allow sdk_allow f obs, if Allow sdk_allow f obs then [] else ''sdk_filtered'') \<and>
   map_option decisions (snd (AllowWithReason sdk_allow nested f obs)) =
     map_option (\<lambda>flt. decisions flt @ (if \<not> Allow sdk_allow f obs \<and> has_metrics flt
       then [(source_label nested obs, ''filter'', ''sdk_filtered'')] else [])) f"
proof (intro conjI)
  show "Allow sdk_allow (UpdateConfig sdk_new cfg (Some (NewFilterWithMetrics sdk_new cfg0 m))) obs \<longleftrightarrow>
      sdk_allow (sdk_new (map_option (\<lambda>c. c\<lparr>Sources := Some (sources_of (Some c))\<rparr>) cfg)) obs"
    by (simp add: Allow_def UpdateConfig_def NewFilterWithMetrics_def Let_def nil_sources)
qed (auto simp: AllowWithReason_def Allow_def split: option.splits)

end
