(* ===== verification/K8s_Unstructured.thy ===== *)
theory K8s_Unstructured
  imports Zen_Values
begin

text \<open>
  The interface to \<^verbatim>\<open>k8s.io/apimachinery/pkg/apis/meta/v1/unstructured\<close>, a package outside the repository.
  The operations the sources call are a parameter of the model, the record \<open>uapi\<close>; what their
  documentation says of objects made of JSON values is the locale \<open>unstructured_laws\<close>. A reader is
  \<open>Some\<close> of the value when the Go function reports \<^verbatim>\<open>found\<close>; the sources never look at its error. A setter
  is \<open>None\<close> when it returns an error, and then leaves the object alone. On values that are not JSON the
  Go functions may panic; such calls are outside the laws.

  Below it, the cached field access of \<^verbatim>\<open>pkg/watcher/field_extractor.go\<close>, with the proof that the cache
  never changes an answer as long as no path element contains a colon.
\<close>

section \<open>The package\<close>

record uapi =
  NestedString :: "obj \<Rightarrow> string list \<Rightarrow> string option"
  NestedMap :: "obj \<Rightarrow> string list \<Rightarrow> obj option"
  NestedFieldCopy :: "obj \<Rightarrow> string list \<Rightarrow> val option"
  NestedInt64 :: "obj \<Rightarrow> string list \<Rightarrow> int option"
  SetNestedField :: "obj \<Rightarrow> val \<Rightarrow> string list \<Rightarrow> obj option"
  SetNestedMap :: "obj \<Rightarrow> obj \<Rightarrow> string list \<Rightarrow> obj option"
  GetNamespace :: "obj \<Rightarrow> string"
  GetName :: "obj \<Rightarrow> string"

text \<open>The JSON values: what \<^verbatim>\<open>json.Unmarshal\<close> produces, and \<^verbatim>\<open>int64\<close>.\<close>

primrec json_ok :: "val \<Rightarrow> bool" where
  "json_ok VNil = True"
| "json_ok (VBool b) = True"
| "json_ok (VStr s) = True"
| "json_ok (VInt n) = False"
| "json_ok (VInt32 n) = False"
| "json_ok (VInt64 n) = True"
| "json_ok (VFloat x) = True"
| "json_ok (VFloat32 x t) = False"
| "json_ok (VBytes bs) = False"
| "json_ok (VList vs) = list_all id (map json_ok vs)"
| "json_ok (VMap m) = list_all snd (map (map_prod id json_ok) m)"
| "json_ok (VOther t) = False"

abbreviation json_obj :: "obj \<Rightarrow> bool" where
  "json_obj m \<equiv> json_ok (VMap m)"

definition to_int64 :: "val \<Rightarrow> int option" where
  "to_int64 v = (case v of VInt64 n \<Rightarrow> Some n | _ \<Rightarrow> None)"

abbreviation walk_to :: "(val \<Rightarrow> 'a option) \<Rightarrow> obj \<Rightarrow> string list \<Rightarrow> 'a option" where
  "walk_to f m ks \<equiv> Option.bind (walk (VMap m) ks) f"

locale unstructured_laws =
  fixes u :: uapi
  assumes NestedString: "\<And>m ks. json_obj m \<Longrightarrow> NestedString u m ks = walk_to as_string m ks"
    and NestedMap: "\<And>m ks. json_obj m \<Longrightarrow> NestedMap u m ks = walk_to as_map m ks"
    and NestedFieldCopy: "\<And>m ks. json_obj m \<Longrightarrow> NestedFieldCopy u m ks = walk (VMap m) ks"
    and NestedInt64: "\<And>m ks. json_obj m \<Longrightarrow> NestedInt64 u m ks = walk_to to_int64 m ks"
    and SetNestedField: "\<And>m v ks. json_ok v \<Longrightarrow> ks \<noteq> [] \<Longrightarrow> SetNestedField u m v ks = store False m ks v"
    and SetNestedMap: "\<And>m w ks. json_obj w \<Longrightarrow> ks \<noteq> [] \<Longrightarrow> SetNestedMap u m w ks = store False m ks (VMap w)"
    and GetNamespace: "\<And>m. json_obj m \<Longrightarrow>
      GetNamespace u m = (case walk_to as_string m [''metadata'', ''namespace''] of None \<Rightarrow> [] | Some s \<Rightarrow> s)"
    and GetName: "\<And>m. json_obj m \<Longrightarrow>
      GetName u m = (case walk_to as_string m [''metadata'', ''name''] of None \<Rightarrow> [] | Some s \<Rightarrow> s)"

text \<open>A package that obeys the laws.\<close>

definition walk_api :: uapi where
  "walk_api =
     \<lparr>NestedString = walk_to as_string, NestedMap = walk_to as_map,
      NestedFieldCopy = (\<lambda>m. walk (VMap m)), NestedInt64 = walk_to to_int64,
      SetNestedField = (\<lambda>m v ks. store False m ks v), SetNestedMap = (\<lambda>m v ks. store False m ks (VMap v)),
      GetNamespace = (\<lambda>m. case walk_to as_string m [''metadata'', ''namespace''] of None \<Rightarrow> [] | Some s \<Rightarrow> s),
      GetName = (\<lambda>m. case walk_to as_string m [''metadata'', ''name''] of None \<Rightarrow> [] | Some s \<Rightarrow> s)\<rparr>"

interpretation walk_api: unstructured_laws walk_api
  by unfold_locales (simp_all add: walk_api_def)

subsection \<open>JSON objects\<close>

lemma json_map_iff: "json_obj m \<longleftrightarrow> (\<forall>(k, v)\<in>set m. json_ok v)"
  by (induction m) auto

lemma json_Nil [simp]: "json_obj []"
  by simp

lemma json_put: "json_obj m \<Longrightarrow> json_ok v \<Longrightarrow> json_obj (put k v m)"
  by (induction m) auto

lemma json_lookup: "json_obj m \<Longrightarrow> map_of m k = Some v \<Longrightarrow> json_ok v"
  by (auto simp: json_map_iff dest: map_of_SomeD simp del: json_ok.simps)

lemma json_walk: "json_ok v \<Longrightarrow> walk v ks = Some w \<Longrightarrow> json_ok w"
  by (induction ks arbitrary: v) (auto split: option.splits dest: json_lookup simp del: json_ok.simps)

lemma json_store: "store f m ks v = Some m' \<Longrightarrow> json_obj m \<Longrightarrow> json_ok v \<Longrightarrow> json_obj m'"
proof (induction f m ks v arbitrary: m' rule: store.induct)
  case (3 force m k k' ks v)
  then obtain sub sub' where s: "sub_map force m k = Some sub" "store force sub (k' # ks) v = Some sub'"
    "m' = put k (VMap sub') m"
    by (auto split: option.splits)
  have "json_obj sub"
    using s(1) 3(3) by (auto simp: sub_map_def dest: json_lookup simp del: json_ok.simps split: option.splits if_splits)
  with 3 s show ?case by (auto intro!: json_put simp del: json_ok.simps)
qed (auto intro: json_put simp del: json_ok.simps)

section \<open>The field extractor (field_extractor.go)\<close>

type_synonym path_cache = "(string, string list) gomap"

text \<open>Load the path of a cache key, or store it on a miss (\<^verbatim>\<open>LoadOrStore\<close> keeps an entry that another
  goroutine stored in between, which is then used by later calls, not by this one).\<close>

definition cacheKey :: "string list \<Rightarrow> string" where
  "cacheKey path = join_with '':'' path"

definition cached_path :: "path_cache \<Rightarrow> string list \<Rightarrow> string list \<times> path_cache" where
  "cached_path cache path =
     (case map_of cache (cacheKey path) of
        Some p \<Rightarrow> (p, cache)
      | None \<Rightarrow> (path, put (cacheKey path) path cache))"

definition extract_with ::
    "(obj \<Rightarrow> string list \<Rightarrow> 'a option) \<Rightarrow> path_cache \<Rightarrow> obj \<Rightarrow> string list \<Rightarrow> 'a option \<times> path_cache" where
  "extract_with get cache obj path =
     (if path = [] then (None, cache)
      else (let (p, cache') = cached_path cache path in (get obj p, cache')))"

definition ExtractString :: "uapi \<Rightarrow> path_cache \<Rightarrow> obj \<Rightarrow> string list \<Rightarrow> string option \<times> path_cache" where
  "ExtractString u = extract_with (NestedString u)"

definition ExtractMap :: "uapi \<Rightarrow> path_cache \<Rightarrow> obj \<Rightarrow> string list \<Rightarrow> obj option \<times> path_cache" where
  "ExtractMap u = extract_with (NestedMap u)"

definition ExtractFieldCopy :: "uapi \<Rightarrow> path_cache \<Rightarrow> obj \<Rightarrow> string list \<Rightarrow> val option \<times> path_cache" where
  "ExtractFieldCopy u = extract_with (NestedFieldCopy u)"

definition ExtractInt64 :: "uapi \<Rightarrow> path_cache \<Rightarrow> obj \<Rightarrow> string list \<Rightarrow> int option \<times> path_cache" where
  "ExtractInt64 u = extract_with (NestedInt64 u)"

subsection \<open>The cache is transparent\<close>

text \<open>Caches reachable by extracting paths without colons.\<close>

definition plain_path :: "string list \<Rightarrow> bool" where
  "plain_path path \<longleftrightarrow> path \<noteq> [] \<and> list_all (\<lambda>k. CHR '':'' \<notin> set k) path"

inductive reachable_cache :: "path_cache \<Rightarrow> bool" where
  empty: "reachable_cache []"
| step: "reachable_cache c \<Longrightarrow> plain_path path \<Longrightarrow> reachable_cache (snd (cached_path c path))"

lemma cacheKey_inj: "plain_path p \<Longrightarrow> plain_path q \<Longrightarrow> cacheKey p = cacheKey q \<Longrightarrow> p = q"
  unfolding plain_path_def cacheKey_def list_all_iff by (metis split_join)

lemma reachable_entries:
  "reachable_cache c \<Longrightarrow> map_of c k = Some p \<Longrightarrow> plain_path p \<and> cacheKey p = k"
proof (induction arbitrary: k p rule: reachable_cache.induct)
  case (step c path)
  then show ?case by (auto simp: cached_path_def split: option.splits if_splits)
qed simp

lemma cached_path_hit: "reachable_cache c \<Longrightarrow> plain_path path \<Longrightarrow> fst (cached_path c path) = path"
  by (auto simp: cached_path_def split: option.splits dest: reachable_entries cacheKey_inj)

lemma extract_transparent:
  "reachable_cache c \<Longrightarrow> plain_path path \<Longrightarrow> fst (extract_with get c obj path) = get obj path"
  using cached_path_hit [of c path] by (auto simp: extract_with_def plain_path_def Let_def split: prod.splits)

lemma reachable_extract:
  "reachable_cache c \<Longrightarrow> plain_path path \<Longrightarrow> reachable_cache (snd (extract_with get c obj path))"
  using reachable_cache.step [of c path]
  by (auto simp: extract_with_def plain_path_def Let_def split: prod.splits)

text \<open>The cache of the field extractor never changes an answer: after any sequence of extractions along
  paths without colons, an extraction returns what the uncached API returns, and the cache keeps this
  property. (With colons two paths can share a key: \<open>[''a:b'']\<close> and \<open>[''a'', ''b'']\<close>.)\<close>

theorem field_cache_transparent:
  assumes "reachable_cache c" "plain_path path"
  shows "fst (ExtractString u c obj path) = NestedString u obj path \<and>
    fst (ExtractMap u c obj path) = NestedMap u obj path \<and>
    fst (ExtractFieldCopy u c obj path) = NestedFieldCopy u obj path \<and>
    fst (ExtractInt64 u c obj path) = NestedInt64 u obj path \<and>
    reachable_cache (snd (ExtractString u c obj path))"
  using assms unfolding ExtractString_def ExtractMap_def ExtractFieldCopy_def ExtractInt64_def
  by (simp add: extract_transparent reachable_extract)

theorem field_cache_transparent_witness:
  "reachable_cache (snd (cached_path [] [''spec'', ''source''])) \<and> plain_path [''spec'', ''source''] \<and>
   fst (ExtractString walk_api (snd (cached_path [] [''spec'', ''source'']))
      [(''spec'', VMap [(''source'', VStr ''trivy'')])] [''spec'', ''source'']) = Some ''trivy''"
proof -
  let ?c = "snd (cached_path [] [''spec'', ''source''])"
  have p: "plain_path [''spec'', ''source'']" by (simp add: plain_path_def)
  have c: "reachable_cache ?c" using p by (intro reachable_cache.intros)
  have "NestedString walk_api [(''spec'', VMap [(''source'', VStr ''trivy'')])] [''spec'', ''source''] = Some ''trivy''"
    by (simp add: walk_api_def)
  then show ?thesis using p c field_cache_transparent [OF c p] by simp
qed

end
