(* ===== verification/GVR_Allowlist.thy ===== *)
theory GVR_Allowlist
  imports Zen_Prelude
begin

text \<open>
  The write policy of \<^verbatim>\<open>pkg/watcher/gvr_allowlist.go\<close> and the destination names of
  \<^verbatim>\<open>pkg/config/gvrs.go\<close>. The environment is the parameter \<open>getenv\<close> (unset is empty). Sets of names
  (\<^verbatim>\<open>map[string]bool\<close>) are maps to booleans, as in the code.

  Main results: a write is let through exactly when the policy of the documentation allows it, the hard
  deny list cannot be overridden by any environment, and the default environment blocks the program's
  own observations, whose version is \<^verbatim>\<open>v1alpha1\<close> where the default allowlist has \<^verbatim>\<open>v1\<close>.
\<close>

record GVR =
  Group :: string
  Version :: string
  Resource :: string

section \<open>Destinations (gvrs.go)\<close>

definition getDefaultAPIGroup :: "(string \<Rightarrow> string) \<Rightarrow> string" where
  "getDefaultAPIGroup getenv = (if getenv ''ZEN_API_GROUP'' \<noteq> [] then getenv ''ZEN_API_GROUP'' else ''zen.kube-zen.io'')"

definition DefaultAPIVersion :: string where
  "DefaultAPIVersion = ''v1alpha1''"

definition IngesterGVR :: "(string \<Rightarrow> string) \<Rightarrow> GVR" where
  "IngesterGVR getenv = \<lparr>Group = getDefaultAPIGroup getenv, Version = ''v1alpha1'', Resource = ''ingesters''\<rparr>"

definition ObservationsGVR :: "(string \<Rightarrow> string) \<Rightarrow> GVR" where
  "ObservationsGVR getenv =
     \<lparr>Group = getDefaultAPIGroup getenv, Version = DefaultAPIVersion, Resource = ''observations''\<rparr>"

definition ResolveDestinationGVR :: "(string \<Rightarrow> string) \<Rightarrow> string \<Rightarrow> GVR" where
  "ResolveDestinationGVR getenv value =
     (if value = ''observations'' then ObservationsGVR getenv
      else \<lparr>Group = getDefaultAPIGroup getenv, Version = DefaultAPIVersion, Resource = value\<rparr>)"

section \<open>The allowlist (gvr\_allowlist.go)\<close>

record GVRAllowlist =
  allowedGVRs :: "(string, bool) gomap"
  allowedNamespaces :: "(string, bool) gomap"
  defaultNamespace :: string
  clusterScopedAllowed :: "(string, bool) gomap"

text \<open>An absent key reads as the zero value \<open>False\<close>.\<close>

definition member :: "(string, bool) gomap \<Rightarrow> string \<Rightarrow> bool" where
  "member m k = (map_of m k = Some True)"

text \<open>The loop over a comma-separated list.\<close>

definition add_names :: "string \<Rightarrow> (string, bool) gomap \<Rightarrow> (string, bool) gomap" where
  "add_names env m =
     foldl (\<lambda>acc w. if trim_space w \<noteq> [] then put (trim_space w) True acc else acc) m (split_on CHR '','' env)"

definition NewGVRAllowlist :: "(string \<Rightarrow> string) \<Rightarrow> GVRAllowlist" where
  "NewGVRAllowlist getenv =
     (let dns = getenv ''WATCH_NAMESPACE'';
          gvrs = [(''zen.kube-zen.io/v1/observations'', True)];
          gvrs' = (if getenv ''ALLOWED_GVRS'' \<noteq> [] then add_names (getenv ''ALLOWED_GVRS'') gvrs else gvrs);
          nss = (if getenv ''ALLOWED_NAMESPACES'' \<noteq> [] then add_names (getenv ''ALLOWED_NAMESPACES'') []
                 else if dns \<noteq> [] then [(dns, True)] else []);
          cs = (if getenv ''ALLOWED_CLUSTER_SCOPED_GVRS'' \<noteq> []
                then add_names (getenv ''ALLOWED_CLUSTER_SCOPED_GVRS'') [] else [])
      in \<lparr>allowedGVRs = gvrs', allowedNamespaces = nss, defaultNamespace = dns, clusterScopedAllowed = cs\<rparr>)"

definition buildGVRKey :: "GVR \<Rightarrow> string" where
  "buildGVRKey gvr =
     (if Group gvr = [] then Version gvr @ ''/'' @ Resource gvr
      else Group gvr @ ''/'' @ Version gvr @ ''/'' @ Resource gvr)"

definition deniedGVRs :: "string list" where
  "deniedGVRs =
     [''v1/secrets'', ''rbac.authorization.k8s.io/v1/roles'', ''rbac.authorization.k8s.io/v1/rolebindings'',
      ''rbac.authorization.k8s.io/v1/clusterroles'', ''rbac.authorization.k8s.io/v1/clusterrolebindings'',
      ''v1/serviceaccounts'', ''admissionregistration.k8s.io/v1/validatingwebhookconfigurations'',
      ''admissionregistration.k8s.io/v1/mutatingwebhookconfigurations'',
      ''apiextensions.k8s.io/v1/customresourcedefinitions'',
      ''apiextensions.k8s.io/v1beta1/customresourcedefinitions'']"

text \<open>The errors wrap one of the four sentinel errors; their text is \<open>policy_text\<close>.\<close>

datatype policy_err =
    ErrGVRDenied string
  | ErrClusterScopedNotAllowed string
  | ErrGVRNotAllowed string "string list"
  | ErrNamespaceNotAllowed string "string list"

definition isClusterScopedAllowed :: "GVRAllowlist \<Rightarrow> string \<Rightarrow> bool" where
  "isClusterScopedAllowed a gvrKey = member (clusterScopedAllowed a) gvrKey"

definition GetAllowedGVRs :: "GVRAllowlist \<Rightarrow> string list" where
  "GetAllowedGVRs a = keys (allowedGVRs a)"

definition GetAllowedNamespaces :: "GVRAllowlist \<Rightarrow> string list" where
  "GetAllowedNamespaces a = keys (allowedNamespaces a)"

definition IsAllowed :: "GVRAllowlist \<Rightarrow> GVR \<Rightarrow> string \<Rightarrow> policy_err option" where
  "IsAllowed a gvr namespace =
     (let gvrKey = buildGVRKey gvr
      in if gvrKey \<in> set deniedGVRs then Some (ErrGVRDenied gvrKey)
         else if namespace = [] then
           (if \<not> isClusterScopedAllowed a gvrKey then Some (ErrClusterScopedNotAllowed gvrKey) else None)
         else if \<not> member (allowedGVRs a) gvrKey then Some (ErrGVRNotAllowed gvrKey (GetAllowedGVRs a))
         else (let ns = (if namespace = [] then defaultNamespace a else namespace)
               in if ns \<noteq> [] \<and> allowedNamespaces a \<noteq> [] \<and> \<not> member (allowedNamespaces a) ns
                  then Some (ErrNamespaceNotAllowed ns (GetAllowedNamespaces a)) else None))"

definition fmt_strings :: "string list \<Rightarrow> string" where
  "fmt_strings ws = ''['' @ join_with '' '' ws @ '']''"

fun policy_text :: "policy_err \<Rightarrow> string" where
  "policy_text (ErrGVRDenied k) = ''GVR categorically denied by security policy: GVR '' @ k @ '' is categorically denied (security policy)''"
| "policy_text (ErrClusterScopedNotAllowed k) =
     ''cluster-scoped resource not allowed: cluster-scoped resource '' @ k @ '' requires explicit approval (set ALLOWED_CLUSTER_SCOPED_GVRS)''"
| "policy_text (ErrGVRNotAllowed k ks) =
     ''GVR not in allowlist: GVR '' @ k @ '' is not in allowlist. Allowed GVRs: '' @ fmt_strings ks"
| "policy_text (ErrNamespaceNotAllowed n ns) =
     ''namespace not in allowlist: namespace '' @ n @ '' is not in allowlist. Allowed namespaces: '' @ fmt_strings ns"

section \<open>The policy\<close>

text \<open>The names of a comma-separated list.\<close>

definition names :: "string \<Rightarrow> string set" where
  "names env = {trim_space w |w. w \<in> set (split_on CHR '','' env)} - {[]}"

lemma names_Nil [simp]: "names [] = {}"
  by (auto simp: names_def trim_space_def)

lemma member_foldl:
  "member (foldl (\<lambda>acc w. if trim_space w \<noteq> [] then put (trim_space w) True acc else acc) m ws) k \<longleftrightarrow>
     member m k \<or> (\<exists>w\<in>set ws. trim_space w = k \<and> k \<noteq> [])"
  by (induction ws arbitrary: m) (auto simp: member_def split: if_splits)

lemma member_add_names: "member (add_names env m) k \<longleftrightarrow> member m k \<or> k \<in> names env"
  unfolding add_names_def member_foldl by (auto simp: names_def)

lemma foldl_add_names_Nil:
  "foldl (\<lambda>acc w. if trim_space w \<noteq> [] then put (trim_space w) True acc else acc) m ws = [] \<longleftrightarrow>
     m = [] \<and> (\<forall>w\<in>set ws. trim_space w = [])"
proof (induction ws arbitrary: m)
  case (Cons w ws)
  have "put k True m \<noteq> []" for k :: string by (cases m) auto
  with Cons show ?case by auto
qed simp

lemma add_names_Nil: "add_names env [] = [] \<longleftrightarrow> names env = {}"
  unfolding add_names_def foldl_add_names_Nil by (auto simp: names_def)

lemma member_Nil [simp]: "\<not> member [] k"
  by (simp add: member_def)

text \<open>A write is allowed exactly when the resource is not on the hard deny list and either it is cluster
  scoped and named in \<^verbatim>\<open>ALLOWED_CLUSTER_SCOPED_GVRS\<close>, or it is in the allowlist (the program's
  observations or \<^verbatim>\<open>ALLOWED_GVRS\<close>) and its namespace is one of \<^verbatim>\<open>ALLOWED_NAMESPACES\<close>, or
  \<^verbatim>\<open>WATCH_NAMESPACE\<close> when that is unset; with no namespace configured every namespace is.\<close>

theorem allowlist_policy:
  "IsAllowed (NewGVRAllowlist getenv) gvr ns = None \<longleftrightarrow>
     buildGVRKey gvr \<notin> set deniedGVRs \<and>
     (if ns = [] then buildGVRKey gvr \<in> names (getenv ''ALLOWED_CLUSTER_SCOPED_GVRS'')
      else (buildGVRKey gvr = ''zen.kube-zen.io/v1/observations'' \<or> buildGVRKey gvr \<in> names (getenv ''ALLOWED_GVRS'')) \<and>
           (let nss = (if getenv ''ALLOWED_NAMESPACES'' \<noteq> [] then names (getenv ''ALLOWED_NAMESPACES'')
                       else {getenv ''WATCH_NAMESPACE''} - {[]})
            in nss = {} \<or> ns \<in> nss))"
proof -
  let ?a = "NewGVRAllowlist getenv"
  let ?nss = "if getenv ''ALLOWED_NAMESPACES'' \<noteq> [] then names (getenv ''ALLOWED_NAMESPACES'')
              else {getenv ''WATCH_NAMESPACE''} - {[]}"
  have g: "member (allowedGVRs ?a) k \<longleftrightarrow> k = ''zen.kube-zen.io/v1/observations'' \<or> k \<in> names (getenv ''ALLOWED_GVRS'')" for k
    by (auto simp: NewGVRAllowlist_def Let_def member_add_names) (auto simp: member_def split: if_splits)
  have c: "member (clusterScopedAllowed ?a) k \<longleftrightarrow> k \<in> names (getenv ''ALLOWED_CLUSTER_SCOPED_GVRS'')" for k
    by (auto simp: NewGVRAllowlist_def Let_def member_add_names)
  have n: "member (allowedNamespaces ?a) k \<longleftrightarrow> k \<in> ?nss" "allowedNamespaces ?a = [] \<longleftrightarrow> ?nss = {}" for k
    by (auto simp: NewGVRAllowlist_def Let_def member_add_names add_names_Nil) (auto simp: member_def split: if_splits)
  show ?thesis
    by (simp add: IsAllowed_def Let_def isClusterScopedAllowed_def g c n)
qed

text \<open>With the default environment the program may not write its own observations: the destination it
  resolves has version \<^verbatim>\<open>v1alpha1\<close>, the default allowlist names version \<^verbatim>\<open>v1\<close>.\<close>

theorem default_observations_blocked:
  assumes "getenv ''ALLOWED_GVRS'' = []" "ns \<noteq> []"
  shows "\<exists>ks. IsAllowed (NewGVRAllowlist getenv) (ObservationsGVR getenv) ns =
    Some (ErrGVRNotAllowed (buildGVRKey (ObservationsGVR getenv)) ks)"
proof -
  let ?k = "buildGVRKey (ObservationsGVR getenv)"
  have g: "getDefaultAPIGroup getenv \<noteq> []" by (simp add: getDefaultAPIGroup_def)
  then have k: "?k = getDefaultAPIGroup getenv @ ''/v1alpha1/observations''"
    by (simp add: buildGVRKey_def ObservationsGVR_def DefaultAPIVersion_def)
  have suf: "drop (length ?k - 13) ?k = ''/observations''" using k by simp
  have "list_all (\<lambda>d. drop (length d - 13) d \<noteq> ''/observations'') deniedGVRs" by code_simp
  then have "?k \<notin> set deniedGVRs" using suf by (auto simp: list_all_iff)
  moreover have "drop (length ?k - 22) ?k = ''/v1alpha1/observations''" using k by simp
  then have "?k \<noteq> ''zen.kube-zen.io/v1/observations''" by auto
  ultimately show ?thesis
    using assms by (simp add: IsAllowed_def Let_def NewGVRAllowlist_def member_def)
qed

theorem default_observations_blocked_witness:
  "\<exists>ks. IsAllowed (NewGVRAllowlist (\<lambda>_. [])) (ObservationsGVR (\<lambda>_. [])) ''zen-system'' =
     Some (ErrGVRNotAllowed ''zen.kube-zen.io/v1alpha1/observations'' ks)"
proof -
  have "buildGVRKey (ObservationsGVR (\<lambda>_. [])) = ''zen.kube-zen.io/v1alpha1/observations''" by code_simp
  then show ?thesis using default_observations_blocked [of "\<lambda>_. []" "''zen-system''"] by simp
qed

end
