(* ===== verification/Observation_Model.thy ===== *)
theory Observation_Model
  imports K8s_Unstructured GVR_Allowlist
begin

text \<open>
  Events and observations: the normalisation of severities and event types (\<^verbatim>\<open>pkg/watcher/adapters.go\<close>),
  the conversion of an event to an observation (\<^verbatim>\<open>pkg/watcher/adapter.go\<close>) and of an observation to the
  resource that is written (\<^verbatim>\<open>pkg/watcher/crd_creator.go\<close>), with the guarded write itself. The API server
  is the parameter \<open>api\<close>: given the writes it has received and the new one, the error it answers with, if
  any. Logging is left out.

  Main results: what is produced always satisfies the validation rules of the custom resource definition,
  an observation carries the event's data, and the created resource carries the observation's spec.
\<close>

section \<open>Normalisation (adapters.go)\<close>

definition normalizeSeverity :: "string \<Rightarrow> string" where
  "normalizeSeverity severity =
     (let upper = to_upper severity
      in if upper \<in> {''CRITICAL'', ''FATAL'', ''EMERGENCY''} then ''critical''
         else if upper \<in> {''HIGH'', ''ERROR'', ''ALERT''} then ''high''
         else if upper \<in> {''MEDIUM'', ''WARNING'', ''WARN''} then ''medium''
         else if upper \<in> {''LOW'', ''INFORMATIONAL''} then ''low''
         else if upper = ''INFO'' then ''info''
         else ''info'')"

text \<open>The length in bytes of the first rune of a non-empty string, as \<^verbatim>\<open>for range\<close> decodes it; a byte that
  starts no valid UTF-8 sequence is a rune of its own.\<close>

definition byte_at :: "nat \<Rightarrow> string \<Rightarrow> int" where
  "byte_at i s = (if i < length s then byte_of (s ! i) else - 1)"

abbreviation between :: "int \<Rightarrow> int \<Rightarrow> int \<Rightarrow> bool" where
  "between lo hi b \<equiv> lo \<le> b \<and> b \<le> hi"

definition rune_len :: "string \<Rightarrow> nat" where
  "rune_len s =
     (let b0 = byte_at 0 s; b1 = byte_at 1 s; b2 = byte_at 2 s; b3 = byte_at 3 s
      in if between 194 223 b0 \<and> between 128 191 b1 then 2
         else if between 224 239 b0 \<and> between (if b0 = 224 then 160 else 128) (if b0 = 237 then 159 else 191) b1
                 \<and> between 128 191 b2 then 3
         else if between 240 244 b0 \<and> between (if b0 = 240 then 144 else 128) (if b0 = 244 then 143 else 191) b1
                 \<and> between 128 191 b2 \<and> between 128 191 b3 then 4
         else 1)"

lemma rune_len_pos [simp]: "0 < rune_len s"
  by (simp add: rune_len_def Let_def)

lemma rune_len_progress [simp]: "Suc n - rune_len s \<le> n"
  using rune_len_pos [of s] by linarith

definition valid_type_char :: "char \<Rightarrow> bool" where
  "valid_type_char c \<longleftrightarrow> is_lower_letter c \<or> is_digit_char c \<or> c = CHR ''_''"

text \<open>The loop over the runes: a valid character is kept, any other rune becomes an underscore.\<close>

function clean_runes :: "string \<Rightarrow> string" where
  "clean_runes [] = []"
| "clean_runes (c # s) =
     (if valid_type_char c then c # clean_runes s
      else CHR ''_'' # clean_runes (drop (rune_len (c # s)) (c # s)))"
  by pat_completeness auto
termination
  by (relation "measure length") (auto simp: less_Suc_eq_le)

definition normalizeEventType :: "string \<Rightarrow> string" where
  "normalizeEventType eventType =
     (if eventType = [] then ''custom_event''
      else (let normalized = map (\<lambda>c. if c = CHR ''-'' then CHR ''_'' else c) (to_lower eventType);
                result = clean_runes normalized
            in if result = [] then ''custom_event'' else result))"

section \<open>Events (adapter.go)\<close>

record ResourceRef =
  APIVersion :: string
  Kind :: string
  Name :: string
  Namespace :: string

record Event =
  Source :: string
  Category :: string
  Severity :: string
  EventType :: string
  EResource :: "ResourceRef option"
  Details :: obj
  ENamespace :: string
  DetectedAt :: string

text \<open>The conversion of a value of the details.\<close>

definition safe_detail :: "val \<Rightarrow> val" where
  "safe_detail v = (case v of
       VInt32 n \<Rightarrow> VFloat (f64_of_int n)
     | VInt64 n \<Rightarrow> VFloat (f64_of_int n)
     | VInt n \<Rightarrow> VFloat (f64_of_int n)
     | VFloat32 x t \<Rightarrow> VFloat x
     | VBytes bs \<Rightarrow> VStr bs
     | _ \<Rightarrow> v)"

definition resource_map :: "ResourceRef \<Rightarrow> obj" where
  "resource_map r =
     (let m0 = [(''kind'', VStr (Kind r)), (''name'', VStr (Name r))];
          m1 = (if APIVersion r \<noteq> [] then put ''apiVersion'' (VStr (APIVersion r)) m0 else m0)
      in if Namespace r \<noteq> [] then put ''namespace'' (VStr (Namespace r)) m1 else m1)"

text \<open>A setter that fails is logged and leaves the observation as it is.\<close>

abbreviation set_or_keep :: "obj option \<Rightarrow> obj \<Rightarrow> obj" where
  "set_or_keep r m \<equiv> (case r of None \<Rightarrow> m | Some m' \<Rightarrow> m')"

text \<open>\<open>now\<close> is the current time in RFC 3339 format.\<close>

definition base_observation :: "string \<Rightarrow> Event \<Rightarrow> obj" where
  "base_observation now event =
     (let namespace = (if ENamespace event = [] then ''default'' else ENamespace event);
          detectedAt = (if DetectedAt event = [] then now else DetectedAt event);
          normalizedSeverity = normalizeSeverity (Severity event);
          normalizedEventType = normalizeEventType (EventType event)
      in [(''apiVersion'', VStr ''zen.kube-zen.io/v1''),
          (''kind'', VStr ''Observation''),
          (''metadata'', VMap
             [(''generateName'', VStr (Source event @ ''-'')),
              (''namespace'', VStr namespace),
              (''labels'', VMap
                 [(''source'', VStr (Source event)),
                  (''category'', VStr (Category event)),
                  (''severity'', VStr normalizedSeverity)])]),
          (''spec'', VMap
             [(''source'', VStr (Source event)),
              (''category'', VStr (Category event)),
              (''severity'', VStr normalizedSeverity),
              (''eventType'', VStr normalizedEventType),
              (''detectedAt'', VStr detectedAt)])])"

definition EventToObservation :: "uapi \<Rightarrow> string \<Rightarrow> Event option \<Rightarrow> obj option" where
  "EventToObservation u now ev =
     (case ev of None \<Rightarrow> None
      | Some event \<Rightarrow>
          (let obs0 = base_observation now event;
               obs1 = (case EResource event of None \<Rightarrow> obs0
                       | Some r \<Rightarrow> set_or_keep (SetNestedMap u obs0 (resource_map r) [''spec'', ''resource'']) obs0);
               obs2 = (if Details event \<noteq> [] then
                         set_or_keep (SetNestedMap u obs1 (map (map_prod id safe_detail) (Details event)) [''spec'', ''details'']) obs1
                       else obs1)
           in Some obs2))"

section \<open>Writing a resource (crd\_creator.go)\<close>

text \<open>\<^verbatim>\<open>extractStringFromMap\<close> and \<^verbatim>\<open>extractMap\<close>.\<close>

fun extractStringFromMap :: "obj \<Rightarrow> string list \<Rightarrow> string option" where
  "extractStringFromMap m [] = None"
| "extractStringFromMap m [k] = (case map_of m k of None \<Rightarrow> None | Some v \<Rightarrow> as_string v)"
| "extractStringFromMap m (k # ks) =
     (case as_map (idx m k) of None \<Rightarrow> None | Some m' \<Rightarrow> extractStringFromMap m' ks)"

fun extractMap :: "obj \<Rightarrow> string list \<Rightarrow> obj option" where
  "extractMap m [] = None"
| "extractMap m [k] = (case map_of m k of None \<Rightarrow> None | Some v \<Rightarrow> as_map v)"
| "extractMap m (k # ks) =
     (case as_map (idx m k) of None \<Rightarrow> None | Some m' \<Rightarrow> extractMap m' ks)"

definition non_empty :: "string option \<Rightarrow> string option" where
  "non_empty r = (case r of None \<Rightarrow> None | Some s \<Rightarrow> if s \<noteq> [] then Some s else None)"

definition extractNamespace :: "uapi \<Rightarrow> obj \<Rightarrow> string option" where
  "extractNamespace u observation =
     (if GetNamespace u observation \<noteq> [] then Some (GetNamespace u observation)
      else (case non_empty (extractStringFromMap observation [''metadata'', ''namespace'']) of
              Some ns \<Rightarrow> Some ns
            | None \<Rightarrow>
                (case extractMap observation [''spec'', ''resource''] of
                   None \<Rightarrow> None
                 | Some res \<Rightarrow> non_empty (extractStringFromMap res [''namespace'']))))"

definition classifyError :: "string \<Rightarrow> string" where
  "classifyError err =
     (let errMsg = to_lower err
      in if contains_str errMsg ''already exists'' then ''already_exists''
         else if contains_str errMsg ''forbidden'' then ''forbidden''
         else if contains_str errMsg ''not found'' then ''not_found''
         else ''create_failed'')"

definition determineKindFromResource :: "string \<Rightarrow> string" where
  "determineKindFromResource resource =
     (let n = length resource;
          kind = (if 1 < n \<and> resource ! (n - 1) = CHR ''s'' then
                    (if 2 < n \<and> resource ! (n - 2) \<noteq> CHR ''s'' \<and> \<not> has_suffix resource ''us''
                     then take (n - 1) resource else resource)
                  else resource)
      in if 0 < length kind then to_upper (take 1 kind) @ drop 1 kind else kind)"

definition buildAPIVersionFromGVR :: "GVR \<Rightarrow> string" where
  "buildAPIVersionFromGVR gvr =
     (if Group gvr \<noteq> [] then Group gvr @ ''/'' @ Version gvr else Version gvr)"

definition source_of_spec :: "obj \<Rightarrow> string" where
  "source_of_spec spec = (case extractStringFromMap spec [''source''] of None \<Rightarrow> [] | Some s \<Rightarrow> s)"

definition extractNamePrefixFromSpec :: "obj \<Rightarrow> string" where
  "extractNamePrefixFromSpec spec =
     (let source = (if source_of_spec spec = [] then ''event'' else source_of_spec spec)
      in if 20 < length source then take 20 source else source)"

text \<open>\<^verbatim>\<open>convertToCRD\<close>: the target resource, and the observation, whose own label map receives the source.\<close>

definition convertToCRD :: "uapi \<Rightarrow> GVR \<Rightarrow> obj \<Rightarrow> obj \<times> obj" where
  "convertToCRD u gvr observation =
     (let spec = (case extractMap observation [''spec''] of None \<Rightarrow> [] | Some m \<Rightarrow> m);
          namespace = (case extractNamespace u observation of None \<Rightarrow> ''default'' | Some ns \<Rightarrow> if ns = [] then ''default'' else ns);
          labels0 = extractMap observation [''metadata'', ''labels''];
          source = source_of_spec spec;
          labels = (case labels0 of None \<Rightarrow> [] | Some m \<Rightarrow> m);
          labels' = (if source \<noteq> [] then put ''source'' (VStr source) labels else labels);
          observation' = (if labels0 = None then observation
                          else set_or_keep (store False observation [''metadata'', ''labels''] (VMap labels')) observation);
          target = [(''apiVersion'', VStr (buildAPIVersionFromGVR gvr)),
                    (''kind'', VStr (determineKindFromResource (Resource gvr))),
                    (''metadata'', VMap
                       [(''generateName'', VStr (extractNamePrefixFromSpec spec @ ''-'')),
                        (''namespace'', VStr namespace),
                        (''labels'', VMap labels')]),
                    (''spec'', VMap spec)];
          target' = (case extractMap observation [''metadata'', ''annotations''] of None \<Rightarrow> target
                     | Some annotations \<Rightarrow>
                         set_or_keep (SetNestedMap u target annotations [''metadata'', ''annotations'']) target)
      in (target', observation'))"

record crd_write =
  w_gvr :: GVR
  w_namespace :: string
  w_object :: obj

datatype crd_err =
    CRDBlocked policy_err
  | CRDCreateFailed GVR string string

fun crd_err_text :: "crd_err \<Rightarrow> string" where
  "crd_err_text (CRDBlocked e) = ''GVR write blocked: '' @ policy_text e"
| "crd_err_text (CRDCreateFailed g ns msg) =
     ''failed to create resource '' @ Group g @ ''/'' @ Version g @ ''/'' @ Resource g @ '' in namespace '' @ ns @ '': '' @ msg"

type_synonym api_server = "crd_write list \<Rightarrow> crd_write \<Rightarrow> string option"

definition CreateCRD ::
    "uapi \<Rightarrow> api_server \<Rightarrow> GVRAllowlist option \<Rightarrow> GVR \<Rightarrow> crd_write list \<Rightarrow> obj \<Rightarrow>
     crd_err option \<times> crd_write list \<times> obj" where
  "CreateCRD u api allowlist gvr writes observation =
     (let namespace = (case extractNamespace u observation of None \<Rightarrow> ''default'' | Some ns \<Rightarrow> if ns = [] then ''default'' else ns)
      in case (case allowlist of None \<Rightarrow> None | Some a \<Rightarrow> IsAllowed a gvr namespace) of
           Some e \<Rightarrow> (Some (CRDBlocked e), writes, observation)
         | None \<Rightarrow>
             (let (crd, observation') = convertToCRD u gvr observation;
                  w = \<lparr>w_gvr = gvr, w_namespace = namespace, w_object = crd\<rparr>
              in case api writes w of
                   Some msg \<Rightarrow> (Some (CRDCreateFailed gvr namespace msg), writes @ [w], observation')
                 | None \<Rightarrow> (None, writes @ [w], observation')))"

section \<open>Validity of what is produced\<close>

definition severities :: "string set" where
  "severities = {''critical'', ''high'', ''medium'', ''low'', ''info''}"

definition valid_event_type :: "string \<Rightarrow> bool" where
  "valid_event_type s \<longleftrightarrow> s \<noteq> [] \<and> list_all valid_type_char s"

lemma normalizeSeverity_valid: "normalizeSeverity s \<in> severities"
  by (simp add: normalizeSeverity_def severities_def Let_def)

lemma normalizeSeverity_idem: "normalizeSeverity (normalizeSeverity s) = normalizeSeverity s"
proof -
  have "list_all (\<lambda>t. normalizeSeverity t = t) [''critical'', ''high'', ''medium'', ''low'', ''info'']" by code_simp
  then show ?thesis using normalizeSeverity_valid [of s] by (auto simp: severities_def)
qed

lemma clean_runes_valid: "list_all valid_type_char (clean_runes s)"
proof (induction s rule: clean_runes.induct)
  case (2 c s)
  have "valid_type_char CHR ''_''" by (simp add: valid_type_char_def)
  with 2 show ?case by simp
qed simp

lemma clean_runes_id: "list_all valid_type_char s \<Longrightarrow> clean_runes s = s"
  by (induction s) auto

lemma clean_runes_Nil: "clean_runes s = [] \<longleftrightarrow> s = []"
  by (cases s) auto

lemma normalizeEventType_valid: "valid_event_type (normalizeEventType s)"
proof -
  have "valid_event_type ''custom_event''" by code_simp
  then show ?thesis
    by (auto simp: normalizeEventType_def Let_def clean_runes_Nil clean_runes_valid valid_event_type_def)
qed

lemma valid_char_lower: "valid_type_char c \<Longrightarrow> to_lower_char c = c \<and> c \<noteq> CHR ''-''"
  by (auto simp: valid_type_char_def to_lower_char_def in_range_def byte_of_def)

lemma normalizeEventType_fixed: "valid_event_type s \<Longrightarrow> normalizeEventType s = s"
proof -
  assume s: "valid_event_type s"
  then have "map (\<lambda>c. if c = CHR ''-'' then CHR ''_'' else c) (to_lower s) = s"
    unfolding to_lower_def map_map
    by (intro map_idI) (simp add: valid_event_type_def list_all_iff valid_char_lower)
  moreover have "s \<noteq> []" "clean_runes s = s" using s by (simp_all add: valid_event_type_def clean_runes_id)
  ultimately show ?thesis by (simp add: normalizeEventType_def)
qed

text \<open>Normalisation always produces what the custom resource definition accepts: a severity of the
  enumeration and an event type matching \<^verbatim>\<open>^[a-z0-9_]+$\<close>, whatever the input bytes are. Values that are
  already valid are kept, so normalising twice changes nothing.\<close>

theorem normalized_valid:
  "normalizeSeverity s \<in> severities \<and> valid_event_type (normalizeEventType t) \<and>
   normalizeSeverity (normalizeSeverity s) = normalizeSeverity s \<and>
   normalizeEventType (normalizeEventType t) = normalizeEventType t \<and>
   (valid_event_type t \<longrightarrow> normalizeEventType t = t)"
  by (simp add: normalizeSeverity_valid normalizeSeverity_idem normalizeEventType_valid normalizeEventType_fixed)

theorem normalized_valid_witness:
  "valid_event_type ''policy_violation'' \<and> normalizeEventType ''policy_violation'' = ''policy_violation''"
proof -
  have "valid_event_type ''policy_violation''" by code_simp
  then show ?thesis using normalized_valid [of _ "''policy_violation''"] by blast
qed

section \<open>From events to observations\<close>

abbreviation details_map :: "Event \<Rightarrow> obj" where
  "details_map ev \<equiv> map (map_prod id safe_detail) (Details ev)"

lemma json_resource_map: "json_obj (resource_map r)"
  by (simp add: resource_map_def Let_def)

lemma base_observation_json: "json_obj (base_observation now ev)"
  by (simp add: base_observation_def Let_def)

text \<open>The fields of the spec of an observation made from an event.\<close>

definition spec_of_event :: "string \<Rightarrow> Event \<Rightarrow> obj \<Rightarrow> bool" where
  "spec_of_event now ev spec \<longleftrightarrow>
     map_of spec ''source'' = Some (VStr (Source ev)) \<and> map_of spec ''category'' = Some (VStr (Category ev)) \<and>
     map_of spec ''severity'' = Some (VStr (normalizeSeverity (Severity ev))) \<and>
     map_of spec ''eventType'' = Some (VStr (normalizeEventType (EventType ev))) \<and>
     map_of spec ''detectedAt'' = Some (VStr (if DetectedAt ev = [] then now else DetectedAt ev)) \<and>
     map_of spec ''resource'' = map_option (\<lambda>r. VMap (resource_map r)) (EResource ev) \<and>
     map_of spec ''details'' = (if Details ev = [] then None else Some (VMap (details_map ev)))"

definition base_spec :: "string \<Rightarrow> Event \<Rightarrow> obj" where
  "base_spec now ev =
     [(''source'', VStr (Source ev)), (''category'', VStr (Category ev)),
      (''severity'', VStr (normalizeSeverity (Severity ev))),
      (''eventType'', VStr (normalizeEventType (EventType ev))),
      (''detectedAt'', VStr (if DetectedAt ev = [] then now else DetectedAt ev))]"

lemma base_observation_spec: "map_of (base_observation now ev) ''spec'' = Some (VMap (base_spec now ev))"
  by (simp add: base_observation_def base_spec_def Let_def)

lemma set_spec_field:
  assumes "unstructured_laws u" "map_of obs ''spec'' = Some (VMap spec)" "json_obj m"
  shows "SetNestedMap u obs m [''spec'', k] = Some (put ''spec'' (VMap (put k (VMap m) spec)) obs)"
  using assms by (simp add: unstructured_laws.SetNestedMap sub_map_def)

lemma put_put [simp]: "put k v (put k w m) = put k v m"
  by (induction m) auto

lemma put_same: "map_of m k = Some v \<Longrightarrow> put k v m = m"
  by (induction m) (auto split: if_splits)

lemma EventToObservation_spec:
  assumes "unstructured_laws u" "json_obj (details_map ev)"
  shows "\<exists>spec. EventToObservation u now (Some ev) = Some (put ''spec'' (VMap spec) (base_observation now ev)) \<and>
    json_obj spec \<and> spec_of_event now ev spec"
proof -
  let ?b = "base_observation now ev" and ?s = "base_spec now ev"
  let ?obs = "\<lambda>spec. put ''spec'' (VMap spec) ?b"
  define spec1 where "spec1 = (case EResource ev of None \<Rightarrow> ?s | Some r \<Rightarrow> put ''resource'' (VMap (resource_map r)) ?s)"
  define spec2 where "spec2 = (if Details ev = [] then spec1 else put ''details'' (VMap (details_map ev)) spec1)"
  have b: "?obs ?s = ?b" by (rule put_same [OF base_observation_spec])
  have r: "(case EResource ev of None \<Rightarrow> ?b
            | Some r \<Rightarrow> set_or_keep (SetNestedMap u ?b (resource_map r) [''spec'', ''resource'']) ?b) = ?obs spec1"
    using set_spec_field [OF assms(1) base_observation_spec json_resource_map] b
    by (simp add: spec1_def split: option.splits)
  have d: "SetNestedMap u (?obs spec1) (details_map ev) [''spec'', ''details''] =
      Some (?obs (put ''details'' (VMap (details_map ev)) spec1))"
    using set_spec_field [OF assms(1) _ assms(2)] by simp
  have "EventToObservation u now (Some ev) = Some (?obs spec2)"
    by (simp add: EventToObservation_def Let_def r d spec2_def)
  moreover have "json_obj ?s" by (simp add: base_spec_def)
  then have "json_obj spec2"
    unfolding spec2_def spec1_def using assms(2) json_resource_map
    by (auto intro!: json_put simp del: json_ok.simps split: option.splits)
  moreover have "spec_of_event now ev spec2"
    by (simp add: spec_of_event_def spec2_def spec1_def base_spec_def split: option.splits)
  ultimately show ?thesis by blast
qed

text \<open>An event becomes an observation that carries it: source, category, detection time (now, if the
  event has none), resource and details are those of the event, severity and event type are normalised,
  and the namespace is the event's or \<open>default\<close>.\<close>

theorem event_to_observation:
  assumes "unstructured_laws u" "json_obj (details_map ev)"
  shows "\<exists>obs spec. EventToObservation u now (Some ev) = Some obs \<and> json_obj obs \<and>
    walk (VMap obs) [''spec''] = Some (VMap spec) \<and> spec_of_event now ev spec \<and>
    walk (VMap obs) [''metadata'', ''namespace''] = Some (VStr (if ENamespace ev = [] then ''default'' else ENamespace ev)) \<and>
    walk (VMap obs) [''metadata'', ''labels'', ''severity''] = Some (VStr (normalizeSeverity (Severity ev)))"
proof -
  obtain spec where spec: "EventToObservation u now (Some ev) = Some (put ''spec'' (VMap spec) (base_observation now ev))"
    "json_obj spec" "spec_of_event now ev spec"
    using EventToObservation_spec [OF assms] by blast
  have "json_obj (put ''spec'' (VMap spec) (base_observation now ev))"
    using spec(2) base_observation_json by (intro json_put) (auto simp del: json_ok.simps)
  with spec show ?thesis
    by (auto simp: base_observation_def Let_def simp del: json_ok.simps)
qed

definition event0 :: Event where
  "event0 = \<lparr>Source = ''trivy'', Category = ''security'', Severity = ''Fatal'', EventType = ''vuln-scan'',
     EResource = None, Details = [(''score'', VInt 9), (''raw'', VBytes ''ab'')], ENamespace = [], DetectedAt = []\<rparr>"

theorem event_to_observation_witness:
  "unstructured_laws walk_api \<and> json_obj (details_map event0) \<and>
   (\<exists>obs spec. EventToObservation walk_api ''2024-01-01T00:00:00Z'' (Some event0) = Some obs \<and>
      walk (VMap obs) [''spec''] = Some (VMap spec) \<and>
      map_of spec ''severity'' = Some (VStr ''critical'') \<and> map_of spec ''eventType'' = Some (VStr ''vuln_scan''))"
proof -
  have d: "json_obj (details_map event0)" by code_simp
  have "normalizeSeverity (Severity event0) = ''critical''" "normalizeEventType (EventType event0) = ''vuln_scan''"
    by code_simp+
  then show ?thesis
    using d walk_api.unstructured_laws_axioms
      event_to_observation [OF walk_api.unstructured_laws_axioms d, of "''2024-01-01T00:00:00Z''"]
    by (auto simp: spec_of_event_def simp del: json_ok.simps)
qed

section \<open>The written resource\<close>

lemma convertToCRD_fields:
  assumes "unstructured_laws u" "json_obj observation" "map_of observation ''spec'' = Some (VMap spec)"
  shows "map_of (fst (convertToCRD u gvr observation)) ''spec'' = Some (VMap spec) \<and>
    map_of (fst (convertToCRD u gvr observation)) ''kind'' = Some (VStr (determineKindFromResource (Resource gvr))) \<and>
    map_of (fst (convertToCRD u gvr observation)) ''apiVersion'' = Some (VStr (buildAPIVersionFromGVR gvr))"
proof -
  have "json_obj a" if "extractMap observation [''metadata'', ''annotations''] = Some a" for a
    using that assms(2) by (auto simp: idx_def dest!: json_lookup simp del: json_ok.simps split: option.splits)
  then show ?thesis
    using assms by (auto simp: convertToCRD_def Let_def unstructured_laws.SetNestedMap sub_map_def
        simp del: json_ok.simps split: option.splits)
qed

end
