(* ===== verification/Observation_Creator.thy ===== *)
theory Observation_Creator
  imports Observation_Model
begin

text \<open>
  The observation creator of \<^verbatim>\<open>pkg/watcher/observation_creator.go\<close>: the last step of the pipeline, which
  completes an observation (severity, event type, time to live), resolves its destination, checks the
  write policy, writes it and keeps the counters.

  The state is the record \<open>ObservationCreator\<close>. Prometheus metrics are a log of updates, written only when
  the metric is configured (the flags), as the nil checks of the code do. \<open>writes\<close> are the requests
  sent to the API server. The reads of fields go through the cached extractor in the code; here they
  are the uncached ones, which \<open>extract_transparent\<close> justifies: all paths are constants without
  colons. The observation is passed in and returned changed, as the code changes it in place. The clock
  readings of one call are the record \<open>clock\<close> (nanoseconds).

  Main results: whatever is done, every request satisfies the write policy; a call counts one attempt, and
  one creation exactly when it succeeds; a written observation is valid and has a bounded time to live.
\<close>

section \<open>State\<close>

record sourceCounters =
  attempted :: int
  deduped :: int
  created :: int
  lowSeverity :: int
  totalCount :: int
  lastUpdate :: int

record OptimizationMetrics =
  has_FilterPassRate :: bool
  has_DedupEffectiveness :: bool
  has_LowSeverityPercent :: bool
  has_ObservationsPerMinute :: bool
  has_ObservationsPerHour :: bool
  has_SeverityDistribution :: bool
  counters :: "(string, sourceCounters) gomap"

datatype metric =
    ObservationsCreated string
  | CreateErrors string string
  | Delivery string string
  | DeliveryLatency string f64
  | EventsTotal string string string string string string string
  | RecordEvent
  | SeverityDistribution string string
  | Gauge string string f64
  | RecordProcessing string bool

record ObservationCreator =
  eventGVR :: GVR
  gvrResolver :: "(string \<Rightarrow> GVR) option"
  gvrAllowlist :: "GVRAllowlist option"
  has_EventsTotal :: bool
  has_ObservationsCreated :: bool
  has_CreateErrors :: bool
  optimizationMetrics :: "OptimizationMetrics option"
  has_smartProcessor :: bool
  has_systemMetrics :: bool
  has_destinationMetrics :: bool
  currentOrder :: "(string, string) gomap"
  log :: "metric list"
  writes :: "crd_write list"

record clock =
  t_attempt :: int
  t_created :: int
  t_update :: int
  d_delivery :: int

definition emit :: "metric \<Rightarrow> ObservationCreator \<Rightarrow> ObservationCreator" where
  "emit m oc = oc\<lparr>log := log oc @ [m]\<rparr>"

definition emit_if :: "bool \<Rightarrow> metric \<Rightarrow> ObservationCreator \<Rightarrow> ObservationCreator" where
  "emit_if b m oc = (if b then emit m oc else oc)"

text \<open>The deduplication window and cache size that \<^verbatim>\<open>NewObservationCreatorWithOptimization\<close> reads.\<close>

definition positive_env :: "(string \<Rightarrow> string) \<Rightarrow> string \<Rightarrow> int \<Rightarrow> int" where
  "positive_env getenv name dflt =
     (if getenv name = [] then dflt
      else case parse_int (getenv name) of Some w \<Rightarrow> if 0 < w then w else dflt | None \<Rightarrow> dflt)"

definition dedup_params :: "(string \<Rightarrow> string) \<Rightarrow> int \<times> int" where
  "dedup_params getenv =
     (positive_env getenv ''DEDUP_WINDOW_SECONDS'' 60, positive_env getenv ''DEDUP_MAX_SIZE'' 10000)"

text \<open>The constructors and the setters. The filter, the deduper and the configuration loader that the creator is
  handed too are not used when an observation is created: the pipeline has them.\<close>

definition NewOptimizationMetrics ::
    "bool \<Rightarrow> bool \<Rightarrow> bool \<Rightarrow> bool \<Rightarrow> bool \<Rightarrow> bool \<Rightarrow> OptimizationMetrics" where
  "NewOptimizationMetrics filterPassRate dedupEffectiveness lowSeverityPercent perMinute perHour severityDistribution =
     \<lparr>has_FilterPassRate = filterPassRate, has_DedupEffectiveness = dedupEffectiveness,
      has_LowSeverityPercent = lowSeverityPercent, has_ObservationsPerMinute = perMinute,
      has_ObservationsPerHour = perHour, has_SeverityDistribution = severityDistribution, counters = []\<rparr>"

definition NewObservationCreatorWithOptimization ::
    "GVR \<Rightarrow> bool \<Rightarrow> bool \<Rightarrow> bool \<Rightarrow> OptimizationMetrics option \<Rightarrow> ObservationCreator" where
  "NewObservationCreatorWithOptimization gvr eventsTotal observationsCreated createErrors om =
     \<lparr>eventGVR = gvr, gvrResolver = None, gvrAllowlist = None, has_EventsTotal = eventsTotal,
      has_ObservationsCreated = observationsCreated, has_CreateErrors = createErrors, optimizationMetrics = om,
      has_smartProcessor = True, has_systemMetrics = False, has_destinationMetrics = False, currentOrder = [],
      log = [], writes = []\<rparr>"

definition NewObservationCreator :: "GVR \<Rightarrow> bool \<Rightarrow> bool \<Rightarrow> bool \<Rightarrow> ObservationCreator" where
  "NewObservationCreator gvr eventsTotal observationsCreated createErrors =
     NewObservationCreatorWithOptimization gvr eventsTotal observationsCreated createErrors None"

definition SetSystemMetrics :: "bool \<Rightarrow> ObservationCreator \<Rightarrow> ObservationCreator" where
  "SetSystemMetrics sm oc = oc\<lparr>has_systemMetrics := sm\<rparr>"

definition SetOptimizationMetrics :: "OptimizationMetrics option \<Rightarrow> ObservationCreator \<Rightarrow> ObservationCreator" where
  "SetOptimizationMetrics om oc = oc\<lparr>optimizationMetrics := om\<rparr>"

definition SetDestinationMetrics :: "bool \<Rightarrow> ObservationCreator \<Rightarrow> ObservationCreator" where
  "SetDestinationMetrics m oc = oc\<lparr>has_destinationMetrics := m\<rparr>"

definition SetGVRResolver :: "(string \<Rightarrow> GVR) option \<Rightarrow> ObservationCreator \<Rightarrow> ObservationCreator" where
  "SetGVRResolver resolver oc = oc\<lparr>gvrResolver := resolver\<rparr>"

definition SetGVRAllowlist :: "GVRAllowlist option \<Rightarrow> ObservationCreator \<Rightarrow> ObservationCreator" where
  "SetGVRAllowlist allowlist oc = oc\<lparr>gvrAllowlist := allowlist\<rparr>"

lemmas setter_defs = SetSystemMetrics_def SetOptimizationMetrics_def SetDestinationMetrics_def SetGVRResolver_def SetGVRAllowlist_def

section \<open>Counters\<close>

definition new_counters :: "int \<Rightarrow> sourceCounters" where
  "new_counters now = \<lparr>attempted = 0, deduped = 0, created = 0, lowSeverity = 0, totalCount = 0, lastUpdate = now\<rparr>"

text \<open>\<^verbatim>\<open>getOrCreateSourceCounters\<close> returns a pointer into the map; what is done through it is \<open>f\<close>.\<close>

definition with_counters ::
    "int \<Rightarrow> string \<Rightarrow> (sourceCounters \<Rightarrow> sourceCounters) \<Rightarrow> ObservationCreator \<Rightarrow> ObservationCreator" where
  "with_counters now source f oc =
     (case optimizationMetrics oc of None \<Rightarrow> oc
      | Some om \<Rightarrow>
          (let c = (case map_of (counters om) source of None \<Rightarrow> new_counters now | Some c \<Rightarrow> c)
           in oc\<lparr>optimizationMetrics := Some (om\<lparr>counters := put source (f c) (counters om)\<rparr>)\<rparr>))"

definition recordEventAttempted :: "int \<Rightarrow> string \<Rightarrow> ObservationCreator \<Rightarrow> ObservationCreator" where
  "recordEventAttempted now source = with_counters now source (\<lambda>c. c\<lparr>attempted := wrap64 (attempted c + 1)\<rparr>)"

definition recordEventDeduped :: "int \<Rightarrow> string \<Rightarrow> ObservationCreator \<Rightarrow> ObservationCreator" where
  "recordEventDeduped now source = with_counters now source (\<lambda>c. c\<lparr>deduped := wrap64 (deduped c + 1)\<rparr>)"

definition recordEventFiltered :: "int \<Rightarrow> string \<Rightarrow> ObservationCreator \<Rightarrow> ObservationCreator" where
  "recordEventFiltered now source = with_counters now source id"

definition count_created :: "string \<Rightarrow> sourceCounters \<Rightarrow> sourceCounters" where
  "count_created severity c =
     (let c1 = c\<lparr>created := wrap64 (created c + 1), totalCount := wrap64 (totalCount c + 1)\<rparr>
      in if to_lower severity \<in> {''low'', ''info''} then c1\<lparr>lowSeverity := wrap64 (lowSeverity c1 + 1)\<rparr> else c1)"

definition recordEventCreated :: "int \<Rightarrow> string \<Rightarrow> string \<Rightarrow> ObservationCreator \<Rightarrow> ObservationCreator" where
  "recordEventCreated now source severity oc =
     (let oc1 = with_counters now source (count_created severity) oc
      in case optimizationMetrics oc1 of None \<Rightarrow> oc1
         | Some om \<Rightarrow> emit_if (has_SeverityDistribution om) (SeverityDistribution source (to_upper severity)) oc1)"

definition ratio :: "int \<Rightarrow> int \<Rightarrow> f64" where
  "ratio a b = f64_div (f64_of_int a) (f64_of_int b)"

definition updateOptimizationMetrics :: "int \<Rightarrow> string \<Rightarrow> ObservationCreator \<Rightarrow> ObservationCreator" where
  "updateOptimizationMetrics now source oc =
     (case optimizationMetrics oc of None \<Rightarrow> oc
      | Some om \<Rightarrow>
          (case map_of (counters om) source of None \<Rightarrow> oc
           | Some c \<Rightarrow>
               if attempted c = 0 then oc
               else
                 (let totalProcessed = wrap64 (created c + deduped c);
                      filterPassRate = ratio totalProcessed (attempted c);
                      dedupEffectiveness = (if 0 < totalProcessed then ratio (deduped c) totalProcessed else Fin 0);
                      lowSeverityPercent = (if 0 < totalCount c then ratio (lowSeverity c) (totalCount c) else Fin 0);
                      timeWindow = now - lastUpdate c;
                      obsPerMinute = f64_div (f64_of_int (created c)) (dur_minutes timeWindow);
                      oc1 = emit_if (has_FilterPassRate om) (Gauge ''FilterPassRate'' source filterPassRate) oc;
                      oc2 = emit_if (has_DedupEffectiveness om) (Gauge ''DedupEffectiveness'' source dedupEffectiveness) oc1;
                      oc3 = emit_if (has_LowSeverityPercent om) (Gauge ''LowSeverityPercent'' source lowSeverityPercent) oc2
                  in if 0 < timeWindow \<and> timeWindow < 300000000000 then
                       emit_if (has_ObservationsPerHour om) (Gauge ''ObservationsPerHour'' source (f64_mul obsPerMinute (f64_of_int 60)))
                         (emit_if (has_ObservationsPerMinute om) (Gauge ''ObservationsPerMinute'' source obsPerMinute) oc3)
                     else oc3)))"

section \<open>Reading and completing the observation\<close>

text \<open>A value as text: empty for nil, the string itself, any other value as \<^verbatim>\<open>%v\<close> prints it.\<close>

definition value_text :: "val option \<Rightarrow> string" where
  "value_text v = (case v of None \<Rightarrow> [] | Some VNil \<Rightarrow> [] | Some (VStr s) \<Rightarrow> s | Some w \<Rightarrow> fmt_v w)"

definition extractMetricsFields :: "uapi \<Rightarrow> obj \<Rightarrow> string \<times> string \<times> string" where
  "extractMetricsFields u observation =
     (let category = value_text (NestedFieldCopy u observation [''spec'', ''category'']);
          severity = value_text (NestedFieldCopy u observation [''spec'', ''severity'']);
          eventType = value_text (NestedFieldCopy u observation [''spec'', ''eventType''])
      in (category, if severity \<noteq> [] then normalizeSeverity severity else severity, eventType))"

definition MinTTLSeconds :: int where "MinTTLSeconds = 60"

definition MaxTTLSeconds :: int where "MaxTTLSeconds = 365 * 24 * 60 * 60"

text \<open>The default time to live; the product of days wraps like an \<^verbatim>\<open>int64\<close>.\<close>

definition defaultTTLSeconds :: "(string \<Rightarrow> string) \<Rightarrow> int" where
  "defaultTTLSeconds getenv =
     (let dflt = 7 * 24 * 60 * 60;
          ttl = (if getenv ''OBSERVATION_TTL_SECONDS'' \<noteq> [] then
                   (case parse_int (getenv ''OBSERVATION_TTL_SECONDS'') of
                      Some n \<Rightarrow> if 0 < n then n else dflt | None \<Rightarrow> dflt)
                 else if getenv ''OBSERVATION_TTL_DAYS'' \<noteq> [] then
                   (case parse_int (getenv ''OBSERVATION_TTL_DAYS'') of
                      Some n \<Rightarrow> if 0 < n then wrap64 (n * 24 * 60 * 60) else dflt | None \<Rightarrow> dflt)
                 else dflt)
      in if ttl < MinTTLSeconds then MinTTLSeconds else if MaxTTLSeconds < ttl then MaxTTLSeconds else ttl)"

definition setTTLIfNotSet :: "uapi \<Rightarrow> (string \<Rightarrow> string) \<Rightarrow> obj \<Rightarrow> obj" where
  "setTTLIfNotSet u getenv observation =
     (if (case NestedInt64 u observation [''spec'', ''ttlSecondsAfterCreation''] of None \<Rightarrow> False | Some ttlVal \<Rightarrow> 0 < ttlVal)
      then observation
      else
        (let ttl = defaultTTLSeconds getenv
         in case NestedMap u observation [''spec''] of
              Some spec \<Rightarrow>
                set_or_keep (SetNestedMap u observation (put ''ttlSecondsAfterCreation'' (VInt64 ttl) spec) [''spec'']) observation
            | None \<Rightarrow>
                (case SetNestedMap u observation [] [''spec''] of
                   None \<Rightarrow> observation
                 | Some observation1 \<Rightarrow>
                     set_or_keep (SetNestedMap u observation1 [(''ttlSecondsAfterCreation'', VInt64 ttl)] [''spec'']) observation1)))"

section \<open>Metrics of a creation\<close>

datatype create_err =
    BlockedAtGate policy_err
  | CreateFailed string crd_err

text \<open>The error \<^verbatim>\<open>handleCreationError\<close> receives: the policy's own, or the writer's.\<close>

datatype raw_err = PolicyErr policy_err | WriterErr crd_err

fun raw_err_text :: "raw_err \<Rightarrow> string" where
  "raw_err_text (PolicyErr e) = policy_text e"
| "raw_err_text (WriterErr e) = crd_err_text e"

fun isSecurityViolation :: "raw_err \<Rightarrow> bool" where
  "isSecurityViolation (PolicyErr e) = True"
| "isSecurityViolation (WriterErr (CRDBlocked e)) = True"
| "isSecurityViolation (WriterErr (CRDCreateFailed g ns msg)) = False"

definition handleCreationError :: "raw_err \<Rightarrow> string \<Rightarrow> int \<Rightarrow> ObservationCreator \<Rightarrow> ObservationCreator" where
  "handleCreationError err source deliveryDuration oc =
     (let oc1 = emit_if (has_CreateErrors oc) (CreateErrors source (classifyError (raw_err_text err))) oc
      in if \<not> has_destinationMetrics oc then oc1
         else if isSecurityViolation err then emit (Delivery source ''not_allowed'') oc1
         else emit_if (0 < deliveryDuration) (DeliveryLatency source (dur_seconds deliveryDuration))
                (emit (Delivery source ''failure'') oc1))"

definition label_text :: "obj \<Rightarrow> string \<Rightarrow> string \<Rightarrow> string" where
  "label_text m k dflt =
     (case idx m k of
        VStr s \<Rightarrow> s
      | VNil \<Rightarrow> dflt
      | v \<Rightarrow> fmt_v v)"

definition extractResourceInfo :: "uapi \<Rightarrow> obj \<Rightarrow> string \<Rightarrow> string \<times> string" where
  "extractResourceInfo u observation defaultNs =
     (let (ns, kind) =
            (case NestedMap u observation [''spec'', ''resource''] of
               None \<Rightarrow> (defaultNs, [])
             | Some r \<Rightarrow> (label_text r ''namespace'' defaultNs, label_text r ''kind'' []))
      in (if ns = [] then ''default'' else ns, if kind = [] then ''Unknown'' else kind))"

definition getProcessingStrategy :: "string \<Rightarrow> ObservationCreator \<Rightarrow> string" where
  "getProcessingStrategy source oc =
     (case map_of (currentOrder oc) source of None \<Rightarrow> ''filter_first'' | Some order \<Rightarrow> order)"

definition or_default :: "string \<Rightarrow> string \<Rightarrow> string" where
  "or_default s dflt = (if s = [] then dflt else s)"

definition updateEventsTotalMetric ::
    "uapi \<Rightarrow> obj \<Rightarrow> string \<Rightarrow> string \<Rightarrow> string \<Rightarrow> string \<Rightarrow> string \<Rightarrow> ObservationCreator \<Rightarrow> ObservationCreator" where
  "updateEventsTotalMetric u observation source category severity eventType namespace oc =
     (if \<not> has_EventsTotal oc then oc
      else (let (ns, kind) = extractResourceInfo u observation namespace
            in emit (EventsTotal source (or_default category ''unknown'') (or_default severity ''info'')
                 (or_default eventType ''unknown'') ns kind (getProcessingStrategy source oc)) oc))"

definition updateMetricsAfterCreation ::
    "uapi \<Rightarrow> clock \<Rightarrow> obj \<Rightarrow> string \<Rightarrow> string \<Rightarrow> string \<Rightarrow> string \<Rightarrow> string \<Rightarrow> ObservationCreator \<Rightarrow> ObservationCreator" where
  "updateMetricsAfterCreation u clk observation source category severity eventType namespace oc =
     (let oc1 = emit_if (has_ObservationsCreated oc) (ObservationsCreated source) oc;
          oc2 = emit_if (has_systemMetrics oc) RecordEvent oc1;
          oc3 = (if optimizationMetrics oc = None then oc2
                 else updateOptimizationMetrics (t_update clk) source (recordEventCreated (t_created clk) source severity oc2))
      in updateEventsTotalMetric u observation source category severity eventType namespace oc3)"

section \<open>Creating an observation\<close>

text \<open>The first part of \<^verbatim>\<open>createObservation\<close>: the metadata map, the normalised severity and event type, and
  the time to live; with the labels for the metrics.\<close>

definition ensure_metadata :: "uapi \<Rightarrow> obj \<Rightarrow> obj" where
  "ensure_metadata u observation =
     (case NestedMap u observation [''metadata''] of
        Some m \<Rightarrow> observation
      | None \<Rightarrow> set_or_keep (SetNestedMap u observation [] [''metadata'']) observation)"

definition normalize_field :: "uapi \<Rightarrow> (string \<Rightarrow> string) \<Rightarrow> string \<Rightarrow> string \<Rightarrow> obj \<Rightarrow> string \<times> obj" where
  "normalize_field u nrm k v observation =
     (if v = [] then (v, observation)
      else case SetNestedField u observation (VStr (nrm v)) [''spec'', k] of
             None \<Rightarrow> (v, observation)
           | Some observation' \<Rightarrow> (nrm v, observation'))"

definition complete_observation ::
    "uapi \<Rightarrow> (string \<Rightarrow> string) \<Rightarrow> obj \<Rightarrow> (string \<times> string \<times> string) \<times> obj" where
  "complete_observation u getenv observation0 =
     (let observation1 = ensure_metadata u observation0;
          (category, severity0, eventType0) = extractMetricsFields u observation1;
          (severity, observation2) = normalize_field u normalizeSeverity ''severity'' severity0 observation1;
          (eventType, observation3) = normalize_field u normalizeEventType ''eventType'' eventType0 observation2
      in ((category, severity, eventType), setTTLIfNotSet u getenv observation3))"

definition namespace_of :: "uapi \<Rightarrow> obj \<Rightarrow> string" where
  "namespace_of u observation =
     (case NestedString u observation [''metadata'', ''namespace''] of
        None \<Rightarrow> ''default'' | Some ns \<Rightarrow> if ns = [] then ''default'' else ns)"

definition createObservation ::
    "uapi \<Rightarrow> api_server \<Rightarrow> (string \<Rightarrow> string) \<Rightarrow> clock \<Rightarrow> obj \<Rightarrow> string \<Rightarrow> ObservationCreator \<Rightarrow>
     (create_err option \<times> obj) \<times> ObservationCreator" where
  "createObservation u api getenv clk observation0 source oc =
     (let namespace = namespace_of u observation0;
          ((category, severity, eventType), observation) = complete_observation u getenv observation0;
          gvr = (case gvrResolver oc of None \<Rightarrow> eventGVR oc | Some resolve \<Rightarrow> resolve source)
      in case (case gvrAllowlist oc of None \<Rightarrow> None | Some a \<Rightarrow> IsAllowed a gvr namespace) of
           Some e \<Rightarrow> ((Some (BlockedAtGate e), observation), handleCreationError (PolicyErr e) source 0 oc)
         | None \<Rightarrow>
             (let (r, ws, observation') = CreateCRD u api (gvrAllowlist oc) gvr (writes oc) observation;
                  oc1 = oc\<lparr>writes := ws\<rparr>
              in case r of
                   Some e \<Rightarrow> ((Some (CreateFailed (Resource gvr) e), observation'),
                              handleCreationError (WriterErr e) source (d_delivery clk) oc1)
                 | None \<Rightarrow>
                     (let oc2 = (if has_destinationMetrics oc1
                                 then emit (DeliveryLatency source (dur_seconds (d_delivery clk))) (emit (Delivery source ''success'') oc1)
                                 else oc1)
                      in ((None, observation'),
                          updateMetricsAfterCreation u clk observation' source category severity eventType namespace oc2))))"

definition CreateObservation ::
    "uapi \<Rightarrow> api_server \<Rightarrow> (string \<Rightarrow> string) \<Rightarrow> clock \<Rightarrow> obj \<Rightarrow> ObservationCreator \<Rightarrow>
     (create_err option \<times> obj) \<times> ObservationCreator" where
  "CreateObservation u api getenv clk observation oc =
     (let source0 = value_text (NestedFieldCopy u observation [''spec'', ''source'']);
          source = (if source0 = [] then ''unknown'' else source0);
          oc1 = recordEventAttempted (t_attempt clk) source oc;
          (r, oc2) = createObservation u api getenv clk observation source oc1
      in (r, emit_if (has_smartProcessor oc2) (RecordProcessing source (fst r \<noteq> None)) oc2))"

section \<open>The write policy\<close>

lemma emit_simps [simp]:
  "writes (emit m oc) = writes oc" "gvrAllowlist (emit m oc) = gvrAllowlist oc"
  "optimizationMetrics (emit m oc) = optimizationMetrics oc" "log (emit m oc) = log oc @ [m]"
  "writes (emit_if b m oc) = writes oc" "gvrAllowlist (emit_if b m oc) = gvrAllowlist oc"
  "optimizationMetrics (emit_if b m oc) = optimizationMetrics oc"
  by (simp_all add: emit_def emit_if_def)

lemma with_counters_simps [simp]:
  "writes (with_counters t s f oc) = writes oc" "gvrAllowlist (with_counters t s f oc) = gvrAllowlist oc"
  "log (with_counters t s f oc) = log oc"
  by (simp_all add: with_counters_def Let_def split: option.splits)

lemma bookkeeping_simps [simp]:
  "writes (handleCreationError e s d oc) = writes oc" "gvrAllowlist (handleCreationError e s d oc) = gvrAllowlist oc"
  "optimizationMetrics (handleCreationError e s d oc) = optimizationMetrics oc"
  "writes (recordEventAttempted t s oc) = writes oc" "gvrAllowlist (recordEventAttempted t s oc) = gvrAllowlist oc"
  "writes (recordEventCreated t s sev oc) = writes oc" "gvrAllowlist (recordEventCreated t s sev oc) = gvrAllowlist oc"
  "writes (updateOptimizationMetrics t s oc) = writes oc" "gvrAllowlist (updateOptimizationMetrics t s oc) = gvrAllowlist oc"
  "optimizationMetrics (updateOptimizationMetrics t s oc) = optimizationMetrics oc"
  "writes (updateEventsTotalMetric u ob s c sev et ns oc) = writes oc"
  "gvrAllowlist (updateEventsTotalMetric u ob s c sev et ns oc) = gvrAllowlist oc"
  "optimizationMetrics (updateEventsTotalMetric u ob s c sev et ns oc) = optimizationMetrics oc"
  by (auto simp: handleCreationError_def recordEventAttempted_def recordEventCreated_def
      updateOptimizationMetrics_def updateEventsTotalMetric_def Let_def split: option.splits prod.splits)

lemma updateMetrics_simps [simp]:
  "writes (updateMetricsAfterCreation u clk ob s c sev et ns oc) = writes oc"
  "gvrAllowlist (updateMetricsAfterCreation u clk ob s c sev et ns oc) = gvrAllowlist oc"
  by (simp_all add: updateMetricsAfterCreation_def Let_def)

text \<open>A write that leaves the process was checked by the writer itself.\<close>

lemma CreateCRD_writes:
  assumes "CreateCRD u api (Some a) gvr ws ob = (r, ws', ob')"
  shows "ws' = ws \<or> (\<exists>w. ws' = ws @ [w] \<and> w_gvr w = gvr \<and> IsAllowed a gvr (w_namespace w) = None)"
  using assms by (auto simp: CreateCRD_def Let_def split: option.splits prod.splits)

lemma createObservation_writes:
  assumes "gvrAllowlist oc = Some a"
  shows "gvrAllowlist (snd (createObservation u api env clk ob src oc)) = Some a \<and>
    (writes (snd (createObservation u api env clk ob src oc)) = writes oc \<or>
     (\<exists>w. writes (snd (createObservation u api env clk ob src oc)) = writes oc @ [w] \<and>
        IsAllowed a (w_gvr w) (w_namespace w) = None))"
  using assms
  by (auto simp: createObservation_def Let_def split: option.splits prod.splits dest!: CreateCRD_writes)

definition source_name :: "uapi \<Rightarrow> obj \<Rightarrow> string" where
  "source_name u ob = or_default (value_text (NestedFieldCopy u ob [''spec'', ''source''])) ''unknown''"

text \<open>\<^verbatim>\<open>CreateObservation\<close> is \<^verbatim>\<open>createObservation\<close> between two bookkeeping steps.\<close>

lemma CreateObservation_inner:
  "fst (CreateObservation u api env clk ob oc) =
     fst (createObservation u api env clk ob (source_name u ob) (recordEventAttempted (t_attempt clk) (source_name u ob) oc))"
  "\<exists>b m. snd (CreateObservation u api env clk ob oc) =
     emit_if b m (snd (createObservation u api env clk ob (source_name u ob) (recordEventAttempted (t_attempt clk) (source_name u ob) oc)))"
  by (auto simp: CreateObservation_def source_name_def or_default_def Let_def split: prod.splits)

lemma CreateObservation_writes:
  assumes "gvrAllowlist oc = Some a"
  shows "gvrAllowlist (snd (CreateObservation u api env clk ob oc)) = Some a \<and>
    (writes (snd (CreateObservation u api env clk ob oc)) = writes oc \<or>
     (\<exists>w. writes (snd (CreateObservation u api env clk ob oc)) = writes oc @ [w] \<and>
        IsAllowed a (w_gvr w) (w_namespace w) = None))"
proof -
  let ?oc1 = "recordEventAttempted (t_attempt clk) (source_name u ob) oc"
  obtain b m where "snd (CreateObservation u api env clk ob oc) =
      emit_if b m (snd (createObservation u api env clk ob (source_name u ob) ?oc1))"
    using CreateObservation_inner(2) by blast
  then show ?thesis
    using createObservation_writes [of ?oc1 a u api env clk ob "source_name u ob"] assms by simp
qed

text \<open>The life of a creator: observations are created and its setters are called, the resolver of
  destinations included; the allowlist is set once at start-up.\<close>

inductive creator_run :: "ObservationCreator \<Rightarrow> ObservationCreator \<Rightarrow> bool" where
  start: "creator_run oc oc"
| create: "creator_run oc oc' \<Longrightarrow> creator_run oc (snd (CreateObservation u api env clk ob oc'))"
| set_resolver: "creator_run oc oc' \<Longrightarrow> creator_run oc (SetGVRResolver resolve oc')"
| set_metrics: "creator_run oc oc' \<Longrightarrow> creator_run oc (SetOptimizationMetrics om oc')"
| set_destination: "creator_run oc oc' \<Longrightarrow> creator_run oc (SetDestinationMetrics b oc')"
| set_system: "creator_run oc oc' \<Longrightarrow> creator_run oc (SetSystemMetrics b oc')"

lemma IsAllowed_not_denied: "IsAllowed a gvr ns = None \<Longrightarrow> buildGVRKey gvr \<notin> set deniedGVRs"
  by (auto simp: IsAllowed_def Let_def split: if_splits)

text \<open>C2. Every request to create a resource that the observation creator sends, once its allowlist is set, is one the write policy allows, and none is
  for a resource on the hard deny list, however the destinations are resolved and whatever the API server
  answers. The policy is about creations: the deletions of the collector and the updates of an Ingester's status are sent without it.\<close>

theorem writes_follow_policy:
  assumes "creator_run oc oc'" "gvrAllowlist oc = Some a" "writes oc = []" "w \<in> set (writes oc')"
  shows "IsAllowed a (w_gvr w) (w_namespace w) = None \<and> buildGVRKey (w_gvr w) \<notin> set deniedGVRs"
proof -
  have "gvrAllowlist oc' = Some a \<and> (\<forall>w\<in>set (writes oc'). IsAllowed a (w_gvr w) (w_namespace w) = None)"
    using assms(1-3)
  proof (induction rule: creator_run.induct)
    case (create oc oc' u api env clk ob)
    then show ?case using CreateObservation_writes [of oc' a u api env clk ob] by auto
  qed (auto simp: setter_defs)
  with assms(4) show ?thesis by (auto dest: IsAllowed_not_denied)
qed

section \<open>The counters\<close>

definition tally :: "(sourceCounters \<Rightarrow> int) \<Rightarrow> string \<Rightarrow> ObservationCreator \<Rightarrow> int" where
  "tally fld s oc =
     (case optimizationMetrics oc of None \<Rightarrow> 0
      | Some om \<Rightarrow> (case map_of (counters om) s of None \<Rightarrow> 0 | Some c \<Rightarrow> fld c))"

definition tracking :: "ObservationCreator \<Rightarrow> bool" where
  "tracking oc \<longleftrightarrow> optimizationMetrics oc \<noteq> None"

lemma tracking_cong: "optimizationMetrics oc = optimizationMetrics oc' \<Longrightarrow> tracking oc = tracking oc'"
  by (simp add: tracking_def)

lemma tally_cong: "optimizationMetrics oc = optimizationMetrics oc' \<Longrightarrow> tally fld s oc = tally fld s oc'"
  by (simp add: tally_def)

lemma tally_with_counters:
  assumes "tracking oc" "fld (new_counters t) = 0" "\<And>c. fld (f c) = g (fld c)"
  shows "tally fld s' (with_counters t s f oc) = (if s' = s then g (tally fld s oc) else tally fld s' oc)"
    and "tracking (with_counters t s f oc)"
  using assms by (auto simp: tally_def tracking_def with_counters_def Let_def split: option.splits)

lemma new_counters_zero [simp]: "attempted (new_counters t) = 0" "created (new_counters t) = 0"
  by (simp_all add: new_counters_def)

lemma tally_attempted:
  assumes "tracking oc"
  shows "tally attempted s' (recordEventAttempted t s oc) =
      (if s' = s then wrap64 (tally attempted s oc + 1) else tally attempted s' oc)"
    and "tally created s' (recordEventAttempted t s oc) = tally created s' oc"
    and "tracking (recordEventAttempted t s oc)"
  unfolding recordEventAttempted_def
  using assms tally_with_counters [where fld = attempted and g = "\<lambda>n. wrap64 (n + 1)"]
    tally_with_counters [where fld = created and g = id] by auto

lemma tally_created:
  assumes "tracking oc"
  shows "tally created s' (recordEventCreated t s sev oc) =
      (if s' = s then wrap64 (tally created s oc + 1) else tally created s' oc)"
    and "tally attempted s' (recordEventCreated t s sev oc) = tally attempted s' oc"
    and "tracking (recordEventCreated t s sev oc)"
proof -
  let ?f = "count_created sev"
  have eq: "optimizationMetrics (recordEventCreated t s sev oc) = optimizationMetrics (with_counters t s ?f oc)"
    by (auto simp: recordEventCreated_def Let_def split: option.splits)
  have f: "created (?f c) = wrap64 (created c + 1)" "attempted (?f c) = attempted c" for c
    by (simp_all add: count_created_def Let_def)
  show "tally created s' (recordEventCreated t s sev oc) =
      (if s' = s then wrap64 (tally created s oc + 1) else tally created s' oc)"
    and "tally attempted s' (recordEventCreated t s sev oc) = tally attempted s' oc"
    and "tracking (recordEventCreated t s sev oc)"
    using tally_with_counters [OF assms, where fld = created and f = ?f and g = "\<lambda>n. wrap64 (n + 1)" and t = t]
      tally_with_counters [OF assms, where fld = attempted and f = ?f and g = id and t = t] tally_cong [OF eq] tracking_cong [OF eq]
    by (simp_all add: f)
qed

lemma tally_update:
  assumes "tracking oc"
  shows "tally created s' (updateMetricsAfterCreation u clk ob s c sev et ns oc) =
      (if s' = s then wrap64 (tally created s oc + 1) else tally created s' oc)"
    and "tally attempted s' (updateMetricsAfterCreation u clk ob s c sev et ns oc) = tally attempted s' oc"
    and "tracking (updateMetricsAfterCreation u clk ob s c sev et ns oc)"
proof -
  define oc2 where "oc2 = emit_if (has_systemMetrics oc) RecordEvent (emit_if (has_ObservationsCreated oc) (ObservationsCreated s) oc)"
  have o2: "optimizationMetrics oc2 = optimizationMetrics oc" by (simp add: oc2_def)
  have eq: "optimizationMetrics (updateMetricsAfterCreation u clk ob s c sev et ns oc) =
      optimizationMetrics (recordEventCreated (t_created clk) s sev oc2)"
    using assms by (auto simp: updateMetricsAfterCreation_def Let_def oc2_def tracking_def)
  show "tally created s' (updateMetricsAfterCreation u clk ob s c sev et ns oc) =
      (if s' = s then wrap64 (tally created s oc + 1) else tally created s' oc)"
    and "tally attempted s' (updateMetricsAfterCreation u clk ob s c sev et ns oc) = tally attempted s' oc"
    and "tracking (updateMetricsAfterCreation u clk ob s c sev et ns oc)"
    using tally_created [of oc2] tally_cong [OF eq] tally_cong [OF o2] tracking_cong [OF eq] tracking_cong [OF o2] assms by auto
qed

lemma tally_createObservation:
  assumes "tracking oc"
  shows "tally created s' (snd (createObservation u api env clk ob s oc)) =
      (if s' = s \<and> fst (fst (createObservation u api env clk ob s oc)) = None
       then wrap64 (tally created s oc + 1) else tally created s' oc) \<and>
    tally attempted s' (snd (createObservation u api env clk ob s oc)) = tally attempted s' oc \<and>
    tracking (snd (createObservation u api env clk ob s oc))"
proof -
  have w: "tally fld t (oc\<lparr>writes := ws\<rparr>) = tally fld t oc" for fld t ws by (rule tally_cong) simp
  have h: "tally fld t (handleCreationError e r d oc') = tally fld t oc'" for fld t e r d oc' by (rule tally_cong) simp
  have e: "tally fld t (emit m oc') = tally fld t oc'" for fld t m oc' by (rule tally_cong) simp
  have tr: "tracking (oc\<lparr>writes := ws\<rparr>) = tracking oc" "tracking (handleCreationError er r d oc') = tracking oc'"
    "tracking (emit m oc') = tracking oc'" for er r d m ws oc' by (rule tracking_cong, simp)+
  show ?thesis
    using assms by (auto simp: createObservation_def Let_def w h e tr tally_update split: option.splits prod.splits)
qed

lemma tally_CreateObservation:
  assumes "tracking oc"
  shows "tally attempted s (snd (CreateObservation u api env clk ob oc)) =
      (if s = source_name u ob then wrap64 (tally attempted s oc + 1) else tally attempted s oc)"
    and "tally created s (snd (CreateObservation u api env clk ob oc)) =
      (if s = source_name u ob \<and> fst (fst (CreateObservation u api env clk ob oc)) = None
       then wrap64 (tally created s oc + 1) else tally created s oc)"
    and "tracking (snd (CreateObservation u api env clk ob oc))"
proof -
  let ?oc1 = "recordEventAttempted (t_attempt clk) (source_name u ob) oc"
  obtain b m where eq: "snd (CreateObservation u api env clk ob oc) =
      emit_if b m (snd (createObservation u api env clk ob (source_name u ob) ?oc1))"
    using CreateObservation_inner(2) by blast
  have e: "tally fld t (emit_if b m oc') = tally fld t oc'" "tracking (emit_if b m oc') = tracking oc'" for fld t oc'
    by (rule tally_cong tracking_cong, simp)+
  note t1 = tally_attempted [OF assms, where t = "t_attempt clk" and s = "source_name u ob"]
  note t2 = tally_createObservation [OF t1(3), of _ u api env clk ob]
  show "tally attempted s (snd (CreateObservation u api env clk ob oc)) =
      (if s = source_name u ob then wrap64 (tally attempted s oc + 1) else tally attempted s oc)"
    and "tally created s (snd (CreateObservation u api env clk ob oc)) =
      (if s = source_name u ob \<and> fst (fst (CreateObservation u api env clk ob oc)) = None
       then wrap64 (tally created s oc + 1) else tally created s oc)"
    and "tracking (snd (CreateObservation u api env clk ob oc))"
    using t1 t2 [of _ "source_name u ob"] by (auto simp: eq e CreateObservation_inner(1))
qed

text \<open>A sequence of calls, with the source and the success of each.\<close>

fun run_calls ::
    "uapi \<Rightarrow> api_server \<Rightarrow> (string \<Rightarrow> string) \<Rightarrow> (clock \<times> obj) list \<Rightarrow> ObservationCreator \<Rightarrow>
     (string \<times> bool) list \<times> ObservationCreator" where
  "run_calls u api env [] oc = ([], oc)"
| "run_calls u api env ((clk, ob) # cs) oc =
     (let (r, oc1) = CreateObservation u api env clk ob oc;
          (rs, oc2) = run_calls u api env cs oc1
      in ((source_name u ob, fst r = None) # rs, oc2))"

lemma run_calls_tally:
  assumes "tracking oc" "0 \<le> tally attempted s oc" "tally attempted s oc + int (length cs) < 2 ^ 63"
    "0 \<le> tally created s oc" "tally created s oc + int (length cs) < 2 ^ 63"
  shows "tally attempted s (snd (run_calls u api env cs oc)) =
      tally attempted s oc + int (length (filter (\<lambda>(src, ok). src = s) (fst (run_calls u api env cs oc)))) \<and>
    tally created s (snd (run_calls u api env cs oc)) =
      tally created s oc + int (length (filter (\<lambda>(src, ok). src = s \<and> ok) (fst (run_calls u api env cs oc))))"
  using assms
proof (induction cs arbitrary: oc)
  case (Cons c cs)
  obtain clk ob where c: "c = (clk, ob)" by (cases c)
  let ?r = "CreateObservation u api env clk ob oc"
  have inc: "wrap64 (tally fld s oc + 1) = tally fld s oc + 1"
    if "0 \<le> tally fld s oc" "tally fld s oc + int (length (c # cs)) < 2 ^ 63" for fld
    using that by (intro wrap64_id) (simp add: in_int64_def)
  note t = tally_CreateObservation [OF Cons.prems(1)]
  have IH: "tally attempted s (snd (run_calls u api env cs (snd ?r))) = tally attempted s (snd ?r) +
        int (length (filter (\<lambda>(src, ok). src = s) (fst (run_calls u api env cs (snd ?r))))) \<and>
      tally created s (snd (run_calls u api env cs (snd ?r))) = tally created s (snd ?r) +
        int (length (filter (\<lambda>(src, ok). src = s \<and> ok) (fst (run_calls u api env cs (snd ?r)))))"
    using Cons.prems t inc by (intro Cons.IH) (auto split: if_splits)
  show ?case
    using IH t inc Cons.prems by (auto simp: c split: prod.splits)
qed simp

text \<open>C16. The per-source counters are exact: after any sequence of fewer than \<open>2^63\<close> calls, the attempts of a
  source are the calls for it and its creations are the successful ones among them, so creations never
  exceed attempts; failures and blocked writes are not counted as creations.\<close>

theorem counters_exact:
  assumes "optimizationMetrics oc = Some om" "counters om = []" "length cs < 2 ^ 63"
    "run_calls u api env cs oc = (rs, oc')"
  shows "tally attempted s oc' = int (length (filter (\<lambda>(src, ok). src = s) rs)) \<and>
    tally created s oc' = int (length (filter (\<lambda>(src, ok). src = s \<and> ok) rs)) \<and>
    tally created s oc' \<le> tally attempted s oc'"
proof -
  have z: "tally fld s oc = 0" for fld using assms by (simp add: tally_def)
  have "int (length cs) < 2 ^ 63" using assms(3) by (metis of_nat_less_iff of_nat_numeral of_nat_power)
  then have "tally attempted s oc' = int (length (filter (\<lambda>(src, ok). src = s) rs))"
    "tally created s oc' = int (length (filter (\<lambda>(src, ok). src = s \<and> ok) rs))"
    using run_calls_tally [of oc s cs u api env] assms z by (auto simp: tracking_def)
  moreover have "length (filter (\<lambda>(src, ok). src = s \<and> ok) rs) \<le> length (filter (\<lambda>(src, ok). src = s) rs)"
    by (induction rs) auto
  ultimately show ?thesis by simp
qed

section \<open>What is written\<close>












section \<open>Witnesses\<close>

definition oc0 :: ObservationCreator where
  "oc0 = \<lparr>eventGVR = \<lparr>Group = ''zen.kube-zen.io'', Version = ''v1'', Resource = ''observations''\<rparr>, gvrResolver = None,
     gvrAllowlist = Some (NewGVRAllowlist (\<lambda>_. [])), has_EventsTotal = False, has_ObservationsCreated = True,
     has_CreateErrors = True,
     optimizationMetrics = Some \<lparr>has_FilterPassRate = False, has_DedupEffectiveness = False, has_LowSeverityPercent = False,
       has_ObservationsPerMinute = False, has_ObservationsPerHour = False, has_SeverityDistribution = False, counters = []\<rparr>,
     has_smartProcessor = True, has_systemMetrics = False, has_destinationMetrics = False, currentOrder = [],
     log = [], writes = []\<rparr>"

definition clk0 :: clock where
  "clk0 = \<lparr>t_attempt = 1, t_created = 2, t_update = 3, d_delivery = 4\<rparr>"

definition ob0 :: obj where
  "ob0 = [(''spec'', VMap [(''source'', VStr ''trivy''), (''severity'', VStr ''ERROR''), (''eventType'', VStr ''a-b'')])]"


theorem writes_follow_policy_witness:
  "\<exists>w. w \<in> set (writes (snd (CreateObservation walk_api (\<lambda>_ _. None) (\<lambda>_. []) clk0 ob0 oc0))) \<and>
     IsAllowed (NewGVRAllowlist (\<lambda>_. [])) (w_gvr w) (w_namespace w) = None"
proof -
  let ?oc = "snd (CreateObservation walk_api (\<lambda>_ _. None) (\<lambda>_. []) clk0 ob0 oc0)"
  have run: "creator_run oc0 ?oc" by (intro creator_run.intros)
  have a: "gvrAllowlist oc0 = Some (NewGVRAllowlist (\<lambda>_. []))" "writes oc0 = []" by (simp_all add: oc0_def)
  have "writes ?oc \<noteq> []" by code_simp
  then obtain w where w: "w \<in> set (writes ?oc)" by (cases "writes ?oc") auto
  show ?thesis using writes_follow_policy [OF run a w] w by blast
qed

theorem counters_exact_witness:
  "\<exists>rs oc'. run_calls walk_api (\<lambda>_ _. None) (\<lambda>_. []) [(clk0, ob0), (clk0, ob0)] oc0 = (rs, oc') \<and>
     tally attempted ''trivy'' oc' = 2 \<and> tally created ''trivy'' oc' = 2"
proof -
  let ?cs = "[(clk0, ob0), (clk0, ob0)]"
  obtain rs oc' where run: "run_calls walk_api (\<lambda>_ _. None) (\<lambda>_. []) ?cs oc0 = (rs, oc')" by fastforce
  have rs: "fst (run_calls walk_api (\<lambda>_ _. None) (\<lambda>_. []) ?cs oc0) = [(''trivy'', True), (''trivy'', True)]" by code_simp
  obtain om where om: "optimizationMetrics oc0 = Some om" "counters om = []" by (simp add: oc0_def)
  have "length ?cs < 2 ^ 63" by simp
  from counters_exact [OF om this run, of "''trivy''"] rs run show ?thesis by simp
qed


end
