(* ===== verification/Event_Config.thy ===== *)
theory Event_Config
  imports Zen_Values
begin

text \<open>
  Raw events and the configuration of a source: the types of \<^verbatim>\<open>pkg/adapter/generic/types.go\<close>, which the
  adapters, the pipeline, the threshold monitor and the converter of the ingester loader share. A pointer
  that may be nil is an option; a nil map or slice reads as an empty one.
\<close>

record RawEvent =
  raw_source :: string
  raw_timestamp :: int
  raw_data :: obj
  raw_metadata :: obj

record GVRConfig =
  gc_group :: string
  gc_version :: string
  gc_resource :: string

record InformerConfig =
  if_gvr :: GVRConfig
  if_namespace :: string
  if_label_selector :: string
  if_field_selector :: string
  if_resync :: string

record AuthConfig =
  au_type :: string
  au_secret :: string

record WebhookConfig =
  wh_path :: string
  wh_port :: int
  wh_buffer :: int
  wh_auth :: "AuthConfig option"

record LogPattern =
  lp_regex :: string
  lp_type :: string
  lp_priority :: f64

record LogsConfig =
  lc_selector :: string
  lc_container :: string
  lc_patterns :: "LogPattern list"
  lc_since :: int
  lc_poll :: string

record FieldMapping =
  fm_from :: string
  fm_to :: string
  fm_constant :: string
  fm_static :: "(string, string) gomap"

record NormalizationConfig =
  nc_domain :: string
  nc_type :: string
  nc_priority :: "(string, f64) gomap"
  nc_mapping :: "FieldMapping list"

record CustomThreshold =
  ct_name :: string
  ct_field :: string
  ct_operator :: string
  ct_value :: val
  ct_message :: string

text \<open>\<open>th_per_minute\<close> is the pair of the warning and the critical rate (\<^verbatim>\<open>ThresholdValues\<close>).\<close>

record ThresholdsConfig =
  th_per_minute :: "(int \<times> int) option"
  th_custom :: "CustomThreshold list"

record RateLimitConfig =
  rl_per_minute :: int
  rl_burst :: int

record DedupConfig =
  dc_enabled :: bool
  dc_window :: string
  dc_strategy :: string
  dc_fields :: "string list"
  dc_max_events :: int
  dc_config :: obj

text \<open>\<open>Processing\<close> is the order of a \<^verbatim>\<open>ProcessingConfig\<close>, its only field.\<close>

record SourceConfig =
  sc_source :: string
  sc_ingester :: string
  sc_namespace :: string
  Informer :: "InformerConfig option"
  Webhook :: "WebhookConfig option"
  Logs :: "LogsConfig option"
  Normalization :: "NormalizationConfig option"
  Thresholds :: "ThresholdsConfig option"
  RateLimit :: "RateLimitConfig option"
  Dedup :: "DedupConfig option"
  Processing :: "string option"

text \<open>A raw event with no timestamp and metadata.\<close>

definition raw_event :: "string \<Rightarrow> obj \<Rightarrow> RawEvent" where
  "raw_event source data = \<lparr>raw_source = source, raw_timestamp = 0, raw_data = data, raw_metadata = []\<rparr>"

lemma raw_event_simps [simp]:
  "raw_source (raw_event s d) = s" "raw_data (raw_event s d) = d"
  by (simp_all add: raw_event_def)

definition source_config :: "string \<Rightarrow> SourceConfig" where
  "source_config source =
     \<lparr>sc_source = source, sc_ingester = [], sc_namespace = [], Informer = None, Webhook = None, Logs = None,
      Normalization = None, Thresholds = None, RateLimit = None, Dedup = None, Processing = None\<rparr>"

end
