(* ===== verification/Threshold_Monitor.thy ===== *)
theory Threshold_Monitor
  imports Zen_Values Event_Config
begin

text \<open>
  The threshold monitor of \<^verbatim>\<open>pkg/monitoring/generic_threshold_monitor.go\<close>: rate limiting per source, the
  observation rate over the last minute and custom thresholds. The token bucket of
  \<^verbatim>\<open>golang.org/x/time/rate\<close> is a parameter: \<open>new_limiter\<close> makes one from events per second and burst, \<open>allow\<close>
  asks it at a time. Times are nanoseconds; the warnings a call logs are its output, since they are all
  that thresholds do.

  Main results: only the rate limiter can stop an event, thresholds only warn; sources do not influence
  each other; the hand-written substring search is the usual one.
\<close>

record rateCounter =
  rc_count :: int
  rc_window :: int
  rc_lastReset :: int

record 'l GenericThresholdMonitor =
  rateLimiters :: "(string, 'l) gomap"
  observationRates :: "(string, rateCounter) gomap"

datatype warning =
    RateLimited string
  | RateCritical string f64
  | RateWarning string f64
  | CustomExceeded string string string

abbreviation minute :: int where "minute \<equiv> 60000000000"

definition NewGenericThresholdMonitor :: "'l GenericThresholdMonitor" where
  "NewGenericThresholdMonitor = \<lparr>rateLimiters = [], observationRates = []\<rparr>"

section \<open>Rate limiting and observation rates\<close>

definition allowRateLimit ::
    "(f64 \<Rightarrow> int \<Rightarrow> 'l) \<Rightarrow> (int \<Rightarrow> 'l \<Rightarrow> bool \<times> 'l) \<Rightarrow> int \<Rightarrow> string \<Rightarrow> int \<Rightarrow> int \<Rightarrow> 'l GenericThresholdMonitor \<Rightarrow>
     bool \<times> 'l GenericThresholdMonitor" where
  "allowRateLimit new_limiter allow now source maxPerMinute burst gtm =
     (let limiter = (case map_of (rateLimiters gtm) source of
            Some l \<Rightarrow> l
          | None \<Rightarrow> new_limiter (f64_div (f64_of_int maxPerMinute) (f64_of_int 60)) burst);
          (ok, limiter') = allow now limiter
      in (ok, gtm\<lparr>rateLimiters := put source limiter' (rateLimiters gtm)\<rparr>))"

definition getObservationRate :: "int \<Rightarrow> string \<Rightarrow> 'l GenericThresholdMonitor \<Rightarrow> f64 \<times> 'l GenericThresholdMonitor" where
  "getObservationRate now source gtm =
     (case map_of (observationRates gtm) source of
        None \<Rightarrow> (Fin 0, gtm)
      | Some counter \<Rightarrow>
          (let elapsed = now - rc_lastReset counter
           in if elapsed < minute then
                (f64_mul (f64_of_int (rc_count counter)) (f64_div (f64_of_int 60) (dur_seconds elapsed)), gtm)
              else (Fin 0, gtm\<lparr>observationRates := put source (counter\<lparr>rc_count := 0, rc_lastReset := now\<rparr>) (observationRates gtm)\<rparr>)))"

definition recordObservation :: "int \<Rightarrow> string \<Rightarrow> 'l GenericThresholdMonitor \<Rightarrow> 'l GenericThresholdMonitor" where
  "recordObservation now source gtm =
     (let counter = (case map_of (observationRates gtm) source of
            Some c \<Rightarrow> c
          | None \<Rightarrow> \<lparr>rc_count = 0, rc_window = minute, rc_lastReset = now\<rparr>);
          counter1 = (if rc_window counter \<le> now - rc_lastReset counter
                      then counter\<lparr>rc_count := 0, rc_lastReset := now\<rparr> else counter)
      in gtm\<lparr>observationRates := put source (counter1\<lparr>rc_count := wrap64 (rc_count counter1 + 1)\<rparr>) (observationRates gtm)\<rparr>)"

section \<open>Custom thresholds\<close>

definition splitPath :: "string \<Rightarrow> string list" where
  "splitPath path = (if path = [] then [] else split_on CHR ''.'' path)"

fun extract_parts :: "obj \<Rightarrow> string list \<Rightarrow> val" where
  "extract_parts current [] = VNil"
| "extract_parts current [part] = idx current part"
| "extract_parts current (part # parts) =
     (case as_map (idx current part) of None \<Rightarrow> VNil | Some m \<Rightarrow> extract_parts m parts)"

definition threshold_field :: "obj \<Rightarrow> string \<Rightarrow> val" where
  "threshold_field data path = extract_parts data (splitPath path)"

definition toFloat :: "val \<Rightarrow> f64" where
  "toFloat v = (case v of
       VFloat x \<Rightarrow> x
     | VFloat32 x t \<Rightarrow> x
     | VInt n \<Rightarrow> f64_of_int n
     | VInt64 n \<Rightarrow> f64_of_int n
     | _ \<Rightarrow> Fin 0)"

definition compareNumbers :: "val \<Rightarrow> val \<Rightarrow> (f64 \<Rightarrow> f64 \<Rightarrow> bool) \<Rightarrow> bool" where
  "compareNumbers a b cmp = cmp (toFloat a) (toFloat b)"

text \<open>The loop of \<^verbatim>\<open>findSubstring\<close>, \<open>n\<close> positions left.\<close>

fun find_loop :: "string \<Rightarrow> string \<Rightarrow> nat \<Rightarrow> nat \<Rightarrow> bool" where
  "find_loop s substr i 0 = False"
| "find_loop s substr i (Suc n) =
     (if take (length substr) (drop i s) = substr then True else find_loop s substr (i + 1) n)"

definition findSubstring :: "string \<Rightarrow> string \<Rightarrow> bool" where
  "findSubstring s substr = find_loop s substr 0 (length s + 1 - length substr)"

definition contains :: "string \<Rightarrow> string \<Rightarrow> bool" where
  "contains s substr \<longleftrightarrow>
     length substr \<le> length s \<and> (s = substr \<or> length substr = 0 \<or> findSubstring s substr)"

definition evaluateThreshold :: "val \<Rightarrow> string \<Rightarrow> val \<Rightarrow> bool" where
  "evaluateThreshold v op expected =
     (if op = ''>'' then compareNumbers v expected (\<lambda>a b. f64_greater a b)
      else if op = ''<'' then compareNumbers v expected f64_less
      else if op = ''=='' then fmt_v v = fmt_v expected
      else if op = ''!='' then fmt_v v \<noteq> fmt_v expected
      else if op = ''contains'' then contains (fmt_v v) (fmt_v expected)
      else False)"

definition checkCustomThresholds :: "RawEvent \<Rightarrow> CustomThreshold list \<Rightarrow> warning list" where
  "checkCustomThresholds raw thresholds =
     concat (map (\<lambda>t.
       let v = threshold_field (raw_data raw) (ct_field t)
       in if evaluateThreshold v (ct_operator t) (ct_value t)
          then [CustomExceeded (raw_source raw) (ct_name t) (fmt_v v)] else []) thresholds)"

section \<open>Checking an event\<close>

definition CheckEvent ::
    "(f64 \<Rightarrow> int \<Rightarrow> 'l) \<Rightarrow> (int \<Rightarrow> 'l \<Rightarrow> bool \<times> 'l) \<Rightarrow> int \<Rightarrow> RawEvent \<Rightarrow> SourceConfig option \<Rightarrow> 'l GenericThresholdMonitor \<Rightarrow>
     (bool \<times> warning list) \<times> 'l GenericThresholdMonitor" where
  "CheckEvent new_limiter allow now raw cfg gtm =
     (case cfg of None \<Rightarrow> ((True, []), gtm)
      | Some config \<Rightarrow>
          (let (allowed, gtm1) =
                 (case RateLimit config of
                    None \<Rightarrow> (True, gtm)
                  | Some rl \<Rightarrow>
                      if 0 < rl_per_minute rl
                      then allowRateLimit new_limiter allow now (raw_source raw) (rl_per_minute rl) (rl_burst rl) gtm
                      else (True, gtm))
           in if \<not> allowed then ((False, [RateLimited (raw_source raw)]), gtm1)
              else
                (let (ws, gtm2) =
                       (case Option.bind (Thresholds config) th_per_minute of
                          None \<Rightarrow> ([], gtm1)
                        | Some (warn, crit) \<Rightarrow>
                            (let (rate, gtm') = getObservationRate now (raw_source raw) gtm1
                             in (if f64_greater rate (f64_of_int crit) then [RateCritical (raw_source raw) rate]
                                 else if f64_greater rate (f64_of_int warn) then [RateWarning (raw_source raw) rate]
                                 else [], gtm')));
                     ws' = (case Thresholds config of
                              None \<Rightarrow> [] | Some th \<Rightarrow> checkCustomThresholds raw (th_custom th))
                 in ((True, ws @ ws'), recordObservation now (raw_source raw) gtm2))))"

section \<open>Lemmas\<close>

lemma find_loop_iff:
  "find_loop s t i n \<longleftrightarrow> (\<exists>j \<in> {i..<i + n}. take (length t) (drop j s) = t)"
proof (induction n arbitrary: i)
  case (Suc n)
  have "{i..<i + Suc n} = insert i {i + 1..<i + 1 + n}" by auto
  with Suc.IH [of "i + 1"] show ?case by simp
qed simp

lemma contains_iff: "contains s t \<longleftrightarrow> (\<exists>u v. s = u @ t @ v)"
proof
  assume c: "contains s t"
  show "\<exists>u v. s = u @ t @ v"
  proof (cases "s = t \<or> t = []")
    case False
    with c obtain j where "take (length t) (drop j s) = t"
      by (auto simp: contains_def findSubstring_def find_loop_iff)
    then have "s = take j s @ t @ drop (length t) (drop j s)"
      by (metis append_take_drop_id)
    then show ?thesis by blast
  qed (metis append.right_neutral append_Nil)
next
  assume "\<exists>u v. s = u @ t @ v"
  then obtain u v where s: "s = u @ t @ v" by blast
  then have "length u \<in> {0..<0 + (length s + 1 - length t)}" "take (length t) (drop (length u) s) = t"
    by simp_all
  then have "findSubstring s t"
    unfolding findSubstring_def find_loop_iff by blast
  with s show "contains s t" by (simp add: contains_def)
qed

text \<open>What a check reads of the monitor's state.\<close>

definition same_source :: "string \<Rightarrow> 'l GenericThresholdMonitor \<Rightarrow> 'l GenericThresholdMonitor \<Rightarrow> bool" where
  "same_source s g h \<longleftrightarrow>
     map_of (rateLimiters g) s = map_of (rateLimiters h) s \<and>
     map_of (observationRates g) s = map_of (observationRates h) s"

lemma same_source_refl [simp]: "same_source s g g"
  by (simp add: same_source_def)

lemma allowRateLimit_same:
  assumes "same_source s g h"
  shows "fst (allowRateLimit nl al now s m b g) = fst (allowRateLimit nl al now s m b h) \<and>
         same_source s (snd (allowRateLimit nl al now s m b g)) (snd (allowRateLimit nl al now s m b h))"
  using assms by (auto simp: same_source_def allowRateLimit_def Let_def split: prod.splits option.splits)

lemma getObservationRate_same:
  assumes "same_source s g h"
  shows "fst (getObservationRate now s g) = fst (getObservationRate now s h) \<and>
         same_source s (snd (getObservationRate now s g)) (snd (getObservationRate now s h))"
  using assms by (auto simp: same_source_def getObservationRate_def Let_def split: option.splits)

lemma recordObservation_same:
  assumes "same_source s g h"
  shows "same_source s (recordObservation now s g) (recordObservation now s h)"
  using assms by (auto simp: same_source_def recordObservation_def Let_def split: option.splits)

lemma source_steps_other:
  assumes "s \<noteq> t"
  shows "same_source t (snd (allowRateLimit nl al now s m b g)) g"
    and "same_source t (snd (getObservationRate now s g)) g"
    and "same_source t (recordObservation now s g) g"
  using assms
  by (auto simp: same_source_def allowRateLimit_def getObservationRate_def recordObservation_def Let_def
      split: prod.splits option.splits)

lemma same_source_trans: "same_source s g h \<Longrightarrow> same_source s h k \<Longrightarrow> same_source s g k"
  by (simp add: same_source_def)

text \<open>A check is three steps: the limiter, the rate, the count.\<close>

definition limit_step ::
    "(f64 \<Rightarrow> int \<Rightarrow> 'l) \<Rightarrow> (int \<Rightarrow> 'l \<Rightarrow> bool \<times> 'l) \<Rightarrow> int \<Rightarrow> string \<Rightarrow> SourceConfig \<Rightarrow> 'l GenericThresholdMonitor \<Rightarrow>
     bool \<times> 'l GenericThresholdMonitor" where
  "limit_step new_limiter allow now s config gtm =
     (case RateLimit config of
        None \<Rightarrow> (True, gtm)
      | Some rl \<Rightarrow> if 0 < rl_per_minute rl
          then allowRateLimit new_limiter allow now s (rl_per_minute rl) (rl_burst rl) gtm else (True, gtm))"

definition rate_step :: "int \<Rightarrow> string \<Rightarrow> SourceConfig \<Rightarrow> 'l GenericThresholdMonitor \<Rightarrow> warning list \<times> 'l GenericThresholdMonitor" where
  "rate_step now s config gtm =
     (case Option.bind (Thresholds config) th_per_minute of
        None \<Rightarrow> ([], gtm)
      | Some (warn, crit) \<Rightarrow>
          (let (rate, gtm') = getObservationRate now s gtm
           in (if f64_greater rate (f64_of_int crit) then [RateCritical s rate]
               else if f64_greater rate (f64_of_int warn) then [RateWarning s rate] else [], gtm')))"

lemma CheckEvent_steps:
  "CheckEvent nl al now raw (Some config) g =
     (let (ok, g1) = limit_step nl al now (raw_source raw) config g
      in if \<not> ok then ((False, [RateLimited (raw_source raw)]), g1)
         else let (ws, g2) = rate_step now (raw_source raw) config g1
              in ((True, ws @ (case Thresholds config of None \<Rightarrow> [] | Some th \<Rightarrow> checkCustomThresholds raw (th_custom th))),
                  recordObservation now (raw_source raw) g2))"
  unfolding CheckEvent_def limit_step_def rate_step_def Let_def option.case by (rule refl)

lemma CheckEvent_None [simp]: "CheckEvent nl al now raw None g = ((True, []), g)"
  by (simp add: CheckEvent_def)

lemma limit_step_same:
  "same_source s g h \<Longrightarrow>
     fst (limit_step nl al now s c g) = fst (limit_step nl al now s c h) \<and>
     same_source s (snd (limit_step nl al now s c g)) (snd (limit_step nl al now s c h))"
  by (auto simp: limit_step_def allowRateLimit_same split: option.splits)

lemma rate_step_same:
  assumes "same_source s g h"
  shows "fst (rate_step now s c g) = fst (rate_step now s c h) \<and>
         same_source s (snd (rate_step now s c g)) (snd (rate_step now s c h))"
  using getObservationRate_same [OF assms, of now] assms
  by (auto simp: rate_step_def Let_def split: option.splits prod.splits)

lemma CheckEvent_same:
  assumes "same_source (raw_source raw) g h"
  shows "fst (CheckEvent nl al now raw cfg g) = fst (CheckEvent nl al now raw cfg h) \<and>
         same_source (raw_source raw) (snd (CheckEvent nl al now raw cfg g)) (snd (CheckEvent nl al now raw cfg h))"
proof (cases cfg)
  case (Some c)
  obtain ok g1 where g1: "limit_step nl al now (raw_source raw) c g = (ok, g1)" by fastforce
  moreover obtain ok' h1 where h1: "limit_step nl al now (raw_source raw) c h = (ok', h1)" by fastforce
  ultimately have 1: "ok = ok'" "same_source (raw_source raw) g1 h1"
    using limit_step_same [OF assms, of nl al now c] by simp_all
  obtain ws g2 where g2: "rate_step now (raw_source raw) c g1 = (ws, g2)" by fastforce
  moreover obtain ws' h2 where h2: "rate_step now (raw_source raw) c h1 = (ws', h2)" by fastforce
  ultimately have "ws = ws'" "same_source (raw_source raw) g2 h2"
    using rate_step_same [OF 1(2), of now c] by simp_all
  with 1 show ?thesis
    by (simp add: Some CheckEvent_steps g1 h1 g2 h2 recordObservation_same)
qed (use assms in simp)

lemma CheckEvent_other:
  assumes "raw_source raw \<noteq> t"
  shows "same_source t (snd (CheckEvent nl al now raw cfg g)) g"
proof (cases cfg)
  case (Some c)
  obtain ok g1 where g1: "limit_step nl al now (raw_source raw) c g = (ok, g1)" by fastforce
  obtain ws g2 where g2: "rate_step now (raw_source raw) c g1 = (ws, g2)" by fastforce
  have 1: "same_source t g1 g"
    by (simp add: g1 [THEN arg_cong, of snd, simplified, symmetric] limit_step_def source_steps_other(1) [OF assms] split: option.splits)
  have 2: "same_source t g2 g1"
    using source_steps_other(2) [OF assms, of now g1]
    by (auto simp: g2 [THEN arg_cong, of snd, simplified, symmetric] rate_step_def Let_def split: option.splits prod.splits)
  note 3 = same_source_trans [OF source_steps_other(3) [OF assms, of now g2] same_source_trans [OF 2 1]]
  show ?thesis
    by (simp add: Some CheckEvent_steps g1 g2 1 3)
qed simp

section \<open>The properties\<close>

text \<open>A stream of checks, each with its time, event and configuration, and the outcomes per source.\<close>

fun check_all ::
    "(f64 \<Rightarrow> int \<Rightarrow> 'l) \<Rightarrow> (int \<Rightarrow> 'l \<Rightarrow> bool \<times> 'l) \<Rightarrow> (int \<times> RawEvent \<times> SourceConfig option) list \<Rightarrow>
     'l GenericThresholdMonitor \<Rightarrow> (string \<times> bool \<times> warning list) list" where
  "check_all new_limiter allow [] gtm = []"
| "check_all new_limiter allow ((now, raw, cfg) # evs) gtm =
     (let (out, gtm') = CheckEvent new_limiter allow now raw cfg gtm
      in (raw_source raw, out) # check_all new_limiter allow evs gtm')"

lemma check_all_isolated:
  "same_source s g h \<Longrightarrow>
   filter (\<lambda>(t, out). t = s) (check_all nl al evs g) =
   check_all nl al (filter (\<lambda>(now, raw, cfg). raw_source raw = s) evs) h"
proof (induction evs arbitrary: g h)
  case (Cons ev evs)
  obtain now raw cfg where ev: "ev = (now, raw, cfg)" by (cases ev)
  obtain out g' where g': "CheckEvent nl al now raw cfg g = (out, g')" by fastforce
  obtain out' h' where h': "CheckEvent nl al now raw cfg h = (out', h')" by fastforce
  show ?case
  proof (cases "raw_source raw = s")
    case True
    with CheckEvent_same [of raw g h nl al now cfg] Cons.prems have "out = out'" "same_source s g' h'"
      by (simp_all add: g' h')
    with True Cons.IH show ?thesis by (simp add: ev g' h')
  next
    case False
    with CheckEvent_other [OF False, of nl al now cfg g] Cons.prems have "same_source s g' h"
      by (simp add: g' same_source_def)
    with False Cons.IH show ?thesis by (simp add: ev g')
  qed
qed simp

text \<open>C32. Sources are monitored independently: in a stream of checks the decisions and the warnings for
  one source are those of the stream of its own events alone, whatever the limiter does and whatever the
  state of the monitor.\<close>

theorem sources_isolated:
  "filter (\<lambda>(t, out). t = s) (check_all new_limiter allow evs gtm) =
   check_all new_limiter allow (filter (\<lambda>(now, raw, cfg). raw_source raw = s) evs) gtm"
  by (rule check_all_isolated) simp

text \<open>Only the rate limiter stops an event. The check says no exactly when the source's configuration
  has a positive rate limit and the source's limiter, new or existing, refuses; then nothing is counted for
  the observation rate. Thresholds, exceeded or not, never stop an event.\<close>

theorem only_limiter_blocks:
  "fst (fst (CheckEvent new_limiter allow now raw cfg gtm)) \<longleftrightarrow>
     (case Option.bind cfg RateLimit of
        None \<Rightarrow> True
      | Some rl \<Rightarrow> rl_per_minute rl \<le> 0 \<or>
          fst (allow now (case map_of (rateLimiters gtm) (raw_source raw) of
                 Some l \<Rightarrow> l
               | None \<Rightarrow> new_limiter (f64_div (f64_of_int (rl_per_minute rl)) (f64_of_int 60)) (rl_burst rl))))"
  (is "?lhs \<longleftrightarrow> ?rhs")
proof (cases cfg)
  case (Some c)
  have "?lhs \<longleftrightarrow> fst (limit_step new_limiter allow now (raw_source raw) c gtm)"
    by (simp add: Some CheckEvent_steps Let_def split: prod.splits)
  also have "\<dots> \<longleftrightarrow> ?rhs"
    by (auto simp: Some limit_step_def allowRateLimit_def Let_def split: option.splits prod.splits)
  finally show ?thesis .
qed simp

text \<open>The hand-written substring test of the \<^verbatim>\<open>contains\<close> operator holds exactly when the second text occurs in the first.\<close>

theorem contains_correct: "contains s t \<longleftrightarrow> (\<exists>u v. s = u @ t @ v)"
  by (rule contains_iff)

end
