(* ===== verification/Event_Pipeline.thy ===== *)
theory Event_Pipeline
  imports Observation_Creator Threshold_Monitor Event_Fingerprint Filter_Merge
begin

text \<open>
  The processing pipeline, \<^verbatim>\<open>pkg/processor/pipeline.go\<close>, and the observation hooks of \<^verbatim>\<open>pkg/hooks\<close>: a raw event
  passes the threshold monitor, the filter and the deduplicator in the configured order, is normalised,
  passes the hooks and is handed to the observation creator.

  Code outside the repository is collected in the record \<open>externals\<close>: the token bucket, the SDK filter, the SDK
  deduplication strategies, \<^verbatim>\<open>json.Marshal\<close>, the unstructured package and the API server. A hook
  gets the observation and returns an error or nothing, and may change the observation. Field mappings
  write into the map of the raw event, so \<open>ProcessEvent\<close> returns the event too.
\<close>

section \<open>Hooks\<close>

type_synonym hook = "obj \<Rightarrow> string option \<times> obj"

definition RegisterHook :: "hook option \<Rightarrow> hook list \<Rightarrow> hook list" where
  "RegisterHook h registered = (case h of None \<Rightarrow> registered | Some hk \<Rightarrow> registered @ [hk])"

definition GetHooks :: "hook list \<Rightarrow> hook list" where
  "GetHooks registered = registered"

definition ClearHooks :: "hook list \<Rightarrow> hook list" where
  "ClearHooks registered = []"

fun run_hooks :: "hook list \<Rightarrow> obj \<Rightarrow> string option \<times> obj" where
  "run_hooks [] obs = (None, obs)"
| "run_hooks (hk # hks) obs =
     (case hk obs of
        (Some err, obs') \<Rightarrow> (Some err, obs')
      | (None, obs') \<Rightarrow> run_hooks hks obs')"

definition hooks_Processor :: "hook list \<Rightarrow> obj \<Rightarrow> string option \<times> obj" where
  "hooks_Processor registered obs = run_hooks (GetHooks registered) obs"

section \<open>The processor\<close>

record StrategyConfig =
  st_strategy :: string
  st_window :: string
  st_fields :: "string list"
  st_max :: int

record ('l, 's, 'd) externals =
  x_uapi :: uapi
  x_api :: api_server
  x_env :: "string \<Rightarrow> string"
  x_new_limiter :: "f64 \<Rightarrow> int \<Rightarrow> 'l"
  x_allow :: "int \<Rightarrow> 'l \<Rightarrow> bool \<times> 'l"
  x_sdk_allow :: "'s \<Rightarrow> obj \<Rightarrow> bool"
  x_should_create :: "StrategyConfig \<Rightarrow> DedupKey \<Rightarrow> obj \<Rightarrow> 'd \<Rightarrow> bool \<times> 'd"
  x_marshal :: "obj \<Rightarrow> string option"
  x_hooks :: "hook list"

record ('l, 's, 'd) Processor =
  thresholdMonitor :: "'l GenericThresholdMonitor option"
  pfilter :: "'s Filter option"
  deduper :: 'd
  observationCreator :: ObservationCreator
  has_pmetrics :: bool
  filterDecisions :: "(string \<times> string \<times> string) list"

text \<open>The clock readings of one call: the check, the two timestamps, and those of the creator.\<close>

record ticks =
  tk_check :: int
  tk_minimal :: string
  tk_normal :: string
  tk_create :: clock

datatype pipeline_err = HookError string | CreateError create_err

definition NewProcessorWithMetrics ::
    "'s Filter option \<Rightarrow> 'd \<Rightarrow> ObservationCreator \<Rightarrow> bool \<Rightarrow> ('l, 's, 'd) Processor" where
  "NewProcessorWithMetrics f d oc m =
     \<lparr>thresholdMonitor = Some NewGenericThresholdMonitor, pfilter = f, deduper = d, observationCreator = oc,
      has_pmetrics = m, filterDecisions = []\<rparr>"

definition NewProcessor :: "'s Filter option \<Rightarrow> 'd \<Rightarrow> ObservationCreator \<Rightarrow> ('l, 's, 'd) Processor" where
  "NewProcessor f d oc = NewProcessorWithMetrics f d oc False"

definition decide :: "string \<times> string \<times> string \<Rightarrow> ('l, 's, 'd) Processor \<Rightarrow> ('l, 's, 'd) Processor" where
  "decide lbls p = (if has_pmetrics p then p\<lparr>filterDecisions := filterDecisions p @ [lbls]\<rparr> else p)"

section \<open>Order and minimal observation\<close>

definition determineProcessingOrder :: "RawEvent \<Rightarrow> SourceConfig option \<Rightarrow> string" where
  "determineProcessingOrder raw cfg =
     (case Option.bind cfg Processing of
        None \<Rightarrow> ''filter_first''
      | Some order \<Rightarrow>
          if order \<noteq> [] \<and> (order = ''filter_first'' \<or> order = ''dedup_first'') then order else ''filter_first'')"

definition raw_severity :: "obj \<Rightarrow> string" where
  "raw_severity data =
     (case non_empty (as_string (idx data ''severity'')) of
        Some sev \<Rightarrow> to_upper sev
      | None \<Rightarrow> (case non_empty (as_string (idx data ''priority'')) of
                   Some sev \<Rightarrow> to_upper sev
                 | None \<Rightarrow> ''MEDIUM''))"

definition event_of :: "string \<Rightarrow> obj \<Rightarrow> Event" where
  "event_of source details =
     \<lparr>Source = source, Category = [], Severity = [], EventType = [], EResource = None, Details = details,
      ENamespace = [], DetectedAt = []\<rparr>"

definition createMinimalObservation :: "uapi \<Rightarrow> string \<Rightarrow> RawEvent \<Rightarrow> obj option" where
  "createMinimalObservation u now raw =
     EventToObservation u now (Some ((event_of (raw_source raw) (raw_data raw))
       \<lparr>Category := ''security'', Severity := raw_severity (raw_data raw), EventType := ''custom_event''\<rparr>))"

section \<open>Normalisation\<close>

definition observationToEvent :: "uapi \<Rightarrow> obj \<Rightarrow> RawEvent \<Rightarrow> Event" where
  "observationToEvent u observation raw =
     (let event0 = event_of (raw_source raw) (raw_data raw);
          event1 = (case NestedString u observation [''spec'', ''category''] of
                      None \<Rightarrow> event0 | Some c \<Rightarrow> event0\<lparr>Category := c\<rparr>);
          event2 = (case NestedString u observation [''spec'', ''severity''] of
                      None \<Rightarrow> event1 | Some s \<Rightarrow> event1\<lparr>Severity := s\<rparr>)
      in case NestedString u observation [''spec'', ''eventType''] of
           None \<Rightarrow> event2 | Some t \<Rightarrow> event2\<lparr>EventType := t\<rparr>)"

definition default_priority :: f64 where "default_priority = Fin (1 / 2)"

text \<open>The loop over the data, in the order of the list.\<close>

fun priority_loop :: "(string, f64) gomap \<Rightarrow> obj \<Rightarrow> f64" where
  "priority_loop prio [] = default_priority"
| "priority_loop prio ((key, v) # data) =
     (case map_of prio (fmt_v v) of
        Some mapped \<Rightarrow> mapped
      | None \<Rightarrow> (case map_of prio key of
                   Some mapped \<Rightarrow> mapped
                 | None \<Rightarrow> priority_loop prio data))"

definition extractPriority :: "RawEvent \<Rightarrow> SourceConfig option \<Rightarrow> f64" where
  "extractPriority raw cfg =
     (case Option.bind cfg Normalization of
        None \<Rightarrow> default_priority
      | Some nc \<Rightarrow> if nc_priority nc = [] then default_priority else priority_loop (nc_priority nc) (raw_data raw))"

definition priorityToSeverity :: "f64 \<Rightarrow> string" where
  "priorityToSeverity p =
     (if f64_ge p (f64_val (rnd64 (9 / 10))) then ''CRITICAL''
      else if f64_ge p (f64_val (rnd64 (7 / 10))) then ''HIGH''
      else if f64_ge p (f64_val (rnd64 (4 / 10))) then ''MEDIUM''
      else if f64_ge p (f64_val (rnd64 (2 / 10))) then ''LOW''
      else ''INFO'')"

definition extractField :: "obj \<Rightarrow> string \<Rightarrow> val" where
  "extractField data path = extract_parts data (split_on CHR ''.'' path)"

text \<open>One field mapping: the details of the event and the data of the raw event are the same map.\<close>

definition map_field :: "string \<Rightarrow> FieldMapping \<Rightarrow> obj \<times> ('l, 's, 'd) Processor \<Rightarrow> obj \<times> ('l, 's, 'd) Processor" where
  "map_field source mapping = (\<lambda>(data, p).
     case extractField data (fm_from mapping) of
       VNil \<Rightarrow> (data, decide (source, ''field_mapping'', ''extraction_failed'') p)
     | v \<Rightarrow> (put (fm_to mapping) v data, decide (source, ''field_mapping'', ''success'') p))"

definition normalizeObservation ::
    "uapi \<Rightarrow> string \<Rightarrow> obj \<Rightarrow> RawEvent \<Rightarrow> SourceConfig option \<Rightarrow> ('l, 's, 'd) Processor \<Rightarrow>
     (obj option \<times> RawEvent) \<times> ('l, 's, 'd) Processor" where
  "normalizeObservation u now observation raw cfg p =
     (let source = raw_source raw;
          event = observationToEvent u observation raw;
          sev = priorityToSeverity (extractPriority raw cfg)
      in case Option.bind cfg Normalization of
           Some nc \<Rightarrow>
             (let p1 = decide (source, ''normalization'', ''priority_mapping'') p;
                  (data, p2) = fold (map_field source) (nc_mapping nc) (raw_data raw, p1);
                  event' = event\<lparr>Category := nc_domain nc, EventType := nc_type nc, Severity := sev, Details := data\<rparr>
              in ((EventToObservation u now (Some event'), raw\<lparr>raw_data := data\<rparr>), p2))
         | None \<Rightarrow>
             (let event' = event\<lparr>Severity := sev, Category := ''security'', EventType := ''custom_event''\<rparr>
              in ((EventToObservation u now (Some event'), raw), decide (source, ''normalization'', ''default'') p)))"

section \<open>Filter and deduplication\<close>

definition applyFilter ::
    "('l, 's, 'd) externals \<Rightarrow> obj \<Rightarrow> ('l, 's, 'd) Processor \<Rightarrow> bool \<times> ('l, 's, 'd) Processor" where
  "applyFilter x observation p =
     (let ((allowed, reason), f) = AllowWithReason (x_sdk_allow x) (NestedFieldCopy (x_uapi x)) (pfilter p) observation
      in (\<not> allowed, p\<lparr>pfilter := f\<rparr>))"

definition extractDedupKey :: "(obj \<Rightarrow> string option) \<Rightarrow> RawEvent \<Rightarrow> DedupKey" where
  "extractDedupKey marshal raw =
     (let fingerprint = GenerateFingerprint marshal
            \<lparr>we_source = raw_source raw, we_type = [], we_data = raw_data raw, we_resources = []\<rparr>
      in \<lparr>dk_source = raw_source raw, dk_namespace = [], dk_kind = [], dk_name = [], dk_reason = [],
          dk_hash = hex (take 16 (Sum256 fingerprint))\<rparr>)"

definition strategy_of :: "SourceConfig option \<Rightarrow> StrategyConfig" where
  "strategy_of cfg =
     (case Option.bind cfg Dedup of
        None \<Rightarrow> \<lparr>st_strategy = ''fingerprint'', st_window = [], st_fields = [], st_max = 0\<rparr>
      | Some dc \<Rightarrow> \<lparr>st_strategy = (if dc_strategy dc \<noteq> [] then dc_strategy dc else ''fingerprint''),
                   st_window = dc_window dc, st_fields = dc_fields dc, st_max = dc_max_events dc\<rparr>)"

definition shouldCreateWithStrategy ::
    "('l, 's, 'd) externals \<Rightarrow> DedupKey \<Rightarrow> obj \<Rightarrow> SourceConfig option \<Rightarrow> ('l, 's, 'd) Processor \<Rightarrow>
     bool \<times> ('l, 's, 'd) Processor" where
  "shouldCreateWithStrategy x key content cfg p =
     (let (ok, d) = x_should_create x (strategy_of cfg) key content (deduper p)
      in (ok, p\<lparr>deduper := d\<rparr>))"

definition applyDedup ::
    "('l, 's, 'd) externals \<Rightarrow> obj \<Rightarrow> RawEvent \<Rightarrow> SourceConfig option \<Rightarrow> ('l, 's, 'd) Processor \<Rightarrow>
     bool \<times> ('l, 's, 'd) Processor" where
  "applyDedup x observation raw cfg p =
     (let (shouldCreate, p') = shouldCreateWithStrategy x (extractDedupKey (x_marshal x) raw) observation cfg p
      in (\<not> shouldCreate, p'))"

definition applyFilterAndDedup ::
    "('l, 's, 'd) externals \<Rightarrow> obj \<Rightarrow> RawEvent \<Rightarrow> SourceConfig option \<Rightarrow> string \<Rightarrow> ('l, 's, 'd) Processor \<Rightarrow>
     (bool \<times> bool) \<times> ('l, 's, 'd) Processor" where
  "applyFilterAndDedup x observation raw cfg order p =
     (if order = ''dedup_first'' then
        (let (deduped, p1) = applyDedup x observation raw cfg p
         in if \<not> deduped \<and> pfilter p1 \<noteq> None then
              (let (filtered, p2) = applyFilter x observation p1 in ((filtered, deduped), p2))
            else ((False, deduped), p1))
      else
        (let (filtered, p1) = (if pfilter p \<noteq> None then applyFilter x observation p else (False, p))
         in if \<not> filtered then
              (let (deduped, p2) = applyDedup x observation raw cfg p1 in ((filtered, deduped), p2))
            else ((filtered, False), p1)))"

section \<open>Processing an event\<close>

definition check_thresholds ::
    "('l, 's, 'd) externals \<Rightarrow> int \<Rightarrow> RawEvent \<Rightarrow> SourceConfig option \<Rightarrow> ('l, 's, 'd) Processor \<Rightarrow>
     bool \<times> ('l, 's, 'd) Processor" where
  "check_thresholds x now raw cfg p =
     (case thresholdMonitor p of
        None \<Rightarrow> (True, p)
      | Some gtm \<Rightarrow>
          (let ((allowed, ws), gtm') = CheckEvent (x_new_limiter x) (x_allow x) now raw cfg gtm
           in (allowed, p\<lparr>thresholdMonitor := Some gtm'\<rparr>)))"

definition finish_event ::
    "('l, 's, 'd) externals \<Rightarrow> ticks \<Rightarrow> obj \<Rightarrow> RawEvent \<Rightarrow> SourceConfig option \<Rightarrow> ('l, 's, 'd) Processor \<Rightarrow>
     (pipeline_err option \<times> RawEvent) \<times> ('l, 's, 'd) Processor" where
  "finish_event x tk observation raw cfg p =
     (case normalizeObservation (x_uapi x) (tk_normal tk) observation raw cfg p of
        ((None, raw'), p1) \<Rightarrow> ((None, raw'), p1)
      | ((Some obs, raw'), p1) \<Rightarrow>
          (case hooks_Processor (x_hooks x) obs of
             (Some err, obs') \<Rightarrow> ((Some (HookError err), raw'), p1)
           | (None, obs') \<Rightarrow>
               (let ((err, obs''), oc) =
                      CreateObservation (x_uapi x) (x_api x) (x_env x) (tk_create tk) obs' (observationCreator p1)
                in ((map_option CreateError err, raw'), p1\<lparr>observationCreator := oc\<rparr>))))"

definition ProcessEvent ::
    "('l, 's, 'd) externals \<Rightarrow> ticks \<Rightarrow> RawEvent \<Rightarrow> SourceConfig option \<Rightarrow> ('l, 's, 'd) Processor \<Rightarrow>
     (pipeline_err option \<times> RawEvent) \<times> ('l, 's, 'd) Processor" where
  "ProcessEvent x tk raw cfg p =
     (let (allowed, p1) = check_thresholds x (tk_check tk) raw cfg p
      in if \<not> allowed then ((None, raw), p1)
         else
           (let order = determineProcessingOrder raw cfg
            in case createMinimalObservation (x_uapi x) (tk_minimal tk) raw of
                 None \<Rightarrow> ((None, raw), p1)
               | Some observation \<Rightarrow>
                   (let ((filtered, deduped), p2) = applyFilterAndDedup x observation raw cfg order p1
                    in if filtered \<or> deduped then ((None, raw), p2)
                       else finish_event x tk observation raw cfg p2)))"

section \<open>The gates\<close>

lemma applyFilter_verdict: "fst (applyFilter x obs p) \<longleftrightarrow> \<not> Allow (x_sdk_allow x) (pfilter p) obs"
  by (auto simp: applyFilter_def AllowWithReason_def Allow_def Let_def split: option.splits prod.splits if_splits)

lemma applyFilter_keeps [simp]:
  "deduper (snd (applyFilter x obs p)) = deduper p"
  "observationCreator (snd (applyFilter x obs p)) = observationCreator p"
  "thresholdMonitor (snd (applyFilter x obs p)) = thresholdMonitor p"
  by (simp_all add: applyFilter_def Let_def split: prod.splits)

lemma applyFilter_eq:
  "applyFilter x obs p = (r, p') \<Longrightarrow>
     deduper p' = deduper p \<and> observationCreator p' = observationCreator p \<and> thresholdMonitor p' = thresholdMonitor p"
  by (metis applyFilter_keeps snd_conv)

lemma applyFilter_None: "pfilter p = None \<Longrightarrow> applyFilter x obs p = (False, p)"
  by (simp add: applyFilter_def AllowWithReason_def)

definition asked :: "('l, 's, 'd) externals \<Rightarrow> obj \<Rightarrow> RawEvent \<Rightarrow> SourceConfig option \<Rightarrow> 'd \<Rightarrow> bool \<times> 'd" where
  "asked x obs raw cfg d = x_should_create x (strategy_of cfg) (extractDedupKey (x_marshal x) raw) obs d"

lemma applyDedup_asked:
  "applyDedup x obs raw cfg p = (\<not> fst (asked x obs raw cfg (deduper p)), p\<lparr>deduper := snd (asked x obs raw cfg (deduper p))\<rparr>)"
  by (simp add: applyDedup_def shouldCreateWithStrategy_def asked_def Let_def split: prod.splits)

lemma dedup_first_cases:
  "applyFilterAndDedup x obs raw cfg ''dedup_first'' p =
     (let (ok, d) = asked x obs raw cfg (deduper p); p1 = p\<lparr>deduper := d\<rparr>
      in if ok then ((fst (applyFilter x obs p1), False), snd (applyFilter x obs p1)) else ((False, True), p1))"
  by (auto simp: applyFilterAndDedup_def applyDedup_asked applyFilter_None Let_def split: prod.splits)

lemma filter_first_cases:
  assumes "order \<noteq> ''dedup_first''"
  shows "applyFilterAndDedup x obs raw cfg order p =
     (let (rejected, p1) = applyFilter x obs p; (ok, d) = asked x obs raw cfg (deduper p)
      in if rejected then ((True, False), p1) else ((False, \<not> ok), p1\<lparr>deduper := d\<rparr>))"
proof -
  have "(if pfilter p \<noteq> None then applyFilter x obs p else (False, p)) = applyFilter x obs p"
    by (simp add: applyFilter_None)
  with assms show ?thesis
    by (auto simp: applyFilterAndDedup_def applyDedup_asked Let_def split: prod.splits dest!: applyFilter_eq)
qed

text \<open>An event is rejected when the filter or the deduplicator rejects it.\<close>

definition rejected :: "(bool \<times> bool) \<times> ('l, 's, 'd) Processor \<Rightarrow> bool" where
  "rejected r \<longleftrightarrow> fst (fst r) \<or> snd (fst r)"

lemma rejected_iff:
  "rejected (applyFilterAndDedup x obs raw cfg order p) \<longleftrightarrow>
     \<not> Allow (x_sdk_allow x) (pfilter p) obs \<or> \<not> fst (asked x obs raw cfg (deduper p))"
proof (cases "order = ''dedup_first''")
  case True
  have "pfilter (p\<lparr>deduper := d\<rparr>) = pfilter p" for d by simp
  then show ?thesis
    unfolding True dedup_first_cases rejected_def
    by (auto simp: applyFilter_verdict Let_def split: prod.splits if_splits)
next
  case False
  then show ?thesis
    unfolding rejected_def
    by (auto simp: filter_first_cases applyFilter_verdict [symmetric] Let_def split: prod.splits if_splits)
qed

lemma applyFilterAndDedup_keeps [simp]:
  "observationCreator (snd (applyFilterAndDedup x obs raw cfg order p)) = observationCreator p"
proof (cases "order = ''dedup_first''")
  case True
  then show ?thesis by (simp add: dedup_first_cases Let_def split: prod.splits)
next
  case False
  then show ?thesis by (auto simp: filter_first_cases Let_def split: prod.splits dest: applyFilter_eq)
qed

text \<open>C30. The processing order changes only what the two gates remember, never the verdict. In both orders an
  event is rejected exactly when the filter rejects its minimal observation or the deduplication strategy
  calls it a duplicate. With the filter first, a filtered event is not shown to the deduplicator; with
  deduplication first every event is, and a duplicate is not counted by the filter.\<close>

theorem order_keeps_verdict:
  "(let ask = x_should_create x (strategy_of cfg) (extractDedupKey (x_marshal x) raw) obs (deduper p);
        admitted = Allow (x_sdk_allow x) (pfilter p) obs;
        ff = applyFilterAndDedup x obs raw cfg ''filter_first'' p;
        df = applyFilterAndDedup x obs raw cfg ''dedup_first'' p
    in (rejected ff \<longleftrightarrow> \<not> (admitted \<and> fst ask)) \<and> (rejected df \<longleftrightarrow> \<not> (admitted \<and> fst ask)) \<and>
       deduper (snd ff) = (if admitted then snd ask else deduper p) \<and> deduper (snd df) = snd ask \<and>
       pfilter (snd df) = (if fst ask then pfilter (snd ff) else pfilter p))"
proof -
  have v: "fst (applyFilter x obs p) \<longleftrightarrow> \<not> Allow (x_sdk_allow x) (pfilter p) obs" by (rule applyFilter_verdict)
  have pf: "pfilter (snd (applyFilter x obs (p\<lparr>deduper := d\<rparr>))) = pfilter (snd (applyFilter x obs p))" for d
    by (simp add: applyFilter_def Let_def split: prod.splits)
  show ?thesis
    unfolding asked_def [symmetric] Let_def rejected_iff using v
    by (auto simp: filter_first_cases dedup_first_cases pf Let_def split: prod.splits dest: applyFilter_eq)
qed

section \<open>Normalisation\<close>

text \<open>The result of the field mappings, and the event that is normalised, without the metrics.\<close>

definition mapped :: "FieldMapping \<Rightarrow> obj \<Rightarrow> obj" where
  "mapped m data = (let v = extractField data (fm_from m) in if v = VNil then data else put (fm_to m) v data)"

definition normal_details :: "RawEvent \<Rightarrow> SourceConfig option \<Rightarrow> obj" where
  "normal_details raw cfg =
     (case Option.bind cfg Normalization of
        None \<Rightarrow> raw_data raw | Some nc \<Rightarrow> fold mapped (nc_mapping nc) (raw_data raw))"

definition normal_event :: "RawEvent \<Rightarrow> SourceConfig option \<Rightarrow> Event" where
  "normal_event raw cfg =
     (event_of (raw_source raw) (normal_details raw cfg))
       \<lparr>Category := (case Option.bind cfg Normalization of None \<Rightarrow> ''security'' | Some nc \<Rightarrow> nc_domain nc),
        Severity := priorityToSeverity (extractPriority raw cfg),
        EventType := (case Option.bind cfg Normalization of None \<Rightarrow> ''custom_event'' | Some nc \<Rightarrow> nc_type nc)\<rparr>"

lemma map_field_mapped: "fst (map_field s m (data, p)) = mapped m data"
  by (auto simp: map_field_def mapped_def Let_def split: val.splits)

lemma fold_map_field: "fst (fold (map_field s) ms dp) = fold mapped ms (fst dp)"
  by (induction ms arbitrary: dp) (simp_all add: map_field_mapped [of s _ "fst x" "snd x" for x, simplified])

lemma observationToEvent_base:
  "observationToEvent u obs raw = (event_of (raw_source raw) (raw_data raw))
     \<lparr>Category := Category (observationToEvent u obs raw), Severity := Severity (observationToEvent u obs raw),
      EventType := EventType (observationToEvent u obs raw)\<rparr>"
  by (simp add: observationToEvent_def event_of_def Let_def split: option.splits)

lemma normalizeObservation_result:
  "fst (normalizeObservation u now obs raw cfg p) =
     (EventToObservation u now (Some (normal_event raw cfg)), raw\<lparr>raw_data := normal_details raw cfg\<rparr>)"
proof -
  obtain c s t where o: "observationToEvent u obs raw = (event_of (raw_source raw) (raw_data raw))
      \<lparr>Category := c, Severity := s, EventType := t\<rparr>"
    using observationToEvent_base by blast
  show ?thesis
  proof (cases "Option.bind cfg Normalization")
    case (Some nc)
    let ?f = "fold (map_field (raw_source raw)) (nc_mapping nc) (raw_data raw, decide (raw_source raw, ''normalization'', ''priority_mapping'') p)"
    have "fst ?f = fold mapped (nc_mapping nc) (raw_data raw)" by (simp add: fold_map_field)
    with Some show ?thesis
      by (auto simp: normalizeObservation_def o normal_event_def normal_details_def event_of_def Let_def split: prod.splits)
  qed (simp add: normalizeObservation_def o normal_event_def normal_details_def event_of_def Let_def)
qed

section \<open>What is written\<close>

lemma check_thresholds_keeps [simp]:
  "observationCreator (snd (check_thresholds x now raw cfg p)) = observationCreator p"
  "deduper (snd (check_thresholds x now raw cfg p)) = deduper p"
  "pfilter (snd (check_thresholds x now raw cfg p)) = pfilter p"
  by (auto simp: check_thresholds_def Let_def split: option.splits prod.splits)

lemma decide_keeps [simp]: "observationCreator (decide l p) = observationCreator p"
  by (simp add: decide_def)

lemma fold_map_field_keeps [simp]:
  "observationCreator (snd (fold (map_field s) ms dp)) = observationCreator (snd dp)"
  by (induction ms arbitrary: dp) (auto simp: map_field_def split: prod.splits val.splits)

lemma normalizeObservation_keeps [simp]:
  "observationCreator (snd (normalizeObservation u now obs raw cfg p)) = observationCreator p"
proof (cases "Option.bind cfg Normalization")
  case (Some nc)
  have "observationCreator p2 = observationCreator p"
    if "fold (map_field s) ms (data, decide l p) = (data', p2)" for s ms data l data' p2
    using fold_map_field_keeps [of s ms "(data, decide l p)"] that by simp
  with Some show ?thesis by (auto simp: normalizeObservation_def Let_def split: prod.splits)
qed (simp add: normalizeObservation_def Let_def)

definition hooks_accept :: "('l, 's, 'd) externals \<Rightarrow> ticks \<Rightarrow> RawEvent \<Rightarrow> SourceConfig option \<Rightarrow> bool" where
  "hooks_accept x tk raw cfg \<longleftrightarrow>
     (case EventToObservation (x_uapi x) (tk_normal tk) (Some (normal_event raw cfg)) of
        None \<Rightarrow> False | Some obs \<Rightarrow> fst (hooks_Processor (x_hooks x) obs) = None)"

lemma finish_event_writes:
  assumes "gvrAllowlist (observationCreator p) = Some a" "finish_event x tk obs raw cfg p = (r, p')"
  shows "gvrAllowlist (observationCreator p') = Some a \<and>
    (writes (observationCreator p') = writes (observationCreator p) \<or>
     hooks_accept x tk raw cfg \<and>
     (\<exists>w. writes (observationCreator p') = writes (observationCreator p) @ [w] \<and>
        IsAllowed a (w_gvr w) (w_namespace w) = None))"
proof -
  obtain nobs raw' p1 where n: "normalizeObservation (x_uapi x) (tk_normal tk) obs raw cfg p = ((nobs, raw'), p1)"
    by (metis surj_pair)
  then have p1: "observationCreator p1 = observationCreator p"
    using normalizeObservation_keeps by (metis snd_conv)
  have nobs: "EventToObservation (x_uapi x) (tk_normal tk) (Some (normal_event raw cfg)) = nobs"
    using normalizeObservation_result [of "x_uapi x" "tk_normal tk" obs raw cfg p] by (simp add: n)
  show ?thesis
  proof (cases nobs)
    case None
    with assms n p1 show ?thesis by (auto simp: finish_event_def)
  next
    case (Some ob)
    obtain herr ob' where h: "hooks_Processor (x_hooks x) ob = (herr, ob')" by fastforce
    show ?thesis
    proof (cases herr)
      case None
      have "p' = p1\<lparr>observationCreator := snd (CreateObservation (x_uapi x) (x_api x) (x_env x) (tk_create tk) ob' (observationCreator p1))\<rparr>"
        using assms(2) by (auto simp: finish_event_def n Some h None Let_def split: prod.splits)
      then show ?thesis
        using CreateObservation_writes [of "observationCreator p" a "x_uapi x" "x_api x" "x_env x" "tk_create tk" ob'] assms(1)
        by (auto simp: hooks_accept_def nobs Some h None p1)
    qed (use assms n p1 Some h in \<open>auto simp: finish_event_def\<close>)
  qed
qed

text \<open>What an event has passed when something is written for it.\<close>

definition passed ::
    "('l, 's, 'd) externals \<Rightarrow> ticks \<Rightarrow> RawEvent \<Rightarrow> SourceConfig option \<Rightarrow> ('l, 's, 'd) Processor \<Rightarrow> bool" where
  "passed x tk raw cfg p \<longleftrightarrow>
     fst (check_thresholds x (tk_check tk) raw cfg p) \<and>
     (\<exists>obs. createMinimalObservation (x_uapi x) (tk_minimal tk) raw = Some obs \<and>
        Allow (x_sdk_allow x) (pfilter p) obs \<and>
        fst (x_should_create x (strategy_of cfg) (extractDedupKey (x_marshal x) raw) obs (deduper p)) \<and>
        hooks_accept x tk raw cfg)"

lemma ProcessEvent_writes:
  assumes "gvrAllowlist (observationCreator p) = Some a" "ProcessEvent x tk raw cfg p = (r, p')"
  shows "gvrAllowlist (observationCreator p') = Some a \<and>
    (writes (observationCreator p') = writes (observationCreator p) \<or>
     passed x tk raw cfg p \<and>
     (\<exists>w. writes (observationCreator p') = writes (observationCreator p) @ [w] \<and> IsAllowed a (w_gvr w) (w_namespace w) = None))"
proof -
  obtain ok p1 where t: "check_thresholds x (tk_check tk) raw cfg p = (ok, p1)" by fastforce
  then have p1: "observationCreator p1 = observationCreator p" "deduper p1 = deduper p" "pfilter p1 = pfilter p"
    using check_thresholds_keeps by (metis snd_conv)+
  show ?thesis
  proof (cases "ok \<and> createMinimalObservation (x_uapi x) (tk_minimal tk) raw \<noteq> None")
    case True
    then obtain obs where o: "createMinimalObservation (x_uapi x) (tk_minimal tk) raw = Some obs" and ok by blast
    obtain f d p2 where fd: "applyFilterAndDedup x obs raw cfg (determineProcessingOrder raw cfg) p1 = ((f, d), p2)"
      by (metis surj_pair)
    then have p2: "observationCreator p2 = observationCreator p1"
      using applyFilterAndDedup_keeps by (metis snd_conv)
    show ?thesis
    proof (cases "f \<or> d")
      case True
      with assms t \<open>ok\<close> o fd p1 p2 show ?thesis by (auto simp: ProcessEvent_def)
    next
      case False
      with rejected_iff [of x obs raw cfg "determineProcessingOrder raw cfg" p1]
      have "Allow (x_sdk_allow x) (pfilter p) obs" "fst (asked x obs raw cfg (deduper p))"
        by (simp_all add: fd p1 rejected_def)
      moreover from False assms(2) t \<open>ok\<close> o fd have "finish_event x tk obs raw cfg p2 = (r, p')"
        by (simp add: ProcessEvent_def)
      ultimately show ?thesis
        using finish_event_writes [of p2 a x tk obs raw cfg r p'] assms(1) t \<open>ok\<close> o
        by (auto simp: passed_def p1 p2 asked_def)
    qed
  next
    case False
    then have "p' = p1"
      using assms(2) by (cases ok) (auto simp: ProcessEvent_def t)
    with assms(1) p1 show ?thesis by simp
  qed
qed

text \<open>C3. An event leaves at most one write, and only after it passed every gate: the rate limiter let it
  through, the filter admits its minimal observation, the deduplication strategy did not call it a duplicate
  and no hook failed on the normalised observation. The write itself is one the policy allows.\<close>

theorem event_written_only_if_passed:
  assumes "gvrAllowlist (observationCreator p) = Some a" "ProcessEvent x tk raw cfg p = (r, p')"
  shows "gvrAllowlist (observationCreator p') = Some a \<and>
    (writes (observationCreator p') = writes (observationCreator p) \<or>
     passed x tk raw cfg p \<and>
     (\<exists>w. writes (observationCreator p') = writes (observationCreator p) @ [w] \<and> IsAllowed a (w_gvr w) (w_namespace w) = None))"
  by (rule ProcessEvent_writes [OF assms])

section \<open>Priority and severity\<close>

lemma f64_ge_mono: "f64_ge p c \<Longrightarrow> f64_less p q \<Longrightarrow> f64_ge q c"
  by (cases p; cases q) (auto simp: f64_ge_def)

lemma severity_levels:
  "Filter_Merge.priority ''INFO'' = 0" "Filter_Merge.priority ''LOW'' = 2" "Filter_Merge.priority ''MEDIUM'' = 3"
  "Filter_Merge.priority ''HIGH'' = 4" "Filter_Merge.priority ''CRITICAL'' = 5"
  by code_simp+

lemma severity_lower: "normalizeSeverity (priorityToSeverity p) = to_lower (priorityToSeverity p)"
proof -
  have "normalizeSeverity s = to_lower s" if "s \<in> {''CRITICAL'', ''HIGH'', ''MEDIUM'', ''LOW'', ''INFO''}" for s
    using that by (auto intro: refl) (code_simp+)
  then show ?thesis by (simp add: priorityToSeverity_def)
qed

text \<open>A higher priority never gives a lower severity, and the severity it gives is one the
  custom resource definition knows: normalisation only changes its letter case.\<close>

theorem severity_monotone:
  assumes "f64_less p q"
  shows "Filter_Merge.priority (priorityToSeverity p) \<le> Filter_Merge.priority (priorityToSeverity q) \<and>
         normalizeSeverity (priorityToSeverity p) = to_lower (priorityToSeverity p)"
  using f64_ge_mono [OF _ assms] by (simp add: severity_lower) (simp add: priorityToSeverity_def severity_levels)

theorem severity_monotone_witness:
  "priorityToSeverity (Fin (1 / 2)) = ''MEDIUM'' \<and> priorityToSeverity (Fin 1) = ''CRITICAL'' \<and>
   Filter_Merge.priority (priorityToSeverity (Fin (1 / 2))) \<le> Filter_Merge.priority (priorityToSeverity (Fin 1))"
proof -
  have "f64_less (Fin (1 / 2)) (Fin 1)" by simp
  then show ?thesis using severity_monotone [of "Fin (1 / 2)" "Fin 1"] by (auto, code_simp+)
qed

section \<open>Field mappings\<close>

lemma extract_parts_head: "idx d (hd ks) = idx d' (hd ks) \<Longrightarrow> extract_parts d ks = extract_parts d' ks"
  by (cases "(d, ks)" rule: extract_parts.cases) auto

lemma idx_put: "idx (put k v d) k' = (if k' = k then v else idx d k')"
  by (simp add: idx_def)

lemma idx_mapped: "idx (mapped m d) (fm_to m) = (let v = extractField d (fm_from m) in if v = VNil then idx d (fm_to m) else v)"
  by (simp add: mapped_def Let_def idx_put)

lemma mapped_other: "k \<noteq> fm_to m \<Longrightarrow> map_of (mapped m d) k = map_of d k"
  by (simp add: mapped_def Let_def)

abbreviation from_key :: "FieldMapping \<Rightarrow> string" where
  "from_key m \<equiv> hd (split_on CHR ''.'' (fm_from m))"

lemma extractField_mapped:
  "fm_to m \<noteq> from_key m' \<Longrightarrow> extractField (mapped m d) (fm_from m') = extractField d (fm_from m')"
  unfolding extractField_def by (rule extract_parts_head) (simp add: mapped_def Let_def idx_put)

lemma fold_mapped_other: "k \<notin> fm_to ` set ms \<Longrightarrow> map_of (fold mapped ms d) k = map_of d k"
  by (induction ms arbitrary: d) (auto simp: mapped_other)

lemma fold_mapped:
  assumes "distinct (map fm_to ms)" "\<forall>m\<in>set ms. \<forall>m'\<in>set ms. fm_to m \<noteq> from_key m'" "m \<in> set ms"
  shows "idx (fold mapped ms d) (fm_to m) =
    (let v = extractField d (fm_from m) in if v = VNil then idx d (fm_to m) else v)"
  using assms
proof (induction ms arbitrary: d)
  case (Cons m0 ms)
  show ?case
  proof (cases "m = m0")
    case True
    with Cons.prems(1) have "fm_to m \<notin> fm_to ` set ms" by auto
    then have "idx (fold mapped ms (mapped m d)) (fm_to m) = idx (mapped m d) (fm_to m)"
      by (simp add: idx_def fold_mapped_other)
    then show ?thesis by (simp add: True idx_mapped Let_def)
  next
    case False
    with Cons.prems have "m \<in> set ms" "fm_to m \<noteq> fm_to m0" by (auto, metis imageI)
    with Cons show ?thesis by (simp add: extractField_mapped idx_def mapped_other Let_def)
  qed
qed simp

text \<open>Field mappings do what they say: when no two mappings have the same target and no target is the
  first element of a mapped path, then after normalisation each target holds the value found at its path, a
  mapping whose path has no value changes nothing, and every other field of the raw data is unchanged.\<close>

theorem field_mappings:
  assumes "Option.bind cfg Normalization = Some nc"
    and "distinct (map fm_to (nc_mapping nc))"
    and "\<forall>m\<in>set (nc_mapping nc). \<forall>m'\<in>set (nc_mapping nc). fm_to m \<noteq> hd (split_on CHR ''.'' (fm_from m'))"
    and "normalizeObservation u now obs raw cfg p = ((r, raw'), p')"
  shows "(\<forall>m\<in>set (nc_mapping nc). idx (raw_data raw') (fm_to m) =
       (let v = extractField (raw_data raw) (fm_from m) in if v = VNil then idx (raw_data raw) (fm_to m) else v)) \<and>
    (\<forall>k. k \<notin> fm_to ` set (nc_mapping nc) \<longrightarrow> map_of (raw_data raw') k = map_of (raw_data raw) k)"
proof -
  have "raw_data raw' = fold mapped (nc_mapping nc) (raw_data raw)"
    using normalizeObservation_result [of u now obs raw cfg p] assms(1,4) by (simp add: normal_details_def)
  with assms(2,3) show ?thesis by (simp add: fold_mapped fold_mapped_other)
qed

definition raw0 :: RawEvent where
  "raw0 = raw_event ''falco'' [(''rule'', VStr ''shell''), (''k8s'', VMap [(''pod'', VStr ''web'')])]"

definition cfg0 :: SourceConfig where
  "cfg0 = (source_config ''falco'')\<lparr>
     Normalization := Some \<lparr>nc_domain = ''security'', nc_type = ''runtime'', nc_priority = [(''shell'', Fin 1)],
        nc_mapping = [\<lparr>fm_from = ''k8s.pod'', fm_to = ''pod'', fm_constant = [], fm_static = []\<rparr>,
                      \<lparr>fm_from = ''k8s.node'', fm_to = ''node'', fm_constant = [], fm_static = []\<rparr>]\<rparr>,
     Processing := Some ''filter_first''\<rparr>"

definition p0 :: "(unit, unit, unit) Processor" where
  "p0 = NewProcessor None () oc0"

definition x0 :: "(unit, unit, unit) externals" where
  "x0 = \<lparr>x_uapi = walk_api, x_api = (\<lambda>_ _. None), x_env = (\<lambda>_. []), x_new_limiter = (\<lambda>_ _. ()),
     x_allow = (\<lambda>_ l. (True, l)), x_sdk_allow = (\<lambda>_ _. True), x_should_create = (\<lambda>_ _ _ d. (True, d)),
     x_marshal = (\<lambda>_. None), x_hooks = []\<rparr>"

definition tk0 :: ticks where
  "tk0 = \<lparr>tk_check = 0, tk_minimal = ''t'', tk_normal = ''t'', tk_create = clk0\<rparr>"

theorem field_mappings_witness:
  "idx (raw_data (snd (fst (normalizeObservation walk_api ''t'' [] raw0 (Some cfg0) p0)))) ''pod'' = VStr ''web''"
proof -
  obtain r raw' p' where run: "normalizeObservation walk_api ''t'' [] raw0 (Some cfg0) p0 = ((r, raw'), p')"
    by (metis surj_pair)
  obtain nc where nc: "Option.bind (Some cfg0) Normalization = Some nc"
    and ms: "nc_mapping nc = [\<lparr>fm_from = ''k8s.pod'', fm_to = ''pod'', fm_constant = [], fm_static = []\<rparr>,
                      \<lparr>fm_from = ''k8s.node'', fm_to = ''node'', fm_constant = [], fm_static = []\<rparr>]"
    by (simp add: cfg0_def)
  have 1: "distinct (map fm_to (nc_mapping nc))"
    "\<forall>m\<in>set (nc_mapping nc). \<forall>m'\<in>set (nc_mapping nc). fm_to m \<noteq> hd (split_on CHR ''.'' (fm_from m'))"
    by (simp_all add: ms)
  have "extractField (raw_data raw0) ''k8s.pod'' = VStr ''web''" by (simp add: raw0_def extractField_def idx_def)
  with field_mappings [OF nc 1 run] show ?thesis by (simp add: ms run)
qed

theorem event_written_only_if_passed_witness:
  "\<exists>r p'. ProcessEvent x0 tk0 raw0 (Some cfg0) p0 = (r, p') \<and> writes (observationCreator p') \<noteq> [] \<and>
     passed x0 tk0 raw0 (Some cfg0) p0"
proof -
  obtain r p' where run: "ProcessEvent x0 tk0 raw0 (Some cfg0) p0 = (r, p')" by fastforce
  have a: "gvrAllowlist (observationCreator p0) = Some (NewGVRAllowlist (\<lambda>_. []))" "writes (observationCreator p0) = []"
    by (simp_all add: p0_def NewProcessor_def NewProcessorWithMetrics_def oc0_def)
  let ?p1 = "snd (check_thresholds x0 (tk_check tk0) raw0 (Some cfg0) p0)"
  let ?obs = "the (createMinimalObservation (x_uapi x0) (tk_minimal tk0) raw0)"
  have "fst (check_thresholds x0 (tk_check tk0) raw0 (Some cfg0) p0)" by code_simp
  then obtain p1 where c: "check_thresholds x0 (tk_check tk0) raw0 (Some cfg0) p0 = (True, p1)" by (metis prod.collapse)
  obtain obs where o: "createMinimalObservation (x_uapi x0) (tk_minimal tk0) raw0 = Some obs"
    by (simp add: createMinimalObservation_def EventToObservation_def Let_def)
  have unit: "p1\<lparr>deduper := ()\<rparr> = p1" by (cases p1) simp
  have "determineProcessingOrder raw0 (Some cfg0) = ''filter_first''" by code_simp
  moreover have "pfilter ?p1 = None" by (simp add: p0_def NewProcessor_def NewProcessorWithMetrics_def)
  moreover have "asked x0 ob raw cfg d = (True, d)" for ob raw cfg d by (simp add: asked_def x0_def)
  ultimately have "ProcessEvent x0 tk0 raw0 (Some cfg0) p0 = finish_event x0 tk0 ?obs raw0 (Some cfg0) ?p1"
    by (simp add: ProcessEvent_def c o filter_first_cases applyFilter_None) (simp only: unit)
  moreover have "writes (observationCreator (snd (finish_event x0 tk0 ?obs raw0 (Some cfg0) ?p1))) \<noteq> []" by code_simp
  ultimately have "writes (observationCreator (snd (ProcessEvent x0 tk0 raw0 (Some cfg0) p0))) \<noteq> []" by simp
  then have "writes (observationCreator p') \<noteq> []" by (simp add: run)
  with event_written_only_if_passed [OF a(1) run] a(2) run show ?thesis by auto
qed

section \<open>The normalised observation\<close>



section \<open>Deduplication keys\<close>

text \<open>An event with an identifier is deduplicated by it: two events of a source with the same identifier
  have the same key, whatever else they contain. Every key names its source and has 32 digits.\<close>

theorem dedup_key:
  assumes "raw_source raw1 = raw_source raw2"
    and "extractString (raw_data raw1) [''id'', ''identifier'', ''ID'', ''Identifier''] = i"
    and "extractString (raw_data raw2) [''id'', ''identifier'', ''ID'', ''Identifier''] = i" "i \<noteq> []"
  shows "extractDedupKey marshal raw1 = extractDedupKey marshal raw2 \<and>
    dk_source (extractDedupKey marshal raw1) = raw_source raw1 \<and> length (dk_hash (extractDedupKey marshal raw1)) = 32"
  using assms by (simp add: extractDedupKey_def GenerateFingerprint_def Let_def length_Sum256)

theorem dedup_key_witness:
  "extractDedupKey (\<lambda>_. None) (raw_event ''s'' [(''id'', VStr ''7''), (''a'', VNil)]) =
   extractDedupKey (\<lambda>_. None) (raw_event ''s'' [(''identifier'', VStr ''7'')])"
  using dedup_key [of "raw_event ''s'' [(''id'', VStr ''7''), (''a'', VNil)]"
      "raw_event ''s'' [(''identifier'', VStr ''7'')]" "''7''" "\<lambda>_. None"] by simp

end
