(* ===== verification/Processing_Order.thy ===== *)
theory Processing_Order
  imports Observation_Creator Event_Config Event_Fingerprint
begin

text \<open>
  Choosing the processing order from measured rates, \<^verbatim>\<open>pkg/watcher/processing_order.go\<close>, with the metrics of a
  source and the metadata key that \<^verbatim>\<open>observation_creator.go\<close> derives (\<^verbatim>\<open>getSourceMetrics\<close>,
  \<^verbatim>\<open>extractDedupKey\<close>). \<^verbatim>\<open>sdkdedup.HashMessage\<close> is the parameter \<open>hash_message\<close>.
\<close>

record SourceMetrics =
  sm_source :: string
  sm_perMinute :: f64
  sm_lowSeverityPercent :: f64
  sm_dedupEffectiveness :: f64
  sm_filterPassRate :: f64
  sm_total :: int
  sm_filtered :: int
  sm_deduped :: int
  sm_created :: int

definition getSourceMetrics :: "int \<Rightarrow> string \<Rightarrow> ObservationCreator \<Rightarrow> SourceMetrics option" where
  "getSourceMetrics now source oc =
     (case optimizationMetrics oc of None \<Rightarrow> None
      | Some om \<Rightarrow>
          (case map_of (counters om) source of None \<Rightarrow> None
           | Some c \<Rightarrow>
               (let totalProcessed = wrap64 (created c + deduped c);
                    timeWindow = now - lastUpdate c
                in Some \<lparr>sm_source = source,
                     sm_perMinute = (if 0 < timeWindow \<and> timeWindow < 300000000000
                                     then f64_div (f64_of_int (created c)) (dur_minutes timeWindow) else Fin 0),
                     sm_lowSeverityPercent = (if 0 < totalCount c then ratio (lowSeverity c) (totalCount c) else Fin 0),
                     sm_dedupEffectiveness = (if 0 < totalProcessed then ratio (deduped c) totalProcessed else Fin 0),
                     sm_filterPassRate = Fin 0, sm_total = totalCount c, sm_filtered = 0,
                     sm_deduped = deduped c, sm_created = created c\<rparr>)))"

definition GetDefaultOrder :: "string \<Rightarrow> string" where
  "GetDefaultOrder source = ''filter_first''"

definition measured_order :: "string \<Rightarrow> SourceMetrics option \<Rightarrow> string" where
  "measured_order source metrics =
     (case metrics of None \<Rightarrow> GetDefaultOrder source
      | Some m \<Rightarrow>
          if f64_greater (sm_lowSeverityPercent m) (rnd64 (7 / 10)) then ''filter_first''
          else if f64_greater (sm_dedupEffectiveness m) (Fin (1 / 2)) then ''dedup_first''
          else GetDefaultOrder source)"

definition DetermineOptimalOrder :: "string \<Rightarrow> SourceConfig option \<Rightarrow> SourceMetrics option \<Rightarrow> string" where
  "DetermineOptimalOrder source sourceConfig metrics =
     (case Option.bind sourceConfig Processing of
        Some order \<Rightarrow> if order \<noteq> [] \<and> order \<noteq> ''auto'' then order else measured_order source metrics
      | None \<Rightarrow> measured_order source metrics)"

section \<open>The metadata key of an observation\<close>

definition extractStringField :: "obj option \<Rightarrow> string \<Rightarrow> string" where
  "extractStringField m key =
     (case m of None \<Rightarrow> []
      | Some mm \<Rightarrow> (case map_of mm key of None \<Rightarrow> [] | Some (VStr s) \<Rightarrow> s | Some v \<Rightarrow> fmt_v v))"

text \<open>The first of the fields that has a value; an empty string prints as itself.\<close>

fun first_text :: "obj \<Rightarrow> string list \<Rightarrow> string" where
  "first_text m [] = []"
| "first_text m (f # fs) =
     (case idx m f of
        VNil \<Rightarrow> first_text m fs
      | v \<Rightarrow> fmt_v v)"

definition extractReasonFromDetails :: "obj \<Rightarrow> string" where
  "extractReasonFromDetails details =
     first_text details [''reason'', ''rule'', ''testNumber'', ''checkId'', ''vulnerabilityID'', ''auditID'']"

definition extractMessage :: "obj option \<Rightarrow> string" where
  "extractMessage details = (case details of None \<Rightarrow> [] | Some d \<Rightarrow> first_text d [''message'', ''output''])"

definition creator_extractDedupKey :: "(string \<Rightarrow> string) \<Rightarrow> uapi \<Rightarrow> obj \<Rightarrow> DedupKey" where
  "creator_extractDedupKey hash_message u observation =
     (let resource = NestedMap u observation [''spec'', ''resource''];
          namespace0 = extractStringField resource ''namespace'';
          namespace = (if namespace0 \<noteq> [] then namespace0
                       else or_default (case NestedString u observation [''metadata'', ''namespace''] of
                                          None \<Rightarrow> [] | Some ns \<Rightarrow> ns) ''default'');
          details = NestedMap u observation [''spec'', ''details''];
          reason0 = (case details of None \<Rightarrow> [] | Some d \<Rightarrow> extractReasonFromDetails d);
          reason = (if reason0 \<noteq> [] then reason0 else value_text (NestedFieldCopy u observation [''spec'', ''eventType'']))
      in \<lparr>dk_source = value_text (NestedFieldCopy u observation [''spec'', ''source'']), dk_namespace = namespace,
          dk_kind = extractStringField resource ''kind'', dk_name = extractStringField resource ''name'',
          dk_reason = reason, dk_hash = hash_message (extractMessage details)\<rparr>)"

end
