(* ===== verification/Batcher.thy ===== *)
theory Batcher
  imports Zen_Prelude "HOL-Library.Multiset"
begin

text \<open>
  What the two batchers of the program have in common, \<^verbatim>\<open>pkg/processor/batch_processor.go\<close> and
  \<^verbatim>\<open>pkg/dispatcher/destination_batcher.go\<close>. Both keep one batch per key behind a lock; adding an item may find
  the batch ready and then the caller hands it over itself; a ticker starts a goroutine for every ready
  batch; a hand-over first takes the whole batch in one critical section and then delivers what it took.

  The store and its three critical sections are the interface: the record \<open>batch_ops\<close> has the operations,
  the locale \<open>batch_laws\<close> what they promise. The step relation \<open>bstep\<close> interleaves the critical sections
  and the deliveries of all goroutines in any order. Proved once, from the laws: in every reachable
  state each item added is in the store, in flight or delivered, exactly once; and every reachable state can go on
  to one where everything is delivered.
\<close>

text \<open>\<open>b_key e\<close> is the key of the batch an item goes to; \<open>b_add t e s\<close> adds an item and says whether the batch is ready; \<open>b_ready t s\<close> are the keys a tick starts
  goroutines for; \<open>b_take t k s\<close> empties a batch; \<open>b_hand es\<close> is how many items one delivery step takes. The
  times a critical section reads are of type \<open>'t\<close>.\<close>

record ('k, 'e, 's, 't) batch_ops =
  b_key :: "'e \<Rightarrow> 'k"
  b_add :: "'t \<Rightarrow> 'e \<Rightarrow> 's \<Rightarrow> bool \<times> 's"
  b_ready :: "'t \<Rightarrow> 's \<Rightarrow> 'k list"
  b_take :: "'t \<Rightarrow> 'k \<Rightarrow> 's \<Rightarrow> 'e list \<times> 's"
  b_hand :: "'e list \<Rightarrow> nat"

text \<open>\<open>pending\<close>: hand-overs that have not yet taken their batch; \<open>inflight\<close>: taken, not yet delivered. The
  last two fields are the history.\<close>

record ('k, 'e, 's) bsys =
  bstore :: 's
  pending :: "'k list"
  inflight :: "('k \<times> 'e list) list"
  added :: "'e list"
  delivered :: "'e list"

definition binit :: "'s \<Rightarrow> ('k, 'e, 's) bsys" where
  "binit s = \<lparr>bstore = s, pending = [], inflight = [], added = [], delivered = []\<rparr>"

inductive bstep ::
    "('k, 'e, 's, 't) batch_ops \<Rightarrow> ('k, 'e, 's) bsys \<Rightarrow> ('k, 'e, 's) bsys \<Rightarrow> bool"
  for ops :: "('k, 'e, 's, 't) batch_ops" where
  add: "b_add ops t e (bstore c) = (ready, s') \<Longrightarrow>
    bstep ops c (c\<lparr>bstore := s', pending := (if ready then pending c @ [b_key ops e] else pending c), added := added c @ [e]\<rparr>)"
| tick: "bstep ops c (c\<lparr>pending := pending c @ b_ready ops t (bstore c)\<rparr>)"
| take: "pending c = ks @ k # ks' \<Longrightarrow> b_take ops t k (bstore c) = (es, s') \<Longrightarrow>
    bstep ops c (c\<lparr>bstore := s', pending := ks @ ks', inflight := inflight c @ (if es = [] then [] else [(k, es)])\<rparr>)"
| deliver: "inflight c = xs @ (k, es) # ys \<Longrightarrow> es \<noteq> [] \<Longrightarrow> n = b_hand ops es \<Longrightarrow>
    bstep ops c (c\<lparr>inflight := xs @ (if drop n es = [] then [] else [(k, drop n es)]) @ ys,
      delivered := delivered c @ take n es\<rparr>)"

definition bsteps :: "('k, 'e, 's, 't) batch_ops \<Rightarrow> ('k, 'e, 's) bsys \<Rightarrow> ('k, 'e, 's) bsys \<Rightarrow> bool" where
  "bsteps ops = (bstep ops)\<^sup>*\<^sup>*"

definition flying :: "('k \<times> 'e list) list \<Rightarrow> 'e multiset" where
  "flying xs = mset (concat (map snd xs))"

lemma flying_simps [simp]:
  "flying [] = {#}" "flying (xs @ ys) = flying xs + flying ys"
  "flying ((k, es) # xs) = mset es + flying xs"
  by (simp_all add: flying_def)

definition stored :: "('k \<Rightarrow> 'e list) \<Rightarrow> 'e multiset" where
  "stored f = (\<Sum>k | f k \<noteq> []. mset (f k))"

locale batch_laws =
  fixes ops :: "('k, 'e, 's, 't) batch_ops"
    and ok :: "'s \<Rightarrow> bool"
    and contents :: "'s \<Rightarrow> 'k \<Rightarrow> 'e list"
    and ks :: "'s \<Rightarrow> 'k set"
  assumes finite_ks: "\<And>s. finite (ks s)"
    and outside: "\<And>s k. k \<notin> ks s \<Longrightarrow> contents s k = []"
    and ok_add: "\<And>t e s r s'. ok s \<Longrightarrow> b_add ops t e s = (r, s') \<Longrightarrow> ok s'"
    and ok_take: "\<And>t k s es s'. ok s \<Longrightarrow> b_take ops t k s = (es, s') \<Longrightarrow> ok s'"
    and contents_add: "\<And>t e s r s'. ok s \<Longrightarrow> b_add ops t e s = (r, s') \<Longrightarrow>
      contents s' = (contents s)(b_key ops e := contents s (b_key ops e) @ [e])"
    and contents_take: "\<And>t k s es s'. ok s \<Longrightarrow> b_take ops t k s = (es, s') \<Longrightarrow>
      es = contents s k \<and> contents s' = (contents s)(k := [])"
    and ready_eventually: "\<And>s. ok s \<Longrightarrow> \<exists>t. \<forall>k. contents s k \<noteq> [] \<longrightarrow> k \<in> set (b_ready ops t s)"
    and hand_pos: "\<And>es. es \<noteq> [] \<Longrightarrow> 0 < b_hand ops es"
begin

lemma finite_contents: "finite {k. contents s k \<noteq> []}"
  by (rule finite_subset [OF _ finite_ks [of s]]) (use outside in blast)

lemma stored_split:
  assumes "finite {k. f k \<noteq> []}"
  shows "stored f = mset (f k) + stored (f(k := []))"
proof (cases "f k = []")
  case True
  then have "f(k := []) = f" by auto
  with True show ?thesis by simp
next
  case False
  have "{k'. (f(k := [])) k' \<noteq> []} = {k'. f k' \<noteq> []} - {k}" by auto
  moreover have "(\<Sum>k' \<in> {k'. f k' \<noteq> []} - {k}. mset ((f(k := [])) k')) =
      (\<Sum>k' \<in> {k'. f k' \<noteq> []} - {k}. mset (f k'))"
    by (rule sum.cong) auto
  ultimately show ?thesis
    using assms False by (simp add: stored_def sum.remove [of _ k])
qed

lemma stored_append:
  assumes "finite {k. f k \<noteq> []}"
  shows "stored (f(k := f k @ [e])) = add_mset e (stored f)"
proof -
  have "finite {k'. (f(k := f k @ [e])) k' \<noteq> []}"
    by (rule finite_subset [OF _ finite.insertI [OF assms, of k]]) auto
  from stored_split [OF this, of k]
  have "stored (f(k := f k @ [e])) = mset (f k @ [e]) + stored (f(k := []))"
    by (simp only: fun_upd_same fun_upd_upd)
  with stored_split [OF assms, of k] show ?thesis by simp
qed

definition binv :: "('k, 'e, 's) bsys \<Rightarrow> bool" where
  "binv c \<longleftrightarrow> ok (bstore c) \<and> list_all (\<lambda>(k, es). es \<noteq> []) (inflight c) \<and>
     mset (added c) = stored (contents (bstore c)) + flying (inflight c) + mset (delivered c)"

lemma binv_init: "ok s \<Longrightarrow> contents s = (\<lambda>_. []) \<Longrightarrow> binv (binit s)"
  by (simp add: binv_def binit_def stored_def)

lemma binv_step: "bstep ops c c' \<Longrightarrow> binv c \<Longrightarrow> binv c'"
proof (induction rule: bstep.induct)
  case (add t e c ready s')
  then show ?case
    by (auto simp: binv_def ok_add contents_add [OF _ add(1)] stored_append [OF finite_contents])
next
  case (tick c t)
  then show ?case by (simp add: binv_def)
next
  case (take c ks k ks' t es s')
  then have "es = contents (bstore c) k" "contents s' = (contents (bstore c))(k := [])" "ok s'"
    using contents_take ok_take by (auto simp: binv_def)
  with take show ?case
    using stored_split [OF finite_contents, of "bstore c" k] by (auto simp: binv_def ac_simps)
next
  case (deliver c xs k es ys n)
  have "mset es = mset (take n es) + mset (drop n es)"
    by (metis append_take_drop_id mset_append)
  with deliver show ?case by (auto simp: binv_def ac_simps)
qed

lemma binv_steps: "bsteps ops c c' \<Longrightarrow> binv c \<Longrightarrow> binv c'"
  unfolding bsteps_def by (induction rule: rtranclp_induct) (auto intro: binv_step)

lemma conservation:
  assumes "ok s" "contents s = (\<lambda>_. [])" "bsteps ops (binit s) c"
  shows "mset (added c) = stored (contents (bstore c)) + flying (inflight c) + mset (delivered c)"
  using binv_steps [OF assms(3) binv_init [OF assms(1,2)]] by (simp add: binv_def)

lemma deliver_all:
  assumes "list_all (\<lambda>(k, es). es \<noteq> []) (inflight c)"
  shows "\<exists>c'. bsteps ops c c' \<and> inflight c' = [] \<and> bstore c' = bstore c \<and> pending c' = pending c \<and> added c' = added c"
  using assms
proof (induction "sum_list (map (length \<circ> snd) (inflight c))" arbitrary: c rule: less_induct)
  case less
  show ?case
  proof (cases "inflight c")
    case Nil
    then show ?thesis by (auto simp: bsteps_def)
  next
    case (Cons x ys)
    obtain k es where x: "x = (k, es)" by fastforce
    with less.prems Cons have "es \<noteq> []" by simp
    then have n: "0 < b_hand ops es" by (rule hand_pos)
    let ?n = "b_hand ops es"
    let ?c = "c\<lparr>inflight := (if drop ?n es = [] then [] else [(k, drop ?n es)]) @ ys,
      delivered := delivered c @ take ?n es\<rparr>"
    have step: "bstep ops c ?c"
      using bstep.deliver [of c "[]" k es ys ?n ops] Cons x \<open>es \<noteq> []\<close> by simp
    have "sum_list (map (length \<circ> snd) (inflight ?c)) < sum_list (map (length \<circ> snd) (inflight c))"
      using Cons x n \<open>es \<noteq> []\<close> by auto
    moreover have "list_all (\<lambda>(k, es). es \<noteq> []) (inflight ?c)" using less.prems Cons by auto
    ultimately obtain c' where "bsteps ops ?c c'" "inflight c' = []" "bstore c' = bstore ?c"
        "pending c' = pending ?c" "added c' = added ?c"
      using less.hyps [of ?c] by blast
    with step show ?thesis unfolding bsteps_def by (auto intro: converse_rtranclp_into_rtranclp)
  qed
qed

lemma take_all:
  assumes "binv c"
  shows "\<exists>c'. bsteps ops c c' \<and> pending c' = [] \<and> added c' = added c \<and>
    (\<forall>k. contents (bstore c') k = (if k \<in> set (pending c) then [] else contents (bstore c) k))"
  using assms
proof (induction "pending c" arbitrary: c)
  case Nil
  then show ?case by (auto simp: bsteps_def intro!: exI [of _ c])
next
  case (Cons k ks)
  fix t
  obtain es s' where tk: "b_take ops t k (bstore c) = (es, s')" by fastforce
  let ?c = "c\<lparr>bstore := s', pending := ks, inflight := inflight c @ (if es = [] then [] else [(k, es)])\<rparr>"
  have step: "bstep ops c ?c"
    using bstep.take [of c "[]" k ks ops t es s'] Cons.hyps(2) tk by simp
  have con: "contents s' = (contents (bstore c))(k := [])"
    using contents_take [OF _ tk] Cons.prems by (simp add: binv_def)
  obtain c' where "bsteps ops ?c c'" "pending c' = []" "added c' = added c"
      "\<forall>k. contents (bstore c') k = (if k \<in> set ks then [] else contents s' k)"
    using Cons.hyps(1) [of ?c] binv_step [OF step Cons.prems] by auto
  moreover have "bsteps ops c c'"
    using step \<open>bsteps ops ?c c'\<close> unfolding bsteps_def by (rule converse_rtranclp_into_rtranclp)
  ultimately show ?case using con Cons.hyps(2) [symmetric] by auto
qed

lemma can_drain:
  assumes "binv c"
  shows "\<exists>c'. bsteps ops c c' \<and> added c' = added c \<and> mset (delivered c') = mset (added c)"
proof -
  obtain t where t: "\<forall>k. contents (bstore c) k \<noteq> [] \<longrightarrow> k \<in> set (b_ready ops t (bstore c))"
    using ready_eventually assms by (auto simp: binv_def)
  let ?c1 = "c\<lparr>pending := pending c @ b_ready ops t (bstore c)\<rparr>"
  have s1: "bstep ops c ?c1" by (rule bstep.tick)
  obtain c2 where c2: "bsteps ops ?c1 c2" "added c2 = added c"
    and con: "\<forall>k. contents (bstore c2) k = (if k \<in> set (pending ?c1) then [] else contents (bstore c) k)"
    using take_all [OF binv_step [OF s1 assms]] by auto
  have emp: "contents (bstore c2) k = []" for k using con t by (cases "contents (bstore c) k = []") auto
  have i2: "binv c2" using binv_steps [OF c2(1) binv_step [OF s1 assms]] .
  obtain c3 where c3: "bsteps ops c2 c3" "inflight c3 = []" "bstore c3 = bstore c2" "added c3 = added c2"
    using deliver_all i2 by (auto simp: binv_def)
  have "binv c3" using binv_steps [OF c3(1) i2] .
  moreover have "stored (contents (bstore c2)) = {#}" using emp by (simp add: stored_def)
  ultimately have "mset (delivered c3) = mset (added c)" using c3 c2(2) by (simp add: binv_def)
  moreover have "bsteps ops c c3"
    using s1 c2(1) c3(1) unfolding bsteps_def by (meson converse_rtranclp_into_rtranclp rtranclp_trans)
  ultimately show ?thesis using c2(2) c3(4) by auto
qed

end

end
