(* ===== verification/Event_Batcher.thy ===== *)
theory Event_Batcher
  imports Batcher Event_Pipeline
begin

text \<open>
  The batch processor, \<^verbatim>\<open>pkg/processor/batch_processor.go\<close>: one \<open>EventBatch\<close> per source in front of the
  pipeline. It provides the interface of \<open>Batcher\<close>: its critical sections are \<open>bp_AddEvent\<close> (under the lock of
  the processor), \<open>processAllBatches\<close> and \<open>TakeEvents\<close>, and a taken batch is processed event by event.
  Times are nanoseconds; \<open>AddEvent\<close> reads the clock when it makes a batch and when it checks readiness.

  Main results: no event is lost or processed twice while the processor runs, everything can be processed once
  the batches are old enough, batches hold only events of their source, and shutting down processes only the
  batches that are ready.
\<close>

section \<open>Batches\<close>

record EventBatch =
  eb_source :: string
  Events :: "RawEvent list"
  Timestamp :: int
  Size :: int
  MaxSize :: int
  MaxAge :: int

definition NewEventBatch :: "int \<Rightarrow> string \<Rightarrow> int \<Rightarrow> int \<Rightarrow> EventBatch" where
  "NewEventBatch now source maxSize maxAge =
     \<lparr>eb_source = source, Events = [], Timestamp = now, Size = 0, MaxSize = maxSize, MaxAge = maxAge\<rparr>"

definition AddEvent :: "RawEvent \<Rightarrow> EventBatch \<Rightarrow> EventBatch" where
  "AddEvent event b = (let es = Events b @ [event] in b\<lparr>Events := es, Size := int (length es)\<rparr>)"

definition IsReadyForProcessing :: "int \<Rightarrow> EventBatch \<Rightarrow> bool" where
  "IsReadyForProcessing now b \<longleftrightarrow> MaxSize b \<le> Size b \<or> MaxAge b \<le> now - Timestamp b"

definition IsEmpty :: "EventBatch \<Rightarrow> bool" where
  "IsEmpty b \<longleftrightarrow> length (Events b) = 0"

definition TakeEvents :: "int \<Rightarrow> EventBatch \<Rightarrow> RawEvent list \<times> EventBatch" where
  "TakeEvents now b = (Events b, b\<lparr>Events := [], Size := 0, Timestamp := now\<rparr>)"

section \<open>The batch processor\<close>

record BatchProcessor =
  batches :: "(string, EventBatch) gomap"
  maxBatchSize :: int
  maxBatchAge :: int

definition NewBatchProcessor :: "int \<Rightarrow> int \<Rightarrow> BatchProcessor" where
  "NewBatchProcessor maxSize maxAge = \<lparr>batches = [], maxBatchSize = maxSize, maxBatchAge = maxAge\<rparr>"

text \<open>The locked part of \<^verbatim>\<open>BatchProcessor.AddEvent\<close>; the caller goes on with \<open>processBatch\<close> when it answers true.\<close>

definition bp_AddEvent :: "int \<times> int \<Rightarrow> RawEvent \<Rightarrow> BatchProcessor \<Rightarrow> bool \<times> BatchProcessor" where
  "bp_AddEvent ts raw bp =
     (let source = raw_source raw;
          batch = (case map_of (batches bp) source of
                     Some b \<Rightarrow> b
                   | None \<Rightarrow> NewEventBatch (fst ts) source (maxBatchSize bp) (maxBatchAge bp));
          batch' = AddEvent raw batch
      in (IsReadyForProcessing (snd ts) batch', bp\<lparr>batches := put source batch' (batches bp)\<rparr>))"

text \<open>The sources whose batches a tick hands over, each to a goroutine of its own.\<close>

definition processAllBatches :: "int \<Rightarrow> BatchProcessor \<Rightarrow> string list" where
  "processAllBatches now bp =
     map fst (filter (\<lambda>(source, b). IsReadyForProcessing now b \<and> \<not> IsEmpty b) (batches bp))"

text \<open>The first step of \<^verbatim>\<open>processBatch\<close>: taking the events of the source's batch.\<close>

definition take_batch :: "int \<Rightarrow> string \<Rightarrow> BatchProcessor \<Rightarrow> RawEvent list \<times> BatchProcessor" where
  "take_batch now source bp =
     (case map_of (batches bp) source of
        None \<Rightarrow> ([], bp)
      | Some b \<Rightarrow> (let (es, b') = TakeEvents now b in (es, bp\<lparr>batches := put source b' (batches bp)\<rparr>)))"

text \<open>Its second step: each event goes through the pipeline, with no configuration; errors are logged.\<close>

fun process_events ::
    "('l, 's, 'd) externals \<Rightarrow> (ticks \<times> RawEvent) list \<Rightarrow> ('l, 's, 'd) Processor \<Rightarrow> ('l, 's, 'd) Processor" where
  "process_events x [] p = p"
| "process_events x ((tk, event) # evs) p = process_events x evs (snd (ProcessEvent x tk event None p))"

definition processBatch ::
    "('l, 's, 'd) externals \<Rightarrow> int \<Rightarrow> (nat \<Rightarrow> ticks) \<Rightarrow> string \<Rightarrow> BatchProcessor \<Rightarrow> ('l, 's, 'd) Processor \<Rightarrow>
     BatchProcessor \<times> ('l, 's, 'd) Processor" where
  "processBatch x now tks source bp p =
     (let (events, bp') = take_batch now source bp
      in (bp', process_events x (zip (map tks [0..<length events]) events) p))"

section \<open>The interface\<close>

definition event_ops :: "(string, RawEvent, BatchProcessor, int \<times> int) batch_ops" where
  "event_ops = \<lparr>b_key = raw_source, b_add = bp_AddEvent, b_ready = (\<lambda>t. processAllBatches (fst t)),
     b_take = (\<lambda>t. take_batch (fst t)), b_hand = (\<lambda>_. 1)\<rparr>"

definition events_of :: "BatchProcessor \<Rightarrow> string \<Rightarrow> RawEvent list" where
  "events_of bp source = (case map_of (batches bp) source of None \<Rightarrow> [] | Some b \<Rightarrow> Events b)"

text \<open>The batches are filed under their source, hold its events only and know their size.\<close>

definition batch_ok :: "BatchProcessor \<Rightarrow> string \<Rightarrow> EventBatch \<Rightarrow> bool" where
  "batch_ok bp source b \<longleftrightarrow>
     eb_source b = source \<and> list_all (\<lambda>e. raw_source e = source) (Events b) \<and> Size b = int (length (Events b)) \<and>
     MaxSize b = maxBatchSize bp \<and> MaxAge b = maxBatchAge bp"

definition bp_ok :: "BatchProcessor \<Rightarrow> bool" where
  "bp_ok bp \<longleftrightarrow> wf_map (batches bp) \<and> (\<forall>source b. map_of (batches bp) source = Some b \<longrightarrow> batch_ok bp source b)"

lemma batch_ok_AddEvent: "batch_ok bp source b \<Longrightarrow> raw_source e = source \<Longrightarrow> batch_ok bp source (AddEvent e b)"
  by (simp add: batch_ok_def AddEvent_def Let_def)

lemma batch_ok_New: "batch_ok bp source (NewEventBatch now source (maxBatchSize bp) (maxBatchAge bp))"
  by (simp add: batch_ok_def NewEventBatch_def)

lemma batch_ok_Take: "batch_ok bp source b \<Longrightarrow> batch_ok bp source (snd (TakeEvents now b))"
  by (simp add: batch_ok_def TakeEvents_def)

lemma batch_ok_params [simp]: "batch_ok (bp\<lparr>batches := m\<rparr>) source b = batch_ok bp source b"
  by (simp add: batch_ok_def)

lemma bp_ok_put: "bp_ok bp \<Longrightarrow> batch_ok bp source b \<Longrightarrow> bp_ok (bp\<lparr>batches := put source b (batches bp)\<rparr>)"
  by (simp add: bp_ok_def)

lemma bp_ok_AddEvent: "bp_ok bp \<Longrightarrow> bp_AddEvent t e bp = (r, bp') \<Longrightarrow> bp_ok bp'"
  unfolding bp_AddEvent_def Let_def
  by (auto intro!: bp_ok_put batch_ok_AddEvent batch_ok_New simp: bp_ok_def [of bp] split: option.splits)

lemma bp_ok_take: "bp_ok bp \<Longrightarrow> take_batch t k bp = (es, bp') \<Longrightarrow> bp_ok bp'"
  using batch_ok_Take [of bp k _ t]
  by (auto simp: take_batch_def Let_def bp_ok_def split: option.splits prod.splits if_splits) (metis snd_conv)

lemma events_of_AddEvent:
  "bp_AddEvent t e bp = (r, bp') \<Longrightarrow> events_of bp' = (events_of bp)(raw_source e := events_of bp (raw_source e) @ [e])"
  by (auto simp: bp_AddEvent_def Let_def events_of_def AddEvent_def NewEventBatch_def fun_eq_iff split: option.splits)

lemma events_of_take:
  "take_batch t k bp = (es, bp') \<Longrightarrow> es = events_of bp k \<and> events_of bp' = (events_of bp)(k := [])"
  by (auto simp: take_batch_def Let_def events_of_def TakeEvents_def fun_eq_iff split: option.splits prod.splits)

lemma processAllBatches_iff:
  assumes "bp_ok bp"
  shows "k \<in> set (processAllBatches now bp) \<longleftrightarrow>
    (\<exists>b. map_of (batches bp) k = Some b \<and> IsReadyForProcessing now b \<and> \<not> IsEmpty b)"
  using assms
  by (auto simp: processAllBatches_def bp_ok_def wf_map_def image_iff dest: map_of_SomeD)

lemma ready_when_old:
  assumes "bp_ok bp"
  shows "\<exists>now. \<forall>k. events_of bp k \<noteq> [] \<longrightarrow> k \<in> set (processAllBatches now bp)"
proof -
  let ?now = "Max ((\<lambda>(k, b). Timestamp b + MaxAge b) ` set (batches bp))"
  have "IsReadyForProcessing ?now b" if "map_of (batches bp) k = Some b" for k b
  proof -
    from map_of_SomeD [OF that] have "Timestamp b + MaxAge b \<le> ?now" by (auto intro!: Max_ge)
    then show ?thesis by (simp add: IsReadyForProcessing_def)
  qed
  then show ?thesis
    by (intro exI [of _ ?now]) (auto simp: processAllBatches_iff [OF assms] events_of_def IsEmpty_def split: option.splits)
qed

lemma event_ops_simps:
  "b_key event_ops = raw_source" "b_add event_ops = bp_AddEvent" "b_ready event_ops t bp = processAllBatches (fst t) bp"
  "b_take event_ops t = take_batch (fst t)" "b_hand event_ops es = 1"
  by (simp_all add: event_ops_def)

interpretation ebatch: batch_laws event_ops bp_ok events_of "\<lambda>bp. set (keys (batches bp))"
proof (unfold_locales, unfold event_ops_simps)
  show "events_of s k = []" if "k \<notin> set (keys (batches s))" for s k
    using that by (simp add: events_of_def map_of_eq_None_keys [THEN iffD2])
  show "\<exists>t. \<forall>k. events_of s k \<noteq> [] \<longrightarrow> k \<in> set (processAllBatches (fst t) s)" if "bp_ok s" for s
    using ready_when_old [OF that] by auto
qed (blast intro: bp_ok_AddEvent bp_ok_take events_of_AddEvent dest: events_of_take | simp)+

section \<open>The properties\<close>

lemma new_ok: "bp_ok (NewBatchProcessor n a)" "events_of (NewBatchProcessor n a) = (\<lambda>_. [])"
  by (auto simp: NewBatchProcessor_def bp_ok_def events_of_def)

lemma reachable_ok:
  assumes "bsteps event_ops (binit (NewBatchProcessor n a)) c"
  shows "ebatch.binv c"
  using assms new_ok by (blast intro: ebatch.binv_steps ebatch.binv_init)

lemma bp_ok_sources: "bp_ok bp \<Longrightarrow> list_all (\<lambda>e. raw_source e = k) (events_of bp k)"
  by (auto simp: bp_ok_def events_of_def batch_ok_def split: option.splits)

text \<open>C12. While the batch processor runs no event is lost and none is processed twice, however the additions, the
  ticks and the goroutines interleave: every event added is waiting in a batch, taken and not yet processed, or
  processed, exactly once. A batch holds only events of its own source.\<close>

theorem batch_no_loss:
  assumes "bsteps event_ops (binit (NewBatchProcessor maxSize maxAge)) c"
  shows "mset (added c) = stored (events_of (bstore c)) + flying (inflight c) + mset (delivered c) \<and>
    (\<forall>k. list_all (\<lambda>e. raw_source e = k) (events_of (bstore c) k))"
  using reachable_ok [OF assms] by (auto simp: ebatch.binv_def bp_ok_sources)

text \<open>C13. Nothing gets stuck: from every reachable state of the batch processor there is a way on, with no further
  events, after which every event ever added has been processed.\<close>

theorem batch_can_drain:
  assumes "bsteps event_ops (binit (NewBatchProcessor maxSize maxAge)) c"
  shows "\<exists>c'. bsteps event_ops c c' \<and> added c' = added c \<and> mset (delivered c') = mset (added c)"
  by (rule ebatch.can_drain [OF reachable_ok [OF assms]])

text \<open>Stopping processes only what is ready: a batch that is neither full nor old enough at the time of the
  stop is not handed over, although the code announces that the remaining batches are processed.\<close>

theorem stop_skips_young_batches:
  assumes "bsteps event_ops (binit (NewBatchProcessor maxSize maxAge)) c"
    and "map_of (batches (bstore c)) k = Some b" "int (length (Events b)) < MaxSize b" "now - Timestamp b < MaxAge b"
  shows "k \<notin> set (processAllBatches now (bstore c))"
proof -
  have ok: "bp_ok (bstore c)" using reachable_ok [OF assms(1)] by (simp add: ebatch.binv_def)
  with assms(2) have "Size b = int (length (Events b))" by (simp add: bp_ok_def batch_ok_def)
  with assms(2-4) show ?thesis
    by (simp add: processAllBatches_iff [OF ok] IsReadyForProcessing_def)
qed

definition ev1 :: RawEvent where "ev1 = raw_event ''falco'' [(''rule'', VStr ''shell'')]"

definition sys1 :: "(string, RawEvent, BatchProcessor) bsys" where
  "sys1 = (let s = snd (bp_AddEvent (0, 0) ev1 (NewBatchProcessor 10 100))
     in \<lparr>bstore = s, pending = [], inflight = [], added = [ev1], delivered = []\<rparr>)"

lemma sys1_reachable: "bsteps event_ops (binit (NewBatchProcessor 10 100)) sys1"
proof -
  have "bp_AddEvent (0, 0) ev1 (NewBatchProcessor 10 100) = (False, bstore sys1)"
    by (simp add: sys1_def bp_AddEvent_def NewBatchProcessor_def NewEventBatch_def AddEvent_def IsReadyForProcessing_def Let_def)
  then have "bstep event_ops (binit (NewBatchProcessor 10 100)) sys1"
    using bstep.add [of event_ops "(0, 0)" ev1 "binit (NewBatchProcessor 10 100)" False "bstore sys1"]
    by (simp add: event_ops_simps binit_def sys1_def Let_def)
  then show ?thesis by (simp add: bsteps_def)
qed

theorem batch_no_loss_witness:
  "mset (added sys1) = stored (events_of (bstore sys1)) + flying (inflight sys1) + mset (delivered sys1) \<and>
   events_of (bstore sys1) ''falco'' = [ev1]"
proof -
  have "events_of (bstore sys1) ''falco'' = [ev1]" by code_simp
  with batch_no_loss [OF sys1_reachable] show ?thesis by blast
qed

theorem batch_can_drain_witness:
  "\<exists>c'. bsteps event_ops sys1 c' \<and> mset (delivered c') = {#ev1#}"
  using batch_can_drain [OF sys1_reachable] by (auto simp: sys1_def Let_def)

theorem stop_skips_young_batches_witness:
  "events_of (bstore sys1) ''falco'' = [ev1] \<and> ''falco'' \<notin> set (processAllBatches 1 (bstore sys1))"
proof -
  obtain b where b: "map_of (batches (bstore sys1)) ''falco'' = Some b" "int (length (Events b)) < MaxSize b" "1 - Timestamp b < MaxAge b"
    by (simp add: sys1_def bp_AddEvent_def NewBatchProcessor_def NewEventBatch_def AddEvent_def ev1_def Let_def)
  have "events_of (bstore sys1) ''falco'' = [ev1]" by code_simp
  with stop_skips_young_batches [OF sys1_reachable b] show ?thesis by blast
qed

section \<open>Processing a batch\<close>

lemma process_events_writes:
  assumes "gvrAllowlist (observationCreator p) = Some a"
  shows "\<exists>ws. writes (observationCreator (process_events x evs p)) = writes (observationCreator p) @ ws \<and>
    length ws \<le> length evs \<and> list_all (\<lambda>w. IsAllowed a (w_gvr w) (w_namespace w) = None) ws"
  using assms
proof (induction evs arbitrary: p)
  case (Cons ev evs)
  obtain tk e where ev: "ev = (tk, e)" by fastforce
  obtain r p1 where p1: "ProcessEvent x tk e None p = (r, p1)" by fastforce
  from ProcessEvent_writes [OF Cons.prems p1] have a: "gvrAllowlist (observationCreator p1) = Some a"
    and "\<exists>w. writes (observationCreator p1) = writes (observationCreator p) @ w \<and> length w \<le> 1 \<and>
      list_all (\<lambda>w. IsAllowed a (w_gvr w) (w_namespace w) = None) w"
    by (auto intro: exI [of _ "[]"] exI [of _ "[w]" for w])
  then obtain w where w: "writes (observationCreator p1) = writes (observationCreator p) @ w" "length w \<le> 1"
      "list_all (\<lambda>w. IsAllowed a (w_gvr w) (w_namespace w) = None) w" by blast
  obtain ws where "writes (observationCreator (process_events x evs p1)) = writes (observationCreator p1) @ ws"
      "length ws \<le> length evs" "list_all (\<lambda>w. IsAllowed a (w_gvr w) (w_namespace w) = None) ws"
    using Cons.IH [OF a] by blast
  with w show ?case by (intro exI [of _ "w @ ws"]) (simp add: ev p1)
qed simp

text \<open>Processing a batch empties it, leaves the other batches alone, and writes at most one resource per event of
  the batch, all of them allowed by the policy.\<close>

theorem process_batch:
  assumes "gvrAllowlist (observationCreator p) = Some a" "processBatch x now tks source bp p = (bp', p')"
  shows "events_of bp' = (events_of bp)(source := []) \<and>
    (\<exists>ws. writes (observationCreator p') = writes (observationCreator p) @ ws \<and>
       length ws \<le> length (events_of bp source) \<and> list_all (\<lambda>w. IsAllowed a (w_gvr w) (w_namespace w) = None) ws)"
proof -
  obtain es bp1 where t: "take_batch now source bp = (es, bp1)" by fastforce
  have "bp1 = bp'" "process_events x (zip (map tks [0..<length es]) es) p = p'"
    using assms(2) by (simp_all add: processBatch_def t)
  with process_events_writes [OF assms(1), of x "zip (map tks [0..<length es]) es"] events_of_take [OF t]
  show ?thesis by auto
qed

theorem process_batch_witness:
  "\<exists>bp' p'. processBatch x0 0 (\<lambda>_. tk0) ''falco'' (bstore sys1) p0 = (bp', p') \<and> events_of bp' ''falco'' = []"
proof -
  obtain bp' p' where run: "processBatch x0 0 (\<lambda>_. tk0) ''falco'' (bstore sys1) p0 = (bp', p')" by fastforce
  have "gvrAllowlist (observationCreator p0) = Some (NewGVRAllowlist (\<lambda>_. []))"
    by (simp add: p0_def NewProcessor_def NewProcessorWithMetrics_def oc0_def)
  from process_batch [OF this run] run show ?thesis by auto
qed

end
