(* ===== verification/Zen_Time.thy ===== *)
theory Zen_Time
  imports Zen_Float64
begin

text \<open>
  What the sources use of \<^verbatim>\<open>time.ParseDuration\<close> and \<^verbatim>\<open>strconv.ParseBool\<close>, and the helpers that read typed
  environment variables. A duration is a number of nanoseconds; \<open>None\<close> is a parse error.
\<close>

definition parse_bool :: "string \<Rightarrow> bool option" where
  "parse_bool s =
     (if s \<in> {''1'', ''t'', ''T'', ''TRUE'', ''true'', ''True''} then Some True
      else if s \<in> {''0'', ''f'', ''F'', ''FALSE'', ''false'', ''False''} then Some False
      else None)"

abbreviation second :: int where "second \<equiv> 1000000000"
abbreviation millisecond :: int where "millisecond \<equiv> 1000000"

definition duration_unit :: "string \<Rightarrow> int option" where
  "duration_unit u =
     map_of [(''ns'', 1), (''us'', 1000), ([char_of (0xC2 :: int), char_of (0xB5 :: int), CHR ''s''], 1000),
             ([char_of (0xCE :: int), char_of (0xBC :: int), CHR ''s''], 1000), (''ms'', millisecond), (''s'', second),
             (''m'', 60 * second), (''h'', 3600 * second)] u"

text \<open>Leading digits, with an error above \<open>2 ^ 63\<close>; and the digits of a fraction with their scale, where digits
  that no longer fit are skipped.\<close>

fun leading_int :: "int \<Rightarrow> string \<Rightarrow> (int \<times> string) option" where
  "leading_int x [] = Some (x, [])"
| "leading_int x (c # s) =
     (if \<not> is_digit_char c then Some (x, c # s)
      else if 2 ^ 63 div 10 < x then None
      else (let y = 10 * x + digit_val c in if 2 ^ 63 < y then None else leading_int y s))"

fun leading_fraction :: "int \<Rightarrow> int \<Rightarrow> bool \<Rightarrow> string \<Rightarrow> int \<times> int \<times> string" where
  "leading_fraction x scale overflow [] = (x, scale, [])"
| "leading_fraction x scale overflow (c # s) =
     (if \<not> is_digit_char c then (x, scale, c # s)
      else if overflow then leading_fraction x scale True s
      else if (2 ^ 63 - 1) div 10 < x then leading_fraction x scale True s
      else (let y = 10 * x + digit_val c
            in if 2 ^ 63 < y then leading_fraction x scale True s else leading_fraction y (10 * scale) False s))"

text \<open>\<^verbatim>\<open>uint64(float64(f) * (float64(unit) / scale))\<close>.\<close>

definition fraction_part :: "int \<Rightarrow> int \<Rightarrow> int \<Rightarrow> int" where
  "fraction_part f unit scale =
     \<lfloor>f64_val (f64_mul (f64_of_int f) (f64_div (f64_of_int unit) (f64_of_int scale)))\<rfloor>"

text \<open>One element of a duration: its value and the rest of the text.\<close>

definition duration_element :: "string \<Rightarrow> (int \<times> string) option" where
  "duration_element s =
     (case leading_int 0 s of None \<Rightarrow> None
      | Some (v, s1) \<Rightarrow>
          (let pre = length s1 < length s;
               dot = (s1 \<noteq> [] \<and> hd s1 = CHR ''.'');
               (f, scale, s2) = (if dot then leading_fraction 0 1 False (tl s1) else (0, 1, s1));
               post = (dot \<and> length s2 < length (tl s1));
               u = takeWhile (\<lambda>c. c \<noteq> CHR ''.'' \<and> \<not> is_digit_char c) s2
           in if \<not> pre \<and> \<not> post \<or> u = [] then None
              else case duration_unit u of None \<Rightarrow> None
                   | Some unit \<Rightarrow>
                       if 2 ^ 63 div unit < v then None
                       else (let w = v * unit + (if 0 < f then fraction_part f unit scale else 0)
                             in if 2 ^ 63 < w then None else Some (w, drop (length u) s2))))"

lemma leading_int_length: "leading_int x s = Some (y, t) \<Longrightarrow> length t \<le> length s"
  by (induction x s rule: leading_int.induct) (auto simp: Let_def split: if_splits)

lemma leading_fraction_length: "leading_fraction x c b s = (y, d, t) \<Longrightarrow> length t \<le> length s"
  by (induction x c b s rule: leading_fraction.induct) (auto simp: Let_def split: if_splits)

lemma duration_element_shrinks: "duration_element s = Some (v, t) \<Longrightarrow> length t < length s"
  by (auto simp: duration_element_def Let_def length_greater_0_conv [symmetric] dest!: leading_int_length leading_fraction_length
      split: option.splits prod.splits if_splits simp del: length_greater_0_conv)

function duration_loop :: "int \<Rightarrow> string \<Rightarrow> int option" where
  "duration_loop d s =
     (if s = [] then Some d
      else if \<not> (hd s = CHR ''.'' \<or> is_digit_char (hd s)) then None
      else case duration_element s of None \<Rightarrow> None
           | Some (v, s') \<Rightarrow> if 2 ^ 63 < d + v then None else duration_loop (d + v) s')"
  by pat_completeness auto
termination
  by (relation "measure (length \<circ> snd)") (auto dest: duration_element_shrinks)

declare duration_loop.simps [simp del]

definition parse_duration :: "string \<Rightarrow> int option" where
  "parse_duration text =
     (let neg = (text \<noteq> [] \<and> hd text = CHR ''-'');
          s = (if text \<noteq> [] \<and> (hd text = CHR ''-'' \<or> hd text = CHR ''+'') then tl text else text)
      in if s = ''0'' then Some 0
         else if s = [] then None
         else case duration_loop 0 s of None \<Rightarrow> None
              | Some d \<Rightarrow> if neg then Some (- d) else if 2 ^ 63 - 1 < d then None else Some d)"

text \<open>Truncating division of \<^verbatim>\<open>int64\<close>, and \<^verbatim>\<open>Duration.Seconds\<close>.\<close>

definition go_quot :: "int \<Rightarrow> int \<Rightarrow> int" where
  "go_quot a b = (if (a < 0) = (b < 0) then \<bar>a\<bar> div \<bar>b\<bar> else - (\<bar>a\<bar> div \<bar>b\<bar>))"

definition Seconds :: "int \<Rightarrow> f64" where
  "Seconds d = f64_add (f64_of_int (go_quot d second)) (f64_div (f64_of_int (d - go_quot d second * second)) (f64_of_int second))"

section \<open>Typed environment variables\<close>

definition getEnvBool :: "(string \<Rightarrow> string) \<Rightarrow> string \<Rightarrow> bool \<Rightarrow> bool" where
  "getEnvBool getenv key dflt =
     (if getenv key = [] then dflt else case parse_bool (getenv key) of Some b \<Rightarrow> b | None \<Rightarrow> dflt)"

definition getEnvInt :: "(string \<Rightarrow> string) \<Rightarrow> string \<Rightarrow> int \<Rightarrow> int" where
  "getEnvInt getenv key dflt =
     (if getenv key = [] then dflt else case parse_int (getenv key) of Some n \<Rightarrow> n | None \<Rightarrow> dflt)"

definition getEnvDuration :: "(string \<Rightarrow> string) \<Rightarrow> string \<Rightarrow> int \<Rightarrow> int" where
  "getEnvDuration getenv key dflt =
     (if getenv key = [] then dflt else case parse_duration (getenv key) of Some d \<Rightarrow> d | None \<Rightarrow> dflt)"

section \<open>Digits\<close>

lemma digits_grow: "\<forall>c \<in> set ds. is_digit_char c \<Longrightarrow> 0 \<le> x \<Longrightarrow> x \<le> foldl (\<lambda>x c. 10 * x + digit_val c) x ds"
proof (induction ds arbitrary: x)
  case (Cons c ds)
  have "0 \<le> digit_val c" using Cons.prems by (auto simp: digit_val_def in_range_def)
  then have "x \<le> 10 * x + digit_val c" "0 \<le> 10 * x + digit_val c" using Cons.prems by linarith+
  moreover have "10 * x + digit_val c \<le> foldl (\<lambda>x c. 10 * x + digit_val c) (10 * x + digit_val c) ds" using Cons calculation(2) by simp
  ultimately show ?case by simp
qed simp

lemma leading_int_digits:
  assumes "\<forall>c \<in> set ds. is_digit_char c" "0 \<le> x" "x \<le> 2 ^ 63" "rest = [] \<or> \<not> is_digit_char (hd rest)"
  shows "leading_int x (ds @ rest) =
    (let v = foldl (\<lambda>x c. 10 * x + digit_val c) x ds in if 2 ^ 63 < v then None else Some (v, rest))"
  using assms(1-3)
proof (induction ds arbitrary: x)
  case Nil
  then show ?case using assms(4) by (cases rest) auto
next
  case (Cons c ds)
  let ?y = "10 * x + digit_val c"
  have dv: "0 \<le> digit_val c" using Cons.prems by (auto simp: digit_val_def in_range_def)
  have y: "0 \<le> ?y" using dv Cons.prems by linarith
  have grow: "?y \<le> foldl (\<lambda>x c. 10 * x + digit_val c) ?y ds" using Cons.prems(1) y by (intro digits_grow) auto
  show ?case
  proof (cases "?y \<le> 2 ^ 63")
    case True
    then have "\<not> 2 ^ 63 div 10 < x" using dv by simp
    with True Cons.IH [of ?y] Cons.prems(1) y show ?thesis by (simp add: Let_def)
  next
    case False
    then show ?thesis using grow Cons.prems(1) by (auto simp: Let_def)
  qed
qed

lemma quotient_less: "0 < n \<Longrightarrow> m div n < k \<longleftrightarrow> m < k * n" for m n k :: int
proof -
  assume n: "0 < n"
  have m: "m = m div n * n + m mod n" "0 \<le> m mod n" "m mod n < n" using n by simp_all
  show ?thesis
  proof
    assume "m div n < k"
    then have "(m div n + 1) * n \<le> k * n" using n by (intro mult_right_mono) auto
    then have "m div n * n + n \<le> k * n" by (simp add: distrib_right)
    with m show "m < k * n" by linarith
  next
    assume "m < k * n"
    then have "m div n * n < k * n" using m by linarith
    then show "m div n < k" using n by simp
  qed
qed

lemma digits_val_nonneg: "list_all is_digit_char ds \<Longrightarrow> 0 \<le> digits_val ds"
  unfolding digits_val_def by (rule digits_grow) (simp_all add: list_all_iff)

definition no_number :: "string \<Rightarrow> bool" where
  "no_number u = list_all (\<lambda>c. c \<noteq> CHR ''.'' \<and> \<not> is_digit_char c) u"

lemma units_positive: "duration_unit u = Some n \<Longrightarrow> 0 < n"
  by (auto simp: duration_unit_def split: if_splits)

text \<open>A number and a unit: the element, and the whole duration.\<close>

lemma number_unit_element:
  assumes "ds \<noteq> []" "list_all is_digit_char ds" "no_number u"
  shows "duration_element (ds @ u) = (case duration_unit u of None \<Rightarrow> None | Some n \<Rightarrow> if 2 ^ 63 < digits_val ds * n then None else Some (digits_val ds * n, []))"
proof -
  have v: "0 \<le> digits_val ds" by (rule digits_val_nonneg [OF assms(2)])
  have rest: "u = [] \<or> \<not> is_digit_char (hd u)" "\<not> (u \<noteq> [] \<and> hd u = CHR ''.'')" "takeWhile (\<lambda>c. c \<noteq> CHR ''.'' \<and> \<not> is_digit_char c) u = u"
    using assms(3) by (cases u; simp add: no_number_def list_all_iff)+
  have lead: "leading_int 0 (ds @ u) = (if 2 ^ 63 < digits_val ds then None else Some (digits_val ds, u))"
    using leading_int_digits [of ds 0 u] assms(2) rest(1) by (simp add: list_all_iff digits_val_def Let_def)
  have shorter: "length u < length (ds @ u)" using assms(1) by simp
  have none: "duration_unit [] = None" by (simp add: duration_unit_def)
  show ?thesis
  proof (cases "2 ^ 63 < digits_val ds")
    case True
    have "2 ^ 63 < digits_val ds * n" if "duration_unit u = Some n" for n
    proof -
      have "digits_val ds * 1 \<le> digits_val ds * n" using units_positive [OF that] v by (intro mult_left_mono) auto
      with True show ?thesis by linarith
    qed
    then show ?thesis using True lead by (auto simp: duration_element_def split: option.splits)
  next
    case False
    with lead have l: "leading_int 0 (ds @ u) = Some (digits_val ds, u)" by simp
    have quot: "2 ^ 63 div n < digits_val ds \<longleftrightarrow> 2 ^ 63 < digits_val ds * n" if "duration_unit u = Some n" for n
      by (rule quotient_less [OF units_positive [OF that]])
    show ?thesis using l shorter rest none quot
      by (cases "u = []"; cases "duration_unit u"; simp add: duration_element_def Let_def del: length_append takeWhile_eq_all_conv)
  qed
qed

lemma parse_number_unit:
  assumes "ds \<noteq> []" "list_all is_digit_char ds" "no_number u"
  shows "parse_duration (ds @ u) =
    (if ds @ u = ''0'' then Some 0
     else case duration_unit u of None \<Rightarrow> None | Some n \<Rightarrow> if digits_val ds * n < 2 ^ 63 then Some (digits_val ds * n) else None)"
proof -
  obtain c cs where ds: "ds = c # cs" "is_digit_char c" using assms(1,2) by (cases ds) auto
  then have c: "c \<noteq> CHR ''-''" "c \<noteq> CHR ''+''" by (auto simp: in_range_def byte_of_def)
  have loop: "duration_loop 0 (ds @ u) = (case duration_unit u of None \<Rightarrow> None | Some n \<Rightarrow> if 2 ^ 63 < digits_val ds * n then None else Some (digits_val ds * n))"
    using number_unit_element [OF assms] ds by (subst duration_loop.simps) (simp add: duration_loop.simps [of _ "[]"] split: option.splits)
  have "parse_duration (ds @ u) = (if ds @ u = ''0'' then Some 0 else case duration_loop 0 (ds @ u) of None \<Rightarrow> None | Some d \<Rightarrow> if 2 ^ 63 - 1 < d then None else Some d)"
    using ds c by (simp add: parse_duration_def Let_def split: option.split)
  then show ?thesis unfolding loop by (auto split: option.splits)
qed


lemma whole_seconds:
  assumes "0 \<le> k" "k < 2 ^ 53"
  shows "f64_to_int (Seconds (k * second)) = k"
proof -
  have q: "go_quot (k * second) second = k" using assms(1) by (simp add: go_quot_def)
  have "f64_div (f64_of_int 0) (f64_of_int second) = Fin 0" by code_simp
  then have "Seconds (k * second) = Fin (of_int k)"
    using f64_of_int_exact [OF assms] assms unfolding Seconds_def q by (auto simp: f64_add_def f64_val_def f64_of_int_def)
  moreover have "in_int64 k" using assms by (simp add: in_int64_def)
  ultimately show ?thesis using assms by (simp add: f64_to_int_def)
qed

end
