(* ===== verification/Destination_Batcher.thy ===== *)
theory Destination_Batcher
  imports Batcher Zen_Time Zen_Values
begin

text \<open>
  The destination batcher, \<^verbatim>\<open>pkg/dispatcher/destination_batcher.go\<close>: observations per destination, handed to
  a flush function. It provides the same interface \<open>Batcher\<close> as the batch processor; an item is a destination
  key with an observation. A nil \<^verbatim>\<open>flushFunc\<close> is kept as a flag, since calling it panics. The errors of the
  flush function (\<open>flush\<close>, \<open>Some\<close> of a message) are logged and returned.

  Main results: no observation is lost or flushed twice, everything can be flushed, and with the default
  environment, where batching is off, every call of \<^verbatim>\<open>Enqueue\<close> panics.
\<close>

record ObservationBatch =
  DestinationKey :: string
  Observations :: "obj list"
  ob_Timestamp :: int

record DestinationBatcher =
  dbatches :: "(string, ObservationBatch) gomap"
  db_maxBatchSize :: int
  db_maxBatchAge :: int
  has_flushFunc :: bool
  enabled :: bool

definition NewDestinationBatcher :: "(string \<Rightarrow> string) \<Rightarrow> int \<Rightarrow> int \<Rightarrow> DestinationBatcher" where
  "NewDestinationBatcher getenv maxSize maxAge =
     (if \<not> getEnvBool getenv ''EVENT_BATCHING_ENABLED'' False then
        \<lparr>dbatches = [], db_maxBatchSize = 0, db_maxBatchAge = 0, has_flushFunc = False, enabled = False\<rparr>
      else
        \<lparr>dbatches = [],
         db_maxBatchSize = (if maxSize \<le> 0 then getEnvInt getenv ''EVENT_BATCH_SIZE'' 100 else maxSize),
         db_maxBatchAge = (if maxAge \<le> 0 then getEnvDuration getenv ''EVENT_BATCH_AGE'' (5 * second) else maxAge),
         has_flushFunc = True, enabled = True\<rparr>)"

text \<open>The readiness test of \<^verbatim>\<open>Enqueue\<close> and \<^verbatim>\<open>flushAllBatches\<close>.\<close>

definition batch_ready :: "int \<Rightarrow> DestinationBatcher \<Rightarrow> ObservationBatch \<Rightarrow> bool" where
  "batch_ready now db b \<longleftrightarrow>
     db_maxBatchSize db \<le> int (length (Observations b)) \<or> db_maxBatchAge db \<le> now - ob_Timestamp b"

text \<open>The part of \<^verbatim>\<open>Enqueue\<close> under the locks, for an enabled batcher.\<close>

definition enqueue_batch :: "int \<times> int \<Rightarrow> string \<times> obj \<Rightarrow> DestinationBatcher \<Rightarrow> bool \<times> DestinationBatcher" where
  "enqueue_batch ts item db =
     (let (destinationKey, observation) = item;
          batch = (case map_of (dbatches db) destinationKey of
                     Some b \<Rightarrow> b
                   | None \<Rightarrow> \<lparr>DestinationKey = destinationKey, Observations = [], ob_Timestamp = fst ts\<rparr>);
          batch' = batch\<lparr>Observations := Observations batch @ [observation]\<rparr>
      in (batch_ready (snd ts) db batch', db\<lparr>dbatches := put destinationKey batch' (dbatches db)\<rparr>))"

definition take_observations :: "int \<Rightarrow> string \<Rightarrow> DestinationBatcher \<Rightarrow> obj list \<times> DestinationBatcher" where
  "take_observations now destinationKey db =
     (case map_of (dbatches db) destinationKey of
        None \<Rightarrow> ([], db)
      | Some b \<Rightarrow> (Observations b, db\<lparr>dbatches := put destinationKey (b\<lparr>Observations := [], ob_Timestamp := now\<rparr>) (dbatches db)\<rparr>))"

text \<open>\<open>flushBatch\<close> also says what was handed to the flush function.\<close>

definition flushBatch ::
    "(string \<Rightarrow> obj list \<Rightarrow> string option) \<Rightarrow> int \<Rightarrow> string \<Rightarrow> DestinationBatcher \<Rightarrow>
     (string option \<times> obj list) \<times> DestinationBatcher" where
  "flushBatch flush now destinationKey db =
     (let (observations, db') = take_observations now destinationKey db
      in if observations = [] then ((None, []), db')
         else ((flush destinationKey observations, observations), db'))"

definition flushAllBatches :: "int \<Rightarrow> DestinationBatcher \<Rightarrow> string list" where
  "flushAllBatches now db =
     map fst (filter (\<lambda>(k, b). batch_ready now db b \<and> 0 < length (Observations b)) (dbatches db))"

datatype enqueue_result = NilFlushPanic | Returned "string option" "obj list"

definition Enqueue ::
    "(string \<Rightarrow> obj list \<Rightarrow> string option) \<Rightarrow> int \<times> int \<times> int \<Rightarrow> string \<Rightarrow> obj \<Rightarrow> DestinationBatcher \<Rightarrow>
     enqueue_result \<times> DestinationBatcher" where
  "Enqueue flush ts destinationKey observation db =
     (if \<not> enabled db then
        (if has_flushFunc db then Returned (flush destinationKey [observation]) [observation] else NilFlushPanic, db)
      else
        (let (t1, t2, t3) = ts;
             (ready, db1) = enqueue_batch (t1, t2) (destinationKey, observation) db
         in if ready then
              (let ((err, handed), db2) = flushBatch flush t3 destinationKey db1 in (Returned err handed, db2))
            else (Returned None [], db1)))"

section \<open>The interface\<close>

definition dest_ops :: "(string, string \<times> obj, DestinationBatcher, int \<times> int) batch_ops" where
  "dest_ops = \<lparr>b_key = fst, b_add = enqueue_batch, b_ready = (\<lambda>t. flushAllBatches (fst t)),
     b_take = (\<lambda>t k db. map_prod (map (Pair k)) id (take_observations (fst t) k db)), b_hand = length\<rparr>"

definition items_of :: "DestinationBatcher \<Rightarrow> string \<Rightarrow> (string \<times> obj) list" where
  "items_of db k = (case map_of (dbatches db) k of None \<Rightarrow> [] | Some b \<Rightarrow> map (Pair k) (Observations b))"

lemma dest_ops_simps:
  "b_key dest_ops = fst" "b_add dest_ops = enqueue_batch" "b_ready dest_ops t db = flushAllBatches (fst t) db"
  "b_take dest_ops t k db = map_prod (map (Pair k)) id (take_observations (fst t) k db)" "b_hand dest_ops es = length es"
  by (simp_all add: dest_ops_def)

definition db_ok :: "DestinationBatcher \<Rightarrow> bool" where
  "db_ok db \<longleftrightarrow> wf_map (dbatches db)"

lemma db_ok_enqueue: "db_ok db \<Longrightarrow> enqueue_batch ts item db = (r, db') \<Longrightarrow> db_ok db'"
  by (auto simp: db_ok_def enqueue_batch_def Let_def split: prod.splits option.splits)

lemma db_ok_take: "db_ok db \<Longrightarrow> take_observations t k db = (es, db') \<Longrightarrow> db_ok db'"
  by (auto simp: db_ok_def take_observations_def split: option.splits)

lemma items_of_enqueue:
  "enqueue_batch ts item db = (r, db') \<Longrightarrow> items_of db' = (items_of db)(fst item := items_of db (fst item) @ [item])"
  by (auto simp: enqueue_batch_def Let_def items_of_def fun_eq_iff split: prod.splits option.splits)

lemma items_of_take:
  "take_observations t k db = (es, db') \<Longrightarrow> map (Pair k) es = items_of db k \<and> items_of db' = (items_of db)(k := [])"
  by (auto simp: take_observations_def items_of_def fun_eq_iff split: option.splits)

lemma flushAllBatches_iff:
  assumes "db_ok db"
  shows "k \<in> set (flushAllBatches now db) \<longleftrightarrow>
    (\<exists>b. map_of (dbatches db) k = Some b \<and> batch_ready now db b \<and> Observations b \<noteq> [])"
  using assms by (auto simp: flushAllBatches_def db_ok_def wf_map_def image_iff dest: map_of_SomeD)

lemma dest_ready_when_old:
  assumes "db_ok db"
  shows "\<exists>now. \<forall>k. items_of db k \<noteq> [] \<longrightarrow> k \<in> set (flushAllBatches now db)"
proof -
  let ?now = "Max ((\<lambda>(k, b). ob_Timestamp b + db_maxBatchAge db) ` set (dbatches db))"
  have "batch_ready ?now db b" if "map_of (dbatches db) k = Some b" for k b
  proof -
    from map_of_SomeD [OF that] have "ob_Timestamp b + db_maxBatchAge db \<le> ?now" by (auto intro!: Max_ge)
    then show ?thesis by (simp add: batch_ready_def)
  qed
  then show ?thesis
    by (intro exI [of _ ?now]) (auto simp: flushAllBatches_iff [OF assms] items_of_def split: option.splits)
qed

interpretation dbatch: batch_laws dest_ops db_ok items_of "\<lambda>db. set (keys (dbatches db))"
proof (unfold_locales, unfold dest_ops_simps)
  show "items_of s k = []" if "k \<notin> set (keys (dbatches s))" for s k
    using that by (simp add: items_of_def map_of_eq_None_keys [THEN iffD2])
  show "\<exists>t. \<forall>k. items_of s k \<noteq> [] \<longrightarrow> k \<in> set (flushAllBatches (fst t) s)" if "db_ok s" for s
    using dest_ready_when_old [OF that] by auto
  show "db_ok s'" if "db_ok s" "map_prod (map (Pair k)) id (take_observations (fst t) k s) = (es, s')" for t k s es s'
    using that db_ok_take by (cases "take_observations (fst t) k s") auto
  show "es = items_of s k \<and> items_of s' = (items_of s)(k := [])"
    if "db_ok s" "map_prod (map (Pair k)) id (take_observations (fst t) k s) = (es, s')" for t k s es s'
    using that items_of_take by (cases "take_observations (fst t) k s") auto
qed (blast intro: db_ok_enqueue items_of_enqueue | simp)+

section \<open>The properties\<close>

lemma new_db: "db_ok (NewDestinationBatcher env n a)" "items_of (NewDestinationBatcher env n a) = (\<lambda>_. [])"
  by (auto simp: NewDestinationBatcher_def db_ok_def items_of_def)

text \<open>The destination batcher loses no observation and flushes none twice, in every interleaving of
  \<^verbatim>\<open>Enqueue\<close>, ticks and flushes, and everything enqueued can still be flushed.\<close>

theorem dest_no_loss:
  assumes "bsteps dest_ops (binit (NewDestinationBatcher env maxSize maxAge)) c"
  shows "mset (added c) = stored (items_of (bstore c)) + flying (inflight c) + mset (delivered c) \<and>
    (\<exists>c'. bsteps dest_ops c c' \<and> added c' = added c \<and> mset (delivered c') = mset (added c))"
proof -
  have "dbatch.binv c" using assms new_db by (blast intro: dbatch.binv_steps dbatch.binv_init)
  then show ?thesis using dbatch.can_drain by (auto simp: dbatch.binv_def)
qed

theorem dest_no_loss_witness:
  "\<exists>c. bsteps dest_ops (binit (NewDestinationBatcher (\<lambda>_. ''true'') 10 1)) c \<and> added c = [(''d'', [])] \<and>
     (\<exists>c'. bsteps dest_ops c c' \<and> mset (delivered c') = {#(''d'', [])#})"
proof -
  let ?c0 = "binit (NewDestinationBatcher (\<lambda>_. ''true'') 10 1) :: (string, string \<times> obj, DestinationBatcher) bsys"
  obtain r s' where "b_add dest_ops (0, 0) (''d'', []) (bstore ?c0) = (r, s')" by fastforce
  from bstep.add [OF this] have run: "bsteps dest_ops ?c0 (?c0\<lparr>bstore := s',
      pending := (if r then pending ?c0 @ [b_key dest_ops (''d'', [])] else pending ?c0), added := added ?c0 @ [(''d'', [])]\<rparr>)"
    by (simp add: bsteps_def)
  from dest_no_loss [OF run] run show ?thesis by (auto simp: binit_def intro!: exI)
qed

text \<open>With batching switched off, which is the default, the batcher is made without its flush function, and
  every \<^verbatim>\<open>Enqueue\<close> calls a nil function: it panics instead of flushing at once.\<close>

theorem disabled_enqueue_panics:
  assumes "getEnvBool getenv ''EVENT_BATCHING_ENABLED'' False = False"
  shows "Enqueue flush ts destinationKey observation (NewDestinationBatcher getenv maxSize maxAge) =
    (NilFlushPanic, NewDestinationBatcher getenv maxSize maxAge)"
  using assms by (simp add: Enqueue_def NewDestinationBatcher_def)

theorem disabled_enqueue_panics_witness:
  "fst (Enqueue (\<lambda>_ _. None) (0, 0, 0) ''observations'' [] (NewDestinationBatcher (\<lambda>_. []) 100 1)) = NilFlushPanic"
  using disabled_enqueue_panics [of "\<lambda>_. []" "\<lambda>_ _. None" "(0, 0, 0)" "''observations''" "[]" 100 1]
  by (simp add: getEnvBool_def)

text \<open>A full batch is flushed by the call that fills it: when the number of observations reaches the limit, all of
  them, in the order they were enqueued, go to the flush function and the batch is empty again.\<close>

theorem full_batch_flushed:
  assumes "enabled db" "map_of (dbatches db) k = Some b" "db_maxBatchSize db \<le> int (length (Observations b)) + 1"
    and "Enqueue flush ts k observation db = (r, db')"
  shows "r = Returned (flush k (Observations b @ [observation])) (Observations b @ [observation]) \<and> items_of db' k = []"
  using assms
  by (auto simp: Enqueue_def enqueue_batch_def flushBatch_def take_observations_def batch_ready_def items_of_def Let_def
      split: prod.splits)

theorem full_batch_flushed_witness:
  "fst (Enqueue (\<lambda>_ _. None) (0, 0, 0) ''d'' [(''b'', VNil)]
     \<lparr>dbatches = [(''d'', \<lparr>DestinationKey = ''d'', Observations = [[]], ob_Timestamp = 0\<rparr>)], db_maxBatchSize = 2,
      db_maxBatchAge = 9, has_flushFunc = True, enabled = True\<rparr>) = Returned None [[], [(''b'', VNil)]]"
proof -
  let ?db = "\<lparr>dbatches = [(''d'', \<lparr>DestinationKey = ''d'', Observations = [[]], ob_Timestamp = 0\<rparr>)], db_maxBatchSize = 2,
      db_maxBatchAge = 9, has_flushFunc = True, enabled = True\<rparr>"
  obtain r db' where run: "Enqueue (\<lambda>_ _. None) (0, 0, 0) ''d'' [(''b'', VNil)] ?db = (r, db')" by fastforce
  from full_batch_flushed [OF _ _ _ run, of "\<lparr>DestinationKey = ''d'', Observations = [[]], ob_Timestamp = 0\<rparr>"] run
  show ?thesis by simp
qed

end
