(* ===== verification/Worker_Pool.thy ===== *)
theory Worker_Pool
  imports Zen_Time "HOL-Library.Multiset"
begin

text \<open>
  The worker pool, \<^verbatim>\<open>pkg/dispatcher/worker_pool.go\<close>: a bounded queue and workers that take items from it. The
  operations are functions on the record \<open>WorkerPool\<close>; \<open>pool_step\<close> interleaves them with the steps of
  the workers (\<open>worker_step\<close>) and of the goroutines that move items to a new queue (\<open>drain_step\<close>).

  A channel is an index into \<open>channels\<close>, the list of their contents, and \<open>capacities\<close>; \<open>current\<close> is the one \<^verbatim>\<open>wp.workQueue\<close>
  holds. A worker evaluates \<^verbatim>\<open>wp.workQueue\<close> and \<^verbatim>\<open>wp.ctx\<close> when it starts to wait and keeps waiting on that channel and context
  (\<open>Waiting\<close>). Sending on a channel without buffer hands the item to a waiting worker. A nil work item is \<open>None\<close>. \<open>locked\<close> is
  \<^verbatim>\<open>wp.mu\<close> held by a call that waits, \<open>pending\<close> the configuration such a call will set, \<open>crashed\<close> a panic, which ends the
  program since nothing recovers it. The last four fields are the history: what was accepted, what was processed with which error, what was
  dropped by a resize, and how many nil items came out of a closed queue. The Prometheus metrics are left out.

  Main results: every accepted item is queued, being processed, processed or dropped, exactly once, and what there is beyond
  them are nil items from a queue that was closed and then replaced; the active counter is the number of busy workers and every
  queue stays within its bound; from every state of a pool that is not stopped or resized, all items can be processed;
  after a resize the waiting workers never see the new queue; replacing a queue that was closed leaves a goroutine that never
  ends; stopping may leave accepted items unprocessed.
\<close>

section \<open>State\<close>

record WorkerPoolConfig =
  Enabled :: bool
  pc_Size :: int
  QueueSize :: int

datatype 'w wthread = Ready | Waiting nat nat | Busy "'w option" | Exited

record 'w WorkerPool =
  pool_config :: WorkerPoolConfig
  workers :: int
  current :: nat
  channels :: "'w option list list"
  capacities :: "int list"
  maxQueueSize :: int
  closed :: "nat list"
  context_id :: nat
  cancelled :: "nat list"
  stopOnce :: bool
  stopReturned :: bool
  activeWorkers :: int
  threads :: "'w wthread list"
  drains :: "nat list"
  locked :: bool
  pending :: "WorkerPoolConfig option"
  crashed :: bool
  accepted :: "'w option list"
  processed :: "('w option \<times> string option) list"
  dropped :: "'w option list"
  phantoms :: nat

text \<open>A negative queue size makes \<^verbatim>\<open>make(chan WorkItem, n)\<close> panic: \<open>None\<close>.\<close>

definition NewWorkerPool :: "(string \<Rightarrow> string) \<Rightarrow> int \<Rightarrow> int \<Rightarrow> 'w WorkerPool option" where
  "NewWorkerPool getenv workerCount0 maxQueueSize0 =
     (let workerCount = (if workerCount0 \<le> 0 then getEnvInt getenv ''WORKER_POOL_SIZE'' 5 else workerCount0);
          size = (if maxQueueSize0 \<le> 0 then wrap64 (workerCount * 2) else maxQueueSize0)
      in if size < 0 then None
         else Some \<lparr>pool_config = \<lparr>Enabled = True, pc_Size = workerCount, QueueSize = size\<rparr>, workers = workerCount,
                current = 0, channels = [[]], capacities = [size], maxQueueSize = size, closed = [], context_id = 0, cancelled = [],
                stopOnce = False, stopReturned = False, activeWorkers = 0, threads = [], drains = [], locked = False, pending = None,
                crashed = False, accepted = [], processed = [], dropped = [], phantoms = 0\<rparr>)"

section \<open>Operations\<close>

definition Start :: "'w WorkerPool \<Rightarrow> 'w WorkerPool" where
  "Start wp =
     (if \<not> Enabled (pool_config wp) then wp
      else wp\<lparr>threads := threads wp @ replicate (nat (workers wp)) Ready\<rparr>)"

definition IsRunning :: "'w WorkerPool \<Rightarrow> bool" where
  "IsRunning wp \<longleftrightarrow> Enabled (pool_config wp) \<and> 0 < workers wp"

definition queue :: "'w WorkerPool \<Rightarrow> 'w option list" where
  "queue wp = channels wp ! current wp"

text \<open>A worker that waits on the channel, and the hand-over of an item to it. The workers are alike, so the first one stands for all.\<close>

definition receivers :: "nat \<Rightarrow> 'w WorkerPool \<Rightarrow> nat list" where
  "receivers ch wp = filter (\<lambda>i. case threads wp ! i of Waiting ch' c \<Rightarrow> ch' = ch | _ \<Rightarrow> False) [0..<length (threads wp)]"

definition hand_over :: "nat \<Rightarrow> 'w option \<Rightarrow> 'w WorkerPool \<Rightarrow> 'w WorkerPool option" where
  "hand_over ch w wp =
     (case receivers ch wp of
        [] \<Rightarrow> None
      | i # _ \<Rightarrow> Some (wp\<lparr>threads := (threads wp)[i := Busy w], activeWorkers := activeWorkers wp + 1\<rparr>))"

text \<open>A send on an open channel, \<open>None\<close> if it would block.\<close>

definition offer :: "nat \<Rightarrow> 'w option \<Rightarrow> 'w WorkerPool \<Rightarrow> 'w WorkerPool option" where
  "offer ch w wp =
     (if int (length (channels wp ! ch)) < capacities wp ! ch then Some (wp\<lparr>channels := (channels wp)[ch := channels wp ! ch @ [w]]\<rparr>)
      else if capacities wp ! ch = 0 then hand_over ch w wp
      else None)"

datatype 'w enqueued = SendPanic | QueueFull int | Accepted

text \<open>\<^verbatim>\<open>Enqueue\<close>: sending on a closed channel panics, a queue that cannot take the item is an error.\<close>

definition Enqueue :: "'w option \<Rightarrow> 'w WorkerPool \<Rightarrow> 'w enqueued \<times> 'w WorkerPool" where
  "Enqueue w wp =
     (if current wp \<in> set (closed wp) then (SendPanic, wp\<lparr>crashed := True\<rparr>)
      else (case offer (current wp) w wp of
              Some wp' \<Rightarrow> (Accepted, wp'\<lparr>accepted := accepted wp @ [w]\<rparr>)
            | None \<Rightarrow> (QueueFull (maxQueueSize wp), wp)))"

text \<open>\<^verbatim>\<open>EnqueueBlocking\<close> waits until it can send or its context is done; when both hold, Go chooses. The channel \<open>ch\<close> is the one
  that was \<^verbatim>\<open>wp.workQueue\<close> when the call began. The result is the list of the possible outcomes, empty while the call waits. The
  first argument is the dynamic type check, the second whether the context is done.\<close>

datatype blocking = NotWorkItem | CtxDone | BlockPanic | Sent

definition EnqueueBlocking :: "bool \<Rightarrow> bool \<Rightarrow> nat \<Rightarrow> 'w option \<Rightarrow> 'w WorkerPool \<Rightarrow> (blocking \<times> 'w WorkerPool) list" where
  "EnqueueBlocking is_item ctx_done ch w wp =
     (if \<not> is_item then [(NotWorkItem, wp)]
      else (if ch \<in> set (closed wp) then [(BlockPanic, wp\<lparr>crashed := True\<rparr>)]
            else (case offer ch w wp of Some wp' \<Rightarrow> [(Sent, wp'\<lparr>accepted := accepted wp @ [w]\<rparr>)] | None \<Rightarrow> [])) @
           (if ctx_done then [(CtxDone, wp)] else []))"

definition pool_QueueSize :: "'w WorkerPool \<Rightarrow> int" where
  "pool_QueueSize wp = int (length (queue wp))"

definition ActiveWorkers :: "'w WorkerPool \<Rightarrow> int" where
  "ActiveWorkers wp = activeWorkers wp"

text \<open>\<^verbatim>\<open>Stop\<close> closes the queue and cancels the context once, and then waits: the wait is over when \<open>stopped\<close> holds, which the step
  \<open>stop_returns\<close> records.\<close>

definition Stop :: "'w WorkerPool \<Rightarrow> 'w WorkerPool" where
  "Stop wp =
     (if stopOnce wp then wp
      else wp\<lparr>closed := current wp # closed wp, cancelled := context_id wp # cancelled wp, stopOnce := True\<rparr>)"

definition stopped :: "'w WorkerPool \<Rightarrow> bool" where
  "stopped wp \<longleftrightarrow> stopOnce wp \<and> list_all (\<lambda>t. t = Exited) (threads wp) \<and> drains wp = []"

text \<open>\<^verbatim>\<open>UpdateConfig\<close> holds the lock of the pool throughout. Its first case waits in \<^verbatim>\<open>Stop\<close> before it sets the configuration. Its
  second case calls \<^verbatim>\<open>Start\<close>, which takes the same lock: it never returns. A resize with a negative size panics.\<close>

datatype update = Updated | AwaitsStop | SelfDeadlock | MakePanic

definition UpdateConfig :: "WorkerPoolConfig \<Rightarrow> 'w WorkerPool \<Rightarrow> update \<times> 'w WorkerPool" where
  "UpdateConfig new wp =
     (if \<not> Enabled new \<and> Enabled (pool_config wp) then
        (if stopReturned wp then (Updated, wp\<lparr>pool_config := new\<rparr>)
         else (AwaitsStop, (Stop wp)\<lparr>locked := True, pending := Some new\<rparr>))
      else if Enabled new \<and> \<not> Enabled (pool_config wp) then
        (if QueueSize new < 0 then (MakePanic, wp\<lparr>crashed := True\<rparr>)
         else (SelfDeadlock, wp\<lparr>pool_config := new, workers := pc_Size new, maxQueueSize := QueueSize new,
                 channels := channels wp @ [[]], capacities := capacities wp @ [QueueSize new], current := length (channels wp),
                 context_id := Suc (context_id wp), locked := True\<rparr>))
      else if QueueSize new \<noteq> maxQueueSize wp then
        (if QueueSize new < 0 then (MakePanic, wp\<lparr>crashed := True\<rparr>)
         else (Updated, wp\<lparr>channels := channels wp @ [[]], capacities := capacities wp @ [QueueSize new], current := length (channels wp),
                 maxQueueSize := QueueSize new, drains := drains wp @ [current wp], pool_config := new\<rparr>))
      else (Updated, wp\<lparr>pool_config := new\<rparr>))"

definition processWork :: "('w \<Rightarrow> string option) \<Rightarrow> 'w option \<Rightarrow> string option" where
  "processWork run work = (case work of None \<Rightarrow> Some ''work item is nil'' | Some w \<Rightarrow> run w)"

section \<open>Steps\<close>

text \<open>The steps of worker \<open>i\<close>. \<open>run\<close> is \<^verbatim>\<open>work.Process\<close>.\<close>

inductive worker_step :: "('w \<Rightarrow> string option) \<Rightarrow> 'w WorkerPool \<Rightarrow> 'w WorkerPool \<Rightarrow> bool"
  for run :: "'w \<Rightarrow> string option" where
  wait: "i < length (threads wp) \<Longrightarrow> threads wp ! i = Ready \<Longrightarrow>
    worker_step run wp (wp\<lparr>threads := (threads wp)[i := Waiting (current wp) (context_id wp)]\<rparr>)"
| receive: "i < length (threads wp) \<Longrightarrow> threads wp ! i = Waiting ch c \<Longrightarrow> ch < length (channels wp) \<Longrightarrow> channels wp ! ch = w # ws \<Longrightarrow>
    worker_step run wp (wp\<lparr>threads := (threads wp)[i := Busy w], channels := (channels wp)[ch := ws],
      activeWorkers := activeWorkers wp + 1\<rparr>)"
| finish: "i < length (threads wp) \<Longrightarrow> threads wp ! i = Busy w \<Longrightarrow>
    worker_step run wp (wp\<lparr>threads := (threads wp)[i := Ready], activeWorkers := activeWorkers wp - 1,
      processed := processed wp @ [(w, processWork run w)]\<rparr>)"
| exit: "i < length (threads wp) \<Longrightarrow> threads wp ! i = Waiting ch c \<Longrightarrow>
    c \<in> set (cancelled wp) \<or> ch \<in> set (closed wp) \<and> channels wp ! ch = [] \<Longrightarrow>
    worker_step run wp (wp\<lparr>threads := (threads wp)[i := Exited]\<rparr>)"

text \<open>The inner select of the goroutine that drains an old queue: the item goes to the queue of the moment, or is dropped; if that queue is
  closed, the send panics.\<close>

definition pass_on :: "'w option \<Rightarrow> 'w WorkerPool \<Rightarrow> 'w WorkerPool" where
  "pass_on w wp =
     (if current wp \<in> set (closed wp) then wp\<lparr>crashed := True, dropped := dropped wp @ [w]\<rparr>
      else (case offer (current wp) w wp of Some wp' \<Rightarrow> wp' | None \<Rightarrow> wp\<lparr>dropped := dropped wp @ [w]\<rparr>))"

text \<open>Its loop: an item of the old queue; an item of a sender that waits on an old queue without buffer; the nil that a closed queue yields when it is empty,
  every time again; and the end, when an open queue is empty.\<close>

inductive drain_step :: "'w WorkerPool \<Rightarrow> 'w WorkerPool \<Rightarrow> bool" where
  drain: "ch \<in> set (drains wp) \<Longrightarrow> ch < length (channels wp) \<Longrightarrow> channels wp ! ch = w # ws \<Longrightarrow>
    drain_step wp (pass_on w (wp\<lparr>channels := (channels wp)[ch := ws]\<rparr>))"
| relay: "ch \<in> set (drains wp) \<Longrightarrow> ch < length (channels wp) \<Longrightarrow> capacities wp ! ch = 0 \<Longrightarrow> ch \<notin> set (closed wp) \<Longrightarrow>
    drain_step wp (pass_on w (wp\<lparr>accepted := accepted wp @ [w]\<rparr>))"
| drain_closed: "ch \<in> set (drains wp) \<Longrightarrow> channels wp ! ch = [] \<Longrightarrow> ch \<in> set (closed wp) \<Longrightarrow>
    drain_step wp (pass_on None (wp\<lparr>phantoms := Suc (phantoms wp)\<rparr>))"
| drained: "drains wp = xs @ ch # ys \<Longrightarrow> channels wp ! ch = [] \<Longrightarrow> ch \<notin> set (closed wp) \<Longrightarrow>
    drain_step wp (wp\<lparr>drains := xs @ ys\<rparr>)"

text \<open>The life of a pool: the steps of its goroutines and the calls of its users, until a panic. \<^verbatim>\<open>Start\<close> and \<^verbatim>\<open>UpdateConfig\<close> take the lock.\<close>

inductive pool_step :: "('w \<Rightarrow> string option) \<Rightarrow> 'w WorkerPool \<Rightarrow> 'w WorkerPool \<Rightarrow> bool"
  for run :: "'w \<Rightarrow> string option" where
  work: "\<not> crashed wp \<Longrightarrow> worker_step run wp wp' \<Longrightarrow> pool_step run wp wp'"
| move: "\<not> crashed wp \<Longrightarrow> drain_step wp wp' \<Longrightarrow> pool_step run wp wp'"
| start: "\<not> crashed wp \<Longrightarrow> \<not> locked wp \<Longrightarrow> pool_step run wp (Start wp)"
| enqueue: "\<not> crashed wp \<Longrightarrow> pool_step run wp (snd (Enqueue w wp))"
| enqueue_blocking: "\<not> crashed wp \<Longrightarrow> ch < length (channels wp) \<Longrightarrow> (r, wp') \<in> set (EnqueueBlocking b d ch w wp) \<Longrightarrow> pool_step run wp wp'"
| stop: "\<not> crashed wp \<Longrightarrow> pool_step run wp (Stop wp)"
| stop_returns: "\<not> crashed wp \<Longrightarrow> stopped wp \<Longrightarrow> pool_step run wp (wp\<lparr>stopReturned := True\<rparr>)"
| update: "\<not> crashed wp \<Longrightarrow> \<not> locked wp \<Longrightarrow> pool_step run wp (snd (UpdateConfig new wp))"
| update_returns: "\<not> crashed wp \<Longrightarrow> stopReturned wp \<Longrightarrow> pending wp = Some new \<Longrightarrow>
    pool_step run wp (wp\<lparr>pool_config := new, pending := None, locked := False\<rparr>)"

section \<open>The invariant\<close>

definition busy :: "'w wthread list \<Rightarrow> 'w option multiset" where
  "busy ts = mset (concat (map (\<lambda>t. case t of Busy w \<Rightarrow> [w] | _ \<Rightarrow> []) ts))"

lemma mset_concat_update:
  "i < length xs \<Longrightarrow> mset (concat (xs[i := y])) + mset (xs ! i) = mset (concat xs) + mset y"
  by (induction xs arbitrary: i) (auto split: nat.splits simp: ac_simps)

lemma busy_update:
  assumes "i < length ts"
  shows "busy (ts[i := t]) + (case ts ! i of Busy w \<Rightarrow> {#w#} | _ \<Rightarrow> {#}) = busy ts + (case t of Busy w \<Rightarrow> {#w#} | _ \<Rightarrow> {#})"
  using mset_concat_update [of i "map (\<lambda>t. case t of Busy w \<Rightarrow> [w] | _ \<Rightarrow> []) ts" "case t of Busy w \<Rightarrow> [w] | _ \<Rightarrow> []"] assms
  by (auto simp: busy_def map_update split: wthread.splits)

lemma busy_append [simp]: "busy (ts @ us) = busy ts + busy us"
  by (simp add: busy_def)

lemma busy_Ready [simp]: "busy (replicate n Ready) = {#}"
  by (induction n) (simp_all add: busy_def)

definition items :: "'w WorkerPool \<Rightarrow> 'w option multiset" where
  "items wp = mset (concat (channels wp)) + busy (threads wp) + mset (map fst (processed wp)) + mset (dropped wp)"

text \<open>The bounds and counters, without the balance of the items.\<close>

definition pool_ok :: "'w WorkerPool \<Rightarrow> bool" where
  "pool_ok wp \<longleftrightarrow> Suc (current wp) = length (channels wp) \<and> length (capacities wp) = length (channels wp) \<and>
     capacities wp ! current wp = maxQueueSize wp \<and> 0 \<le> maxQueueSize wp \<and>
     (\<forall>ch < length (channels wp). int (length (channels wp ! ch)) \<le> capacities wp ! ch) \<and>
     activeWorkers wp = int (size (busy (threads wp))) \<and>
     (\<forall>ch \<in> set (drains wp). ch < current wp) \<and> (closed wp \<noteq> [] \<longrightarrow> stopOnce wp) \<and>
     (0 < phantoms wp \<longrightarrow> stopOnce wp \<and> 1 < length (channels wp))"

definition pool_inv :: "'w WorkerPool \<Rightarrow> bool" where
  "pool_inv wp \<longleftrightarrow> pool_ok wp \<and> mset (accepted wp) + replicate_mset (phantoms wp) None = items wp"

lemma receivers_Cons:
  assumes "receivers ch wp = i # is"
  shows "i < length (threads wp) \<and> (\<exists>c. threads wp ! i = Waiting ch c)"
proof -
  have "i \<in> set (receivers ch wp)" using assms by simp
  then show ?thesis by (auto simp: receivers_def split: wthread.splits)
qed

text \<open>A send that succeeds adds the item, within the bounds.\<close>

lemma offer_adds:
  assumes "offer ch w wp = Some wp'" "pool_ok wp" "ch < length (channels wp)"
  shows "pool_ok wp' \<and> items wp' = add_mset w (items wp) \<and> accepted wp' = accepted wp \<and> phantoms wp' = phantoms wp \<and>
    closed wp' = closed wp \<and> crashed wp' = crashed wp"
proof (cases "int (length (channels wp ! ch)) < capacities wp ! ch")
  case True
  then show ?thesis using assms mset_concat_update [of ch "channels wp" "channels wp ! ch @ [w]"]
    by (auto simp: offer_def pool_ok_def items_def nth_list_update)
next
  case False
  then obtain i "is" where i: "receivers ch wp = i # is" "wp' = wp\<lparr>threads := (threads wp)[i := Busy w], activeWorkers := activeWorkers wp + 1\<rparr>"
    using assms by (auto simp: offer_def hand_over_def split: if_splits list.splits)
  then show ?thesis using assms receivers_Cons [OF i(1)] busy_update [of i "threads wp" "Busy w"]
    by (auto simp: pool_ok_def items_def)
qed

lemma pass_on_adds:
  assumes "pool_ok wp"
  shows "pool_ok (pass_on w wp) \<and> items (pass_on w wp) = add_mset w (items wp) \<and> accepted (pass_on w wp) = accepted wp \<and> phantoms (pass_on w wp) = phantoms wp"
proof (cases "current wp \<notin> set (closed wp) \<and> offer (current wp) w wp \<noteq> None")
  case True
  then obtain wp' where "offer (current wp) w wp = Some wp'" by blast
  with True offer_adds [OF this assms] assms show ?thesis by (simp add: pass_on_def pool_ok_def)
next
  case False
  with assms show ?thesis by (auto simp: pass_on_def pool_ok_def items_def)
qed

lemma pool_inv_worker:
  assumes "worker_step run wp wp'" "pool_inv wp"
  shows "pool_inv wp'"
  using assms
proof (induction rule: worker_step.induct)
  case (wait i wp)
  then show ?case
    using busy_update [of i "threads wp" "Waiting (current wp) (context_id wp)"] by (simp add: pool_inv_def pool_ok_def items_def)
next
  case (receive i wp ch c w ws)
  have "mset (concat (channels wp)) = add_mset w (mset (concat ((channels wp)[ch := ws])))"
    using mset_concat_update [of ch "channels wp" ws] receive by simp
  moreover have "busy ((threads wp)[i := Busy w]) = add_mset w (busy (threads wp))"
    using busy_update [of i "threads wp" "Busy w"] receive by simp
  moreover have "int (length ws) \<le> capacities wp ! ch" using receive by (auto simp: pool_inv_def pool_ok_def dest!: spec [of _ ch])
  ultimately show ?case using receive by (auto simp: pool_inv_def pool_ok_def items_def nth_list_update)
next
  case (finish i wp w)
  have "busy (threads wp) = add_mset w (busy ((threads wp)[i := Ready]))"
    using busy_update [of i "threads wp" Ready] finish by simp
  with finish show ?case by (simp add: pool_inv_def pool_ok_def items_def)
next
  case (exit i wp ch c)
  then show ?case
    using busy_update [of i "threads wp" Exited] by (simp add: pool_inv_def pool_ok_def items_def)
qed

lemma pool_inv_drain:
  assumes "drain_step wp wp'" "pool_inv wp"
  shows "pool_inv wp'"
  using assms
proof (induction rule: drain_step.induct)
  case (drain ch wp w ws)
  let ?wp = "wp\<lparr>channels := (channels wp)[ch := ws]\<rparr>"
  have "int (length ws) \<le> capacities wp ! ch" using drain by (auto simp: pool_inv_def pool_ok_def dest!: spec [of _ ch])
  then have "pool_ok ?wp" using drain by (auto simp: pool_inv_def pool_ok_def nth_list_update)
  moreover have "items wp = add_mset w (items ?wp)" using mset_concat_update [of ch "channels wp" ws] drain by (simp add: items_def)
  ultimately show ?case using drain pass_on_adds [of ?wp w] by (simp add: pool_inv_def)
next
  case (relay ch wp w)
  then show ?case using pass_on_adds [of "wp\<lparr>accepted := accepted wp @ [w]\<rparr>" w] by (simp add: pool_inv_def pool_ok_def items_def)
next
  case (drain_closed ch wp)
  let ?wp = "wp\<lparr>phantoms := Suc (phantoms wp)\<rparr>"
  have "ch < current wp" "Suc (current wp) = length (channels wp)" "stopOnce wp" using drain_closed by (auto simp: pool_inv_def pool_ok_def)
  then have "1 < length (channels wp)" by linarith
  then have "pool_ok ?wp" using drain_closed \<open>stopOnce wp\<close> by (simp add: pool_inv_def pool_ok_def)
  with drain_closed pass_on_adds [of ?wp None] show ?case by (simp add: pool_inv_def items_def)
next
  case (drained wp xs ch ys)
  then show ?case by (auto simp: pool_inv_def pool_ok_def items_def)
qed

lemma pool_inv_accept:
  assumes "pool_inv wp" "offer ch w wp = Some wp'" "ch < length (channels wp)"
  shows "pool_inv (wp'\<lparr>accepted := accepted wp @ [w]\<rparr>)"
  using offer_adds [OF assms(2) _ assms(3)] assms(1) by (auto simp: pool_inv_def pool_ok_def items_def)

lemma pool_inv_crash: "pool_inv wp \<Longrightarrow> pool_inv (wp\<lparr>crashed := True\<rparr>)"
  by (simp add: pool_inv_def pool_ok_def items_def)

lemma pool_inv_update:
  assumes "pool_inv wp" shows "pool_inv (snd (UpdateConfig new wp))"
  using assms
  by (auto simp: UpdateConfig_def Stop_def pool_inv_def pool_ok_def items_def nth_append less_Suc_eq)

lemma pool_inv_step:
  assumes "pool_step run wp wp'" "pool_inv wp"
  shows "pool_inv wp'"
  using assms
proof (induction rule: pool_step.induct)
  case (work wp wp')
  then show ?case by (auto intro: pool_inv_worker)
next
  case (move wp wp')
  then show ?case by (auto intro: pool_inv_drain)
next
  case (start wp)
  then show ?case by (simp add: Start_def pool_inv_def pool_ok_def items_def)
next
  case (enqueue wp w)
  have "current wp < length (channels wp)" using enqueue by (simp add: pool_inv_def pool_ok_def)
  with enqueue pool_inv_accept pool_inv_crash show ?case by (auto simp: Enqueue_def split: option.splits)
next
  case (enqueue_blocking wp ch r wp' b d w)
  then show ?case using pool_inv_accept pool_inv_crash by (cases "offer ch w wp") (auto simp: EnqueueBlocking_def split: if_splits)
next
  case (stop wp)
  then show ?case by (simp add: Stop_def pool_inv_def pool_ok_def items_def)
next
  case (update wp new)
  then show ?case by (simp add: pool_inv_update)
qed (simp_all add: pool_inv_def pool_ok_def items_def)

lemma pool_inv_new: "NewWorkerPool env n q = Some wp \<Longrightarrow> pool_inv wp"
  by (auto simp: NewWorkerPool_def Let_def pool_inv_def pool_ok_def items_def busy_def split: if_splits)

lemma pool_inv_reachable:
  assumes "NewWorkerPool env n q = Some wp0" "(pool_step run)\<^sup>*\<^sup>* wp0 wp"
  shows "pool_inv wp"
  using assms(2) pool_inv_new [OF assms(1)] by (induction rule: rtranclp_induct) (auto intro: pool_inv_step)

text \<open>C25. The pool keeps track of its work: whatever its users, its workers and its draining goroutines do, in any interleaving, every item
  accepted is in a queue, with a busy worker, processed, or dropped by a resize, exactly once. What there is beyond the accepted
  items are nil items, as many as were read from a queue that had been closed and then replaced, so none in a pool that was not both
  stopped and given a new queue. The queue never exceeds its size; and the active counter is the number of busy workers.\<close>

theorem pool_conserves_work:
  assumes "NewWorkerPool env n q = Some wp0" "(pool_step run)\<^sup>*\<^sup>* wp0 wp"
  shows "mset (accepted wp) + replicate_mset (phantoms wp) None =
      mset (concat (channels wp)) + busy (threads wp) + mset (map fst (processed wp)) + mset (dropped wp) \<and>
    (0 < phantoms wp \<longrightarrow> stopOnce wp \<and> 1 < length (channels wp)) \<and>
    pool_QueueSize wp \<le> maxQueueSize wp \<and> ActiveWorkers wp = int (size (busy (threads wp)))"
proof -
  have inv: "pool_inv wp" using pool_inv_reachable [OF assms] .
  then have "current wp < length (channels wp)" "capacities wp ! current wp = maxQueueSize wp"
    "\<And>ch. ch < length (channels wp) \<Longrightarrow> int (length (channels wp ! ch)) \<le> capacities wp ! ch" by (simp_all add: pool_inv_def pool_ok_def)
  then have "int (length (channels wp ! current wp)) \<le> maxQueueSize wp" by metis
  with inv show ?thesis by (auto simp: pool_inv_def pool_ok_def items_def pool_QueueSize_def ActiveWorkers_def queue_def)
qed

definition pool1 :: "unit WorkerPool" where
  "pool1 = the (NewWorkerPool (\<lambda>_. []) 1 1)"

lemma pool1_new: "NewWorkerPool (\<lambda>_. []) 1 1 = Some pool1"
  by (simp add: pool1_def NewWorkerPool_def)

theorem pool_conserves_work_witness:
  "\<exists>wp. (pool_step (\<lambda>_. None))\<^sup>*\<^sup>* pool1 wp \<and> accepted wp = [Some ()] \<and>
     {#Some ()#} = mset (concat (channels wp)) + busy (threads wp) + mset (map fst (processed wp)) + mset (dropped wp)"
proof -
  let ?wp = "snd (Enqueue (Some ()) pool1)"
  have "\<not> crashed pool1" by code_simp
  then have run: "(pool_step (\<lambda>_. None))\<^sup>*\<^sup>* pool1 ?wp" by (intro r_into_rtranclp pool_step.enqueue)
  have "accepted ?wp = [Some ()]" "phantoms ?wp = 0" by code_simp+
  with pool_conserves_work [OF pool1_new run] run show ?thesis by (intro exI [of _ ?wp]) simp
qed

section \<open>Progress\<close>

text \<open>A pool in normal use: one queue, open, and every worker in its loop.\<close>

definition in_use :: "'w WorkerPool \<Rightarrow> bool" where
  "in_use wp \<longleftrightarrow> current wp = 0 \<and> length (channels wp) = 1 \<and> closed wp = [] \<and> cancelled wp = [] \<and> drains wp = [] \<and> \<not> crashed wp \<and> \<not> locked wp \<and>
     dropped wp = [] \<and> phantoms wp = 0 \<and> threads wp \<noteq> [] \<and> list_all (\<lambda>t. t \<noteq> Exited \<and> (\<forall>ch c. t = Waiting ch c \<longrightarrow> ch = 0)) (threads wp)"

text \<open>The steps of normal use: those of the workers and of the callers, without a change of the configuration and without a stop.\<close>

inductive use_step :: "('w \<Rightarrow> string option) \<Rightarrow> 'w WorkerPool \<Rightarrow> 'w WorkerPool \<Rightarrow> bool" for run where
  use_work: "worker_step run wp wp' \<Longrightarrow> use_step run wp wp'"
| use_move: "drain_step wp wp' \<Longrightarrow> use_step run wp wp'"
| use_start: "use_step run wp (Start wp)"
| use_enqueue: "use_step run wp (snd (Enqueue w wp))"
| use_blocking: "ch < length (channels wp) \<Longrightarrow> (r, wp') \<in> set (EnqueueBlocking b d ch w wp) \<Longrightarrow> use_step run wp wp'"

lemma in_use_worker:
  assumes "worker_step run wp wp'" "in_use wp"
  shows "in_use wp' \<and> accepted wp' = accepted wp"
  using assms
proof (induction rule: worker_step.induct)
  case (exit i wp ch c)
  then show ?case by (auto simp: in_use_def)
qed (auto simp: in_use_def list_all_length nth_list_update)

lemma in_use_closed: "in_use wp \<Longrightarrow> closed wp = []"
  by (simp add: in_use_def)

lemma in_use_offer:
  assumes "offer ch w wp = Some wp'" "in_use wp"
  shows "in_use (wp'\<lparr>accepted := a\<rparr>)"
proof (cases "int (length (channels wp ! ch)) < capacities wp ! ch")
  case False
  then obtain i "is" where i: "receivers ch wp = i # is" "wp' = wp\<lparr>threads := (threads wp)[i := Busy w], activeWorkers := activeWorkers wp + 1\<rparr>"
    using assms by (auto simp: offer_def hand_over_def split: if_splits list.splits)
  then show ?thesis using assms(2) receivers_Cons [OF i(1)] by (auto simp: in_use_def list_all_length nth_list_update)
qed (use assms in \<open>auto simp: offer_def in_use_def\<close>)

lemma in_use_step:
  assumes "use_step run wp wp'" "in_use wp"
  shows "in_use wp' \<and> pool_step run wp wp'"
  using assms
proof (induction rule: use_step.induct)
  case (use_work wp wp')
  then show ?case using in_use_worker [OF use_work(1)] by (auto simp: in_use_def intro: pool_step.work)
next
  case (use_move wp wp')
  then show ?case by (auto simp: in_use_def elim: drain_step.cases)
next
  case (use_start wp)
  then have "pool_step run wp (Start wp)" by (intro pool_step.start) (auto simp: in_use_def)
  with use_start show ?case by (auto simp: in_use_def Start_def list_all_length nth_append)
next
  case (use_enqueue wp w)
  have "pool_step run wp (snd (Enqueue w wp))" using use_enqueue by (intro pool_step.enqueue) (simp add: in_use_def)
  moreover have "in_use (snd (Enqueue w wp))"
    using use_enqueue in_use_offer in_use_closed [OF use_enqueue(1)] by (auto simp: Enqueue_def split: option.splits)
  ultimately show ?case by blast
next
  case (use_blocking ch wp r wp' b d w)
  have "pool_step run wp wp'" using use_blocking by (auto simp: in_use_def intro: pool_step.enqueue_blocking)
  moreover have "in_use wp'"
    using use_blocking in_use_offer in_use_closed [OF use_blocking(3)] by (cases "offer ch w wp") (auto simp: EnqueueBlocking_def split: if_splits)
  ultimately show ?case by blast
qed

fun thread_weight :: "'w wthread \<Rightarrow> nat" where
  "thread_weight Ready = 1"
| "thread_weight (Waiting ch c) = 0"
| "thread_weight (Busy w) = 2"
| "thread_weight Exited = 0"

definition pool_weight :: "'w WorkerPool \<Rightarrow> nat" where
  "pool_weight wp = 3 * length (channels wp ! 0) + sum_list (map thread_weight (threads wp))"

lemma weight_update:
  "i < length ts \<Longrightarrow> sum_list (map thread_weight (ts[i := t])) + thread_weight (ts ! i) = sum_list (map thread_weight ts) + thread_weight t"
  by (induction ts arbitrary: i) (auto split: nat.splits)

lemma weight_decreases:
  assumes "i < length (threads wp)" "in_use wp" "threads wp ! i = Ready \<or> (\<exists>w. threads wp ! i = Busy w) \<or> channels wp ! 0 \<noteq> []"
  shows "\<exists>wp'. worker_step run wp wp' \<and> pool_weight wp' < pool_weight wp"
proof (cases "threads wp ! i")
  case Ready
  from worker_step.wait [OF assms(1) this, of run] weight_update [OF assms(1), of "Waiting (current wp) (context_id wp)"] Ready
  show ?thesis by (intro exI conjI) (auto simp: pool_weight_def)
next
  case (Waiting ch c)
  with assms(1,2) have ch: "ch = 0" "0 < length (channels wp)" by (auto simp: in_use_def list_all_length)
  from Waiting assms(3) obtain w ws where w: "channels wp ! 0 = w # ws" by (cases "channels wp ! 0") auto
  from worker_step.receive [OF assms(1), of 0 c w ws run] weight_update [OF assms(1), of "Busy w"] Waiting ch w
  show ?thesis by (intro exI conjI) (auto simp: pool_weight_def)
next
  case (Busy w)
  from worker_step.finish [OF assms(1) this, of run] weight_update [OF assms(1), of Ready] Busy
  show ?thesis by (intro exI conjI) (auto simp: pool_weight_def)
next
  case Exited
  with assms(1,2) show ?thesis by (auto simp: in_use_def list_all_length)
qed

lemma in_use_drains:
  assumes "in_use wp" "pool_inv wp"
  shows "\<exists>wp'. (worker_step run)\<^sup>*\<^sup>* wp wp' \<and> accepted wp' = accepted wp \<and> mset (map fst (processed wp')) = mset (accepted wp)"
  using assms
proof (induction "pool_weight wp" arbitrary: wp rule: less_induct)
  case less
  show ?case
  proof (cases "\<exists>i < length (threads wp). threads wp ! i = Ready \<or> (\<exists>w. threads wp ! i = Busy w) \<or> channels wp ! 0 \<noteq> []")
    case True
    then obtain wp1 where wp1: "worker_step run wp wp1" "pool_weight wp1 < pool_weight wp"
      using weight_decreases less.prems(1) by blast
    note use = in_use_worker [OF wp1(1) less.prems(1)]
    obtain wp' where "(worker_step run)\<^sup>*\<^sup>* wp1 wp'" "accepted wp' = accepted wp1" "mset (map fst (processed wp')) = mset (accepted wp1)"
      using less.hyps [OF wp1(2)] use pool_inv_worker [OF wp1(1) less.prems(2)] by blast
    with wp1 use show ?thesis by (metis converse_rtranclp_into_rtranclp)
  next
    case False
    have "threads wp \<noteq> []" using less.prems(1) by (simp add: in_use_def)
    with False have q: "channels wp ! 0 = []" and nb: "\<forall>t \<in> set (threads wp). \<forall>w. t \<noteq> Busy w"
      by (auto simp: in_set_conv_nth)
    have "busy (threads wp) = {#}"
      using nb by (induction "threads wp") (auto simp: busy_def split: wthread.splits)
    moreover have "concat (channels wp) = []"
      using q less.prems(1) by (cases "channels wp") (auto simp: in_use_def)
    ultimately have "mset (accepted wp) = mset (map fst (processed wp))"
      using less.prems by (simp add: pool_inv_def items_def in_use_def)
    then show ?thesis by (intro exI [of _ wp]) simp
  qed
qed

lemma in_use_start:
  "NewWorkerPool env n q = Some wp \<Longrightarrow> 0 < workers wp \<Longrightarrow> in_use (Start wp)"
  by (auto simp: NewWorkerPool_def Let_def Start_def in_use_def list_all_length split: if_splits)

text \<open>C26. Accepted work can get done, as long as the pool is neither stopped nor reconfigured: a started pool with at least one worker can,
  from every state it reaches by steps of its workers and by calls that start workers or add work, process everything it has accepted by steps
  of its workers alone.\<close>

theorem pool_can_drain:
  assumes "NewWorkerPool env n q = Some wp0" "0 < workers wp0" "(use_step run)\<^sup>*\<^sup>* (Start wp0) wp"
  shows "\<exists>wp'. (worker_step run)\<^sup>*\<^sup>* wp wp' \<and> accepted wp' = accepted wp \<and> mset (map fst (processed wp')) = mset (accepted wp)"
proof -
  have start: "in_use (Start wp0)" using in_use_start [OF assms(1,2)] .
  have "\<not> crashed wp0 \<and> \<not> locked wp0" using assms(1) by (auto simp: NewWorkerPool_def Let_def split: if_splits)
  then have "pool_inv (Start wp0)" using pool_inv_step [OF pool_step.start] pool_inv_new [OF assms(1)] by blast
  with assms(3) start have "in_use wp \<and> pool_inv wp"
    by (induction rule: rtranclp_induct) (auto dest: in_use_step intro: pool_inv_step)
  then show ?thesis using in_use_drains by blast
qed

theorem pool_can_drain_witness:
  "\<exists>wp'. (worker_step (\<lambda>_. None))\<^sup>*\<^sup>* (snd (Enqueue (Some ()) (Start pool1))) wp' \<and> mset (map fst (processed wp')) = {#Some ()#}"
proof -
  let ?wp = "snd (Enqueue (Some ()) (Start pool1))"
  have "(use_step (\<lambda>_. None))\<^sup>*\<^sup>* (Start pool1) ?wp" by (intro r_into_rtranclp use_enqueue)
  moreover have "accepted ?wp = [Some ()]" "0 < workers pool1" by code_simp+
  ultimately show ?thesis using pool_can_drain [OF pool1_new, of "\<lambda>_. None" ?wp] by auto
qed

section \<open>Resizing and stopping\<close>

text \<open>All workers wait on an empty channel that is not the current one.\<close>

definition starved :: "nat \<Rightarrow> 'w WorkerPool \<Rightarrow> bool" where
  "starved old wp \<longleftrightarrow> old < length (channels wp) \<and> old \<noteq> current wp \<and> current wp < length (channels wp) \<and> channels wp ! old = [] \<and>
     list_all (\<lambda>t. \<exists>c. t = Waiting old c) (threads wp) \<and> closed wp = [] \<and> cancelled wp = [] \<and> list_all (\<lambda>ch. ch = old) (drains wp) \<and> 0 < capacities wp ! old"

text \<open>Work that is added later, with the goroutines running.\<close>

definition later_step :: "('w \<Rightarrow> string option) \<Rightarrow> 'w WorkerPool \<Rightarrow> 'w WorkerPool \<Rightarrow> bool" where
  "later_step run wp wp' \<longleftrightarrow> worker_step run wp wp' \<or> drain_step wp wp' \<or> (\<exists>w. wp' = snd (Enqueue w wp)) \<or>
     (\<exists>r b d w. (r, wp') \<in> set (EnqueueBlocking b d (current wp) w wp))"

lemma starved_offer:
  assumes "starved old wp" "offer (current wp) w wp = Some wp'"
  shows "starved old (wp'\<lparr>accepted := a\<rparr>) \<and> processed wp' = processed wp"
proof -
  have "receivers (current wp) wp = []"
    using assms(1) by (auto simp: receivers_def starved_def list_all_length filter_empty_conv split: wthread.splits)
  then have "wp' = wp\<lparr>channels := (channels wp)[current wp := channels wp ! current wp @ [w]]\<rparr>"
    using assms(2) by (auto simp: offer_def hand_over_def split: if_splits)
  with assms(1) show ?thesis by (auto simp: starved_def)
qed

lemma starved_step:
  assumes "later_step run wp wp'" "starved old wp"
  shows "starved old wp' \<and> processed wp' = processed wp"
proof -
  consider (w) "worker_step run wp wp'" | (d) "drain_step wp wp'" | (e) w where "wp' = snd (Enqueue w wp)"
    | (b) r b d w where "(r, wp') \<in> set (EnqueueBlocking b d (current wp) w wp)"
    using assms(1) by (auto simp: later_step_def)
  then show ?thesis
  proof cases
    case w
    then show ?thesis using assms(2)
      by (induction rule: worker_step.induct) (auto simp: starved_def list_all_length)
  next
    case d
    then show ?thesis using assms(2) by (cases rule: drain_step.cases) (auto simp: starved_def list_all_iff)
  next
    case e
    have "closed wp = []" using assms(2) by (simp add: starved_def)
    with e assms(2) starved_offer [OF assms(2)] show ?thesis by (auto simp: Enqueue_def split: option.splits)
  next
    case b
    have "closed wp = []" using assms(2) by (simp add: starved_def)
    with b assms(2) starved_offer [OF assms(2)] show ?thesis
      by (cases "offer (current wp) w wp") (auto simp: EnqueueBlocking_def split: if_splits)
  qed
qed

text \<open>A resize starves the workers: when the queue size is changed while all workers wait, they go on waiting on the old
  queue, and no work added afterwards is ever processed.\<close>

theorem resize_starves_workers:
  assumes "list_all (\<lambda>t. \<exists>c. t = Waiting (current wp) c) (threads wp)" "queue wp = []" "pool_inv wp"
    and "closed wp = []" "cancelled wp = []" "drains wp = []" "Enabled (pool_config wp)" "Enabled new"
    and "QueueSize new \<noteq> maxQueueSize wp" "0 \<le> QueueSize new" "0 < maxQueueSize wp"
    and "(later_step run)\<^sup>*\<^sup>* (snd (UpdateConfig new wp)) wp'"
  shows "processed wp' = processed wp"
proof -
  have "starved (current wp) (snd (UpdateConfig new wp)) \<and> processed (snd (UpdateConfig new wp)) = processed wp"
    using assms(1-11) by (auto simp: UpdateConfig_def starved_def queue_def nth_append pool_inv_def pool_ok_def)
  with assms(12) have "starved (current wp) wp' \<and> processed wp' = processed wp"
    by (induction rule: rtranclp_induct) (auto dest: starved_step)
  then show ?thesis by blast
qed

definition waiting1 :: "unit WorkerPool" where
  "waiting1 = (Start pool1)\<lparr>threads := [Waiting 0 0]\<rparr>"

theorem resize_starves_workers_witness:
  "\<exists>wp'. (later_step (\<lambda>_. None))\<^sup>*\<^sup>* (snd (UpdateConfig \<lparr>Enabled = True, pc_Size = 1, QueueSize = 2\<rparr> waiting1)) wp' \<and>
     accepted wp' = [Some ()] \<and> processed wp' = []"
proof -
  let ?new = "\<lparr>Enabled = True, pc_Size = 1, QueueSize = 2\<rparr>"
  let ?wp = "snd (Enqueue (Some ()) (snd (UpdateConfig ?new waiting1)))"
  have run: "(later_step (\<lambda>_. None))\<^sup>*\<^sup>* (snd (UpdateConfig ?new waiting1)) ?wp"
    by (rule r_into_rtranclp) (auto simp: later_step_def)
  have "threads waiting1 = [Waiting 0 0]" "current waiting1 = 0" by code_simp+
  then have waits: "list_all (\<lambda>t. \<exists>c. t = Waiting (current waiting1) c) (threads waiting1)" by simp
  have hyps: "queue waiting1 = []" "pool_inv waiting1" "closed waiting1 = []" "cancelled waiting1 = []" "drains waiting1 = []"
    "Enabled (pool_config waiting1)" "Enabled ?new" "QueueSize ?new \<noteq> maxQueueSize waiting1" "0 \<le> QueueSize ?new" "0 < maxQueueSize waiting1"
    by (simp_all add: waiting1_def pool1_def NewWorkerPool_def Start_def queue_def pool_inv_def pool_ok_def items_def busy_def)
  have "processed waiting1 = []" "accepted ?wp = [Some ()]" by code_simp+
  with resize_starves_workers [OF waits hyps run] run show ?thesis by auto
qed

text \<open>Replacing a queue that was closed leaves a goroutine that never ends: the old queue yields nil for ever, and a call of \<^verbatim>\<open>Stop\<close> that waits for it
  does not return.\<close>

lemma endless_pass_on [simp]: "drains (pass_on w wp) = drains wp" "closed (pass_on w wp) = closed wp"
  by (simp_all add: pass_on_def offer_def hand_over_def split: option.splits list.splits)

lemma endless_step:
  assumes "pool_step run wp wp'" "ch \<in> set (drains wp)" "ch \<in> set (closed wp)"
  shows "ch \<in> set (drains wp') \<and> ch \<in> set (closed wp')"
  using assms
proof (induction rule: pool_step.induct)
  case (work wp wp')
  then show ?case by (auto elim: worker_step.cases)
next
  case (move wp wp')
  from move(2) show ?case using move(3,4) by (cases rule: drain_step.cases) auto
qed (auto simp: Start_def Enqueue_def EnqueueBlocking_def Stop_def UpdateConfig_def offer_def hand_over_def split: option.splits list.splits if_splits)

theorem closed_queue_drained_for_ever:
  assumes "current wp \<in> set (closed wp)" "Enabled (pool_config wp)" "Enabled new" "QueueSize new \<noteq> maxQueueSize wp" "0 \<le> QueueSize new"
    "(pool_step run)\<^sup>*\<^sup>* (snd (UpdateConfig new wp)) wp'"
  shows "current wp \<in> set (drains wp') \<and> \<not> stopped wp'"
proof -
  have "current wp \<in> set (drains (snd (UpdateConfig new wp))) \<and> current wp \<in> set (closed (snd (UpdateConfig new wp)))"
    using assms(1-5) by (simp add: UpdateConfig_def)
  with assms(6) have "current wp \<in> set (drains wp') \<and> current wp \<in> set (closed wp')"
    by (induction rule: rtranclp_induct) (auto dest: endless_step)
  then show ?thesis by (auto simp: stopped_def)
qed

text \<open>A stop is not graceful: a pool can accept an item, be stopped and come to rest with all its workers gone and the
  item still in the closed queue.\<close>

theorem stop_may_lose_work:
  "\<exists>(wp0 :: unit WorkerPool) wp. NewWorkerPool (\<lambda>_. []) 1 1 = Some wp0 \<and> (pool_step (\<lambda>_. None))\<^sup>*\<^sup>* wp0 wp \<and>
     stopped wp \<and> accepted wp = [Some ()] \<and> processed wp = [] \<and> queue wp = [Some ()]"
proof -
  let ?wp1 = "Start pool1"
  let ?wp2 = "?wp1\<lparr>threads := (threads ?wp1)[0 := Waiting (current ?wp1) (context_id ?wp1)]\<rparr>"
  let ?wp3 = "snd (Enqueue (Some ()) ?wp2)"
  let ?wp4 = "Stop ?wp3"
  let ?wp5 = "?wp4\<lparr>threads := (threads ?wp4)[0 := Exited]\<rparr>"
  have calm: "\<not> crashed pool1 \<and> \<not> locked pool1" "\<not> crashed ?wp1" "\<not> crashed ?wp2" "\<not> crashed ?wp3" "\<not> crashed ?wp4" by code_simp+
  have 1: "pool_step (\<lambda>_. None) pool1 ?wp1" using calm by (intro pool_step.start) auto
  have "0 < length (threads ?wp1) \<and> threads ?wp1 ! 0 = Ready" by code_simp
  then have 2: "pool_step (\<lambda>_. None) ?wp1 ?wp2" using calm by (intro pool_step.work worker_step.wait) auto
  have 3: "pool_step (\<lambda>_. None) ?wp2 ?wp3" using calm by (intro pool_step.enqueue)
  have 4: "pool_step (\<lambda>_. None) ?wp3 ?wp4" using calm by (intro pool_step.stop)
  have "0 < length (threads ?wp4) \<and> threads ?wp4 ! 0 = Waiting 0 0 \<and> 0 \<in> set (cancelled ?wp4)" by code_simp
  then have 5: "pool_step (\<lambda>_. None) ?wp4 ?wp5" using calm by (intro pool_step.work worker_step.exit [where ch = 0 and c = 0]) auto
  have "stopped ?wp5 \<and> accepted ?wp5 = [Some ()] \<and> processed ?wp5 = [] \<and> queue ?wp5 = [Some ()]" by code_simp
  moreover have "(pool_step (\<lambda>_. None))\<^sup>*\<^sup>* pool1 ?wp2"
    using r_into_rtranclp [of "pool_step (\<lambda>_. None)", OF 1] 2 by (rule rtranclp.rtrancl_into_rtrancl)
  then have "(pool_step (\<lambda>_. None))\<^sup>*\<^sup>* pool1 ?wp3" using 3 by (rule rtranclp.rtrancl_into_rtrancl)
  then have "(pool_step (\<lambda>_. None))\<^sup>*\<^sup>* pool1 ?wp4" using 4 by (rule rtranclp.rtrancl_into_rtrancl)
  then have "(pool_step (\<lambda>_. None))\<^sup>*\<^sup>* pool1 ?wp5" using 5 by (rule rtranclp.rtrancl_into_rtrancl)
  ultimately show ?thesis using pool1_new by blast
qed

end
