(* ===== verification/GVR_Validation.thy ===== *)
theory GVR_Validation
  imports GVR_Allowlist
begin

text \<open>
  Validation of configured destinations, \<^verbatim>\<open>pkg/config/validation.go\<close>. The two regular expressions of the
  source are written out as syntax trees; \<^verbatim>\<open>MatchString\<close> with both anchors is membership in the language, decided
  by derivatives. An error is its text; \<^verbatim>\<open>%q\<close> of a text is the parameter-free \<open>quoted\<close>, which is
  right for printable ASCII.

  Main results: the expressions accept exactly the DNS-1123 labels and dot-separated sequences of labels, and a valid
  destination can never be mistaken for another one by its key.
\<close>

section \<open>Regular expressions\<close>

datatype regex =
    Nothing
  | Empty
  | Class "char \<Rightarrow> bool"
  | Seq regex regex
  | Alt regex regex
  | Star regex

fun nullable :: "regex \<Rightarrow> bool" where
  "nullable Nothing = False"
| "nullable Empty = True"
| "nullable (Class p) = False"
| "nullable (Seq r s) \<longleftrightarrow> nullable r \<and> nullable s"
| "nullable (Alt r s) \<longleftrightarrow> nullable r \<or> nullable s"
| "nullable (Star r) = True"

fun deriv :: "char \<Rightarrow> regex \<Rightarrow> regex" where
  "deriv c Nothing = Nothing"
| "deriv c Empty = Nothing"
| "deriv c (Class p) = (if p c then Empty else Nothing)"
| "deriv c (Seq r s) = (if nullable r then Alt (Seq (deriv c r) s) (deriv c s) else Seq (deriv c r) s)"
| "deriv c (Alt r s) = Alt (deriv c r) (deriv c s)"
| "deriv c (Star r) = Seq (deriv c r) (Star r)"

definition matches :: "regex \<Rightarrow> string \<Rightarrow> bool" where
  "matches r s = nullable (fold deriv s r)"

definition Opt :: "regex \<Rightarrow> regex" where
  "Opt r = Alt r Empty"

section \<open>The source\<close>

definition alnum :: "char \<Rightarrow> bool" where
  "alnum c \<longleftrightarrow> is_lower_letter c \<or> is_digit_char c"

definition label_char :: "char \<Rightarrow> bool" where
  "label_char c \<longleftrightarrow> c = CHR ''-'' \<or> alnum c"

definition DNS1123LabelRegex :: regex where
  "DNS1123LabelRegex = Seq (Class alnum) (Opt (Seq (Star (Class label_char)) (Class alnum)))"

definition DNS1123SubdomainRegex :: regex where
  "DNS1123SubdomainRegex =
     Seq (Class alnum) (Seq (Opt (Seq (Star (Class label_char)) (Class alnum)))
       (Star (Seq (Class (\<lambda>c. c = CHR ''.'')) (Seq (Class alnum) (Opt (Seq (Star (Class label_char)) (Class alnum)))))))"

definition quoted :: "string \<Rightarrow> string" where
  "quoted s = [CHR 34] @ s @ [CHR 34]"

definition validateDNS1123Subdomain :: "string \<Rightarrow> string option" where
  "validateDNS1123Subdomain name =
     (if name = [] then Some ''name cannot be empty''
      else if \<not> matches DNS1123SubdomainRegex name then
        Some (''invalid DNS-1123 subdomain '' @ quoted name @
          '': must be lowercase alphanumeric with dots or hyphens, must start/end with alphanumeric'')
      else None)"

definition validateDNS1123Label :: "string \<Rightarrow> string option" where
  "validateDNS1123Label name =
     (if name = [] then Some ''name cannot be empty''
      else if \<not> matches DNS1123LabelRegex name then
        Some (''invalid DNS-1123 label '' @ quoted name @
          '': must be lowercase alphanumeric with hyphens, no dots, must start/end with alphanumeric'')
      else None)"

definition ValidateGVR :: "GVR \<Rightarrow> string option" where
  "ValidateGVR gvr =
     (case (if Group gvr \<noteq> [] then validateDNS1123Subdomain (Group gvr) else None) of
        Some err \<Rightarrow> Some (''invalid API group '' @ quoted (Group gvr) @ '': '' @ err)
      | None \<Rightarrow>
          if Version gvr = [] then Some ''API version cannot be empty''
          else if \<not> has_prefix (Version gvr) ''v'' then
            Some (''invalid API version '' @ quoted (Version gvr) @ '': must start with 'v' (e.g., 'v1', 'v1alpha1')'')
          else if Resource gvr = [] then Some ''resource name cannot be empty''
          else case validateDNS1123Label (Resource gvr) of
                 Some err \<Rightarrow> Some (''invalid resource name '' @ quoted (Resource gvr) @ '': '' @ err)
               | None \<Rightarrow> None)"

definition ValidateGVRConfig :: "string \<Rightarrow> string \<Rightarrow> string \<Rightarrow> string option" where
  "ValidateGVRConfig g v r = ValidateGVR \<lparr>Group = g, Version = v, Resource = r\<rparr>"

section \<open>Languages\<close>

fun lang :: "regex \<Rightarrow> string set" where
  "lang Nothing = {}"
| "lang Empty = {[]}"
| "lang (Class p) = {[c] | c. p c}"
| "lang (Seq r s) = {u @ v | u v. u \<in> lang r \<and> v \<in> lang s}"
| "lang (Alt r s) = lang r \<union> lang s"
| "lang (Star r) = {concat us | us. set us \<subseteq> lang r}"

lemma nullable_lang: "nullable r \<longleftrightarrow> [] \<in> lang r"
  by (induction r) (auto intro: exI [of _ "[]"])

lemma star_Cons:
  "c # s \<in> lang (Star r) \<longleftrightarrow> (\<exists>u v. s = u @ v \<and> c # u \<in> lang r \<and> v \<in> lang (Star r))"
proof
  assume "c # s \<in> lang (Star r)"
  then obtain us where us: "concat us = c # s" "set us \<subseteq> lang r" by auto
  define vs where "vs = filter (\<lambda>u. u \<noteq> []) us"
  have "concat vs = concat us" unfolding vs_def by (induction us) auto
  with us(1) have cs: "concat vs = c # s" by simp
  then obtain w ws where vs: "vs = w # ws" by (cases vs) auto
  have "\<forall>w \<in> set vs. w \<noteq> []" by (simp add: vs_def)
  with vs have "w \<noteq> []" by simp
  then obtain u where w: "w = c # u" using cs vs by (cases w) auto
  have "set vs \<subseteq> lang r" using us(2) unfolding vs_def by auto
  then have "c # u \<in> lang r" "concat ws \<in> lang (Star r)" "s = u @ concat ws"
    using vs w cs by auto
  then show "\<exists>u v. s = u @ v \<and> c # u \<in> lang r \<and> v \<in> lang (Star r)" by blast
next
  assume "\<exists>u v. s = u @ v \<and> c # u \<in> lang r \<and> v \<in> lang (Star r)"
  then obtain u us where "s = u @ concat us" "c # u \<in> lang r" "set us \<subseteq> lang r" by auto
  then show "c # s \<in> lang (Star r)" by (auto intro!: exI [of _ "(c # u) # us"])
qed

lemma deriv_lang: "s \<in> lang (deriv c r) \<longleftrightarrow> c # s \<in> lang r"
proof (induction r arbitrary: s)
  case (Seq r1 r2)
  have "c # s \<in> lang (Seq r1 r2) \<longleftrightarrow>
      (\<exists>u v. s = u @ v \<and> c # u \<in> lang r1 \<and> v \<in> lang r2) \<or> ([] \<in> lang r1 \<and> c # s \<in> lang r2)"
    by (auto simp: Cons_eq_append_conv)
  with Seq show ?case by (auto simp: nullable_lang)
next
  case (Star r)
  then show ?case unfolding star_Cons by auto
qed auto

lemma matches_lang: "matches r s \<longleftrightarrow> s \<in> lang r"
  unfolding matches_def by (induction s arbitrary: r) (auto simp: nullable_lang deriv_lang)

section \<open>DNS-1123 names\<close>

definition dns_label :: "string \<Rightarrow> bool" where
  "dns_label s \<longleftrightarrow> s \<noteq> [] \<and> list_all label_char s \<and> hd s \<noteq> CHR ''-'' \<and> last s \<noteq> CHR ''-''"

lemma star_class: "lang (Star (Class p)) = {s. list_all p s}"
proof (intro equalityI subsetI)
  fix s assume "s \<in> lang (Star (Class p))"
  then obtain us where "s = concat us" "set us \<subseteq> {[c] | c. p c}" by auto
  then show "s \<in> {s. list_all p s}" by (induction us arbitrary: s) auto
next
  fix s assume "s \<in> {s. list_all p s}"
  then show "s \<in> lang (Star (Class p))"
    by (auto simp: list_all_iff intro!: exI [of _ "map (\<lambda>c. [c]) s"])
qed

lemma alnum_label: "alnum c \<longleftrightarrow> label_char c \<and> c \<noteq> CHR ''-''"
  by (auto simp: label_char_def alnum_def in_range_def byte_of_def)

lemma seq_class: "c # v \<in> lang (Seq (Class p) r) \<longleftrightarrow> p c \<and> v \<in> lang r"
proof
  assume "p c \<and> v \<in> lang r"
  then have "[c] \<in> lang (Class p)" "v \<in> lang r" "c # v = [c] @ v" by simp_all
  then show "c # v \<in> lang (Seq (Class p) r)" unfolding lang.simps(4) by blast
qed (auto simp: Cons_eq_append_conv)

lemma opt_lang: "v \<in> lang (Opt r) \<longleftrightarrow> v \<in> lang r \<or> v = []"
  by (auto simp: Opt_def)

lemma label_lang: "s \<in> lang DNS1123LabelRegex \<longleftrightarrow> dns_label s"
proof
  assume "s \<in> lang DNS1123LabelRegex"
  then consider c where "alnum c" "s = [c]" | c m d where "alnum c" "list_all label_char m" "alnum d" "s = c # m @ [d]"
    unfolding DNS1123LabelRegex_def Opt_def lang.simps(4,5) star_class by auto
  then show "dns_label s" by cases (auto simp: dns_label_def alnum_label)
next
  assume s: "dns_label s"
  then obtain c s' where s': "s = c # s'" "alnum c" by (cases s) (auto simp: dns_label_def alnum_label)
  show "s \<in> lang DNS1123LabelRegex"
  proof (cases s' rule: rev_cases)
    case Nil
    with s' show ?thesis by (auto simp: DNS1123LabelRegex_def Opt_def)
  next
    case (snoc m d)
    with s s' have "list_all label_char m" "alnum d" by (auto simp: dns_label_def alnum_label)
    then have "m @ [d] \<in> lang (Seq (Star (Class label_char)) (Class alnum))"
      unfolding lang.simps(4) star_class by auto
    with s' snoc show ?thesis by (simp only: DNS1123LabelRegex_def seq_class opt_lang simp_thms)
  qed
qed

lemma subdomain_lang:
  "lang DNS1123SubdomainRegex =
     {u @ concat vs | u vs. u \<in> lang DNS1123LabelRegex \<and> set vs \<subseteq> {CHR ''.'' # w | w. w \<in> lang DNS1123LabelRegex}}"
proof -
  have "lang (Seq (Class (\<lambda>c. c = CHR ''.'')) r) = {CHR ''.'' # w | w. w \<in> lang r}" for r by auto
  then have "lang (Star (Seq (Class (\<lambda>c. c = CHR ''.'')) DNS1123LabelRegex)) =
      {concat vs | vs. set vs \<subseteq> {CHR ''.'' # w | w. w \<in> lang DNS1123LabelRegex}}" by simp
  moreover have "lang (Seq a (Seq b c)) = lang (Seq (Seq a b) c)" for a b c
    by (auto, metis append.assoc, metis append.assoc)
  ultimately show ?thesis
    unfolding DNS1123SubdomainRegex_def DNS1123LabelRegex_def [symmetric]
    by (simp only: DNS1123LabelRegex_def [symmetric]) auto
qed

lemma join_with_Cons: "join_with sep ((x # w) # ws) = x # join_with sep (w # ws)"
  by (cases ws) simp_all

lemma join_dots: "u @ concat (map (\<lambda>w. CHR ''.'' # w) ws) = join_with ''.'' (u # ws)"
  by (induction ws arbitrary: u) (simp_all add: join_with_Cons)

lemma dns_label_no_dot: "dns_label s \<Longrightarrow> CHR ''.'' \<notin> set s"
proof -
  have "\<not> label_char CHR ''.''" by code_simp
  then show "dns_label s \<Longrightarrow> CHR ''.'' \<notin> set s" by (auto simp: dns_label_def list_all_iff)
qed

lemma subdomain_iff: "s \<in> lang DNS1123SubdomainRegex \<longleftrightarrow> list_all dns_label (split_on CHR ''.'' s)"
proof
  assume "s \<in> lang DNS1123SubdomainRegex"
  then obtain u vs where s: "s = u @ concat vs" "dns_label u" "set vs \<subseteq> {CHR ''.'' # w | w. dns_label w}"
    unfolding subdomain_lang label_lang by blast
  define ws where "ws = map tl vs"
  have ws: "vs = map (\<lambda>w. CHR ''.'' # w) ws" "list_all dns_label ws"
    using s(3) unfolding ws_def by (induction vs) auto
  with s have "s = join_with ''.'' (u # ws)" by (simp add: join_dots)
  moreover have "split_on CHR ''.'' (join_with ''.'' (u # ws)) = u # ws"
    using s(2) ws(2) by (intro split_join) (auto simp: list_all_iff dns_label_no_dot)
  ultimately show "list_all dns_label (split_on CHR ''.'' s)" using s(2) ws(2) by simp
next
  assume l: "list_all dns_label (split_on CHR ''.'' s)"
  obtain u ws where uw: "split_on CHR ''.'' s = u # ws" by (cases "split_on CHR ''.'' s") auto
  then have "s = u @ concat (map (\<lambda>w. CHR ''.'' # w) ws)" using join_split_on [of "CHR ''.''" s] by (simp add: join_dots)
  moreover have "set (map (\<lambda>w. CHR ''.'' # w) ws) \<subseteq> {CHR ''.'' # w | w. dns_label w}" "dns_label u"
    using l uw by (auto simp: list_all_iff)
  ultimately show "s \<in> lang DNS1123SubdomainRegex"
    unfolding subdomain_lang label_lang by blast
qed

section \<open>The properties\<close>

text \<open>The two expressions accept what they are named after: a name passes the label check exactly when it is not
  empty, consists of lower-case letters, digits and hyphens and neither starts nor ends with a hyphen; it
  passes the subdomain check exactly when it is a sequence of such labels separated by dots.\<close>

theorem dns1123_checks:
  "(validateDNS1123Label name = None \<longleftrightarrow> dns_label name) \<and>
   (validateDNS1123Subdomain name = None \<longleftrightarrow> list_all dns_label (split_on CHR ''.'' name))"
  by (auto simp: validateDNS1123Label_def validateDNS1123Subdomain_def matches_lang label_lang subdomain_iff dns_label_def)

lemma ValidateGVR_None:
  "ValidateGVR gvr = None \<longleftrightarrow>
     (Group gvr = [] \<or> list_all dns_label (split_on CHR ''.'' (Group gvr))) \<and> has_prefix (Version gvr) ''v'' \<and> dns_label (Resource gvr)"
proof -
  have "validateDNS1123Subdomain (Group gvr) = None \<longleftrightarrow> list_all dns_label (split_on CHR ''.'' (Group gvr))"
    "validateDNS1123Label (Resource gvr) = None \<longleftrightarrow> dns_label (Resource gvr)"
    by (auto simp: validateDNS1123Label_def validateDNS1123Subdomain_def matches_lang label_lang subdomain_iff dns_label_def)
  then show ?thesis
    by (auto simp: ValidateGVR_def dns_label_def has_prefix_def split: option.splits if_splits)
qed

lemma dns_label_no_slash: "dns_label s \<Longrightarrow> CHR ''/'' \<notin> set s"
proof -
  have "\<not> label_char CHR ''/''" by code_simp
  then show "dns_label s \<Longrightarrow> CHR ''/'' \<notin> set s" by (auto simp: dns_label_def list_all_iff)
qed

lemma in_split_on: "x \<in> set s \<Longrightarrow> x \<noteq> c \<Longrightarrow> \<exists>w \<in> set (split_on c s). x \<in> set w"
proof (induction s)
  case (Cons y s)
  then show ?case by (cases "split_on c s") auto
qed simp

lemma subdomain_no_slash: "list_all dns_label (split_on CHR ''.'' s) \<Longrightarrow> CHR ''/'' \<notin> set s"
  using in_split_on [of "CHR ''/''" s "CHR ''.''"] by (auto simp: list_all_iff dest: dns_label_no_slash)

text \<open>Valid destinations are told apart by their key: when two destinations are valid, have versions without a
  slash, and have the same key in the allowlist, they are the same destination. So allowing one never allows
  another.\<close>

theorem valid_keys_unique:
  assumes "ValidateGVR g1 = None" "ValidateGVR g2 = None"
    and "CHR ''/'' \<notin> set (Version g1)" "CHR ''/'' \<notin> set (Version g2)" "buildGVRKey g1 = buildGVRKey g2"
  shows "g1 = g2"
proof -
  define parts where "parts = (\<lambda>g :: GVR. (if Group g = [] then [] else [Group g]) @ [Version g, Resource g])"
  have split: "split_on CHR ''/'' (buildGVRKey g) = parts g" if "ValidateGVR g = None" "CHR ''/'' \<notin> set (Version g)" for g :: GVR
  proof -
    have "buildGVRKey g = join_with ''/'' (parts g)" by (simp add: buildGVRKey_def parts_def)
    moreover have "\<forall>w \<in> set (parts g). CHR ''/'' \<notin> set w"
      using that by (auto simp: parts_def ValidateGVR_None dns_label_no_slash subdomain_no_slash)
    moreover have "parts g \<noteq> []" by (simp add: parts_def)
    ultimately show ?thesis by (simp add: split_join)
  qed
  have "parts g1 = parts g2" using assms split by metis
  then show ?thesis by (cases g1; cases g2) (auto simp: parts_def split: if_splits)
qed

theorem valid_keys_unique_witness:
  "ValidateGVR \<lparr>Group = ''zen.kube-zen.io'', Version = ''v1'', Resource = ''observations''\<rparr> = None \<and>
   buildGVRKey \<lparr>Group = ''zen.kube-zen.io'', Version = ''v1'', Resource = ''observations''\<rparr> \<noteq>
   buildGVRKey \<lparr>Group = [], Version = ''v1'', Resource = ''secrets''\<rparr>"
proof -
  let ?a = "\<lparr>Group = ''zen.kube-zen.io'', Version = ''v1'', Resource = ''observations''\<rparr>"
  let ?b = "\<lparr>Group = [], Version = ''v1'', Resource = ''secrets''\<rparr>"
  have "ValidateGVR ?a = None" "ValidateGVR ?b = None" by code_simp+
  then show ?thesis using valid_keys_unique [of ?a ?b] by auto
qed

end
