(* ===== verification/Ingester_Config.thy ===== *)
theory Ingester_Config
  imports GVR_Validation Event_Config K8s_Unstructured
begin

text \<open>
  From an Ingester resource to configurations: the extractors of \<^verbatim>\<open>pkg/config/ingester_extractors.go\<close>, the
  conversions of \<^verbatim>\<open>pkg/config/ingester_loader.go\<close> and \<^verbatim>\<open>pkg/config/ingester_to_generic_converter.go\<close>. The types
  of the package are those of the source, with the suffix \<open>_i\<close> where the package of the adapters has a type of
  the same name; \<open>GVRConfig\<close>, \<open>LogPattern\<close> and \<open>LogsConfig\<close> have the same fields in both packages and are
  shared. Log messages are left out.
\<close>

section \<open>Types\<close>

record DestinationConfig =
  dst_type :: string
  dst_value :: string
  dst_gvr :: GVR

record InformerConfig_i =
  ii_gvr :: GVRConfig
  ii_namespace :: string
  ii_label_selector :: string
  ii_resync :: string

record AuthConfig_i =
  ia_type :: string
  ia_secretRef :: string

record WebhookConfig_i =
  iw_path :: string
  iw_port :: int
  iw_buffer :: int
  iw_auth :: "AuthConfig_i option"
  iw_rate :: "int option"

record FieldMapping_i =
  if_from :: string
  if_to :: string
  if_transform :: string

record NormalizationConfig_i =
  in_domain :: string
  in_type :: string
  in_priority :: "(string, f64) gomap"
  in_mapping :: "FieldMapping_i list"

record FilterConfig_i =
  ifl_expression :: string
  ifl_minPriority :: f64
  ifl_include :: "string list"
  ifl_exclude :: "string list"

record DedupConfig_i =
  id_enabled :: bool
  id_window :: string
  id_strategy :: string
  id_fields :: "string list"
  id_max :: int

record CustomThreshold_i =
  ict_name :: string
  ict_field :: string
  ict_operator :: string
  ict_value :: string
  ict_message :: string

type_synonym ThresholdRange = "f64 \<times> f64"

record OptimizationThresholds =
  ot_dedup :: "ThresholdRange option"
  ot_low :: "ThresholdRange option"
  ot_perMinute :: "ThresholdRange option"
  ot_custom :: "CustomThreshold_i list"

record ProcessingThreshold =
  pt_action :: string
  pt_warning :: f64
  pt_critical :: f64
  pt_description :: string

record OptimizationConfig =
  op_order :: string
  op_thresholds :: "OptimizationThresholds option"
  op_processing :: "(string, ProcessingThreshold) gomap"

record IngesterConfig =
  ic_namespace :: string
  ic_name :: string
  ic_source :: string
  ic_ingester :: string
  ic_informer :: "InformerConfig_i option"
  ic_webhook :: "WebhookConfig_i option"
  ic_logs :: "LogsConfig option"
  ic_normalization :: "NormalizationConfig_i option"
  ic_filter :: "FilterConfig_i option"
  ic_dedup :: "DedupConfig_i option"
  ic_processing :: "string option"
  ic_optimization :: "OptimizationConfig option"
  ic_destinations :: "DestinationConfig list"

definition empty_config :: "string \<Rightarrow> string \<Rightarrow> IngesterConfig" where
  "empty_config namespace name =
     \<lparr>ic_namespace = namespace, ic_name = name, ic_source = [], ic_ingester = [], ic_informer = None, ic_webhook = None,
      ic_logs = None, ic_normalization = None, ic_filter = None, ic_dedup = None, ic_processing = None,
      ic_optimization = None, ic_destinations = []\<rparr>"

section \<open>Extractors\<close>

definition getString :: "obj \<Rightarrow> string \<Rightarrow> string" where
  "getString m key = (case as_string (idx m key) of Some v \<Rightarrow> v | None \<Rightarrow> [])"

definition getBool :: "obj \<Rightarrow> string \<Rightarrow> bool" where
  "getBool m key = (case as_bool (idx m key) of Some v \<Rightarrow> v | None \<Rightarrow> False)"

abbreviation map_at :: "obj \<Rightarrow> string \<Rightarrow> obj option" where
  "map_at m key \<equiv> as_map (idx m key)"

abbreviation list_at :: "obj \<Rightarrow> string \<Rightarrow> val list" where
  "list_at m key \<equiv> (case as_list (idx m key) of Some vs \<Rightarrow> vs | None \<Rightarrow> [])"

text \<open>A float field, zero when it is missing or of another type.\<close>

definition float_at :: "obj \<Rightarrow> string \<Rightarrow> f64" where
  "float_at m key = (case as_float (idx m key) of Some x \<Rightarrow> x | None \<Rightarrow> Fin 0)"

definition resolveDestinationGVR :: "(string \<Rightarrow> string) \<Rightarrow> obj \<Rightarrow> string \<Rightarrow> GVR" where
  "resolveDestinationGVR getenv destMap destValue =
     (let none = \<lparr>Group = [], Version = [], Resource = []\<rparr>;
          by_value = (if destValue \<noteq> [] then ResolveDestinationGVR getenv destValue else none)
      in case map_at destMap ''gvr'' of
           None \<Rightarrow> by_value
         | Some gvrMap \<Rightarrow>
             (let g = getString gvrMap ''group''; v = getString gvrMap ''version''; r = getString gvrMap ''resource''
              in if v \<noteq> [] \<and> r \<noteq> [] then
                   (if ValidateGVRConfig g v r \<noteq> None then none else \<lparr>Group = g, Version = v, Resource = r\<rparr>)
                 else by_value))"

definition extractDestination :: "(string \<Rightarrow> string) \<Rightarrow> val \<Rightarrow> DestinationConfig option" where
  "extractDestination getenv dest =
     (case as_map dest of None \<Rightarrow> None
      | Some destMap \<Rightarrow>
          (let destType = getString destMap ''type''; destValue = getString destMap ''value''
           in if destType = ''crd'' then
                (let gvr = resolveDestinationGVR getenv destMap destValue
                 in if Resource gvr \<noteq> [] then Some \<lparr>dst_type = destType, dst_value = destValue, dst_gvr = gvr\<rparr> else None)
              else None))"

definition extractDestinations :: "(string \<Rightarrow> string) \<Rightarrow> val list \<Rightarrow> DestinationConfig list" where
  "extractDestinations getenv destinations = List.map_filter (extractDestination getenv) destinations"

definition extractNormalization :: "obj \<Rightarrow> NormalizationConfig_i option" where
  "extractNormalization spec =
     (case map_at spec ''normalization'' of None \<Rightarrow> None
      | Some nrm \<Rightarrow> Some
          \<lparr>in_domain = getString nrm ''domain'', in_type = getString nrm ''type'',
           in_priority = (case map_at nrm ''priority'' of None \<Rightarrow> []
             | Some priority \<Rightarrow> List.map_filter (\<lambda>(k, v). map_option (Pair k) (as_float v)) priority),
           in_mapping = List.map_filter (\<lambda>fm. case as_map fm of None \<Rightarrow> None
             | Some m \<Rightarrow> Some \<lparr>if_from = getString m ''from'', if_to = getString m ''to'', if_transform = getString m ''transform''\<rparr>)
             (list_at nrm ''fieldMapping'')\<rparr>)"

abbreviation strings_at :: "obj \<Rightarrow> string \<Rightarrow> string list" where
  "strings_at m key \<equiv> List.map_filter as_string (list_at m key)"

text \<open>The body shared by \<^verbatim>\<open>extractFilterFromProcessing\<close> and \<^verbatim>\<open>extractFilterFromLegacy\<close>, which read it at different keys.\<close>

definition extractFilter :: "string \<Rightarrow> obj \<Rightarrow> FilterConfig_i option" where
  "extractFilter key m =
     (case map_at m key of None \<Rightarrow> None
      | Some flt \<Rightarrow> Some
          \<lparr>ifl_expression = getString flt ''expression'', ifl_minPriority = float_at flt ''minPriority'',
           ifl_include = strings_at flt ''includeNamespaces'', ifl_exclude = strings_at flt ''excludeNamespaces''\<rparr>)"

definition extractFilterFromProcessing :: "obj \<Rightarrow> FilterConfig_i option" where
  "extractFilterFromProcessing = extractFilter ''filter''"

definition extractFilterFromLegacy :: "obj \<Rightarrow> FilterConfig_i option" where
  "extractFilterFromLegacy = extractFilter ''filters''"

definition dedup_strategy :: "obj \<Rightarrow> string" where
  "dedup_strategy dedup = (let s = getString dedup ''strategy'' in if s = [] then ''fingerprint'' else s)"

definition extractDedupFromProcessing :: "obj \<Rightarrow> DedupConfig_i option" where
  "extractDedupFromProcessing processing =
     (case map_at processing ''dedup'' of None \<Rightarrow> None
      | Some dedup \<Rightarrow> Some
          \<lparr>id_enabled = (case as_bool (idx dedup ''enabled'') of Some b \<Rightarrow> b | None \<Rightarrow> True),
           id_window = getString dedup ''window'', id_strategy = dedup_strategy dedup,
           id_fields = strings_at dedup ''fields'',
           id_max = (case as_float (idx dedup ''maxEventsPerWindow'') of Some x \<Rightarrow> f64_to_int x | None \<Rightarrow> 0)\<rparr>)"

definition extractDedupFromLegacy :: "obj \<Rightarrow> DedupConfig_i option" where
  "extractDedupFromLegacy spec =
     (case map_at spec ''deduplication'' of None \<Rightarrow> None
      | Some dedup \<Rightarrow> Some
          \<lparr>id_enabled = getBool dedup ''enabled'', id_window = getString dedup ''window'',
           id_strategy = dedup_strategy dedup, id_fields = strings_at dedup ''fields'', id_max = 0\<rparr>)"

definition extractProcessingConfig :: "obj \<Rightarrow> string option \<times> FilterConfig_i option \<times> DedupConfig_i option" where
  "extractProcessingConfig spec =
     (let (processingConfig, filterConfig, dedupConfig) =
            (case map_at spec ''processing'' of
               None \<Rightarrow> (None, None, None)
             | Some processing \<Rightarrow> (Some (getString processing ''order''), extractFilterFromProcessing processing,
                                  extractDedupFromProcessing processing))
      in (processingConfig,
          (case filterConfig of None \<Rightarrow> extractFilterFromLegacy spec | Some f \<Rightarrow> Some f),
          (case dedupConfig of None \<Rightarrow> extractDedupFromLegacy spec | Some d \<Rightarrow> Some d)))"

definition extractRange :: "obj \<Rightarrow> string \<Rightarrow> ThresholdRange option" where
  "extractRange thresholds key =
     map_option (\<lambda>m. (float_at m ''warning'', float_at m ''critical'')) (map_at thresholds key)"

definition extractOptimizationThresholds :: "obj \<Rightarrow> OptimizationThresholds" where
  "extractOptimizationThresholds thresholds =
     \<lparr>ot_dedup = extractRange thresholds ''dedupEffectiveness'', ot_low = extractRange thresholds ''lowSeverityPercent'',
      ot_perMinute = extractRange thresholds ''observationsPerMinute'',
      ot_custom = List.map_filter (\<lambda>c. case as_map c of None \<Rightarrow> None
        | Some m \<Rightarrow> Some \<lparr>ict_name = getString m ''name'', ict_field = getString m ''field'',
            ict_operator = getString m ''operator'', ict_value = getString m ''value'', ict_message = getString m ''message''\<rparr>)
        (list_at thresholds ''custom'')\<rparr>"

definition extractOptimizationConfig :: "obj \<Rightarrow> OptimizationConfig option" where
  "extractOptimizationConfig spec =
     (case map_at spec ''optimization'' of None \<Rightarrow> None
      | Some optimization \<Rightarrow> Some
          \<lparr>op_order = getString optimization ''order'',
           op_thresholds = map_option extractOptimizationThresholds (map_at optimization ''thresholds''),
           op_processing = (case map_at optimization ''processing'' of None \<Rightarrow> []
             | Some processing \<Rightarrow> List.map_filter (\<lambda>(key, v). case as_map v of None \<Rightarrow> None
                 | Some m \<Rightarrow> Some (key, \<lparr>pt_action = getString m ''action'', pt_warning = float_at m ''warning'',
                     pt_critical = float_at m ''critical'', pt_description = getString m ''description''\<rparr>)) processing)\<rparr>)"

definition extractInformerConfigFromMap :: "obj \<Rightarrow> InformerConfig_i option" where
  "extractInformerConfigFromMap sourceMap =
     (case map_at sourceMap ''informer'' of None \<Rightarrow> None
      | Some informer \<Rightarrow> Some
          \<lparr>ii_gvr = (case map_at informer ''gvr'' of
               None \<Rightarrow> \<lparr>gc_group = [], gc_version = [], gc_resource = []\<rparr>
             | Some gvr \<Rightarrow> \<lparr>gc_group = getString gvr ''group'', gc_version = getString gvr ''version'', gc_resource = getString gvr ''resource''\<rparr>),
           ii_namespace = getString informer ''namespace'', ii_label_selector = getString informer ''labelSelector'',
           ii_resync = getString informer ''resyncPeriod''\<rparr>)"

definition DefaultLogsSinceSeconds :: int where "DefaultLogsSinceSeconds = 300"

definition extractLogsConfigFromMap :: "obj \<Rightarrow> LogsConfig option" where
  "extractLogsConfigFromMap sourceMap =
     (case map_at sourceMap ''logs'' of None \<Rightarrow> None
      | Some logs \<Rightarrow> Some
          \<lparr>lc_selector = getString logs ''podSelector'', lc_container = getString logs ''container'',
           lc_patterns = List.map_filter (\<lambda>p. case as_map p of None \<Rightarrow> None
             | Some m \<Rightarrow> Some \<lparr>lp_regex = getString m ''regex'', lp_type = getString m ''type'', lp_priority = float_at m ''priority''\<rparr>)
             (list_at logs ''patterns''),
           lc_since = (case idx logs ''sinceSeconds'' of
               VInt n \<Rightarrow> n | VFloat x \<Rightarrow> f64_to_int x | _ \<Rightarrow> DefaultLogsSinceSeconds),
           lc_poll = (let p = getString logs ''pollInterval'' in if p = [] then ''1s'' else p)\<rparr>)"

definition extractWebhookConfigFromMap :: "obj \<Rightarrow> WebhookConfig_i option" where
  "extractWebhookConfigFromMap sourceMap =
     (case map_at sourceMap ''webhook'' of None \<Rightarrow> None
      | Some webhook \<Rightarrow> Some
          \<lparr>iw_path = getString webhook ''path'',
           iw_port = (case idx webhook ''port'' of
               VInt n \<Rightarrow> n
             | VStr s \<Rightarrow> (case parse_int s of Some n \<Rightarrow> n | None \<Rightarrow> 8080)
             | _ \<Rightarrow> 8080),
           iw_buffer = (case as_int (idx webhook ''bufferSize'') of Some n \<Rightarrow> n | None \<Rightarrow> 0),
           iw_auth = map_option (\<lambda>auth. \<lparr>ia_type = getString auth ''type'', ia_secretRef = getString auth ''secretRef''\<rparr>) (map_at webhook ''auth''),
           iw_rate = Option.bind (map_at webhook ''rateLimit'') (\<lambda>rl. as_int (idx rl ''requestsPerMinute''))\<rparr>)"

text \<open>The versions for a single-source spec have the same bodies.\<close>

definition extractInformerConfig :: "obj \<Rightarrow> InformerConfig_i option" where
  "extractInformerConfig spec = extractInformerConfigFromMap spec"

definition extractWebhookConfig :: "obj \<Rightarrow> WebhookConfig_i option" where
  "extractWebhookConfig spec = extractWebhookConfigFromMap spec"

definition extractLogsConfig :: "obj \<Rightarrow> LogsConfig option" where
  "extractLogsConfig spec = extractLogsConfigFromMap spec"

definition extractSourceConfig :: "IngesterConfig \<Rightarrow> obj \<Rightarrow> string \<Rightarrow> IngesterConfig" where
  "extractSourceConfig config sourceMap sourceType =
     (if sourceType = ''informer'' then config\<lparr>ic_informer := extractInformerConfigFromMap sourceMap\<rparr>
      else if sourceType = ''logs'' then config\<lparr>ic_logs := extractLogsConfigFromMap sourceMap\<rparr>
      else if sourceType = ''webhook'' then config\<lparr>ic_webhook := extractWebhookConfigFromMap sourceMap\<rparr>
      else config)"

section \<open>Conversion of an Ingester resource\<close>

definition extractSharedConfig :: "(string \<Rightarrow> string) \<Rightarrow> obj \<Rightarrow> string \<Rightarrow> string \<Rightarrow> IngesterConfig option" where
  "extractSharedConfig getenv spec namespace name =
     (case as_list (idx spec ''destinations'') of
        None \<Rightarrow> None
      | Some destinations \<Rightarrow>
          (let dests = extractDestinations getenv destinations;
               (processing, flt, dedup) = extractProcessingConfig spec
           in if destinations = [] \<or> dests = [] then None
              else Some ((empty_config namespace name)
                \<lparr>ic_destinations := dests, ic_normalization := extractNormalization spec, ic_processing := processing,
                 ic_filter := flt, ic_dedup := dedup, ic_optimization := extractOptimizationConfig spec\<rparr>)))"

text \<open>One entry of \<^verbatim>\<open>spec.sources\<close>; \<open>None\<close> when it is skipped.\<close>

definition convertSource :: "IngesterConfig \<Rightarrow> string \<Rightarrow> string \<Rightarrow> val \<Rightarrow> IngesterConfig option" where
  "convertSource shared namespace name sourceItem =
     (case as_map sourceItem of None \<Rightarrow> None
      | Some sourceMap \<Rightarrow>
          (let sourceName = getString sourceMap ''name''; sourceType = getString sourceMap ''type''
           in if sourceName = [] \<or> sourceType = [] then None
              else (let config = extractSourceConfig
                          (shared\<lparr>ic_namespace := namespace, ic_name := name,
                             ic_source := namespace @ ''/'' @ name @ ''/'' @ sourceName, ic_ingester := sourceType,
                             ic_informer := None, ic_webhook := None, ic_logs := None\<rparr>) sourceMap sourceType
                    in if ic_informer config = None \<and> ic_logs config = None \<and> ic_webhook config = None then None
                       else if ic_destinations config = [] then None
                       else Some config)))"

definition convertMultiSourceIngester :: "(string \<Rightarrow> string) \<Rightarrow> uapi \<Rightarrow> obj \<Rightarrow> obj \<Rightarrow> val list \<Rightarrow> IngesterConfig list" where
  "convertMultiSourceIngester getenv u ob spec sources =
     (let namespace = GetNamespace u ob; name = GetName u ob
      in case extractSharedConfig getenv spec namespace name of
           None \<Rightarrow> []
         | Some shared \<Rightarrow> List.map_filter (convertSource shared namespace name) sources)"

text \<open>The required fields of a single-source spec: source, type and destinations.\<close>

definition non_nil :: "string option \<Rightarrow> string option" where
  "non_nil r = (case r of None \<Rightarrow> None | Some s \<Rightarrow> if s = [] then None else Some s)"

definition required_fields :: "(string \<Rightarrow> string) \<Rightarrow> obj \<Rightarrow> (string \<times> string \<times> DestinationConfig list) option" where
  "required_fields getenv spec =
     (case non_nil (as_string (idx spec ''source'')) of None \<Rightarrow> None
      | Some source \<Rightarrow>
          (case non_nil (as_string (idx spec ''ingester'')) of None \<Rightarrow> None
           | Some ingester \<Rightarrow>
               (case as_list (idx spec ''destinations'') of None \<Rightarrow> None
                | Some destinations \<Rightarrow>
                    (let dests = extractDestinations getenv destinations
                     in if destinations = [] \<or> dests = [] then None else Some (source, ingester, dests)))))"

definition with_source :: "obj \<Rightarrow> IngesterConfig \<Rightarrow> IngesterConfig" where
  "with_source spec config =
     config\<lparr>ic_informer := extractInformerConfig spec, ic_webhook := extractWebhookConfig spec, ic_logs := extractLogsConfig spec\<rparr>"

definition convertLegacyIngester :: "(string \<Rightarrow> string) \<Rightarrow> uapi \<Rightarrow> obj \<Rightarrow> obj \<Rightarrow> IngesterConfig option" where
  "convertLegacyIngester getenv u ob spec =
     (case required_fields getenv spec of None \<Rightarrow> None
      | Some (source, ingester, dests) \<Rightarrow>
          (let config = (empty_config (GetNamespace u ob) (GetName u ob))
                 \<lparr>ic_source := source, ic_ingester := ingester, ic_destinations := dests\<rparr>;
               config1 = (case extractSharedConfig getenv spec (GetNamespace u ob) (GetName u ob) of
                   None \<Rightarrow> config
                 | Some shared \<Rightarrow> config\<lparr>ic_normalization := ic_normalization shared, ic_filter := ic_filter shared,
                     ic_dedup := ic_dedup shared, ic_processing := ic_processing shared, ic_optimization := ic_optimization shared\<rparr>)
           in Some (with_source spec config1)))"

definition ConvertToIngesterConfigs :: "(string \<Rightarrow> string) \<Rightarrow> uapi \<Rightarrow> obj \<Rightarrow> IngesterConfig list" where
  "ConvertToIngesterConfigs getenv u ob =
     (case map_at ob ''spec'' of None \<Rightarrow> []
      | Some spec \<Rightarrow>
          (case as_list (idx spec ''sources'') of
             Some (s # ss) \<Rightarrow> convertMultiSourceIngester getenv u ob spec (s # ss)
           | _ \<Rightarrow> (case convertLegacyIngester getenv u ob spec of None \<Rightarrow> [] | Some c \<Rightarrow> [c])))"

definition ConvertToIngesterConfig :: "(string \<Rightarrow> string) \<Rightarrow> uapi \<Rightarrow> obj \<Rightarrow> IngesterConfig option" where
  "ConvertToIngesterConfig getenv u ob =
     (case map_at ob ''spec'' of None \<Rightarrow> None
      | Some spec \<Rightarrow>
          (case required_fields getenv spec of None \<Rightarrow> None
           | Some (source, ingester, dests) \<Rightarrow>
               (let (processing, flt, dedup) = extractProcessingConfig spec
                in Some (with_source spec ((empty_config (GetNamespace u ob) (GetName u ob))
                     \<lparr>ic_source := source, ic_ingester := ingester, ic_destinations := dests,
                      ic_normalization := extractNormalization spec, ic_processing := processing,
                      ic_filter := flt, ic_dedup := dedup, ic_optimization := extractOptimizationConfig spec\<rparr>)))))"

section \<open>Conversion for the adapters\<close>

definition convert_informer :: "InformerConfig_i \<Rightarrow> InformerConfig" where
  "convert_informer c =
     \<lparr>if_gvr = ii_gvr c, if_namespace = ii_namespace c, if_label_selector = ii_label_selector c, if_field_selector = [],
      if_resync = ii_resync c\<rparr>"

definition convert_webhook :: "WebhookConfig_i \<Rightarrow> WebhookConfig" where
  "convert_webhook c =
     \<lparr>wh_path = iw_path c, wh_port = iw_port c, wh_buffer = iw_buffer c,
      wh_auth = map_option (\<lambda>a. \<lparr>au_type = ia_type a, au_secret = ia_secretRef a\<rparr>) (iw_auth c)\<rparr>"

definition convert_normalization :: "NormalizationConfig_i \<Rightarrow> NormalizationConfig" where
  "convert_normalization c =
     \<lparr>nc_domain = in_domain c, nc_type = in_type c, nc_priority = in_priority c,
      nc_mapping = map (\<lambda>m. \<lparr>fm_from = if_from m, fm_to = if_to m, fm_constant = [], fm_static = []\<rparr>) (in_mapping c)\<rparr>"

definition convert_dedup :: "DedupConfig_i \<Rightarrow> DedupConfig" where
  "convert_dedup c =
     \<lparr>dc_enabled = id_enabled c, dc_window = id_window c,
      dc_strategy = (if id_strategy c = [] then ''fingerprint'' else id_strategy c),
      dc_fields = id_fields c, dc_max_events = id_max c, dc_config = []\<rparr>"

definition ConvertIngesterConfigToGeneric :: "IngesterConfig option \<Rightarrow> SourceConfig option" where
  "ConvertIngesterConfigToGeneric config =
     map_option (\<lambda>c. (source_config (ic_source c))
       \<lparr>sc_ingester := ic_ingester c, sc_namespace := ic_namespace c,
        Informer := map_option convert_informer (ic_informer c),
        Webhook := map_option convert_webhook (ic_webhook c),
        Logs := ic_logs c,
        Normalization := map_option convert_normalization (ic_normalization c),
        Dedup := map_option convert_dedup (ic_dedup c),
        Processing := ic_processing c\<rparr>) config"

section \<open>The properties\<close>

lemma required_shared:
  assumes "required_fields getenv spec = Some (source, ingester, dests)"
  shows "extractSharedConfig getenv spec ns n = Some ((empty_config ns n)
    \<lparr>ic_destinations := dests, ic_normalization := extractNormalization spec, ic_processing := fst (extractProcessingConfig spec),
     ic_filter := fst (snd (extractProcessingConfig spec)), ic_dedup := snd (snd (extractProcessingConfig spec)),
     ic_optimization := extractOptimizationConfig spec\<rparr>)"
  using assms
  by (auto simp: required_fields_def extractSharedConfig_def Let_def split: option.splits if_splits prod.splits)

lemma legacy_agrees:
  "map_at ob ''spec'' = Some spec \<Longrightarrow> convertLegacyIngester getenv u ob spec = ConvertToIngesterConfig getenv u ob"
proof (cases "required_fields getenv spec")
  case (Some r)
  obtain source ingester dests where r: "r = (source, ingester, dests)" by (cases r)
  assume "map_at ob ''spec'' = Some spec"
  then show ?thesis
    by (simp add: convertLegacyIngester_def ConvertToIngesterConfig_def Some r required_shared [OF Some [unfolded r]]
        with_source_def empty_config_def Let_def split: prod.splits)
qed (simp add: convertLegacyIngester_def ConvertToIngesterConfig_def)

text \<open>The two conversions of the loader agree: for an Ingester with a single source, the conversion the orchestrator uses
  yields exactly the configuration that the conversion used for the store yields, or nothing when that yields
  nothing.\<close>

theorem conversions_agree:
  assumes "map_at ob ''spec'' = Some spec" "list_at spec ''sources'' = []"
  shows "ConvertToIngesterConfigs getenv u ob =
    (case ConvertToIngesterConfig getenv u ob of None \<Rightarrow> [] | Some c \<Rightarrow> [c])"
  using assms legacy_agrees [OF assms(1), of getenv u]
  by (auto simp: ConvertToIngesterConfigs_def split: option.splits list.splits)

definition crd_dest :: val where
  "crd_dest = VMap [(''type'', VStr ''crd''), (''value'', VStr ''observations'')]"

definition single0 :: obj where
  "single0 = [(''metadata'', VMap [(''namespace'', VStr ''ns''), (''name'', VStr ''ing'')]),
     (''spec'', VMap [(''source'', VStr ''trivy''), (''ingester'', VStr ''webhook''), (''destinations'', VList [crd_dest]),
        (''webhook'', VMap [(''path'', VStr ''/x''), (''port'', VInt64 9090)])])]"

definition multi0 :: obj where
  "multi0 = [(''metadata'', VMap [(''namespace'', VStr ''ns''), (''name'', VStr ''ing'')]),
     (''spec'', VMap [(''destinations'', VList [crd_dest]),
        (''sources'', VList [VMap [(''name'', VStr ''a''), (''type'', VStr ''logs''), (''logs'', VMap [])],
                             VMap [(''name'', VStr ''b'')], VNil])])]"

theorem conversions_agree_witness:
  "\<exists>c. ConvertToIngesterConfigs (\<lambda>_. []) walk_api single0 = [c] \<and> ConvertToIngesterConfig (\<lambda>_. []) walk_api single0 = Some c"
proof -
  obtain spec where spec: "map_at single0 ''spec'' = Some spec" "list_at spec ''sources'' = []"
    by (simp add: single0_def idx_def)
  have "ConvertToIngesterConfig (\<lambda>_. []) walk_api single0 \<noteq> None" by code_simp
  with conversions_agree [OF spec, of "\<lambda>_. []" walk_api] show ?thesis by auto
qed

text \<open>What a destination list may contain.\<close>

definition dest_ok :: "(string \<Rightarrow> string) \<Rightarrow> DestinationConfig \<Rightarrow> bool" where
  "dest_ok getenv d \<longleftrightarrow> dst_type d = ''crd'' \<and> Resource (dst_gvr d) \<noteq> [] \<and>
     (ValidateGVR (dst_gvr d) = None \<or> dst_gvr d = ResolveDestinationGVR getenv (dst_value d))"

lemma extractDestinations_ok: "list_all (dest_ok getenv) (extractDestinations getenv ds)"
proof -
  have "dest_ok getenv d" if "extractDestination getenv v = Some d" for v d
    using that
    by (auto simp: extractDestination_def resolveDestinationGVR_def ValidateGVRConfig_def dest_ok_def Let_def
        split: option.splits if_splits)
  then show ?thesis
    unfolding extractDestinations_def by (induction ds) (auto simp: List.map_filter_simps split: option.splits)
qed

definition config_ok :: "(string \<Rightarrow> string) \<Rightarrow> IngesterConfig \<Rightarrow> bool" where
  "config_ok getenv c \<longleftrightarrow> ic_source c \<noteq> [] \<and> ic_ingester c \<noteq> [] \<and> ic_destinations c \<noteq> [] \<and> list_all (dest_ok getenv) (ic_destinations c)"

lemma convertSource_ok:
  assumes "list_all (dest_ok getenv) (ic_destinations shared)" "convertSource shared ns n item = Some c"
  shows "config_ok getenv c \<and> (\<exists>s. s \<noteq> [] \<and> ic_source c = ns @ ''/'' @ n @ ''/'' @ s)"
  using assms
  by (auto simp: convertSource_def extractSourceConfig_def config_ok_def Let_def split: option.splits if_splits)

lemma shared_dests: "extractSharedConfig getenv spec ns n = Some c \<Longrightarrow> list_all (dest_ok getenv) (ic_destinations c)"
  by (auto simp: extractSharedConfig_def Let_def extractDestinations_ok split: option.splits prod.splits if_splits)

lemma required_ok:
  "required_fields getenv spec = Some (s, i, ds) \<Longrightarrow> s \<noteq> [] \<and> i \<noteq> [] \<and> ds \<noteq> [] \<and> list_all (dest_ok getenv) ds"
  by (auto simp: required_fields_def non_nil_def Let_def extractDestinations_ok split: option.splits if_splits)

lemma ConvertToIngesterConfig_ok: "ConvertToIngesterConfig getenv u ob = Some c \<Longrightarrow> config_ok getenv c"
  by (auto simp: ConvertToIngesterConfig_def with_source_def config_ok_def dest!: required_ok split: option.splits prod.splits)

text \<open>C27. Every configuration that the loader produces is usable: it names its source and its kind of adapter and has at
  least one destination; every destination is a custom resource with a resource name, and its group, version and
  resource either pass the validation or are those resolved from its value, which nothing validates.\<close>

theorem loaded_configs_ok: "list_all (config_ok getenv) (ConvertToIngesterConfigs getenv u ob)"
proof (cases "map_at ob ''spec''")
  case (Some spec)
  have "list_all (config_ok getenv) (convertMultiSourceIngester getenv u ob spec ss)" for ss
  proof (cases "extractSharedConfig getenv spec (GetNamespace u ob) (GetName u ob)")
    case (Some shared)
    note sh = shared_dests [OF Some]
    have "list_all (config_ok getenv) (List.map_filter (convertSource shared ns n) ss)" for ns n
      by (induction ss) (auto simp: List.map_filter_simps dest!: convertSource_ok [OF sh] split: option.splits)
    with Some show ?thesis by (simp add: convertMultiSourceIngester_def Let_def)
  qed (simp add: convertMultiSourceIngester_def Let_def)
  moreover have "list_all (config_ok getenv) (case convertLegacyIngester getenv u ob spec of None \<Rightarrow> [] | Some c \<Rightarrow> [c])"
    using legacy_agrees [OF Some, of getenv u] ConvertToIngesterConfig_ok [of getenv u ob] by (auto split: option.splits)
  ultimately show ?thesis by (auto simp: ConvertToIngesterConfigs_def Some split: option.splits list.splits)
qed (simp add: ConvertToIngesterConfigs_def)

lemma as_int_SomeD: "as_int v = Some n \<Longrightarrow> v = VInt n"
  by (cases v) auto

text \<open>A port that comes from the API server is ignored: numbers of an unstructured object are \<^verbatim>\<open>int64\<close> or \<^verbatim>\<open>float64\<close>, the
  extractor asks for \<^verbatim>\<open>int\<close>, so the webhook port is always 8080, the buffer size 0 and there is no rate limit.\<close>

theorem json_port_ignored:
  assumes "json_obj spec" "map_at spec ''webhook'' = Some webhook" "\<And>s. idx webhook ''port'' \<noteq> VStr s"
  shows "\<exists>c. extractWebhookConfig spec = Some c \<and> iw_port c = 8080 \<and> iw_buffer c = 0 \<and> iw_rate c = None"
proof -
  have j: "json_ok (idx m k)" if "json_obj m" for m k
    using json_lookup [OF that] by (auto simp: idx_def split: option.splits)
  have ni: "idx m k \<noteq> VInt n" if "json_obj m" for m k n using j [OF that, of k] by (cases "idx m k") auto
  have w: "json_obj webhook" using j [OF assms(1), of "''webhook''"] assms(2) by auto
  have rate: "Option.bind (map_at webhook ''rateLimit'') (\<lambda>rl. as_int (idx rl ''requestsPerMinute'')) = None"
  proof (cases "map_at webhook ''rateLimit''")
    case (Some rl)
    then have "json_obj rl" using j [OF w, of "''rateLimit''"] by auto
    then have "as_int (idx rl ''requestsPerMinute'') = None"
      using ni by (cases "as_int (idx rl ''requestsPerMinute'')") (auto dest: as_int_SomeD)
    with Some show ?thesis by simp
  qed simp
  have buf: "as_int (idx webhook k) = None" for k using ni [OF w] by (cases "as_int (idx webhook k)") (auto dest: as_int_SomeD)
  show ?thesis
    using assms(2,3) ni [OF w, of "''port''"] rate
    by (simp add: extractWebhookConfig_def extractWebhookConfigFromMap_def buf split: val.splits)
qed

theorem json_port_ignored_witness:
  "\<exists>c. extractWebhookConfig [(''webhook'', VMap [(''port'', VInt64 9090)])] = Some c \<and> iw_port c = 8080"
proof -
  let ?spec = "[(''webhook'', VMap [(''port'', VInt64 9090)])]"
  have "json_obj ?spec" "map_at ?spec ''webhook'' = Some [(''port'', VInt64 9090)]"
    "\<And>s. idx [(''port'', VInt64 9090)] ''port'' \<noteq> VStr s" by (simp_all add: idx_def)
  from json_port_ignored [OF this] show ?thesis by blast
qed

text \<open>What the adapters get is what was loaded: source, kind, namespace, logs, normalisation and processing order are carried
  over, and a strategy is always set. But an Ingester can configure neither a rate limit nor thresholds: the converted
  configuration never has them.\<close>

theorem converted_config:
  assumes "ConvertIngesterConfigToGeneric (Some c) = Some sc"
  shows "sc_source sc = ic_source c \<and> sc_ingester sc = ic_ingester c \<and> sc_namespace sc = ic_namespace c \<and>
    Logs sc = ic_logs c \<and> Processing sc = ic_processing c \<and>
    map_option nc_mapping (Normalization sc) = map_option (\<lambda>n. map (\<lambda>m. \<lparr>fm_from = if_from m, fm_to = if_to m, fm_constant = [], fm_static = []\<rparr>) (in_mapping n)) (ic_normalization c) \<and>
    list_all (\<lambda>d. dc_strategy d \<noteq> []) (case Dedup sc of None \<Rightarrow> [] | Some d \<Rightarrow> [d]) \<and>
    RateLimit sc = None \<and> Thresholds sc = None"
  using assms
  by (auto simp: ConvertIngesterConfigToGeneric_def source_config_def convert_normalization_def convert_dedup_def option.map_comp
      comp_def split: option.splits if_splits)

theorem converted_config_witness:
  "\<exists>sc. ConvertIngesterConfigToGeneric (ConvertToIngesterConfig (\<lambda>_. []) walk_api single0) = Some sc \<and>
     sc_source sc = ''trivy'' \<and> RateLimit sc = None"
proof -
  obtain c where c: "ConvertToIngesterConfig (\<lambda>_. []) walk_api single0 = Some c" "ic_source c = ''trivy''"
  proof -
    have "map_option ic_source (ConvertToIngesterConfig (\<lambda>_. []) walk_api single0) = Some ''trivy''" by code_simp
    then show ?thesis using that by auto
  qed
  obtain sc where "ConvertIngesterConfigToGeneric (Some c) = Some sc" by (simp add: ConvertIngesterConfigToGeneric_def)
  with converted_config [OF this] c show ?thesis by auto
qed

end
