(* ===== verification/Ingester_Store.thy ===== *)
theory Ingester_Store
  imports Ingester_Config
begin

text \<open>
  The store of the loaded Ingesters and the informer handlers that maintain it
  (\<^verbatim>\<open>pkg/config/ingester_loader.go\<close>), and the destination resolver that \<^verbatim>\<open>cmd/zen-watcher/main.go\<close> builds on it.

  The base store is \<^verbatim>\<open>crdstore.CRDStore\<close> of the SDK, a package outside the repository: its operations are the
  record \<open>crdstore\<close>, a parameter, and the locale \<open>crdstore_laws\<close> says what its documentation promises, a map
  from namespace and name to the configuration. The store adds an index by source; the configurations are
  never changed after their creation, so the pointers of the index are values here.

  The theorems say when the index is right (\<open>index_coherent\<close>), where it is not, and which resource an
  observation of a source is written to.
\<close>

section \<open>The base store\<close>

record 'st crdstore =
  NewCRDStore :: 'st
  cs_get :: "'st \<Rightarrow> string \<Rightarrow> string \<Rightarrow> IngesterConfig option"
  cs_put :: "IngesterConfig \<Rightarrow> 'st \<Rightarrow> 'st"
  cs_del :: "string \<Rightarrow> string \<Rightarrow> 'st \<Rightarrow> 'st"
  cs_list :: "'st \<Rightarrow> IngesterConfig list"

locale crdstore_laws =
  fixes a :: "'st crdstore"
  assumes get_new: "\<And>ns n. cs_get a (NewCRDStore a) ns n = None"
    and get_put: "\<And>c st ns n. cs_get a (cs_put a c st) ns n =
      (if ns = ic_namespace c \<and> n = ic_name c then Some c else cs_get a st ns n)"
    and get_del: "\<And>st ns n ns' n'. cs_get a (cs_del a ns n st) ns' n' =
      (if ns' = ns \<and> n' = n then None else cs_get a st ns' n')"

text \<open>A base store that obeys the laws.\<close>

definition alist_store :: "(string \<times> string, IngesterConfig) gomap crdstore" where
  "alist_store = \<lparr>NewCRDStore = [], cs_get = (\<lambda>st ns n. map_of st (ns, n)),
     cs_put = (\<lambda>c. put (ic_namespace c, ic_name c) c), cs_del = (\<lambda>ns n. del (ns, n)), cs_list = map snd\<rparr>"

interpretation alist_store: crdstore_laws alist_store
  by unfold_locales (auto simp: alist_store_def)

section \<open>The store (IngesterStore)\<close>

record 'st IngesterStore =
  CRDStore :: 'st
  bySource :: "(string, IngesterConfig) gomap"

definition NewIngesterStore :: "'st crdstore \<Rightarrow> 'st IngesterStore" where
  "NewIngesterStore a = \<lparr>CRDStore = NewCRDStore a, bySource = []\<rparr>"

definition store_Get :: "'st crdstore \<Rightarrow> 'st IngesterStore \<Rightarrow> string \<Rightarrow> string \<Rightarrow> IngesterConfig option" where
  "store_Get a s namespace name = cs_get a (CRDStore s) namespace name"

definition GetBySource :: "'st IngesterStore \<Rightarrow> string \<Rightarrow> IngesterConfig option" where
  "GetBySource s source = map_of (bySource s) source"

definition ListAll :: "'st crdstore \<Rightarrow> 'st IngesterStore \<Rightarrow> IngesterConfig list" where
  "ListAll a s = cs_list a (CRDStore s)"

definition AddOrUpdate :: "'st crdstore \<Rightarrow> IngesterConfig \<Rightarrow> 'st IngesterStore \<Rightarrow> 'st IngesterStore" where
  "AddOrUpdate a config s =
     s\<lparr>CRDStore := cs_put a config (CRDStore s),
       bySource := (if ic_source config \<noteq> [] then put (ic_source config) config (bySource s) else bySource s)\<rparr>"

definition Delete :: "'st crdstore \<Rightarrow> string \<Rightarrow> string \<Rightarrow> 'st IngesterStore \<Rightarrow> 'st IngesterStore" where
  "Delete a namespace name s =
     (case cs_get a (CRDStore s) namespace name of
        None \<Rightarrow> s
      | Some config \<Rightarrow>
          s\<lparr>CRDStore := cs_del a namespace name (CRDStore s),
            bySource := (if ic_source config \<noteq> [] then del (ic_source config) (bySource s) else bySource s)\<rparr>)"

section \<open>The informer's handlers (IngesterInformer)\<close>

text \<open>What the informer hands to a handler: an object, the tombstone \<^verbatim>\<open>DeletedFinalStateUnknown\<close> of an object
  whose deletion was missed, or something else.\<close>

datatype informer_obj = Unstructured obj | DeletedFinalStateUnknown obj | Foreign

definition onAdd :: "(string \<Rightarrow> string) \<Rightarrow> uapi \<Rightarrow> 'st crdstore \<Rightarrow> informer_obj \<Rightarrow> 'st IngesterStore \<Rightarrow> 'st IngesterStore" where
  "onAdd getenv u a ob s =
     (case ob of
        Unstructured m \<Rightarrow> (case ConvertToIngesterConfig getenv u m of Some config \<Rightarrow> AddOrUpdate a config s | None \<Rightarrow> s)
      | _ \<Rightarrow> s)"

definition onUpdate ::
    "(string \<Rightarrow> string) \<Rightarrow> uapi \<Rightarrow> 'st crdstore \<Rightarrow> informer_obj \<Rightarrow> informer_obj \<Rightarrow> 'st IngesterStore \<Rightarrow> 'st IngesterStore" where
  "onUpdate getenv u a oldObj newObj s =
     (case newObj of
        Unstructured m \<Rightarrow> (case ConvertToIngesterConfig getenv u m of Some config \<Rightarrow> AddOrUpdate a config s | None \<Rightarrow> s)
      | _ \<Rightarrow> s)"

text \<open>The inner \<^verbatim>\<open>ok\<close> of the tombstone branch shadows the outer one, which stays false: the handler returns
  there too.\<close>

definition onDelete :: "uapi \<Rightarrow> 'st crdstore \<Rightarrow> informer_obj \<Rightarrow> 'st IngesterStore \<Rightarrow> 'st IngesterStore" where
  "onDelete u a ob s =
     (let (x, ok) = (case ob of Unstructured m \<Rightarrow> (Some m, True) | _ \<Rightarrow> (None, False));
          x' = (if \<not> ok then (case ob of DeletedFinalStateUnknown m \<Rightarrow> Some m | _ \<Rightarrow> x) else x)
      in if \<not> ok then s
         else (case x' of None \<Rightarrow> s | Some m \<Rightarrow> Delete a (GetNamespace u m) (GetName u m) s))"

datatype informer_event = Added informer_obj | Updated informer_obj informer_obj | Deleted informer_obj

fun handle :: "(string \<Rightarrow> string) \<Rightarrow> uapi \<Rightarrow> 'st crdstore \<Rightarrow> informer_event \<Rightarrow> 'st IngesterStore \<Rightarrow> 'st IngesterStore" where
  "handle getenv u a (Added ob) s = onAdd getenv u a ob s"
| "handle getenv u a (Updated old new) s = onUpdate getenv u a old new s"
| "handle getenv u a (Deleted ob) s = onDelete u a ob s"

section \<open>The destination resolver (main.go)\<close>

definition resolve_destination :: "GVR \<Rightarrow> (string \<Rightarrow> IngesterConfig option) \<Rightarrow> string \<Rightarrow> GVR" where
  "resolve_destination observations getBySource source =
     (case getBySource source of
        None \<Rightarrow> observations
      | Some config \<Rightarrow>
          (case find (\<lambda>dest. dst_type dest = ''crd'') (ic_destinations config) of
             Some dest \<Rightarrow> dst_gvr dest
           | None \<Rightarrow> observations))"

text \<open>What the resolver relies on: a look-up by source that sees the last configuration stored for it.\<close>

locale source_lookup =
  fixes lookup :: "'s \<Rightarrow> string \<Rightarrow> IngesterConfig option" and store :: "IngesterConfig \<Rightarrow> 's \<Rightarrow> 's"
  assumes lookup_store: "\<And>c st s. ic_source c \<noteq> [] \<Longrightarrow>
    lookup (store c st) s = (if s = ic_source c then Some c else lookup st s)"
begin

lemma resolve_stored:
  assumes "config_ok getenv c"
  shows "resolve_destination dflt (lookup (store c st)) (ic_source c) = dst_gvr (hd (ic_destinations c))"
  using assms
  by (cases "ic_destinations c") (auto simp: resolve_destination_def config_ok_def dest_ok_def lookup_store)

lemma resolve_other:
  assumes "ic_source c \<noteq> []" "s \<noteq> ic_source c"
  shows "resolve_destination dflt (lookup (store c st)) s = resolve_destination dflt (lookup st) s"
  using assms by (simp add: resolve_destination_def lookup_store)

end

interpretation by_source: source_lookup GetBySource "AddOrUpdate a" for a
  by unfold_locales (simp add: GetBySource_def AddOrUpdate_def)

section \<open>The index\<close>

text \<open>The histories the index is made for: no two Ingesters name the same source, an update keeps the
  source of an Ingester and does not make one that is stored unreadable, and no deletion is missed by the watch, so that none comes as a tombstone.
  \<open>live\<close> are the Ingesters of the cluster, by namespace and name, as far as they were notified.\<close>

definition source_free :: "'st crdstore \<Rightarrow> 'st IngesterStore \<Rightarrow> IngesterConfig \<Rightarrow> bool" where
  "source_free a s c \<longleftrightarrow>
     (\<forall>ns n d. store_Get a s ns n = Some d \<longrightarrow>
        (ic_source d = ic_source c \<longleftrightarrow> ns = ic_namespace c \<and> n = ic_name c))"

definition readable_ingester :: "(string \<Rightarrow> string) \<Rightarrow> uapi \<Rightarrow> 'st crdstore \<Rightarrow> 'st IngesterStore \<Rightarrow> obj \<Rightarrow> bool" where
  "readable_ingester getenv u a s m =
     (case ConvertToIngesterConfig getenv u m of None \<Rightarrow> store_Get a s (GetNamespace u m) (GetName u m) = None | Some c \<Rightarrow> source_free a s c)"

definition admissible :: "(string \<Rightarrow> string) \<Rightarrow> uapi \<Rightarrow> 'st crdstore \<Rightarrow> 'st IngesterStore \<Rightarrow> informer_event \<Rightarrow> bool" where
  "admissible getenv u a s ev =
     (case ev of
        Added (Unstructured m) \<Rightarrow> readable_ingester getenv u a s m
      | Updated _ (Unstructured m) \<Rightarrow> readable_ingester getenv u a s m
      | Deleted (DeletedFinalStateUnknown m) \<Rightarrow> False
      | _ \<Rightarrow> True)"

definition observe :: "uapi \<Rightarrow> informer_event \<Rightarrow> (string \<times> string \<rightharpoonup> obj) \<Rightarrow> (string \<times> string \<rightharpoonup> obj)" where
  "observe u ev live =
     (case ev of
        Added (Unstructured m) \<Rightarrow> live((GetNamespace u m, GetName u m) \<mapsto> m)
      | Updated _ (Unstructured m) \<Rightarrow> live((GetNamespace u m, GetName u m) \<mapsto> m)
      | Deleted (Unstructured m) \<Rightarrow> live((GetNamespace u m, GetName u m) := None)
      | Deleted (DeletedFinalStateUnknown m) \<Rightarrow> live((GetNamespace u m, GetName u m) := None)
      | _ \<Rightarrow> live)"

inductive informer_run :: "(string \<Rightarrow> string) \<Rightarrow> uapi \<Rightarrow> 'st crdstore \<Rightarrow> (string \<times> string \<rightharpoonup> obj) \<Rightarrow> 'st IngesterStore \<Rightarrow> bool"
  for getenv u a where
  start: "informer_run getenv u a Map.empty (NewIngesterStore a)"
| event: "informer_run getenv u a live s \<Longrightarrow> admissible getenv u a s ev \<Longrightarrow>
    informer_run getenv u a (observe u ev live) (handle getenv u a ev s)"

text \<open>The base store holds the readable live Ingesters.\<close>

definition store_live :: "(string \<Rightarrow> string) \<Rightarrow> uapi \<Rightarrow> 'st crdstore \<Rightarrow> (string \<times> string \<rightharpoonup> obj) \<Rightarrow> 'st IngesterStore \<Rightarrow> bool" where
  "store_live getenv u a live s \<longleftrightarrow> (\<forall>ns n. store_Get a s ns n = Option.bind (live (ns, n)) (ConvertToIngesterConfig getenv u))"

lemma converted_names: "ConvertToIngesterConfig getenv u m = Some c \<Longrightarrow> ic_namespace c = GetNamespace u m \<and> ic_name c = GetName u m"
  by (auto simp: ConvertToIngesterConfig_def empty_config_def with_source_def Let_def split: option.splits prod.splits)

definition index_ok :: "'st crdstore \<Rightarrow> 'st IngesterStore \<Rightarrow> bool" where
  "index_ok a s \<longleftrightarrow>
     (\<forall>ns n c. store_Get a s ns n = Some c \<longrightarrow> ic_namespace c = ns \<and> ic_name c = n \<and> ic_source c \<noteq> []) \<and>
     (\<forall>source c. GetBySource s source = Some c \<longleftrightarrow>
        ic_source c = source \<and> store_Get a s (ic_namespace c) (ic_name c) = Some c)"

lemmas store_defs = store_Get_def GetBySource_def AddOrUpdate_def Delete_def NewIngesterStore_def

context crdstore_laws
begin

lemma index_new: "index_ok a (NewIngesterStore a)"
  by (simp add: index_ok_def store_defs get_new)

lemma index_AddOrUpdate:
  assumes "index_ok a s" "ic_source c \<noteq> []" "source_free a s c"
  shows "index_ok a (AddOrUpdate a c s)"
  using assms by (auto simp: index_ok_def source_free_def store_defs get_put)

lemma index_Delete:
  assumes "index_ok a s"
  shows "index_ok a (Delete a ns n s)"
proof (cases "cs_get a (CRDStore s) ns n")
  case (Some c)
  have c: "ic_namespace c = ns" "ic_name c = n" "ic_source c \<noteq> []" using assms Some by (auto simp: index_ok_def store_Get_def)
  have only: "GetBySource s (ic_source c) = Some c" using assms Some c by (auto simp: index_ok_def store_Get_def)
  have G: "store_Get a (Delete a ns n s) ns' n' = (if ns' = ns \<and> n' = n then None else store_Get a s ns' n')" for ns' n'
    by (simp add: store_Get_def Delete_def Some get_del)
  have B: "GetBySource (Delete a ns n s) x = (if x = ic_source c then None else GetBySource s x)" for x
    by (simp add: GetBySource_def Delete_def Some c(3))
  have I: "GetBySource s x = Some d \<longleftrightarrow> ic_source d = x \<and> store_Get a s (ic_namespace d) (ic_name d) = Some d" for x d
    using assms by (simp add: index_ok_def)
  have "GetBySource (Delete a ns n s) x = Some d \<longleftrightarrow>
      ic_source d = x \<and> store_Get a (Delete a ns n s) (ic_namespace d) (ic_name d) = Some d" for x d

  proof (cases "GetBySource s x = Some d")
    case True
    have "d = c" if "x = ic_source c" using that only True by simp
    moreover have "d = c \<and> x = ic_source c" if "ic_namespace d = ns" "ic_name d = n"
      using iffD1 [OF I True] that Some by (auto simp: store_Get_def)
    ultimately have eq: "ic_namespace d = ns \<and> ic_name d = n \<longleftrightarrow> x = ic_source c" using c by blast
    show ?thesis unfolding G B eq using iffD1 [OF I True] True by simp
  next
    case False
    then show ?thesis unfolding G B using I [of x d] by (auto split: if_splits)
  qed
  then show ?thesis using assms by (simp add: index_ok_def G)
qed (simp add: Delete_def assms)

lemma index_handle:
  assumes "index_ok a s" "admissible getenv u a s ev"
  shows "index_ok a (handle getenv u a ev s)"
proof -
  have "index_ok a (AddOrUpdate a c s)" if "ConvertToIngesterConfig getenv u m = Some c" "source_free a s c" for c m
    using index_AddOrUpdate [OF assms(1) _ that(2)] ConvertToIngesterConfig_ok [OF that(1)] by (simp add: config_ok_def)
  then show ?thesis
    using assms index_Delete [OF assms(1)]
    by (cases ev) (auto simp: admissible_def readable_ingester_def onAdd_def onUpdate_def onDelete_def Let_def
        split: informer_obj.splits option.splits)
qed

lemma store_put:
  assumes "store_live getenv u a live s" "ConvertToIngesterConfig getenv u m = Some c"
  shows "store_live getenv u a (live((GetNamespace u m, GetName u m) \<mapsto> m)) (AddOrUpdate a c s)"
  using assms converted_names [OF assms(2)] by (auto simp: store_live_def store_Get_def AddOrUpdate_def get_put)

lemma store_delete:
  assumes "store_live getenv u a live s"
  shows "store_live getenv u a (live((ns, n) := None)) (Delete a ns n s)"
  using assms by (auto simp: store_live_def store_Get_def Delete_def get_del split: option.splits)

lemma store_handle:
  assumes "store_live getenv u a live s" "admissible getenv u a s ev"
  shows "store_live getenv u a (observe u ev live) (handle getenv u a ev s)"
proof -
  have keep: "store_live getenv u a (live((GetNamespace u m, GetName u m) \<mapsto> m)) s"
    if "ConvertToIngesterConfig getenv u m = None" "store_Get a s (GetNamespace u m) (GetName u m) = None" for m
    using assms(1) that by (auto simp: store_live_def)
  show ?thesis
    using assms store_put [OF assms(1)] store_delete [OF assms(1)] keep
    by (cases ev) (auto simp: admissible_def readable_ingester_def observe_def onAdd_def onUpdate_def onDelete_def Let_def
        split: informer_obj.splits option.splits)
qed

lemma store_run: "informer_run getenv u a live s \<Longrightarrow> index_ok a s \<and> store_live getenv u a live s"
proof (induction rule: informer_run.induct)
  case start
  show ?case using index_new by (simp add: store_live_def store_Get_def NewIngesterStore_def get_new)
qed (auto intro: index_handle store_handle)

end

text \<open>C15. The index by source is exact: after any series of notifications of the informer in which no two Ingesters name the same source, updates keep the source and
  leave a stored Ingester readable, and no deletion comes as a tombstone, the look-up by source finds a configuration exactly when it is
  read from an Ingester that is live, with that source.\<close>

theorem index_coherent:
  assumes "crdstore_laws a" "informer_run getenv u a live s"
  shows "GetBySource s source = Some c \<longleftrightarrow>
    (\<exists>ns n m. live (ns, n) = Some m \<and> ConvertToIngesterConfig getenv u m = Some c \<and> ic_source c = source)"
proof -
  note inv = crdstore_laws.store_run [OF assms]
  have stored: "GetBySource s source = Some c \<longleftrightarrow> ic_source c = source \<and> store_Get a s (ic_namespace c) (ic_name c) = Some c"
    using inv by (simp add: index_ok_def)
  have named: "ic_namespace c = ns \<and> ic_name c = n" if "live (ns, n) = Some m" "ConvertToIngesterConfig getenv u m = Some c" for ns n m
  proof -
    have "store_Get a s ns n = Some c" using inv that by (simp add: store_live_def)
    with inv show ?thesis unfolding index_ok_def by blast
  qed
  show ?thesis unfolding stored using inv named by (auto simp: store_live_def Option.bind_eq_Some_conv)
qed

text \<open>An Ingester is added and then deleted.\<close>

theorem index_coherent_witness:
  "let added = handle (\<lambda>_. []) walk_api alist_store (Added (Unstructured single0)) (NewIngesterStore alist_store)
   in (\<exists>c. GetBySource added ''trivy'' = Some c) \<and>
     (\<forall>c. GetBySource (handle (\<lambda>_. []) walk_api alist_store (Deleted (Unstructured single0)) added) ''trivy'' \<noteq> Some c)"
proof -
  let ?ev = "Added (Unstructured single0)" and ?s0 = "NewIngesterStore alist_store" and ?k = "(GetNamespace walk_api single0, GetName walk_api single0)"
  let ?s1 = "handle (\<lambda>_. []) walk_api alist_store ?ev ?s0"
  have "map_option ic_source (ConvertToIngesterConfig (\<lambda>_. []) walk_api single0) = Some ''trivy''" by code_simp
  then obtain c where c: "ConvertToIngesterConfig (\<lambda>_. []) walk_api single0 = Some c" "ic_source c = ''trivy''" by auto
  have "admissible (\<lambda>_. []) walk_api alist_store ?s0 ?ev"
    by (auto simp: admissible_def readable_ingester_def source_free_def store_defs alist_store.get_new split: option.splits)
  from informer_run.event [OF informer_run.start this]
  have run: "informer_run (\<lambda>_. []) walk_api alist_store [?k \<mapsto> single0] ?s1" by (simp add: observe_def)
  have "admissible (\<lambda>_. []) walk_api alist_store ?s1 (Deleted (Unstructured single0))" by (simp add: admissible_def)
  from informer_run.event [OF run this]
  have run2: "informer_run (\<lambda>_. []) walk_api alist_store Map.empty (handle (\<lambda>_. []) walk_api alist_store (Deleted (Unstructured single0)) ?s1)"
    by (simp add: observe_def fun_upd_idem)
  have "GetBySource ?s1 ''trivy'' = Some c"
    using index_coherent [OF alist_store.crdstore_laws_axioms run] c by (auto split: if_splits)
  moreover have "GetBySource (handle (\<lambda>_. []) walk_api alist_store (Deleted (Unstructured single0)) ?s1) ''trivy'' \<noteq> Some d" for d
    using index_coherent [OF alist_store.crdstore_laws_axioms run2] by simp
  ultimately show ?thesis by (auto simp: Let_def)
qed

text \<open>Outside those histories the index goes wrong. When an update changes the source of an Ingester, the old source keeps
  its entry, even after the Ingester is deleted; and deleting one of two Ingesters of a source removes the source from
  the index although the other one is still stored.\<close>

theorem index_leaks:
  assumes "crdstore_laws a" "store_Get a s ns n = Some old" "GetBySource s (ic_source old) = Some old"
    "ic_namespace new = ns" "ic_name new = n" "ic_source new \<noteq> []" "ic_source new \<noteq> ic_source old"
    "ic_source other = ic_source old" "ic_source old \<noteq> []" "(ic_namespace other, ic_name other) \<noteq> (ns, n)"
  shows "store_Get a (Delete a ns n (AddOrUpdate a new s)) ns n = None \<and>
    GetBySource (Delete a ns n (AddOrUpdate a new s)) (ic_source old) = Some old \<and>
    store_Get a (Delete a ns n (AddOrUpdate a other s)) (ic_namespace other) (ic_name other) = Some other \<and>
    GetBySource (Delete a ns n (AddOrUpdate a other s)) (ic_source other) = None"
  using assms crdstore_laws.get_put [OF assms(1)] crdstore_laws.get_del [OF assms(1)]
  by (auto simp: store_Get_def GetBySource_def AddOrUpdate_def Delete_def)

definition config_of :: "string \<Rightarrow> string \<Rightarrow> IngesterConfig" where
  "config_of n source = (empty_config ''ns'' n)\<lparr>ic_source := source, ic_ingester := ''logs''\<rparr>"

theorem index_leaks_witness:
  "GetBySource (Delete alist_store ''ns'' ''a'' (AddOrUpdate alist_store (config_of ''a'' ''y'')
     (AddOrUpdate alist_store (config_of ''a'' ''x'') (NewIngesterStore alist_store)))) ''x'' = Some (config_of ''a'' ''x'')"
proof -
  let ?s = "AddOrUpdate alist_store (config_of ''a'' ''x'') (NewIngesterStore alist_store)"
  have sel: "ic_source (config_of n x) = x" "ic_namespace (config_of n x) = ''ns''" "ic_name (config_of n x) = n" for n x
    by (simp_all add: config_of_def empty_config_def)
  have "store_Get alist_store ?s ''ns'' ''a'' = Some (config_of ''a'' ''x'')"
    "GetBySource ?s (ic_source (config_of ''a'' ''x'')) = Some (config_of ''a'' ''x'')"
    by (simp_all add: store_defs alist_store.get_put sel)
  from index_leaks [OF alist_store.crdstore_laws_axioms this, of "config_of ''a'' ''y''" "config_of ''b'' ''x''"]
  show ?thesis by (simp add: sel)
qed

text \<open>Where an observation goes: after an Ingester with a single source is added or updated, the resolver sends the observations of
  its source to the first of its destinations, and changes nothing for any other source.\<close>

theorem destination_resolved:
  assumes "ConvertToIngesterConfig getenv u m = Some c"
  shows "\<exists>d. d = hd (ic_destinations c) \<and> dest_ok getenv d \<and>
    (\<forall>ev. ev = Added (Unstructured m) \<or> (\<exists>old. ev = Updated old (Unstructured m)) \<longrightarrow>
      resolve_destination observations (GetBySource (handle getenv u a ev s)) (ic_source c) = dst_gvr d \<and>
      (\<forall>source. source \<noteq> ic_source c \<longrightarrow> resolve_destination observations (GetBySource (handle getenv u a ev s)) source =
         resolve_destination observations (GetBySource s) source))"
proof -
  have ok: "config_ok getenv c" by (rule ConvertToIngesterConfig_ok [OF assms])
  then have "dest_ok getenv (hd (ic_destinations c))" by (cases "ic_destinations c") (auto simp: config_ok_def)
  moreover have "handle getenv u a ev s = AddOrUpdate a c s"
    if "ev = Added (Unstructured m) \<or> (\<exists>old. ev = Updated old (Unstructured m))" for ev
    using that assms by (auto simp: onAdd_def onUpdate_def)
  ultimately show ?thesis
    using by_source.resolve_stored [OF ok] by_source.resolve_other [of c] ok by (auto simp: config_ok_def)
qed

definition fallback_gvr :: GVR where
  "fallback_gvr = \<lparr>Group = ''example.com'', Version = ''v1'', Resource = ''events''\<rparr>"

theorem destination_resolved_witness:
  "resolve_destination fallback_gvr (GetBySource (handle (\<lambda>_. []) walk_api alist_store (Added (Unstructured single0))
      (NewIngesterStore alist_store))) ''trivy'' = ObservationsGVR (\<lambda>_. [])"
proof -
  have "map_option (\<lambda>c. (ic_source c, map dst_gvr (ic_destinations c))) (ConvertToIngesterConfig (\<lambda>_. []) walk_api single0) =
      Some (''trivy'', [ObservationsGVR (\<lambda>_. [])])" by code_simp
  then obtain c where c: "ConvertToIngesterConfig (\<lambda>_. []) walk_api single0 = Some c" "ic_source c = ''trivy''"
    "dst_gvr (hd (ic_destinations c)) = ObservationsGVR (\<lambda>_. [])" by (auto simp: map_eq_Cons_conv)
  from destination_resolved [OF c(1)] c(2,3) show ?thesis by metis
qed

text \<open>An Ingester with several sources never enters the store, so its destinations are not used: whatever the handlers do with
  it, every observation of its sources goes where it would go without the Ingester, in a fresh store to the default
  resource.\<close>

theorem multi_source_destination_ignored:
  assumes "map_at m ''spec'' = Some spec" "as_string (idx spec ''source'') = None" "c \<in> set (ConvertToIngesterConfigs getenv u m)"
  shows "handle getenv u a (Added (Unstructured m)) s = s \<and> handle getenv u a (Updated old (Unstructured m)) s = s \<and>
    resolve_destination observations (GetBySource (handle getenv u a (Added (Unstructured m)) (NewIngesterStore a))) (ic_source c) =
      observations"
proof -
  have "required_fields getenv spec = None"
    using assms(2) by (simp add: required_fields_def non_nil_def)
  then have "ConvertToIngesterConfig getenv u m = None" by (simp add: ConvertToIngesterConfig_def assms(1))
  then show ?thesis by (simp add: onAdd_def onUpdate_def resolve_destination_def store_defs)
qed

theorem multi_source_destination_ignored_witness:
  "\<exists>c \<in> set (ConvertToIngesterConfigs (\<lambda>_. []) walk_api multi0). ic_source c = ''ns/ing/a'' \<and>
     resolve_destination fallback_gvr (GetBySource (handle (\<lambda>_. []) walk_api alist_store (Added (Unstructured multi0))
       (NewIngesterStore alist_store))) ''ns/ing/a'' = fallback_gvr"
proof -
  obtain spec where spec: "map_at multi0 ''spec'' = Some spec" "as_string (idx spec ''source'') = None"
    by (simp add: multi0_def idx_def)
  have "map ic_source (ConvertToIngesterConfigs (\<lambda>_. []) walk_api multi0) = [''ns/ing/a'']" by code_simp
  then obtain c where c: "c \<in> set (ConvertToIngesterConfigs (\<lambda>_. []) walk_api multi0)" "ic_source c = ''ns/ing/a''"
    by (cases "ConvertToIngesterConfigs (\<lambda>_. []) walk_api multi0") auto
  from multi_source_destination_ignored [OF spec c(1), of alist_store _ _ fallback_gvr] c show ?thesis by metis
qed

text \<open>Missed changes: the tombstone of a missed deletion and an update whose specification no longer converts leave the store as it
  is, so the old configuration stays in force.\<close>

theorem missed_changes:
  "onDelete u a (DeletedFinalStateUnknown m) s = s \<and>
   (ConvertToIngesterConfig getenv u m' = None \<longrightarrow> onUpdate getenv u a old (Unstructured m') s = s)"
  by (simp add: onDelete_def onUpdate_def)

theorem missed_changes_witness:
  "onUpdate (\<lambda>_. []) walk_api alist_store Foreign (Unstructured [])
     (AddOrUpdate alist_store (config_of ''a'' ''x'') (NewIngesterStore alist_store)) =
   AddOrUpdate alist_store (config_of ''a'' ''x'') (NewIngesterStore alist_store)"
proof -
  have "ConvertToIngesterConfig (\<lambda>_. []) walk_api [] = None" by (simp add: ConvertToIngesterConfig_def idx_def)
  with missed_changes [where u = walk_api and a = alist_store and getenv = "\<lambda>_. []" and m' = "[]" and old = Foreign]
  show ?thesis by blast
qed

end
