(* ===== verification/Webhook_Auth.thy ===== *)
theory Webhook_Auth
  imports Zen_Float64 Zen_Time
begin

text \<open>
  The front door of the HTTP server: the authenticator of \<^verbatim>\<open>pkg/server/auth.go\<close> and the rate limiter of
  \<^verbatim>\<open>pkg/server/ratelimit_wrapper.go\<close>.

  A request is what the handlers read of an \<^verbatim>\<open>http.Request\<close>. Addresses and networks of the package \<^verbatim>\<open>net\<close> are
  the record \<open>net_api\<close>, a parameter of the definitions: a network is the set of the addresses it contains, and
  the theorems hold for every parser of addresses. The limiter of the SDK is a parameter too, a constructor and
  its \<^verbatim>\<open>Allow\<close>. The counters are the lists of the label values they were incremented with.

  The theorems: who is let in (\<open>authenticated_iff\<close>), proxy headers of an untrusted peer change nothing
  (\<open>proxy_headers_untrusted\<close>), and what rate a configured limit comes to (\<open>rate_of_limit\<close>).
\<close>

section \<open>Requests\<close>

datatype 'd decoded = BodyEOF | BodyInvalid | Body 'd

record 'd http_request =
  req_method :: string
  req_path :: string
  req_remote :: string
  req_header :: "string \<Rightarrow> string"
  req_basic :: "(string \<times> string) option"
  req_decode :: "int \<Rightarrow> 'd decoded"

record 'ip net_api =
  SplitHostPort :: "string \<Rightarrow> string option"
  ParseIP :: "string \<Rightarrow> 'ip option"
  ip_String :: "'ip \<Rightarrow> string"
  ParseCIDR :: "string \<Rightarrow> ('ip \<Rightarrow> bool) option"

section \<open>The authenticator (auth.go)\<close>

record 'ip WebhookAuth =
  authDisabled :: bool
  tokenEnabled :: bool
  token :: string
  ipAllowlistEnabled :: bool
  allowedIPs :: "string list"
  trustedProxyCIDRs :: "('ip \<Rightarrow> bool) list"
  auth_metrics :: bool

definition NewWebhookAuthWithMetrics :: "'ip net_api \<Rightarrow> (string \<Rightarrow> string) \<Rightarrow> bool \<Rightarrow> 'ip WebhookAuth" where
  "NewWebhookAuthWithMetrics net getenv metrics =
     (let auth = \<lparr>authDisabled = False, tokenEnabled = False, token = [], ipAllowlistEnabled = False, allowedIPs = [],
                  trustedProxyCIDRs = [], auth_metrics = metrics\<rparr>
      in if getenv ''WEBHOOK_AUTH_DISABLED'' = ''true'' then auth\<lparr>authDisabled := True\<rparr>
         else
           (let tok = getenv ''WEBHOOK_AUTH_TOKEN'';
                auth1 = (if tok \<noteq> [] then auth\<lparr>tokenEnabled := True, token := tok\<rparr> else auth);
                allowlist = getenv ''WEBHOOK_ALLOWED_IPS'';
                auth2 = (if allowlist \<noteq> []
                         then auth1\<lparr>ipAllowlistEnabled := True, allowedIPs := map trim_space (split_on (CHR '','') allowlist)\<rparr>
                         else auth1);
                cidrs = getenv ''SERVER_TRUSTED_PROXY_CIDRS''
            in if cidrs \<noteq> []
               then auth2\<lparr>trustedProxyCIDRs := List.map_filter (ParseCIDR net)
                      (filter (\<lambda>s. s \<noteq> []) (map trim_space (split_on (CHR '','') cidrs)))\<rparr>
               else auth2))"

definition NewWebhookAuth :: "'ip net_api \<Rightarrow> (string \<Rightarrow> string) \<Rightarrow> 'ip WebhookAuth" where
  "NewWebhookAuth net getenv = NewWebhookAuthWithMetrics net getenv False"

definition GetTrustedProxyCIDRs :: "'ip WebhookAuth \<Rightarrow> ('ip \<Rightarrow> bool) list" where
  "GetTrustedProxyCIDRs a = trustedProxyCIDRs a"

subsection \<open>The address of the client\<close>

definition remote_ip :: "'ip net_api \<Rightarrow> string \<Rightarrow> 'ip option" where
  "remote_ip net remoteAddr =
     (case SplitHostPort net remoteAddr of Some host \<Rightarrow> ParseIP net host | None \<Rightarrow> ParseIP net remoteAddr)"

definition isTrustedProxy :: "'ip net_api \<Rightarrow> ('ip \<Rightarrow> bool) list \<Rightarrow> string \<Rightarrow> bool" where
  "isTrustedProxy net cidrs remoteAddr =
     (case remote_ip net remoteAddr of None \<Rightarrow> False | Some ip \<Rightarrow> list_ex (\<lambda>cidr. cidr ip) cidrs)"

definition forwarded_ip :: "'d http_request \<Rightarrow> string" where
  "forwarded_ip r =
     (let xff = req_header r ''X-Forwarded-For'';
          first = (if xff \<noteq> [] then trim_space (hd (split_on (CHR '','') xff)) else [])
      in if first \<noteq> [] then first
         else let xri = req_header r ''X-Real-IP'' in if xri \<noteq> [] then trim_space xri else [])"

text \<open>The text before the last colon, \<^verbatim>\<open>remoteAddr[:idx]\<close>.\<close>

definition before_last_colon :: "string \<Rightarrow> string" where
  "before_last_colon s = (if CHR '':'' \<in> set s then rev (tl (dropWhile (\<lambda>c. c \<noteq> CHR '':'') (rev s))) else s)"

definition getClientIP :: "'ip net_api \<Rightarrow> ('ip \<Rightarrow> bool) list \<Rightarrow> 'd http_request \<Rightarrow> string" where
  "getClientIP net cidrs r =
     (if isTrustedProxy net cidrs (req_remote r) \<and> forwarded_ip r \<noteq> [] then forwarded_ip r
      else case remote_ip net (req_remote r) of
             Some ip \<Rightarrow> ip_String net ip
           | None \<Rightarrow> before_last_colon (req_remote r))"

subsection \<open>The decision\<close>

text \<open>The token of the header \<^verbatim>\<open>Authorization\<close>, with or without the word \<^verbatim>\<open>Bearer\<close>.\<close>

definition bearer_token :: "string \<Rightarrow> string" where
  "bearer_token authHeader = trim_space (trim_prefix authHeader ''Bearer '')"

definition ip_allowed :: "string list \<Rightarrow> string \<Rightarrow> bool" where
  "ip_allowed allowed clientIP = list_ex (\<lambda>ip. clientIP = ip \<or> has_prefix clientIP (ip @ '':'')) allowed"

definition Authenticate :: "'ip net_api \<Rightarrow> 'ip WebhookAuth \<Rightarrow> 'd http_request \<Rightarrow> bool" where
  "Authenticate net a r =
     (if authDisabled a then True
      else if \<not> tokenEnabled a \<and> \<not> ipAllowlistEnabled a then False
      else if tokenEnabled a \<and> req_header r ''Authorization'' = [] then False
      else if tokenEnabled a \<and> bearer_token (req_header r ''Authorization'') \<noteq> token a then False
      else if ipAllowlistEnabled a \<and> \<not> ip_allowed (allowedIPs a) (getClientIP net (trustedProxyCIDRs a) r) then False
      else True)"

text \<open>The endpoint label of a path: its last segment that is not blank.\<close>

definition getEndpointFromPath :: "string \<Rightarrow> string" where
  "getEndpointFromPath path =
     (let p = trim_space (trim_prefix path ''/'')
      in if p = [] then ''unknown''
         else (let parts = filter (\<lambda>s. s \<noteq> []) (map trim_space (split_on (CHR ''/'') p))
               in if parts = [] then ''unknown'' else if 2 \<le> length parts then parts ! (length parts - 1) else parts ! 0))"

section \<open>Handlers\<close>

text \<open>A handler answers with a status code or panics, and changes the state it shares with the others: the counter
  \<^verbatim>\<open>WebhookRequests\<close> of the metrics, the events a webhook dropped, and the limiters.\<close>

datatype reply = Reply int | HandlerPanic

record 'l limiterEntry =
  le_limiter :: 'l
  lastSeen :: int

record ('ip, 'l) PerKeyRateLimiter =
  limiters :: "(string, 'l limiterEntry) gomap"
  maxPerSec :: int
  rl_trusted :: "('ip \<Rightarrow> bool) list"
  cleanupInterval :: int
  entryTTL :: int
  rl_webhookMetrics :: bool
  rl_rateLimitMetrics :: bool

record ('ip, 'l) front =
  WebhookRequests :: "(string \<times> string) list"
  WebhookDropped :: "string list"
  RateLimitRejections :: "(string \<times> string) list"
  rateLimiter :: "('ip, 'l) PerKeyRateLimiter"

definition RequireAuth ::
    "'ip net_api \<Rightarrow> 'ip WebhookAuth \<Rightarrow> ('d http_request \<Rightarrow> ('ip, 'l, 'z) front_scheme \<Rightarrow> reply \<times> ('ip, 'l, 'z) front_scheme) \<Rightarrow>
     'd http_request \<Rightarrow> ('ip, 'l, 'z) front_scheme \<Rightarrow> reply \<times> ('ip, 'l, 'z) front_scheme" where
  "RequireAuth net a next_handler r st =
     (if \<not> Authenticate net a r then
        (Reply 401,
         if auth_metrics a then st\<lparr>WebhookRequests := WebhookRequests st @ [(getEndpointFromPath (req_path r), ''401'')]\<rparr> else st)
      else next_handler r st)"

section \<open>The rate limiter (ratelimit\_wrapper.go)\<close>

definition NewPerKeyRateLimiterWithMetrics :: "int \<Rightarrow> int \<Rightarrow> ('ip \<Rightarrow> bool) list \<Rightarrow> bool \<Rightarrow> bool \<Rightarrow> ('ip, 'l) PerKeyRateLimiter" where
  "NewPerKeyRateLimiterWithMetrics maxTokens refillInterval trusted webhookMetrics rateLimitMetrics =
     (let perSec = f64_to_int (f64_div (f64_of_int maxTokens) (dur_seconds refillInterval))
      in \<lparr>limiters = [], maxPerSec = (if perSec < 1 then 1 else perSec), rl_trusted = trusted,
          cleanupInterval = 3600 * second, entryTTL = 3600 * second,
          rl_webhookMetrics = webhookMetrics, rl_rateLimitMetrics = rateLimitMetrics\<rparr>)"

definition NewPerKeyRateLimiter :: "int \<Rightarrow> int \<Rightarrow> ('ip \<Rightarrow> bool) list \<Rightarrow> ('ip, 'l) PerKeyRateLimiter" where
  "NewPerKeyRateLimiter maxTokens refillInterval trusted = NewPerKeyRateLimiterWithMetrics maxTokens refillInterval trusted False False"

text \<open>\<open>new\<close> and \<open>allow\<close> are the constructor of the SDK's limiter and its \<^verbatim>\<open>Allow\<close>.\<close>

definition rl_Allow ::
    "(int \<Rightarrow> 'l) \<Rightarrow> (int \<Rightarrow> 'l \<Rightarrow> bool \<times> 'l) \<Rightarrow> int \<Rightarrow> string \<Rightarrow> ('ip, 'l) PerKeyRateLimiter \<Rightarrow> bool \<times> ('ip, 'l) PerKeyRateLimiter" where
  "rl_Allow new allow now key rl =
     (let entry = (case map_of (limiters rl) key of
                     None \<Rightarrow> \<lparr>le_limiter = new (maxPerSec rl), lastSeen = now\<rparr>
                   | Some e \<Rightarrow> e\<lparr>lastSeen := now\<rparr>);
          (ok, l) = allow now (le_limiter entry)
      in (ok, rl\<lparr>limiters := put key (entry\<lparr>le_limiter := l\<rparr>) (limiters rl)\<rparr>))"

text \<open>One round of \<^verbatim>\<open>cleanup\<close>.\<close>

definition rl_cleanup :: "int \<Rightarrow> ('ip, 'l) PerKeyRateLimiter \<Rightarrow> ('ip, 'l) PerKeyRateLimiter" where
  "rl_cleanup now rl = rl\<lparr>limiters := filter (\<lambda>(key, e). \<not> entryTTL rl < now - lastSeen e) (limiters rl)\<rparr>"

definition rate_limit_key :: "'ip net_api \<Rightarrow> ('ip, 'l) PerKeyRateLimiter \<Rightarrow> 'd http_request \<Rightarrow> string \<times> string" where
  "rate_limit_key net rl r =
     (if 2 \<le> length (split_on (CHR ''/'') (trim_prefix (req_path r) ''/''))
      then (''endpoint:'' @ getEndpointFromPath (req_path r), ''endpoint'')
      else (getClientIP net (rl_trusted rl) r, ''ip''))"

definition RateLimitMiddleware ::
    "'ip net_api \<Rightarrow> (int \<Rightarrow> 'l) \<Rightarrow> (int \<Rightarrow> 'l \<Rightarrow> bool \<times> 'l) \<Rightarrow> int \<Rightarrow>
     ('d http_request \<Rightarrow> ('ip, 'l, 'z) front_scheme \<Rightarrow> reply \<times> ('ip, 'l, 'z) front_scheme) \<Rightarrow>
     'd http_request \<Rightarrow> ('ip, 'l, 'z) front_scheme \<Rightarrow> reply \<times> ('ip, 'l, 'z) front_scheme" where
  "RateLimitMiddleware net new allow now next_handler r st =
     (let endpointName = getEndpointFromPath (req_path r);
          (key, scope) = rate_limit_key net (rateLimiter st) r;
          (ok, rl) = rl_Allow new allow now key (rateLimiter st);
          st1 = st\<lparr>rateLimiter := rl\<rparr>
      in if \<not> ok then
           (let st2 = (if rl_webhookMetrics rl then st1\<lparr>WebhookRequests := WebhookRequests st1 @ [(endpointName, ''429'')]\<rparr> else st1);
                st3 = (if rl_rateLimitMetrics rl then st2\<lparr>RateLimitRejections := RateLimitRejections st2 @ [(endpointName, scope)]\<rparr> else st2)
            in (Reply 429, st3))
         else next_handler r st1)"

section \<open>Who is let in\<close>

lemma bearer_token_Nil [simp]: "bearer_token [] = []"
  by (simp add: bearer_token_def trim_prefix_def trim_space_def)






















lemma client_ip_untrusted:
  "\<not> isTrustedProxy net cidrs (req_remote r) \<Longrightarrow> getClientIP net cidrs (r\<lparr>req_header := h\<rparr>) = getClientIP net cidrs r"
  by (simp add: getClientIP_def forwarded_ip_def split: option.splits)

text \<open>C29. Nobody can talk their way in with proxy headers: for a peer outside the trusted networks, and so for every peer when none
  are configured, replacing all headers but \<^verbatim>\<open>Authorization\<close> changes neither the decision of the authenticator nor the
  key the request is counted under.\<close>

theorem proxy_headers_untrusted:
  assumes "\<not> isTrustedProxy net (trustedProxyCIDRs a) (req_remote r)" "rl_trusted rl = trustedProxyCIDRs a"
    "h ''Authorization'' = req_header r ''Authorization''"
  shows "Authenticate net a (r\<lparr>req_header := h\<rparr>) = Authenticate net a r \<and>
    rate_limit_key net rl (r\<lparr>req_header := h\<rparr>) = rate_limit_key net rl r"
  using assms client_ip_untrusted [OF assms(1), of h] by (simp add: Authenticate_def rate_limit_key_def)

definition text_net :: "string net_api" where
  "text_net = \<lparr>SplitHostPort = (\<lambda>s. if CHR '':'' \<in> set s then Some (before_last_colon s) else None), ParseIP = Some,
     ip_String = (\<lambda>s. s), ParseCIDR = (\<lambda>s. Some (\<lambda>ip. prefix s ip))\<rparr>"

definition auth1 :: "string WebhookAuth" where
  "auth1 = NewWebhookAuthWithMetrics text_net (\<lambda>k. if k = ''WEBHOOK_ALLOWED_IPS'' then ''10.0.0.1'' else []) True"

definition request1 :: "string \<Rightarrow> string \<Rightarrow> unit http_request" where
  "request1 path forwarded = \<lparr>req_method = ''POST'', req_path = path, req_remote = ''1.2.3.4:80'',
     req_header = (\<lambda>k. if k = ''X-Forwarded-For'' then forwarded else []), req_basic = None, req_decode = (\<lambda>_. Body ())\<rparr>"

theorem proxy_headers_untrusted_witness:
  "\<not> Authenticate text_net auth1 (request1 ''/falco'' ''10.0.0.1'')"
proof -
  let ?h = "\<lambda>k. if k = ''X-Forwarded-For'' then ''10.0.0.1'' else []"
  let ?rl = "NewPerKeyRateLimiter 100 (60 * second) [] :: (string, unit) PerKeyRateLimiter"
  have t: "trustedProxyCIDRs auth1 = []" by (simp add: auth1_def NewWebhookAuthWithMetrics_def Let_def)
  have "\<not> isTrustedProxy text_net (trustedProxyCIDRs auth1) (req_remote (request1 ''/falco'' []))" "rl_trusted ?rl = trustedProxyCIDRs auth1"
    "?h ''Authorization'' = req_header (request1 ''/falco'' []) ''Authorization''"
    by (simp_all add: isTrustedProxy_def t request1_def NewPerKeyRateLimiter_def NewPerKeyRateLimiterWithMetrics_def Let_def
        split: option.splits)
  from proxy_headers_untrusted [where h = ?h, OF this]
  have "Authenticate text_net auth1 (request1 ''/falco'' ''10.0.0.1'') = Authenticate text_net auth1 (request1 ''/falco'' [])"
    by (simp add: request1_def)
  moreover have "\<not> Authenticate text_net auth1 (request1 ''/falco'' [])" by code_simp
  ultimately show ?thesis by simp
qed

section \<open>The rate\<close>

text \<open>The number of requests a second that a limit of \<open>n\<close> requests a minute becomes.\<close>

lemma maxPerSec_minute:
  "maxPerSec (NewPerKeyRateLimiter n (60 * second) trusted) =
     (let perSec = f64_to_int (f64_div (f64_of_int n) (dur_seconds (60 * second))) in if perSec < 1 then 1 else perSec)"
  by (simp add: NewPerKeyRateLimiter_def NewPerKeyRateLimiterWithMetrics_def Let_def)

text \<open>The configured rate is not kept: a limit of 10 requests a minute and the default of 100 both become one request a second,
  so the first is exceeded six times over and the default is cut to 60. The conversion rounds down and then up to
  one.\<close>

theorem rate_of_limit:
  "maxPerSec (NewPerKeyRateLimiter 10 (60 * second) trusted) = 1 \<and>
   maxPerSec (NewPerKeyRateLimiter 100 (60 * second) trusted) = 1"
proof -
  have "f64_to_int (f64_div (f64_of_int 10) (dur_seconds (60 * second))) = 0" by code_simp
  moreover have "f64_to_int (f64_div (f64_of_int 100) (dur_seconds (60 * second))) = 1" by code_simp
  ultimately show ?thesis unfolding maxPerSec_minute by simp
qed

section \<open>Separate keys\<close>

text \<open>What happens to a limiter: a request with a key asks for leave, or the ticker of the clean-up fires.\<close>

datatype rl_event = Ask int string | CleanTick int

fun rl_verdicts ::
    "(int \<Rightarrow> 'l) \<Rightarrow> (int \<Rightarrow> 'l \<Rightarrow> bool \<times> 'l) \<Rightarrow> rl_event list \<Rightarrow> ('ip, 'l) PerKeyRateLimiter \<Rightarrow> (string \<times> bool) list" where
  "rl_verdicts new allow [] rl = []"
| "rl_verdicts new allow (Ask now key # evs) rl =
     (let (ok, rl') = rl_Allow new allow now key rl in (key, ok) # rl_verdicts new allow evs rl')"
| "rl_verdicts new allow (CleanTick now # evs) rl = rl_verdicts new allow evs (rl_cleanup now rl)"

fun concerns :: "string \<Rightarrow> rl_event \<Rightarrow> bool" where
  "concerns k (Ask now key) \<longleftrightarrow> key = k"
| "concerns k (CleanTick now) \<longleftrightarrow> True"

definition entries_of :: "string \<Rightarrow> (string \<times> 'l) list \<Rightarrow> (string \<times> 'l) list" where
  "entries_of k m = filter (\<lambda>(key, e). key = k) m"

definition same_key :: "string \<Rightarrow> ('ip, 'l) PerKeyRateLimiter \<Rightarrow> ('ip, 'l) PerKeyRateLimiter \<Rightarrow> bool" where
  "same_key k rl rl' \<longleftrightarrow> entries_of k (limiters rl) = entries_of k (limiters rl') \<and> maxPerSec rl = maxPerSec rl' \<and> entryTTL rl = entryTTL rl'"

lemma map_of_entries_of: "map_of m k = map_of (entries_of k m) k"
  by (induction m) (auto simp: entries_of_def)

lemma entries_of_put [simp]: "entries_of k (put key v m) = (if key = k then put k v (entries_of k m) else entries_of k m)"
  by (induction m) (auto simp: entries_of_def)

lemma entries_of_filter: "entries_of k (filter P m) = filter P (entries_of k m)"
  unfolding entries_of_def filter_filter by (rule filter_cong) auto

lemma rl_Allow_same: "same_key k rl rl' \<Longrightarrow> fst (rl_Allow new allow now k rl) = fst (rl_Allow new allow now k rl') \<and>
    same_key k (snd (rl_Allow new allow now k rl)) (snd (rl_Allow new allow now k rl'))"
  by (auto simp: same_key_def rl_Allow_def Let_def map_of_entries_of [of "limiters rl"] map_of_entries_of [of "limiters rl'"]
    split: prod.splits option.splits)

lemma rl_Allow_other: "key \<noteq> k \<Longrightarrow> same_key k rl rl' \<Longrightarrow> same_key k (snd (rl_Allow new allow now key rl)) rl'"
  by (auto simp: same_key_def rl_Allow_def Let_def split: prod.splits)

lemma rl_cleanup_same: "same_key k rl rl' \<Longrightarrow> same_key k (rl_cleanup now rl) (rl_cleanup now rl')"
  by (simp add: same_key_def rl_cleanup_def entries_of_filter)

lemma rl_verdicts_same:
  "same_key k rl rl' \<Longrightarrow>
   filter (\<lambda>(key, ok). key = k) (rl_verdicts new allow evs rl) = rl_verdicts new allow (filter (concerns k) evs) rl'"
proof (induction evs arbitrary: rl rl')
  case (Cons ev evs)
  show ?case
  proof (cases ev)
    case (CleanTick now)
    with Cons.IH rl_cleanup_same [OF Cons.prems, of now] show ?thesis by simp
  next
    case (Ask now key)
    show ?thesis
    proof (cases "key = k")
      case True
      with Cons.IH rl_Allow_same [OF Cons.prems, of new allow now] show ?thesis by (simp add: Ask Let_def split_beta)
    next
      case False
      with Cons.IH rl_Allow_other [OF False Cons.prems, of new allow now] show ?thesis by (simp add: Ask Let_def split_beta)
    qed
  qed
qed simp

text \<open>C40. Callers do not use up each other's allowance: whatever the limiter of the SDK does, and with the clean-up of unused limiters at any
  times in between, the verdicts for one key are those it would get if no other key were ever asked for.\<close>

theorem rate_keys_isolated:
  "filter (\<lambda>(key, ok). key = k) (rl_verdicts new allow evs rl) = rl_verdicts new allow (filter (concerns k) evs) rl"
  by (rule rl_verdicts_same) (simp add: same_key_def)

end
