(* ===== verification/Generic_Adapters.thy ===== *)
theory Generic_Adapters
  imports Webhook_Auth Event_Config Observation_Model
begin

text \<open>
  The generic adapters of \<^verbatim>\<open>pkg/adapter/generic\<close>: the factory, and for each of the three kinds of source (informer,
  webhook, logs) the validation of its configuration, the making of raw events and the life of its event
  channel.

  A Go channel is a \<open>chan\<close>: its buffer, its capacity and whether it is closed. Sending on a closed channel
  panics, and so does closing it twice. Regular expressions are compiled by the package \<^verbatim>\<open>regexp\<close>: a compiled
  pattern is given by its two functions the source calls. The servers, informers and log streams themselves are
  I/O; what they deliver (a request, an object, a line, a list of pods) is an argument of the handlers.
\<close>

section \<open>Channels\<close>

record 'e chan =
  buf :: "'e list"
  cap :: nat
  is_closed :: bool

definition make_chan :: "nat \<Rightarrow> 'e chan" where
  "make_chan n = \<lparr>buf = [], cap = n, is_closed = False\<rparr>"

definition has_room :: "'e chan \<Rightarrow> bool" where
  "has_room c \<longleftrightarrow> length (buf c) < cap c"

datatype send_result = SendOk | WouldBlock | SendPanic

definition chan_send :: "'e \<Rightarrow> 'e chan \<Rightarrow> send_result \<times> 'e chan" where
  "chan_send e c =
     (if is_closed c then (SendPanic, c)
      else if has_room c then (SendOk, c\<lparr>buf := buf c @ [e]\<rparr>)
      else (WouldBlock, c))"

section \<open>The factory (factory.go)\<close>

datatype GenericAdapter = InformerAdapter | WebhookAdapter | LogsAdapter

record Factory =
  has_informerManager :: bool
  has_clientSet :: bool
  has_routeRegistrar :: bool

definition NewFactoryWithMetrics :: "bool \<Rightarrow> bool \<Rightarrow> Factory" where
  "NewFactoryWithMetrics informerManager clientSet =
     \<lparr>has_informerManager = informerManager, has_clientSet = clientSet, has_routeRegistrar = False\<rparr>"

definition NewFactory :: "bool \<Rightarrow> bool \<Rightarrow> Factory" where
  "NewFactory informerManager clientSet = NewFactoryWithMetrics informerManager clientSet"

definition SetRouteRegistrar :: "bool \<Rightarrow> Factory \<Rightarrow> Factory" where
  "SetRouteRegistrar registrar f = f\<lparr>has_routeRegistrar := registrar\<rparr>"

definition NewAdapter :: "Factory \<Rightarrow> string \<Rightarrow> string + GenericAdapter" where
  "NewAdapter f ingester =
     (if ingester = ''informer'' then
        (if \<not> has_informerManager f then Inl ''informer manager is required'' else Inr InformerAdapter)
      else if ingester = ''webhook'' then
        (if \<not> has_clientSet f then Inl ''kubernetes client required for webhook adapter'' else Inr WebhookAdapter)
      else if ingester = ''logs'' then
        (if \<not> has_clientSet f then Inl ''kubernetes client required for logs adapter'' else Inr LogsAdapter)
      else Inl (''unsupported ingester type: '' @ ingester @ '' (must be one of: informer, webhook, logs)''))"

section \<open>Validation\<close>

definition informer_Validate :: "SourceConfig \<Rightarrow> string option" where
  "informer_Validate config =
     (case Informer config of
        None \<Rightarrow> Some ''informer config is required for informer adapter''
      | Some i \<Rightarrow>
          if gc_version (if_gvr i) = [] \<or> gc_resource (if_gvr i) = []
          then Some ''informer.gvr.version and resource are required'' else None)"

definition webhook_Validate :: "SourceConfig \<Rightarrow> string option" where
  "webhook_Validate config =
     (case Webhook config of
        None \<Rightarrow> Some ''webhook config is required for webhook adapter''
      | Some w \<Rightarrow>
          if wh_path w = [] then Some ''webhook.path is required''
          else if wh_port w < 1 \<or> 65535 < wh_port w then Some ''webhook.port must be between 1 and 65535''
          else (case wh_auth w of
                  None \<Rightarrow> None
                | Some au \<Rightarrow>
                    if au_type au \<noteq> ''none'' then
                      (if au_secret au = []
                       then Some (''webhook.auth.secretName is required when auth.type is '' @ au_type au)
                       else if sc_namespace config = [] then Some ''namespace is required when webhook auth is enabled''
                       else None)
                    else None))"

definition logs_Validate :: "SourceConfig \<Rightarrow> string option" where
  "logs_Validate config =
     (case Logs config of
        None \<Rightarrow> Some ''logs config is required for logs adapter''
      | Some l \<Rightarrow>
          if lc_selector l = [] then Some ''logs.podSelector is required''
          else if lc_patterns l = [] then Some ''logs.patterns must have at least one pattern''
          else None)"

fun Validate :: "GenericAdapter \<Rightarrow> SourceConfig \<Rightarrow> string option" where
  "Validate InformerAdapter config = informer_Validate config"
| "Validate WebhookAdapter config = webhook_Validate config"
| "Validate LogsAdapter config = logs_Validate config"

section \<open>The informer adapter\<close>

text \<open>An object the informer delivers; \<open>Tombstone None\<close> holds something else than an unstructured object.\<close>

datatype delivered = Live obj | Tombstone "obj option" | Alien

text \<open>\<open>gs\<close> is the method \<^verbatim>\<open>String\<close> of \<^verbatim>\<open>schema.GroupVersionResource\<close>, a type of the API machinery.\<close>

definition informer_event :: "uapi \<Rightarrow> (GVRConfig \<Rightarrow> string) \<Rightarrow> int \<Rightarrow> string \<Rightarrow> string \<Rightarrow> GVRConfig \<Rightarrow> obj \<Rightarrow> RawEvent" where
  "informer_event u gs now source kind g ob =
     \<lparr>raw_source = source, raw_timestamp = now, raw_data = ob,
      raw_metadata = [(''event'', VStr kind), (''namespace'', VStr (GetNamespace u ob)), (''name'', VStr (GetName u ob)),
                      (''gvr'', VStr (gs g))]\<rparr>"

definition existing_event :: "uapi \<Rightarrow> (GVRConfig \<Rightarrow> string) \<Rightarrow> int \<Rightarrow> string \<Rightarrow> GVRConfig \<Rightarrow> obj \<Rightarrow> RawEvent" where
  "existing_event u gs now source g ob =
     (let e = informer_event u gs now source ''add'' g ob in e\<lparr>raw_metadata := raw_metadata e @ [(''existing'', VBool True)]\<rparr>)"

datatype notification = AddFunc delivered | UpdateFunc delivered delivered | DeleteFunc delivered

text \<open>The event of a notification. A failed assertion \<^verbatim>\<open>obj.(*unstructured.Unstructured)\<close> of the first two handlers
  panics (\<open>Inl\<close>); the third returns.\<close>

fun createEventHandlers :: "uapi \<Rightarrow> (GVRConfig \<Rightarrow> string) \<Rightarrow> int \<Rightarrow> string \<Rightarrow> GVRConfig \<Rightarrow> notification \<Rightarrow> unit + RawEvent option" where
  "createEventHandlers u gs now source g (AddFunc (Live ob)) = Inr (Some (informer_event u gs now source ''add'' g ob))"
| "createEventHandlers u gs now source g (AddFunc _) = Inl ()"
| "createEventHandlers u gs now source g (UpdateFunc old (Live ob)) = Inr (Some (informer_event u gs now source ''update'' g ob))"
| "createEventHandlers u gs now source g (UpdateFunc old _) = Inl ()"
| "createEventHandlers u gs now source g (DeleteFunc (Live ob)) = Inr (Some (informer_event u gs now source ''delete'' g ob))"
| "createEventHandlers u gs now source g (DeleteFunc (Tombstone (Some ob))) = Inr (Some (informer_event u gs now source ''delete'' g ob))"
| "createEventHandlers u gs now source g (DeleteFunc _) = Inr None"

text \<open>The state of an adapter that was started: the channel is \<^verbatim>\<open>events\<close> of \<^verbatim>\<open>Start\<close>, which the handlers keep using; \<^verbatim>\<open>Stop\<close>
  closes it and forgets it, so that a second \<^verbatim>\<open>Stop\<close> does nothing.\<close>

record informer_state =
  i_stopCh :: bool
  i_events :: "RawEvent chan"
  i_has_events :: bool

definition informer_Start :: "SourceConfig \<Rightarrow> string + informer_state" where
  "informer_Start config =
     (case informer_Validate config of
        Some err \<Rightarrow> Inl err
      | None \<Rightarrow> Inr \<lparr>i_stopCh = False, i_events = make_chan 100, i_has_events = True\<rparr>)"

definition informer_notify :: "uapi \<Rightarrow> (GVRConfig \<Rightarrow> string) \<Rightarrow> int \<Rightarrow> string \<Rightarrow> GVRConfig \<Rightarrow> notification \<Rightarrow> informer_state \<Rightarrow> send_result \<times> informer_state" where
  "informer_notify u gs now source g n st =
     (case createEventHandlers u gs now source g n of
        Inl _ \<Rightarrow> (SendPanic, st)
      | Inr None \<Rightarrow> (SendOk, st)
      | Inr (Some e) \<Rightarrow> (let (r, c) = chan_send e (i_events st) in (r, st\<lparr>i_events := c\<rparr>)))"

definition informer_Stop :: "informer_state \<Rightarrow> informer_state" where
  "informer_Stop st =
     (let st1 = st\<lparr>i_stopCh := True\<rparr>
      in if i_has_events st then st1\<lparr>i_events := (i_events st)\<lparr>is_closed := True\<rparr>, i_has_events := False\<rparr> else st1)"

section \<open>The webhook adapter\<close>

record Secret =
  secret_Data :: "(string, string) gomap"

text \<open>The adapter together with what it shares with the server in front of it.\<close>

record ('ip, 'l) webhook_state = "('ip, 'l) front" +
  wa_events :: "RawEvent chan"
  wa_configs :: "(string, SourceConfig) gomap"
  wa_webhookMetrics :: bool
  wa_webhookDropped :: bool
  wa_server :: bool

definition loadSecret :: "string \<Rightarrow> string \<Rightarrow> string + Secret" where
  "loadSecret namespace secretName = Inl ''secret cache not available''"

definition authenticateBearer :: "'d http_request \<Rightarrow> Secret \<Rightarrow> bool" where
  "authenticateBearer r secret =
     (let authHeader = req_header r ''Authorization''
      in if authHeader = [] then False
         else if bearer_token authHeader = [] then False
         else (case map_of (secret_Data secret) ''token'' of
                 None \<Rightarrow> False
               | Some expected \<Rightarrow> bearer_token authHeader = expected))"

text \<open>\<open>bcrypt\<close> says whether \<^verbatim>\<open>bcrypt.CompareHashAndPassword\<close> accepts.\<close>

definition authenticateBasic :: "(string \<Rightarrow> string \<Rightarrow> bool) \<Rightarrow> 'd http_request \<Rightarrow> Secret \<Rightarrow> bool" where
  "authenticateBasic bcrypt r secret =
     (case req_basic r of
        None \<Rightarrow> False
      | Some (username, password) \<Rightarrow>
          (case (map_of (secret_Data secret) ''username'', map_of (secret_Data secret) ''password'') of
             (Some expectedUsername, Some expectedPassword) \<Rightarrow>
               if username \<noteq> expectedUsername then False
               else if has_prefix expectedPassword ''$2a$'' \<or> has_prefix expectedPassword ''$2b$'' \<or> has_prefix expectedPassword ''$2y$''
               then bcrypt expectedPassword password
               else password = expectedPassword
           | _ \<Rightarrow> False))"

definition authenticate :: "(string \<Rightarrow> string \<Rightarrow> bool) \<Rightarrow> 'd http_request \<Rightarrow> SourceConfig \<Rightarrow> AuthConfig option \<Rightarrow> bool" where
  "authenticate bcrypt r config auth =
     (case auth of
        None \<Rightarrow> True
      | Some au \<Rightarrow>
          if au_type au = ''none'' then True
          else if au_secret au = [] then False
          else (case loadSecret (sc_namespace config) (au_secret au) of
                  Inl err \<Rightarrow> False
                | Inr secret \<Rightarrow>
                    if au_type au = ''bearer'' then authenticateBearer r secret
                    else if au_type au = ''basic'' then authenticateBasic bcrypt r secret
                    else False))"

definition maxRequestBytes :: "(string \<Rightarrow> string) \<Rightarrow> int" where
  "maxRequestBytes getenv =
     (case parse_int (getenv ''SERVER_MAX_REQUEST_BYTES'') of
        Some n \<Rightarrow> if getenv ''SERVER_MAX_REQUEST_BYTES'' \<noteq> [] \<and> 0 < n then n else 1048576
      | None \<Rightarrow> 1048576)"

definition count_request :: "string \<Rightarrow> string \<Rightarrow> ('ip, 'l) webhook_state \<Rightarrow> ('ip, 'l) webhook_state" where
  "count_request endpoint code st =
     (if wa_webhookMetrics st then st\<lparr>WebhookRequests := WebhookRequests st @ [(endpoint, code)]\<rparr> else st)"

definition webhook_event :: "int \<Rightarrow> SourceConfig \<Rightarrow> obj http_request \<Rightarrow> obj \<Rightarrow> RawEvent" where
  "webhook_event now config r data =
     \<lparr>raw_source = sc_source config, raw_timestamp = now, raw_data = data,
      raw_metadata = [(''method'', VStr (req_method r)), (''path'', VStr (req_path r)), (''remote'', VStr (req_remote r))]\<rparr>"

text \<open>\<open>w\<close> is \<^verbatim>\<open>config.Webhook\<close>, which \<^verbatim>\<open>Start\<close> has validated not to be nil. The body is decoded within the limit; \<open>BodyEOF\<close> is the error
  \<^verbatim>\<open>io.EOF\<close> of the decoder.\<close>

definition handleWebhook ::
    "(string \<Rightarrow> string) \<Rightarrow> (string \<Rightarrow> string \<Rightarrow> bool) \<Rightarrow> int \<Rightarrow> SourceConfig \<Rightarrow> WebhookConfig \<Rightarrow> obj http_request \<Rightarrow>
     ('ip, 'l) webhook_state \<Rightarrow> reply \<times> ('ip, 'l) webhook_state" where
  "handleWebhook getenv bcrypt now config w r st =
     (let endpoint = sc_source config
      in if (case wh_auth w of None \<Rightarrow> False | Some au \<Rightarrow> au_type au \<noteq> ''none'') \<and> \<not> authenticate bcrypt r config (wh_auth w)
         then (Reply 401, count_request endpoint ''401'' st)
         else (case req_decode r (maxRequestBytes getenv) of
                 BodyEOF \<Rightarrow> (Reply 413, count_request endpoint ''413'' st)
               | BodyInvalid \<Rightarrow> (Reply 400, count_request endpoint ''400'' st)
               | Body data \<Rightarrow>
                   (case chan_send (webhook_event now config r data) (wa_events st) of
                      (SendPanic, c) \<Rightarrow> (HandlerPanic, st)
                    | (SendOk, c) \<Rightarrow> (Reply 200, count_request endpoint ''200'' (st\<lparr>wa_events := c\<rparr>))
                    | (WouldBlock, c) \<Rightarrow>
                        (let st1 = count_request endpoint ''503'' st
                         in (Reply 503, if wa_webhookDropped st1 then st1\<lparr>WebhookDropped := WebhookDropped st1 @ [endpoint]\<rparr> else st1)))))"

text \<open>\<open>register\<close> is the route registrar: \<open>None\<close> when it panics, else its error.\<close>

datatype start_result = StartErr string | StartPanic | Started

definition webhook_Start ::
    "(string \<Rightarrow> string option option) option \<Rightarrow> SourceConfig \<Rightarrow> ('ip, 'l) webhook_state \<Rightarrow> start_result \<times> ('ip, 'l) webhook_state" where
  "webhook_Start registrar config st =
     (case webhook_Validate config of
        Some err \<Rightarrow> (StartErr err, st)
      | None \<Rightarrow>
          (case Webhook config of
             None \<Rightarrow> (StartErr [], st)
           | Some w \<Rightarrow>
               (let st1 = st\<lparr>wa_configs := put (wh_path w) config (wa_configs st)\<rparr>
                in case registrar of
                     Some register \<Rightarrow>
                       (case register (wh_path w) of
                          None \<Rightarrow> (StartPanic, st1)
                        | Some (Some err) \<Rightarrow> (StartErr (''failed to register webhook route '' @ wh_path w @ '': '' @ err), st1)
                        | Some None \<Rightarrow> (Started, st1))
                   | None \<Rightarrow> (Started, st1\<lparr>wa_server := True\<rparr>))))"

text \<open>\<^verbatim>\<open>Stop\<close> closes the channel without looking; the second call panics.\<close>

definition webhook_Stop :: "('ip, 'l) webhook_state \<Rightarrow> bool \<times> ('ip, 'l) webhook_state" where
  "webhook_Stop st =
     (\<not> is_closed (wa_events st), st\<lparr>wa_events := (wa_events st)\<lparr>is_closed := True\<rparr>\<rparr>)"

section \<open>The logs adapter\<close>

record Pod =
  pod_Namespace :: string
  pod_Name :: string
  pod_Phase :: string
  pod_Containers :: "string list"

text \<open>A compiled expression: \<^verbatim>\<open>FindStringSubmatch\<close> and \<^verbatim>\<open>SubexpNames\<close>.\<close>

record Regexp =
  FindStringSubmatch :: "string \<Rightarrow> string list option"
  SubexpNames :: "string list"

record CompiledPattern =
  cp_Regex :: Regexp
  cp_Type :: string
  cp_Priority :: f64

fun compile_patterns :: "(string \<Rightarrow> string + Regexp) \<Rightarrow> LogPattern list \<Rightarrow> string + CompiledPattern list" where
  "compile_patterns compile [] = Inr []"
| "compile_patterns compile (p # ps) =
     (case compile (lp_regex p) of
        Inl err \<Rightarrow> Inl (''invalid regex pattern '' @ [CHR 0x22] @ lp_regex p @ [CHR 0x22] @ '': '' @ err)
      | Inr re \<Rightarrow>
          (case compile_patterns compile ps of
             Inl err \<Rightarrow> Inl err
           | Inr cs \<Rightarrow> Inr (\<lparr>cp_Regex = re, cp_Type = lp_type p, cp_Priority = lp_priority p\<rparr> # cs)))"

definition poll_interval :: "LogsConfig \<Rightarrow> int" where
  "poll_interval l = (case parse_duration (lc_poll l) of Some d \<Rightarrow> d | None \<Rightarrow> second)"

text \<open>\<^verbatim>\<open>Start\<close> returns before the goroutine it starts makes its ticker, which panics unless the interval is positive.\<close>

definition logs_Start :: "(string \<Rightarrow> string + Regexp) \<Rightarrow> SourceConfig \<Rightarrow> string + CompiledPattern list \<times> int" where
  "logs_Start compile config =
     (case logs_Validate config of
        Some err \<Rightarrow> Inl err
      | None \<Rightarrow>
          (case Logs config of
             None \<Rightarrow> Inl []
           | Some l \<Rightarrow>
               (case compile_patterns compile (lc_patterns l) of
                  Inl err \<Rightarrow> Inl err
                | Inr cs \<Rightarrow> Inr (cs, poll_interval l))))"

definition ticker_panics :: "int \<Rightarrow> bool" where
  "ticker_panics interval \<longleftrightarrow> interval \<le> 0"

text \<open>The groups of a match that have a name.\<close>

definition named_groups :: "string list \<Rightarrow> string list \<Rightarrow> (string, string) gomap" where
  "named_groups subexps matches =
     foldl (\<lambda>m i. if subexps ! i \<noteq> [] \<and> i < length matches then put (subexps ! i) (matches ! i) m else m) [] [1..<length subexps]"

text \<open>The groups are a \<^verbatim>\<open>map[string]string\<close>, not one of the types of JSON values.\<close>

definition log_event :: "int \<Rightarrow> string \<Rightarrow> Pod \<Rightarrow> string \<Rightarrow> string \<Rightarrow> CompiledPattern \<Rightarrow> string list \<Rightarrow> RawEvent" where
  "log_event now source pod container line p matches =
     \<lparr>raw_source = source, raw_timestamp = now,
      raw_data = [(''logLine'', VStr line),
                  (''matches'', VOther (fmt_entries (named_groups (SubexpNames (cp_Regex p)) matches))),
                  (''pod'', VStr (pod_Name pod)), (''namespace'', VStr (pod_Namespace pod)), (''container'', VStr container)],
      raw_metadata = [(''type'', VStr (cp_Type p)), (''priority'', VFloat (cp_Priority p))]\<rparr>"

definition log_container :: "LogsConfig \<Rightarrow> Pod \<Rightarrow> string" where
  "log_container l pod =
     (if lc_container l = [] \<and> pod_Containers pod \<noteq> [] then hd (pod_Containers pod) else lc_container l)"

definition line_events :: "int \<Rightarrow> string \<Rightarrow> LogsConfig \<Rightarrow> CompiledPattern list \<Rightarrow> Pod \<Rightarrow> string \<Rightarrow> RawEvent list" where
  "line_events now source l patterns pod line =
     List.map_filter (\<lambda>p. map_option (log_event now source pod (log_container l pod) line p)
       (FindStringSubmatch (cp_Regex p) line)) patterns"

subsection \<open>The watched pods\<close>

text \<open>A stream is a goroutine of \<^verbatim>\<open>streamPodLogs\<close>; \<open>st_ended\<close> when it has returned, because the stream failed or came to its end.\<close>

record stream =
  st_pod :: Pod
  st_cancelled :: bool
  st_ended :: bool

record logs_state =
  l_watchers :: "(string, nat) gomap"
  l_streams :: "stream list"
  l_events :: "RawEvent chan"

definition NewLogsAdapter :: logs_state where
  "NewLogsAdapter = \<lparr>l_watchers = [], l_streams = [], l_events = make_chan 100\<rparr>"

definition pod_key :: "Pod \<Rightarrow> string" where
  "pod_key pod = pod_Namespace pod @ ''/'' @ pod_Name pod"

definition running :: "Pod \<Rightarrow> bool" where
  "running pod \<longleftrightarrow> pod_Phase pod = ''Running''"

definition start_stream :: "Pod \<Rightarrow> logs_state \<Rightarrow> logs_state" where
  "start_stream pod s =
     (if running pod \<and> map_of (l_watchers s) (pod_key pod) = None
      then s\<lparr>l_watchers := put (pod_key pod) (length (l_streams s)) (l_watchers s),
             l_streams := l_streams s @ [\<lparr>st_pod = pod, st_cancelled = False, st_ended = False\<rparr>]\<rparr>
      else s)"

definition cancel_streams :: "nat list \<Rightarrow> stream list \<Rightarrow> stream list" where
  "cancel_streams is ss = map (\<lambda>(i, st). if i \<in> set is then st\<lparr>st_cancelled := True\<rparr> else st) (enumerate 0 ss)"

text \<open>One tick of \<^verbatim>\<open>watchPods\<close>, with the pods the API server listed, or an error.\<close>

definition watch_tick :: "Pod list option \<Rightarrow> logs_state \<Rightarrow> logs_state" where
  "watch_tick listed s =
     (case listed of
        None \<Rightarrow> s
      | Some pods \<Rightarrow>
          (let activePods = map pod_key (filter running pods);
               s1 = fold start_stream pods s;
               gone = filter (\<lambda>(key, i). key \<notin> set activePods) (l_watchers s1)
           in s1\<lparr>l_watchers := filter (\<lambda>(key, i). key \<in> set activePods) (l_watchers s1),
                 l_streams := cancel_streams (map snd gone) (l_streams s1)\<rparr>))"

text \<open>A live stream sends an event.\<close>

definition stream_send :: "nat \<Rightarrow> RawEvent \<Rightarrow> logs_state \<Rightarrow> send_result \<times> logs_state" where
  "stream_send i e s = (let (r, c) = chan_send e (l_events s) in (r, s\<lparr>l_events := c\<rparr>))"

text \<open>\<^verbatim>\<open>Stop\<close> cancels the streams it watches. Its \<^verbatim>\<open>select\<close> closes the channel only when there is nothing to receive; else it
  takes an event and drops it.\<close>

definition logs_Stop :: "logs_state \<Rightarrow> logs_state" where
  "logs_Stop s =
     (let s1 = s\<lparr>l_streams := cancel_streams (map snd (l_watchers s)) (l_streams s), l_watchers := []\<rparr>;
          c = l_events s1
      in if buf c \<noteq> [] then s1\<lparr>l_events := c\<lparr>buf := tl (buf c)\<rparr>\<rparr>
         else if is_closed c then s1
         else s1\<lparr>l_events := c\<lparr>is_closed := True\<rparr>\<rparr>)"

inductive logs_step :: "logs_state \<Rightarrow> logs_state \<Rightarrow> bool" where
  tick: "logs_step s (watch_tick listed s)"
| send: "i < length (l_streams s) \<Longrightarrow> \<not> st_ended (l_streams s ! i) \<Longrightarrow> stream_send i e s = (SendOk, s') \<Longrightarrow> logs_step s s'"
| receive: "buf (l_events s) = e # es \<Longrightarrow> logs_step s (s\<lparr>l_events := (l_events s)\<lparr>buf := es\<rparr>\<rparr>)"
| ended: "i < length (l_streams s) \<Longrightarrow> logs_step s (s\<lparr>l_streams := (l_streams s)[i := (l_streams s ! i)\<lparr>st_ended := True\<rparr>]\<rparr>)"
| stop: "logs_step s (logs_Stop s)"

definition logs_ok :: "logs_state \<Rightarrow> bool" where
  "logs_ok s \<longleftrightarrow> wf_map (l_watchers s) \<and> distinct (map snd (l_watchers s)) \<and>
     (\<forall>(key, i) \<in> set (l_watchers s). i < length (l_streams s) \<and> pod_key (st_pod (l_streams s ! i)) = key \<and> \<not> st_cancelled (l_streams s ! i)) \<and>
     length (buf (l_events s)) \<le> cap (l_events s)"

section \<open>The watched pods\<close>

lemma cancel_nth: "i < length ss \<Longrightarrow> cancel_streams is ss ! i = (if i \<in> set is then (ss ! i)\<lparr>st_cancelled := True\<rparr> else ss ! i)"
  by (simp add: cancel_streams_def nth_enumerate_eq)

lemma length_cancel [simp]: "length (cancel_streams is ss) = length ss"
  by (simp add: cancel_streams_def)

definition watch_ok :: "logs_state \<Rightarrow> string \<times> nat \<Rightarrow> bool" where
  "watch_ok s w \<longleftrightarrow> snd w < length (l_streams s) \<and> pod_key (st_pod (l_streams s ! snd w)) = fst w \<and>
     \<not> st_cancelled (l_streams s ! snd w)"

lemma watch_ok_events [simp]: "watch_ok (s\<lparr>l_events := c\<rparr>) w = watch_ok s w"
  by (simp add: watch_ok_def)

lemma logs_ok_alt:
  "logs_ok s \<longleftrightarrow> wf_map (l_watchers s) \<and> distinct (map snd (l_watchers s)) \<and> (\<forall>w \<in> set (l_watchers s). watch_ok s w) \<and>
     length (buf (l_events s)) \<le> cap (l_events s)"
  by (auto simp: logs_ok_def watch_ok_def)

lemma put_fresh: "map_of m k = None \<Longrightarrow> put k v m = m @ [(k, v)]"
  by (induction m) (auto split: if_splits)

lemma start_stream_ok: "logs_ok s \<Longrightarrow> logs_ok (start_stream pod s)"
proof (cases "running pod \<and> map_of (l_watchers s) (pod_key pod) = None")
  case True
  assume ok: "logs_ok s"
  have "snd w < length (l_streams s)" if "w \<in> set (l_watchers s)" for w using ok that by (auto simp: logs_ok_alt watch_ok_def)
  then have "length (l_streams s) \<notin> snd ` set (l_watchers s)" by fastforce
  with ok True show ?thesis
    by (auto simp: logs_ok_alt start_stream_def put_fresh wf_map_def watch_ok_def nth_append map_of_eq_None_iff)
qed (auto simp: start_stream_def)

lemma fold_start_ok: "logs_ok s \<Longrightarrow> logs_ok (fold start_stream pods s)"
  by (induction pods arbitrary: s) (auto intro: start_stream_ok)

lemma start_stream_keys:
  "set (keys (l_watchers (start_stream pod s))) = set (keys (l_watchers s)) \<union> (if running pod then {pod_key pod} else {})"
  by (auto simp: start_stream_def put_fresh map_of_eq_None_iff image_iff split: if_splits)

lemma fold_start_keys:
  "set (keys (l_watchers (fold start_stream pods s))) = set (keys (l_watchers s)) \<union> pod_key ` {p \<in> set pods. running p}"
  by (induction pods arbitrary: s) (auto simp: start_stream_keys simp del: set_map)

lemma filter_map_distinct: "distinct (map f xs) \<Longrightarrow> distinct (map f (filter P xs))"
  by (rule distinct_map_filter)

lemma watch_tick_ok:
  assumes "logs_ok s" shows "logs_ok (watch_tick listed s)"
proof (cases listed)
  case (Some pods)
  define s1 where "s1 = fold start_stream pods s"
  define act where "act = set (map pod_key (filter running pods))"
  have ok: "logs_ok s1" unfolding s1_def using assms by (rule fold_start_ok)
  have tick: "watch_tick listed s = s1\<lparr>l_watchers := filter (\<lambda>(key, i). key \<in> act) (l_watchers s1),
      l_streams := cancel_streams (map snd (filter (\<lambda>(key, i). key \<notin> act) (l_watchers s1))) (l_streams s1)\<rparr>"
    by (simp add: watch_tick_def Some Let_def s1_def act_def)
  have kept: False if "(k, i) \<in> set (l_watchers s1)" "k \<in> act" "(k', i) \<in> set (l_watchers s1)" "k' \<notin> act" for k k' i
  proof -
    have "inj_on snd (set (l_watchers s1))" using ok by (simp add: logs_ok_alt distinct_map)
    from inj_onD [OF this, of "(k, i)" "(k', i)"] that show False by simp
  qed
  show ?thesis
    using ok kept unfolding tick
    by (auto simp: logs_ok_alt watch_ok_def wf_map_def cancel_nth distinct_map_filter)
qed (simp add: watch_tick_def assms)

lemma logs_ok_step: "logs_step s s' \<Longrightarrow> logs_ok s \<Longrightarrow> logs_ok s'"
proof (induction rule: logs_step.induct)
  case (tick s listed)
  then show ?case by (rule watch_tick_ok)
next
  case (send i s e s')
  then show ?case by (auto simp: logs_ok_alt stream_send_def chan_send_def has_room_def Let_def split: if_splits)
next
  case (receive s e es)
  then show ?case by (auto simp: logs_ok_alt)
next
  case (ended i s)
  then show ?case by (auto simp: logs_ok_alt watch_ok_def nth_list_update)
next
  case (stop s)
  then show ?case by (auto simp: logs_ok_alt logs_Stop_def Let_def wf_map_def)
qed

lemma logs_reachable: "logs_step\<^sup>*\<^sup>* NewLogsAdapter s \<Longrightarrow> logs_ok s"
proof (induction rule: rtranclp_induct)
  case base
  then show ?case by (simp add: logs_ok_def NewLogsAdapter_def make_chan_def)
next
  case (step s s')
  then show ?case by (blast intro: logs_ok_step)
qed

lemma watch_tick_keys: "set (keys (l_watchers (watch_tick (Some pods) s))) = pod_key ` {p \<in> set pods. running p}"
proof -
  have "set (keys (l_watchers (watch_tick (Some pods) s))) =
      set (keys (l_watchers (fold start_stream pods s))) \<inter> set (map pod_key (filter running pods))"
    by (auto simp: watch_tick_def Let_def image_iff) (force+)?
  then show ?thesis unfolding fold_start_keys by auto
qed

text \<open>The logs adapter follows the pods: after any series of ticks, sends, failures and stops, a tick leaves exactly the running
  pods watched, each by one stream of its own that has not been cancelled.\<close>

theorem watched_pods:
  assumes "logs_step\<^sup>*\<^sup>* NewLogsAdapter s"
  shows "set (keys (l_watchers (watch_tick (Some pods) s))) = pod_key ` {p \<in> set pods. running p} \<and>
    distinct (map snd (l_watchers (watch_tick (Some pods) s))) \<and>
    (\<forall>(key, i) \<in> set (l_watchers (watch_tick (Some pods) s)).
      i < length (l_streams (watch_tick (Some pods) s)) \<and>
      pod_key (st_pod (l_streams (watch_tick (Some pods) s) ! i)) = key \<and>
      \<not> st_cancelled (l_streams (watch_tick (Some pods) s) ! i))"
  using watch_tick_ok [OF logs_reachable [OF assms], of "Some pods"] unfolding watch_tick_keys by (simp add: logs_ok_def)

definition pod1 :: Pod where
  "pod1 = \<lparr>pod_Namespace = ''ns'', pod_Name = ''p'', pod_Phase = ''Running'', pod_Containers = []\<rparr>"

theorem watched_pods_witness:
  "set (keys (l_watchers (watch_tick (Some [pod1]) (watch_tick None NewLogsAdapter)))) = {''ns/p''}"
proof -
  have "logs_step\<^sup>*\<^sup>* NewLogsAdapter (watch_tick None NewLogsAdapter)" by (blast intro: logs_step.tick)
  from watched_pods [OF this, of "[pod1]"] have
    "set (keys (l_watchers (watch_tick (Some [pod1]) (watch_tick None NewLogsAdapter)))) = pod_key ` {p \<in> set [pod1]. running p}" by blast
  also have "\<dots> = {''ns/p''}" by (auto simp: pod1_def pod_key_def running_def)
  finally show ?thesis .
qed

text \<open>Stopping a logs adapter does not stop it. With events still in the channel, \<^verbatim>\<open>Stop\<close> throws one away and leaves the channel
  open. With the channel empty it closes it, but the goroutine that polls the pods goes on: its next tick starts a
  new stream for a running pod, and the first matching line of that stream panics with a send on the closed channel.\<close>

theorem stopped_logs_adapter:
  assumes "logs_step\<^sup>*\<^sup>* NewLogsAdapter s" "pod \<in> set pods" "running pod"
  shows "let s1 = logs_Stop s; s2 = watch_tick (Some pods) s1 in
    (buf (l_events s) \<noteq> [] \<longrightarrow> l_events s1 = (l_events s)\<lparr>buf := tl (buf (l_events s))\<rparr>) \<and>
    (buf (l_events s) = [] \<longrightarrow> is_closed (l_events s1) \<and>
       (\<exists>i < length (l_streams s2). pod_key (st_pod (l_streams s2 ! i)) = pod_key pod \<and>
          \<not> st_cancelled (l_streams s2 ! i) \<and> (\<forall>e. fst (stream_send i e s2) = SendPanic)))"
proof -
  let ?s1 = "logs_Stop s" and ?s2 = "watch_tick (Some pods) (logs_Stop s)"
  have ok: "logs_ok ?s2" using logs_reachable [OF assms(1)] by (intro watch_tick_ok logs_ok_step [OF logs_step.stop])
  have "pod_key pod \<in> set (keys (l_watchers ?s2))" unfolding watch_tick_keys using assms by blast
  then obtain i where "(pod_key pod, i) \<in> set (l_watchers ?s2)" by auto
  then have i: "i < length (l_streams ?s2)" "pod_key (st_pod (l_streams ?s2 ! i)) = pod_key pod" "\<not> st_cancelled (l_streams ?s2 ! i)"
    using ok by (auto simp: logs_ok_def)
  have ev: "l_events (fold start_stream ps t) = l_events t" for ps t
    by (induction ps arbitrary: t) (auto simp: start_stream_def)
  then have keep: "l_events ?s2 = l_events ?s1" by (simp add: watch_tick_def Let_def)
  show ?thesis
    using i keep unfolding Let_def by (auto simp: logs_Stop_def Let_def stream_send_def chan_send_def)
qed

theorem stopped_logs_adapter_witness:
  "is_closed (l_events (logs_Stop NewLogsAdapter)) \<and>
   (\<exists>i. fst (stream_send i (raw_event ''s'' []) (watch_tick (Some [pod1]) (logs_Stop NewLogsAdapter))) = SendPanic)"
proof -
  have "pod1 \<in> set [pod1]" "running pod1" "buf (l_events NewLogsAdapter) = []"
    by (simp_all add: pod1_def running_def NewLogsAdapter_def make_chan_def)
  with stopped_logs_adapter [OF rtranclp.rtrancl_refl this(1,2)] show ?thesis by (auto simp: Let_def)
qed

text \<open>A log stream that has ended is not resumed: as long as the pod runs, ticks keep the finished stream as its watcher and start
  no other, so the later lines of the pod are never read.\<close>

theorem ended_stream_kept:
  assumes "logs_step\<^sup>*\<^sup>* NewLogsAdapter s" "map_of (l_watchers s) (pod_key pod) = Some i" "running pod"
    "\<forall>p \<in> set pods. running p \<longrightarrow> pod_key p = pod_key pod" "pod \<in> set pods"
  shows "map_of (l_watchers (watch_tick (Some pods) s)) (pod_key pod) = Some i \<and>
    length (l_streams (watch_tick (Some pods) s)) = length (l_streams s)"
proof -
  have "fold start_stream ps s = s" if "\<forall>p \<in> set ps. running p \<longrightarrow> pod_key p = pod_key pod" for ps
    using that assms(2) by (induction ps) (auto simp: start_stream_def)
  with assms(4) have f: "fold start_stream pods s = s" by blast
  have look: "map_of (filter (\<lambda>(key, i). key \<in> A) m) k = (if k \<in> A then map_of m k else None)" for A and m :: "(string, nat) gomap" and k
    by (induction m) auto
  have act: "pod_key pod \<in> set (map pod_key (filter running pods))" using assms(3,5) by simp
  show ?thesis using act assms(2) by (simp add: watch_tick_def Let_def f look del: set_map)
qed

theorem ended_stream_kept_witness:
  "let s = (watch_tick (Some [pod1]) NewLogsAdapter) in
   length (l_streams (watch_tick (Some [pod1]) (s\<lparr>l_streams := (l_streams s)[0 := (l_streams s ! 0)\<lparr>st_ended := True\<rparr>]\<rparr>))) = 1"
proof -
  let ?s = "watch_tick (Some [pod1]) NewLogsAdapter"
  let ?t = "?s\<lparr>l_streams := (l_streams ?s)[0 := (l_streams ?s ! 0)\<lparr>st_ended := True\<rparr>]\<rparr>"
  have s: "length (l_streams ?s) = 1" "map_of (l_watchers ?s) (pod_key pod1) = Some 0"
    by (simp_all add: watch_tick_def start_stream_def NewLogsAdapter_def pod1_def running_def pod_key_def Let_def cancel_streams_def)
  have "logs_step ?s ?t" by (rule logs_step.ended) (simp add: s)
  then have reach: "logs_step\<^sup>*\<^sup>* NewLogsAdapter ?t" using logs_step.tick by (meson r_into_rtranclp rtranclp.rtrancl_into_rtrancl)
  have t: "map_of (l_watchers ?t) (pod_key pod1) = Some 0" using s(2) by simp
  have r: "running pod1" by (simp add: running_def pod1_def)
  have "\<forall>p \<in> set [pod1]. running p \<longrightarrow> pod_key p = pod_key pod1" "pod1 \<in> set [pod1]" by simp_all
  from ended_stream_kept [OF reach t r this] s(1) show ?thesis by (simp add: Let_def)
qed

text \<open>No event of the logs adapter survives the making of its observation: it carries the named groups as a map of strings, which
  the conversion of the details passes on as it is, so the details given to \<^verbatim>\<open>SetNestedMap\<close> are not JSON and its deep
  copy panics.\<close>

theorem log_details_not_json:
  "\<not> json_obj (map (map_prod id safe_detail) (raw_data (log_event now source pod container line p matches)))"
  by (simp add: log_event_def safe_detail_def)

section \<open>The informer adapter\<close>

text \<open>The informer adapter turns every notification about an object, a deletion learnt from a tombstone included, into exactly one
  event with the configured source and the whole object as its data; but it stays registered after \<^verbatim>\<open>Stop\<close>: the next
  notification sends on the closed channel and panics.\<close>

theorem informer_notifications:
  assumes "n \<in> {AddFunc (Live ob), UpdateFunc old (Live ob), DeleteFunc (Live ob), DeleteFunc (Tombstone (Some ob))}"
  shows "\<exists>e. raw_source e = source \<and> raw_data e = ob \<and>
    (\<not> is_closed (i_events st) \<and> has_room (i_events st) \<longrightarrow>
       informer_notify u gs now source g n st = (SendOk, st\<lparr>i_events := (i_events st)\<lparr>buf := buf (i_events st) @ [e]\<rparr>\<rparr>)) \<and>
    (i_has_events st \<longrightarrow> fst (informer_notify u gs now source g n (informer_Stop st)) = SendPanic)"
  using assms
  by (intro exI [of _ "case createEventHandlers u gs now source g n of Inr (Some e) \<Rightarrow> e"])
     (auto simp: informer_notify_def informer_Stop_def chan_send_def informer_event_def Let_def)

theorem informer_notifications_witness:
  "fst (informer_notify walk_api gc_resource 0 ''s'' \<lparr>gc_group = [], gc_version = ''v1'', gc_resource = ''pods''\<rparr> (AddFunc (Live []))
     (informer_Stop \<lparr>i_stopCh = False, i_events = make_chan 100, i_has_events = True\<rparr>)) = SendPanic"
proof -
  have "AddFunc (Live []) \<in> {AddFunc (Live []), UpdateFunc Alien (Live []), DeleteFunc (Live []), DeleteFunc (Tombstone (Some []))}" by simp
  from informer_notifications [OF this, where st = "\<lparr>i_stopCh = False, i_events = make_chan 100, i_has_events = True\<rparr>"
      and u = walk_api and gs = gc_resource and now = 0 and source = "''s''" and g = "\<lparr>gc_group = [], gc_version = ''v1'', gc_resource = ''pods''\<rparr>"]
  show ?thesis by auto
qed

end
