(* ===== verification/Webhook_Server.thy ===== *)
theory Webhook_Server
  imports Generic_Adapters
begin

text \<open>
  The HTTP server in front of the webhook adapters (\<^verbatim>\<open>pkg/server/http.go\<close>): its routes, its readiness and its
  status, and the path of a webhook request through the rate limiter, the authenticator and the adapter.

  The multiplexer \<^verbatim>\<open>http.ServeMux\<close> keeps the patterns that were registered. The package documents that registering a
  pattern that conflicts with a registered one panics; which other patterns conflict is left open: the parameter
  \<open>conflict\<close>, of which the theorems only use the locale \<open>serve_mux\<close>, that a pattern conflicts with itself.
\<close>

section \<open>Routes\<close>

record HAStatus =
  ha_Enabled :: bool
  ReplicaID :: string
  CurrentLoad :: f64
  CPUUsage :: f64
  MemoryUsage :: f64
  EventsPerSec :: f64
  QueueDepth :: int
  Healthy :: bool
  LastUpdate :: string

record Server =
  mux_patterns :: "string list"
  ready :: bool
  haStatus :: HAStatus

datatype register_result = Registered | RegisterErr string | MuxPanic

definition registerHandlers :: "bool \<Rightarrow> string list" where
  "registerHandlers ha =
     [''/healthz'', ''/health'', ''/readyz'', ''/ready'', ''/metrics''] @
     (if ha then [''/ha/health'', ''/ha/metrics'', ''/ha/status''] else [])"

text \<open>\<open>ha\<close> is \<^verbatim>\<open>haConfig.IsHAEnabled()\<close>; \<open>replicaID\<close> and \<open>now\<close> are the host name, or the name made of the clock, and the time.\<close>

definition NewServer :: "bool \<Rightarrow> string \<Rightarrow> string \<Rightarrow> Server" where
  "NewServer ha replicaID now =
     \<lparr>mux_patterns = registerHandlers ha, ready = False,
      haStatus = \<lparr>ha_Enabled = ha, ReplicaID = replicaID, CurrentLoad = Fin 0, CPUUsage = Fin 0, MemoryUsage = Fin 0,
                  EventsPerSec = Fin 0, QueueDepth = 0, Healthy = True, LastUpdate = now\<rparr>\<rparr>"

definition RegisterWebhookHandler :: "(string list \<Rightarrow> string \<Rightarrow> bool) \<Rightarrow> string \<Rightarrow> Server \<Rightarrow> register_result \<times> Server" where
  "RegisterWebhookHandler conflict path s =
     (if path = [] then (RegisterErr ''webhook path cannot be empty'', s)
      else if conflict (mux_patterns s) path then (MuxPanic, s)
      else (Registered, s\<lparr>mux_patterns := mux_patterns s @ [path]\<rparr>))"

definition UnregisterWebhookHandler :: "string \<Rightarrow> Server \<Rightarrow> string option \<times> Server" where
  "UnregisterWebhookHandler path s = (if path = [] then Some ''webhook path cannot be empty'' else None, s)"

definition SetReady :: "bool \<Rightarrow> Server \<Rightarrow> Server" where
  "SetReady r s = s\<lparr>ready := r\<rparr>"

definition UpdateHAStatus :: "f64 \<Rightarrow> f64 \<Rightarrow> f64 \<Rightarrow> f64 \<Rightarrow> int \<Rightarrow> string \<Rightarrow> Server \<Rightarrow> Server" where
  "UpdateHAStatus cpuUsage memoryUsage eventsPerSec currentLoad queueDepth now s =
     s\<lparr>haStatus := (haStatus s)\<lparr>CPUUsage := cpuUsage, MemoryUsage := memoryUsage, EventsPerSec := eventsPerSec,
        CurrentLoad := currentLoad, QueueDepth := queueDepth, LastUpdate := now, Healthy := True\<rparr>\<rparr>"

text \<open>The status codes of the probes.\<close>

definition readyz :: "Server \<Rightarrow> int" where
  "readyz s = (if ready s then 200 else 503)"

definition handleHAHealth :: "Server \<Rightarrow> int \<times> string" where
  "handleHAHealth s = (if \<not> Healthy (haStatus s) then (503, ''unhealthy'') else (200, ''healthy''))"

definition handleHAMetrics :: "string \<Rightarrow> Server \<Rightarrow> int \<times> obj" where
  "handleHAMetrics now s =
     (let st = haStatus s
      in (200, [(''replica_id'', VStr (ReplicaID st)), (''cpu_usage'', VFloat (CPUUsage st)), (''memory_usage'', VFloat (MemoryUsage st)),
                (''events_per_sec'', VFloat (EventsPerSec st)), (''queue_depth'', VInt (QueueDepth st)),
                (''current_load'', VFloat (CurrentLoad st)), (''timestamp'', VStr now)]))"

definition handleHAStatus :: "Server \<Rightarrow> int \<times> HAStatus" where
  "handleHAStatus s = (200, haStatus s)"

section \<open>A webhook request\<close>

text \<open>The handler that \<^verbatim>\<open>RegisterWebhookHandler\<close> installs for an adapter: the limiter around the authenticator around the
  adapter's own handler.\<close>

definition serve_webhook ::
    "'ip net_api \<Rightarrow> 'ip WebhookAuth \<Rightarrow> (int \<Rightarrow> 'l) \<Rightarrow> (int \<Rightarrow> 'l \<Rightarrow> bool \<times> 'l) \<Rightarrow> (string \<Rightarrow> string) \<Rightarrow> (string \<Rightarrow> string \<Rightarrow> bool) \<Rightarrow> int \<Rightarrow>
     SourceConfig \<Rightarrow> WebhookConfig \<Rightarrow> obj http_request \<Rightarrow> ('ip, 'l) webhook_state \<Rightarrow> reply \<times> ('ip, 'l) webhook_state" where
  "serve_webhook net auth new allow getenv bcrypt now config w =
     RateLimitMiddleware net new allow now (RequireAuth net auth (handleWebhook getenv bcrypt now config w))"

locale serve_mux =
  fixes conflict :: "string list \<Rightarrow> string \<Rightarrow> bool"
  assumes conflict_self: "\<And>patterns p. p \<in> set patterns \<Longrightarrow> conflict patterns p"
begin

lemma register_twice:
  assumes "RegisterWebhookHandler conflict path s = (Registered, s')"
  shows "fst (RegisterWebhookHandler conflict path (snd (UnregisterWebhookHandler path s'))) = MuxPanic"
  using assms conflict_self [of path "mux_patterns s'"]
  by (auto simp: RegisterWebhookHandler_def UnregisterWebhookHandler_def split: if_splits)

lemma register_builtin:
  "path \<in> set (registerHandlers ha) \<Longrightarrow> fst (RegisterWebhookHandler conflict path (NewServer ha rid now)) = MuxPanic"
  using conflict_self [of path "registerHandlers ha"]
  by (auto simp: RegisterWebhookHandler_def NewServer_def registerHandlers_def)

end

text \<open>The plainest multiplexer: only equal patterns conflict.\<close>

definition same_pattern :: "string list \<Rightarrow> string \<Rightarrow> bool" where
  "same_pattern patterns p \<longleftrightarrow> p \<in> set patterns"

interpretation exact_mux: serve_mux same_pattern
  by unfold_locales (simp add: same_pattern_def)

section \<open>The properties\<close>

lemma count_request_simps [simp]:
  "wa_events (count_request e c st) = wa_events st" "wa_webhookDropped (count_request e c st) = wa_webhookDropped st"
  "rateLimiter (count_request e c st) = rateLimiter st"
  "WebhookRequests (count_request e c st) = (if wa_webhookMetrics st then WebhookRequests st @ [(e, c)] else WebhookRequests st)"
  by (simp_all add: count_request_def)

lemma authenticate_cases:
  "authenticate bcrypt r config auth \<longleftrightarrow> (case auth of None \<Rightarrow> True | Some au \<Rightarrow> au_type au = ''none'')"
  by (auto simp: authenticate_def loadSecret_def split: option.splits)

lemma handleWebhook_events:
  assumes "handleWebhook getenv bcrypt now config w r st = (rep, st')" "wa_events st' \<noteq> wa_events st"
  shows "rep = Reply 200 \<and> authenticate bcrypt r config (wh_auth w) \<and>
    (\<exists>data. req_decode r (maxRequestBytes getenv) = Body data \<and> has_room (wa_events st) \<and>
       wa_events st' = (wa_events st)\<lparr>buf := buf (wa_events st) @ [webhook_event now config r data]\<rparr>)"
  using assms
  by (auto simp: handleWebhook_def Let_def chan_send_def authenticate_cases split: if_splits decoded.splits option.splits)

text \<open>C4. What gets a webhook event in: when a request changes the adapter's channel, the limiter allowed its key, the authenticator
  of the server let it in, the adapter demands no authentication of its own, the body decoded within the size limit,
  there was room, the answer is 200, and what the channel gained is one event with that body and the configured
  source.\<close>

theorem webhook_admission:
  assumes "serve_webhook net auth new allow getenv bcrypt now config w r st = (rep, st')" "wa_events st' \<noteq> wa_events st"
  shows "rep = Reply 200 \<and> Authenticate net auth r \<and>
    fst (rl_Allow new allow now (fst (rate_limit_key net (rateLimiter st) r)) (rateLimiter st)) \<and>
    (case wh_auth w of None \<Rightarrow> True | Some au \<Rightarrow> au_type au = ''none'') \<and>
    (\<exists>data. req_decode r (maxRequestBytes getenv) = Body data \<and> has_room (wa_events st) \<and>
       wa_events st' = (wa_events st)\<lparr>buf := buf (wa_events st) @ [webhook_event now config r data]\<rparr>)"
proof -
  obtain ok rl where a: "rl_Allow new allow now (fst (rate_limit_key net (rateLimiter st) r)) (rateLimiter st) = (ok, rl)"
    by fastforce
  have ok: "ok" using assms a
    by (auto simp: serve_webhook_def RateLimitMiddleware_def Let_def split: if_splits prod.splits)
  then have "RequireAuth net auth (handleWebhook getenv bcrypt now config w) r (st\<lparr>rateLimiter := rl\<rparr>) = (rep, st')"
    using assms(1) a by (auto simp: serve_webhook_def RateLimitMiddleware_def Let_def split: prod.splits)
  then have "Authenticate net auth r \<and> handleWebhook getenv bcrypt now config w r (st\<lparr>rateLimiter := rl\<rparr>) = (rep, st')"
    using assms(2) by (auto simp: RequireAuth_def split: if_splits)
  then show ?thesis
    using handleWebhook_events [of getenv bcrypt now config w r "st\<lparr>rateLimiter := rl\<rparr>" rep st'] assms(2) a ok
    by (simp add: authenticate_cases)
qed

definition reply_codes :: "(int \<times> string) list" where
  "reply_codes = [(200, ''200''), (400, ''400''), (401, ''401''), (413, ''413''), (429, ''429''), (503, ''503'')]"

text \<open>Every request is answered and counted once: unless the adapter's channel is closed, the answer is 200, 400, 401, 413, 429 or
  503, and the request counter gains exactly one entry, with that code.\<close>

theorem webhook_replies:
  assumes "serve_webhook net auth new allow getenv bcrypt now config w r st = (rep, st')"
    "auth_metrics auth" "rl_webhookMetrics (rateLimiter st)" "wa_webhookMetrics st" "\<not> is_closed (wa_events st)"
  shows "\<exists>code text endpoint. rep = Reply code \<and> (code, text) \<in> set reply_codes \<and>
    WebhookRequests st' = WebhookRequests st @ [(endpoint, text)] \<and>
    (endpoint = sc_source config \<or> endpoint = getEndpointFromPath (req_path r))"
proof -
  obtain ok rl where a: "rl_Allow new allow now (fst (rate_limit_key net (rateLimiter st) r)) (rateLimiter st) = (ok, rl)"
    by fastforce
  have rl: "rl_webhookMetrics rl" using a assms(3) by (auto simp: rl_Allow_def Let_def split: prod.splits)
  have h: "\<exists>code text. fst (handleWebhook getenv bcrypt now config w r t) = Reply code \<and> (code, text) \<in> set reply_codes \<and>
      WebhookRequests (snd (handleWebhook getenv bcrypt now config w r t)) = WebhookRequests t @ [(sc_source config, text)]"
    if "wa_webhookMetrics t" "\<not> is_closed (wa_events t)" for t
    using that by (auto simp: handleWebhook_def Let_def chan_send_def reply_codes_def split: decoded.splits)
  show ?thesis
  proof (cases ok)
    case True
    then have "RequireAuth net auth (handleWebhook getenv bcrypt now config w) r (st\<lparr>rateLimiter := rl\<rparr>) = (rep, st')"
      using assms(1) a by (auto simp: serve_webhook_def RateLimitMiddleware_def Let_def split: prod.splits)
    then show ?thesis
      using h [of "st\<lparr>rateLimiter := rl\<rparr>"] assms(2,4,5) by (auto simp: RequireAuth_def reply_codes_def split: if_splits)
  next
    case False
    then show ?thesis
      using assms(1) a rl by (auto simp: serve_webhook_def RateLimitMiddleware_def Let_def reply_codes_def split: prod.splits if_splits)
  qed
qed

text \<open>A webhook that asks for authentication of its own accepts nobody: its secret can never be loaded, so every request is answered
  401, whatever credentials it carries, and no event is made.\<close>

theorem adapter_auth_rejects_all:
  assumes "wh_auth w = Some au" "au_type au \<noteq> ''none''"
  shows "fst (handleWebhook getenv bcrypt now config w r st) = Reply 401 \<and>
    wa_events (snd (handleWebhook getenv bcrypt now config w r st)) = wa_events st"
  using assms by (simp add: handleWebhook_def Let_def authenticate_cases)

text \<open>The registrar that the main program passes to the adapters.\<close>

definition route_registrar :: "(string list \<Rightarrow> string \<Rightarrow> bool) \<Rightarrow> Server \<Rightarrow> string \<Rightarrow> string option option" where
  "route_registrar conflict s path =
     (case fst (RegisterWebhookHandler conflict path s) of
        Registered \<Rightarrow> Some None | RegisterErr err \<Rightarrow> Some (Some err) | MuxPanic \<Rightarrow> None)"

text \<open>A webhook cannot be started twice: routes are never removed, so starting an adapter for a path that was registered before,
  its adapter stopped and its route unregistered, panics; so does a path the server uses itself.\<close>

theorem webhook_restart_panics:
  assumes "serve_mux conflict" "webhook_Validate config = None" "Webhook config = Some w"
    "RegisterWebhookHandler conflict (wh_path w) s = (Registered, s') \<and> s2 = snd (UnregisterWebhookHandler (wh_path w) s') \<or>
     wh_path w \<in> set (registerHandlers ha) \<and> s2 = NewServer ha rid t"
  shows "fst (webhook_Start (Some (route_registrar conflict s2)) config st) = StartPanic"
proof -
  have "fst (RegisterWebhookHandler conflict (wh_path w) s2) = MuxPanic"
    using assms(4) serve_mux.register_twice [OF assms(1)] serve_mux.register_builtin [OF assms(1)] by blast
  then show ?thesis using assms(2,3) by (simp add: webhook_Start_def Let_def route_registrar_def)
qed

definition hook_config :: "string \<Rightarrow> AuthConfig option \<Rightarrow> WebhookConfig" where
  "hook_config path auth = \<lparr>wh_path = path, wh_port = 8080, wh_buffer = 0, wh_auth = auth\<rparr>"

definition hook_source :: "WebhookConfig \<Rightarrow> SourceConfig" where
  "hook_source w = (source_config ''falco'')\<lparr>sc_ingester := ''webhook'', sc_namespace := ''ns'', Webhook := Some w\<rparr>"

definition hook_state :: "(string, unit) webhook_state" where
  "hook_state = \<lparr>WebhookRequests = [], WebhookDropped = [], RateLimitRejections = [],
     rateLimiter = \<lparr>limiters = [], maxPerSec = 1, rl_trusted = [], cleanupInterval = 0, entryTTL = 0, rl_webhookMetrics = True,
       rl_rateLimitMetrics = False\<rparr>,
     wa_events = make_chan 100, wa_configs = [], wa_webhookMetrics = True, wa_webhookDropped = True, wa_server = False\<rparr>"

definition open_auth :: "string WebhookAuth" where
  "open_auth = NewWebhookAuthWithMetrics text_net (\<lambda>k. if k = ''WEBHOOK_AUTH_DISABLED'' then ''true'' else []) True"

definition post :: "obj http_request" where
  "post = \<lparr>req_method = ''POST'', req_path = ''/falco'', req_remote = ''1.2.3.4:80'', req_header = (\<lambda>_. []), req_basic = None,
     req_decode = (\<lambda>_. Body [(''rule'', VStr ''shell'')])\<rparr>"

abbreviation serve_post :: "reply \<times> (string, unit) webhook_state" where
  "serve_post \<equiv> serve_webhook text_net open_auth (\<lambda>_. ()) (\<lambda>_ l. (True, l)) (\<lambda>_. []) (\<lambda>_ _. False) 0
     (hook_source (hook_config ''/falco'' None)) (hook_config ''/falco'' None) post hook_state"

lemma serve_post_ok: "fst serve_post = Reply 200" "buf (wa_events (snd serve_post)) \<noteq> []"
  by code_simp+

theorem webhook_admission_witness:
  "Authenticate text_net open_auth post \<and> (\<exists>data. req_decode post 1048576 = Body data)"
proof -
  obtain rep st' where run: "serve_post = (rep, st')" by fastforce
  have "wa_events st' \<noteq> wa_events hook_state" using serve_post_ok run by (auto simp: hook_state_def make_chan_def)
  moreover have "maxRequestBytes (\<lambda>_. []) = 1048576" by code_simp
  ultimately show ?thesis using webhook_admission [OF run] by auto
qed

theorem webhook_replies_witness:
  "\<exists>text endpoint. WebhookRequests (snd serve_post) = [(endpoint, text)]"
proof -
  obtain rep st' where run: "serve_post = (rep, st')" by fastforce
  have "auth_metrics open_auth" "rl_webhookMetrics (rateLimiter hook_state)" "wa_webhookMetrics hook_state" "\<not> is_closed (wa_events hook_state)"
    by (simp_all add: hook_state_def make_chan_def open_auth_def NewWebhookAuthWithMetrics_def)
  from webhook_replies [OF run this] run show ?thesis by (auto simp: hook_state_def)
qed

theorem adapter_auth_rejects_all_witness:
  "fst (handleWebhook (\<lambda>_. []) (\<lambda>_ _. True) 0 (hook_source (hook_config ''/falco'' None))
     (hook_config ''/falco'' (Some \<lparr>au_type = ''bearer'', au_secret = ''token''\<rparr>)) post hook_state) = Reply 401"
proof -
  have "wh_auth (hook_config ''/falco'' (Some \<lparr>au_type = ''bearer'', au_secret = ''token''\<rparr>)) = Some \<lparr>au_type = ''bearer'', au_secret = ''token''\<rparr>"
    "au_type \<lparr>au_type = ''bearer'', au_secret = ''token''\<rparr> \<noteq> ''none''" by (simp_all add: hook_config_def)
  from adapter_auth_rejects_all [OF this] show ?thesis by blast
qed

theorem webhook_restart_panics_witness:
  "fst (webhook_Start (Some (route_registrar same_pattern (NewServer False ''r'' ''t''))) (hook_source (hook_config ''/health'' None)) hook_state) = StartPanic"
proof -
  have "webhook_Validate (hook_source (hook_config ''/health'' None)) = None" by code_simp
  moreover have "Webhook (hook_source (hook_config ''/health'' None)) = Some (hook_config ''/health'' None)" by (simp add: hook_source_def)
  moreover have "wh_path (hook_config ''/health'' None) \<in> set (registerHandlers False)" by (simp add: hook_config_def registerHandlers_def)
  ultimately show ?thesis using webhook_restart_panics [OF exact_mux.serve_mux_axioms] by blast
qed

end
