(* ===== verification/Ingester_Status.thy ===== *)
theory Ingester_Status
  imports K8s_Unstructured
begin

text \<open>
  The status of the sources of an Ingester: \<^verbatim>\<open>pkg/orchestrator/status_updater.go\<close>. A tracker is what is known of the
  sources of one Ingester; the updater keeps the trackers by namespace and name, and writes the status of one to
  the API server. The API server is the pair of functions \<open>get\<close> and \<open>update_status\<close>; times are texts.
\<close>

section \<open>Trackers\<close>

datatype SourceState = SourceStateRunning | SourceStateStopped | SourceStateError

primrec state_text :: "SourceState \<Rightarrow> string" where
  "state_text SourceStateRunning = ''Running''"
| "state_text SourceStateStopped = ''Stopped''"
| "state_text SourceStateError = ''Error''"

record SourceStatusInfo =
  ss_name :: string
  ss_type :: string
  ss_state :: SourceState
  LastError :: string
  LastSeen :: "string option"

record SourceStatusTracker =
  sst_sources :: "(string, SourceStatusInfo) gomap"
  sst_ingester :: "string \<times> string"

definition NewSourceStatusTracker :: "string \<Rightarrow> string \<Rightarrow> SourceStatusTracker" where
  "NewSourceStatusTracker namespace name = \<lparr>sst_sources = [], sst_ingester = (namespace, name)\<rparr>"

definition UpdateSourceState :: "string \<Rightarrow> string \<Rightarrow> SourceState \<Rightarrow> string option \<Rightarrow> SourceStatusTracker \<Rightarrow> SourceStatusTracker" where
  "UpdateSourceState sourceName sourceType state err sst =
     (let info = (case map_of (sst_sources sst) sourceName of
                    Some i \<Rightarrow> i
                  | None \<Rightarrow> \<lparr>ss_name = sourceName, ss_type = sourceType, ss_state = state, LastError = [], LastSeen = None\<rparr>);
          info' = info\<lparr>ss_state := state, ss_type := sourceType, LastError := (case err of Some e \<Rightarrow> e | None \<Rightarrow> [])\<rparr>
      in sst\<lparr>sst_sources := put sourceName info' (sst_sources sst)\<rparr>)"

definition UpdateSourceLastSeen :: "string \<Rightarrow> string \<Rightarrow> SourceStatusTracker \<Rightarrow> SourceStatusTracker" where
  "UpdateSourceLastSeen now sourceName sst =
     (case map_of (sst_sources sst) sourceName of
        None \<Rightarrow> sst
      | Some info \<Rightarrow> sst\<lparr>sst_sources := put sourceName (info\<lparr>LastSeen := Some now\<rparr>) (sst_sources sst)\<rparr>)"

definition GetStatus :: "SourceStatusTracker \<Rightarrow> SourceStatusInfo list" where
  "GetStatus sst = map snd (sst_sources sst)"

section \<open>The updater\<close>

type_synonym IngesterStatusUpdater = "(string \<times> string, SourceStatusTracker) gomap"

definition tracker_of :: "string \<times> string \<Rightarrow> IngesterStatusUpdater \<Rightarrow> SourceStatusTracker" where
  "tracker_of nn isu = (case map_of isu nn of Some t \<Rightarrow> t | None \<Rightarrow> NewSourceStatusTracker (fst nn) (snd nn))"

text \<open>\<^verbatim>\<open>GetOrCreateTracker\<close> followed by the change \<open>f\<close> of the tracker it returns.\<close>

definition with_tracker :: "string \<Rightarrow> string \<Rightarrow> (SourceStatusTracker \<Rightarrow> SourceStatusTracker) \<Rightarrow> IngesterStatusUpdater \<Rightarrow> IngesterStatusUpdater" where
  "with_tracker namespace name f isu = put (namespace, name) (f (tracker_of (namespace, name) isu)) isu"

definition RemoveTracker :: "string \<Rightarrow> string \<Rightarrow> IngesterStatusUpdater \<Rightarrow> IngesterStatusUpdater" where
  "RemoveTracker namespace name isu = del (namespace, name) isu"

definition source_status :: "SourceStatusInfo \<Rightarrow> val" where
  "source_status ss =
     VMap ([(''name'', VStr (ss_name ss)), (''type'', VStr (ss_type ss)), (''state'', VStr (state_text (ss_state ss)))] @
           (if LastError ss \<noteq> [] then [(''lastError'', VStr (LastError ss))] else []) @
           (case LastSeen ss of Some t \<Rightarrow> [(''lastSeen'', VStr t)] | None \<Rightarrow> []))"

text \<open>The loop that determines the condition: the first error ends it, else the last stopped source is named.\<close>

fun ready_loop :: "SourceStatusInfo list \<Rightarrow> bool \<times> string \<times> string \<Rightarrow> bool \<times> string \<times> string" where
  "ready_loop [] acc = acc"
| "ready_loop (ss # sss) acc =
     (case ss_state ss of
        SourceStateError \<Rightarrow> (False, ''SourceError'', ''Source '' @ ss_name ss @ '' has error: '' @ LastError ss)
      | SourceStateStopped \<Rightarrow> ready_loop sss (False, ''SourceStopped'', ''Source '' @ ss_name ss @ '' is stopped'')
      | SourceStateRunning \<Rightarrow> ready_loop sss acc)"

definition mapConditionStatus :: "bool \<Rightarrow> string" where
  "mapConditionStatus r = (if r then ''True'' else ''False'')"

definition build_status :: "string \<Rightarrow> SourceStatusInfo list \<Rightarrow> obj" where
  "build_status now sss =
     (let (r, reason, message) = ready_loop sss (True, ''AllSourcesRunning'', ''All sources are running'')
      in [(''sources'', VList (map source_status sss)),
          (''conditions'', VList [VMap [(''type'', VStr ''Ready''), (''status'', VStr (mapConditionStatus r)), (''reason'', VStr reason),
             (''message'', VStr message), (''lastTransitionTime'', VStr now)]])])"

text \<open>The object handed to the API server, if any, and the error.\<close>

definition UpdateStatus ::
    "(string \<Rightarrow> string \<Rightarrow> string + obj) \<Rightarrow> (obj \<Rightarrow> string option) \<Rightarrow> string \<Rightarrow> string \<Rightarrow> string \<Rightarrow> IngesterStatusUpdater \<Rightarrow> obj option \<times> string option" where
  "UpdateStatus get update_status now namespace name isu =
     (case map_of isu (namespace, name) of
        None \<Rightarrow> (None, None)
      | Some tracker \<Rightarrow>
          (case get namespace name of
             Inl err \<Rightarrow> (None, Some (''failed to get Ingester CRD: '' @ err))
           | Inr current \<Rightarrow>
               (let updated = put ''status'' (VMap (build_status now (GetStatus tracker))) current
                in (Some updated, map_option (\<lambda>err. ''failed to update Ingester status: '' @ err) (update_status updated)))))"

section \<open>The properties\<close>

lemma ready_loop_fst: "fst (ready_loop sss acc) \<longleftrightarrow> fst acc \<and> list_all (\<lambda>ss. ss_state ss = SourceStateRunning) sss"
  by (induction sss acc rule: ready_loop.induct) (auto split: SourceState.splits)

lemma ready_loop_error:
  "\<not> list_all (\<lambda>ss. ss_state ss \<noteq> SourceStateError) sss \<Longrightarrow> fst (snd (ready_loop sss acc)) = ''SourceError''"
  by (induction sss acc rule: ready_loop.induct) (auto split: SourceState.splits)

lemma ready_loop_stopped:
  "list_all (\<lambda>ss. ss_state ss \<noteq> SourceStateError) sss \<Longrightarrow>
   fst (snd (ready_loop sss acc)) = (if list_all (\<lambda>ss. ss_state ss = SourceStateRunning) sss then fst (snd acc) else ''SourceStopped'')"
  by (induction sss acc rule: ready_loop.induct) (auto split: SourceState.splits)

text \<open>The condition of an Ingester is right: it is ready exactly when all its tracked sources run; the reason names an error as soon
  as one source has one, and a stopped source otherwise.\<close>

theorem ready_condition:
  "\<exists>message. build_status now sss =
     [(''sources'', VList (map source_status sss)),
      (''conditions'', VList [VMap [(''type'', VStr ''Ready''),
        (''status'', VStr (if list_all (\<lambda>ss. ss_state ss = SourceStateRunning) sss then ''True'' else ''False'')),
        (''reason'', VStr (if list_ex (\<lambda>ss. ss_state ss = SourceStateError) sss then ''SourceError''
           else if list_all (\<lambda>ss. ss_state ss = SourceStateRunning) sss then ''AllSourcesRunning'' else ''SourceStopped'')),
        (''message'', VStr message), (''lastTransitionTime'', VStr now)]])]"
proof -
  obtain r reason message where run: "ready_loop sss (True, ''AllSourcesRunning'', ''All sources are running'') = (r, reason, message)"
    by (cases "ready_loop sss (True, ''AllSourcesRunning'', ''All sources are running'')") auto
  have "list_ex (\<lambda>ss. ss_state ss = SourceStateError) sss \<longleftrightarrow> \<not> list_all (\<lambda>ss. ss_state ss \<noteq> SourceStateError) sss"
    by (induction sss) auto
  then show ?thesis
    using ready_loop_fst [of sss "(True, ''AllSourcesRunning'', ''All sources are running'')"]
      ready_loop_error [of sss "(True, ''AllSourcesRunning'', ''All sources are running'')"]
      ready_loop_stopped [of sss "(True, ''AllSourcesRunning'', ''All sources are running'')"] run
    by (auto simp: build_status_def mapConditionStatus_def)
qed

lemma with_tracker_other:
  "(ns, n) \<noteq> (ns', n') \<Longrightarrow> map_of (with_tracker ns n f isu) (ns', n') = map_of isu (ns', n')"
  by (auto simp: with_tracker_def)

lemma tracker_with_tracker:
  "tracker_of nn (with_tracker ns n f isu) = (if nn = (ns, n) then f (tracker_of nn isu) else tracker_of nn isu)"
  by (auto simp: tracker_of_def with_tracker_def)

end
