(* ===== verification/Orchestrator.thy ===== *)
theory Orchestrator
  imports Ingester_Config Generic_Adapters Ingester_Status Event_Batcher
begin

text \<open>
  The orchestrator of the generic adapters: \<^verbatim>\<open>pkg/orchestrator/generic.go\<close> and \<^verbatim>\<open>adapter_manager.go\<close>. It polls the
  Ingesters, starts an adapter for every source, stops the adapters of sources that are gone, and feeds their
  events to the batch processor.

  An adapter instance is a number with its kind; its number also stands for its event channel. The outcome of
  \<^verbatim>\<open>adapter.Start\<close>, a call through the interface \<^verbatim>\<open>GenericAdapter\<close> that opens watches, routes and streams, is the
  parameter \<open>start\<close>: an error or nothing. What the orchestrator does to adapters is recorded in \<open>o_log\<close>, and the
  gauges and counters of its metrics in fields of their own.
\<close>

section \<open>The adapter manager (adapter\_manager.go)\<close>

type_synonym instance_t = "nat \<times> GenericAdapter"

record AdapterManager =
  activeAdapters :: "(string, instance_t) gomap"
  activeConfigs :: "(string, SourceConfig) gomap"
  activeEventStreams :: "(string, nat) gomap"

definition NewAdapterManager :: AdapterManager where
  "NewAdapterManager = \<lparr>activeAdapters = [], activeConfigs = [], activeEventStreams = []\<rparr>"

definition GetAdapter :: "AdapterManager \<Rightarrow> string \<Rightarrow> instance_t option" where
  "GetAdapter am source = map_of (activeAdapters am) source"

definition am_GetConfig :: "AdapterManager \<Rightarrow> string \<Rightarrow> SourceConfig option" where
  "am_GetConfig am source = map_of (activeConfigs am) source"

definition GetEventStream :: "AdapterManager \<Rightarrow> string \<Rightarrow> nat option" where
  "GetEventStream am source = map_of (activeEventStreams am) source"

definition AddAdapter :: "string \<Rightarrow> instance_t \<Rightarrow> SourceConfig \<Rightarrow> nat \<Rightarrow> AdapterManager \<Rightarrow> AdapterManager" where
  "AddAdapter source adapter cfg eventStream am =
     am\<lparr>activeAdapters := put source adapter (activeAdapters am), activeConfigs := put source cfg (activeConfigs am),
        activeEventStreams := put source eventStream (activeEventStreams am)\<rparr>"

definition RemoveAdapter :: "string \<Rightarrow> AdapterManager \<Rightarrow> AdapterManager" where
  "RemoveAdapter source am =
     am\<lparr>activeAdapters := del source (activeAdapters am), activeConfigs := del source (activeConfigs am),
        activeEventStreams := del source (activeEventStreams am)\<rparr>"

definition GetAllAdapters :: "AdapterManager \<Rightarrow> (string, instance_t) gomap" where
  "GetAllAdapters am = activeAdapters am"

definition GetAllConfigs :: "AdapterManager \<Rightarrow> (string, SourceConfig) gomap" where
  "GetAllConfigs am = activeConfigs am"

definition ListSources :: "AdapterManager \<Rightarrow> string list" where
  "ListSources am = keys (activeAdapters am)"

definition Count :: "AdapterManager \<Rightarrow> nat" where
  "Count am = length (activeAdapters am)"

section \<open>Source identifiers\<close>

definition extractSourceName :: "string \<Rightarrow> string \<Rightarrow> string \<Rightarrow> string" where
  "extractSourceName source namespace name =
     (let expectedPrefix = namespace @ ''/'' @ name @ ''/''
      in if length expectedPrefix < length source \<and> take (length expectedPrefix) source = expectedPrefix
         then drop (length expectedPrefix) source else source)"

definition parseSourceIdentifier :: "string \<Rightarrow> string \<times> string \<times> string" where
  "parseSourceIdentifier source =
     (case split_on (CHR ''/'') source of [a, b, c] \<Rightarrow> (a, b, c) | _ \<Rightarrow> ([], [], source))"

section \<open>The orchestrator (generic.go)\<close>

datatype action = StartAdapter nat string | StopAdapter nat string

record GenericOrchestrator =
  adapterFactory :: Factory
  adapterManager :: AdapterManager
  statusUpdater :: IngesterStatusUpdater
  next_id :: nat
  o_log :: "action list"
  o_metrics :: bool
  IngestersActive :: "(string \<times> string \<times> string, int) gomap"
  IngestersStatus :: "(string, int) gomap"
  IngestersConfigErrors :: "(string \<times> string) list"
  o_cancelled :: bool

definition NewGenericOrchestratorWithMetrics :: "Factory \<Rightarrow> bool \<Rightarrow> GenericOrchestrator" where
  "NewGenericOrchestratorWithMetrics f metrics =
     \<lparr>adapterFactory = f, adapterManager = NewAdapterManager, statusUpdater = [], next_id = 0, o_log = [], o_metrics = metrics,
      IngestersActive = [], IngestersStatus = [], IngestersConfigErrors = [], o_cancelled = False\<rparr>"

definition configChanged :: "string \<Rightarrow> SourceConfig \<Rightarrow> GenericOrchestrator \<Rightarrow> bool" where
  "configChanged source newConfig orch =
     (case am_GetConfig (adapterManager orch) source of
        None \<Rightarrow> True
      | Some oldConfig \<Rightarrow> sc_ingester oldConfig \<noteq> sc_ingester newConfig)"

definition handleAdapterError ::
    "string \<Rightarrow> string \<Rightarrow> SourceConfig \<Rightarrow> string \<times> string \<Rightarrow> string \<Rightarrow> string \<Rightarrow> GenericOrchestrator \<Rightarrow> GenericOrchestrator" where
  "handleAdapterError source sourceName cfg item err errorType orch =
     (let o1 = orch\<lparr>statusUpdater := with_tracker (fst item) (snd item)
                 (UpdateSourceState sourceName (sc_ingester cfg) SourceStateError (Some err)) (statusUpdater orch)\<rparr>
      in if o_metrics orch
         then o1\<lparr>IngestersConfigErrors := IngestersConfigErrors o1 @ [(source, errorType)],
                 IngestersStatus := put source (- 1) (IngestersStatus o1)\<rparr>
         else o1)"

text \<open>An instance that was created but failed to validate or start is dropped, and its number with it.\<close>

definition createAndStartAdapterForSource ::
    "(nat \<Rightarrow> GenericAdapter \<Rightarrow> SourceConfig \<Rightarrow> string option) \<Rightarrow> string \<Rightarrow> string \<Rightarrow> SourceConfig \<Rightarrow> string \<times> string \<Rightarrow>
     GenericOrchestrator \<Rightarrow> bool \<times> GenericOrchestrator" where
  "createAndStartAdapterForSource start source sourceName cfg item orch =
     (case NewAdapter (adapterFactory orch) (sc_ingester cfg) of
        Inl err \<Rightarrow> (False, handleAdapterError source sourceName cfg item err ''create_adapter_failed'' orch)
      | Inr adapter \<Rightarrow>
          (let i = next_id orch; o0 = orch\<lparr>next_id := Suc i\<rparr>
           in case Validate adapter cfg of
                Some err \<Rightarrow> (False, handleAdapterError source sourceName cfg item err ''validation_failed'' o0)
              | None \<Rightarrow>
                  (case start i adapter cfg of
                     Some err \<Rightarrow> (False, handleAdapterError source sourceName cfg item err ''start_failed'' o0)
                   | None \<Rightarrow>
                       (True, o0\<lparr>statusUpdater := with_tracker (fst item) (snd item)
                                  (UpdateSourceState sourceName (sc_ingester cfg) SourceStateRunning None) (statusUpdater o0),
                                adapterManager := AddAdapter source (i, adapter) cfg i (adapterManager o0),
                                o_log := o_log o0 @ [StartAdapter i source]\<rparr>))))"

text \<open>\<^verbatim>\<open>adapter.Stop()\<close> followed by \<^verbatim>\<open>RemoveAdapter\<close>.\<close>

definition stop_adapter :: "string \<Rightarrow> instance_t \<Rightarrow> GenericOrchestrator \<Rightarrow> GenericOrchestrator" where
  "stop_adapter source adapter orch =
     orch\<lparr>adapterManager := RemoveAdapter source (adapterManager orch), o_log := o_log orch @ [StopAdapter (fst adapter) source]\<rparr>"

definition mark_active :: "SourceConfig \<Rightarrow> string \<Rightarrow> GenericOrchestrator \<Rightarrow> GenericOrchestrator" where
  "mark_active cfg namespace orch =
     (if o_metrics orch
      then orch\<lparr>IngestersActive := put (sc_source cfg, sc_ingester cfg, namespace) 1 (IngestersActive orch),
                IngestersStatus := put (sc_source cfg) 1 (IngestersStatus orch)\<rparr>
      else orch)"

text \<open>\<open>item\<close> is the namespace and the name of the Ingester; the second component collects \<^verbatim>\<open>activeSources\<close>. The conversion
  returns nil only for a nil argument, which the caller never passes.\<close>

definition processIngesterConfigItem ::
    "(nat \<Rightarrow> GenericAdapter \<Rightarrow> SourceConfig \<Rightarrow> string option) \<Rightarrow> string \<times> string \<Rightarrow> IngesterConfig \<Rightarrow>
     GenericOrchestrator \<times> string list \<Rightarrow> GenericOrchestrator \<times> string list" where
  "processIngesterConfigItem start item ingesterConfig st =
     (let (orch, activeSources) = st
      in case ConvertIngesterConfigToGeneric (Some ingesterConfig) of
           None \<Rightarrow>
             (if o_metrics orch
              then orch\<lparr>IngestersConfigErrors := IngestersConfigErrors orch @ [(ic_source ingesterConfig, ''convert_to_generic_failed'')]\<rparr>
              else orch, activeSources)
         | Some cfg \<Rightarrow>
             (let source = sc_source cfg; active' = activeSources @ [source];
                  o1 = mark_active cfg (fst item) orch;
                  sourceName = extractSourceName source (fst item) (snd item)
              in case GetAdapter (adapterManager o1) source of
                   Some existing \<Rightarrow>
                     if configChanged source cfg o1
                     then (snd (createAndStartAdapterForSource start source sourceName cfg item (stop_adapter source existing o1)), active')
                     else (o1, active')
                 | None \<Rightarrow> (snd (createAndStartAdapterForSource start source sourceName cfg item o1), active')))"

text \<open>The end of an adapter whose source is gone.\<close>

definition retire ::  "string \<times> instance_t \<Rightarrow> GenericOrchestrator \<Rightarrow> GenericOrchestrator" where
  "retire entry orch =
     (let (source, adapter) = entry;
          cfg = am_GetConfig (adapterManager orch) source;
          (namespace, name, sourceName) = parseSourceIdentifier source;
          o1 = (if namespace \<noteq> [] \<and> name \<noteq> []
                then orch\<lparr>statusUpdater := with_tracker namespace name
                       (\<lambda>t. case cfg of None \<Rightarrow> t | Some c \<Rightarrow> UpdateSourceState sourceName (sc_ingester c) SourceStateStopped None t)
                       (statusUpdater orch)\<rparr>
                else orch);
          o2 = stop_adapter source adapter o1
      in if o_metrics o2
         then o2\<lparr>IngestersActive := (case cfg of None \<Rightarrow> IngestersActive o2
                                     | Some c \<Rightarrow> put (source, sc_ingester c, namespace) 0 (IngestersActive o2)),
                 IngestersStatus := put source 0 (IngestersStatus o2)\<rparr>
         else o2)"

definition process_item ::
    "(string \<Rightarrow> string) \<Rightarrow> uapi \<Rightarrow> (nat \<Rightarrow> GenericAdapter \<Rightarrow> SourceConfig \<Rightarrow> string option) \<Rightarrow> obj \<Rightarrow>
     GenericOrchestrator \<times> string list \<Rightarrow> GenericOrchestrator \<times> string list" where
  "process_item getenv u start item st =
     fold (processIngesterConfigItem start (GetNamespace u item, GetName u item)) (ConvertToIngesterConfigs getenv u item) st"

definition reloadAdapters ::
    "(string \<Rightarrow> string) \<Rightarrow> uapi \<Rightarrow> (nat \<Rightarrow> GenericAdapter \<Rightarrow> SourceConfig \<Rightarrow> string option) \<Rightarrow> string + obj list \<Rightarrow>
     GenericOrchestrator \<Rightarrow> GenericOrchestrator" where
  "reloadAdapters getenv u start listed orch =
     (case listed of
        Inl err \<Rightarrow> orch
      | Inr items \<Rightarrow>
          (let (o1, activeSources) = fold (process_item getenv u start) items (orch, [])
           in fold retire (filter (\<lambda>(source, adapter). source \<notin> set activeSources) (GetAllAdapters (adapterManager o1))) o1))"

definition orch_Stop :: "GenericOrchestrator \<Rightarrow> GenericOrchestrator" where
  "orch_Stop orch =
     fold (\<lambda>(source, adapter). stop_adapter source adapter) (GetAllAdapters (adapterManager orch)) (orch\<lparr>o_cancelled := True\<rparr>)"

text \<open>The Ingesters whose status \<^verbatim>\<open>updateAllIngesterStatus\<close> writes.\<close>

definition status_targets :: "GenericOrchestrator \<Rightarrow> (string \<times> string) list" where
  "status_targets orch =
     List.map_filter (\<lambda>source. case parseSourceIdentifier source of
         (namespace, name, _) \<Rightarrow> if namespace \<noteq> [] \<and> name \<noteq> [] then Some (namespace, name) else None)
       (ListSources (adapterManager orch))"

definition updateAllIngesterStatus ::
    "(string \<Rightarrow> string \<Rightarrow> string + obj) \<Rightarrow> (obj \<Rightarrow> string option) \<Rightarrow> string \<Rightarrow> GenericOrchestrator \<Rightarrow> (obj option \<times> string option) list" where
  "updateAllIngesterStatus get update_status now orch =
     map (\<lambda>(namespace, name). UpdateStatus get update_status now namespace name (statusUpdater orch)) (status_targets orch)"

section \<open>The invariant of the manager\<close>

text \<open>The three maps agree, every instance was started once and stopped at most once, and the active ones are those started and
  not stopped.\<close>

definition core_ok :: "AdapterManager \<Rightarrow> nat \<Rightarrow> action list \<Rightarrow> bool" where
  "core_ok am n lg \<longleftrightarrow>
     wf_map (activeAdapters am) \<and>
     (\<forall>s. map_of (activeEventStreams am) s = map_option fst (map_of (activeAdapters am) s)) \<and>
     (\<forall>s. map_of (activeConfigs am) s = None \<longleftrightarrow> map_of (activeAdapters am) s = None) \<and>
     distinct lg \<and> (\<forall>i s. StartAdapter i s \<in> set lg \<longrightarrow> i < n) \<and> (\<forall>i s. StopAdapter i s \<in> set lg \<longrightarrow> StartAdapter i s \<in> set lg) \<and>
     (\<forall>i s. (\<exists>a. map_of (activeAdapters am) s = Some (i, a)) \<longleftrightarrow> StartAdapter i s \<in> set lg \<and> StopAdapter i s \<notin> set lg)"

abbreviation orch_ok :: "GenericOrchestrator \<Rightarrow> bool" where
  "orch_ok orch \<equiv> core_ok (adapterManager orch) (next_id orch) (o_log orch)"

lemma core_new: "core_ok NewAdapterManager n []"
  by (simp add: core_ok_def NewAdapterManager_def)

lemma core_skip: "core_ok am n lg \<Longrightarrow> core_ok am (Suc n) lg"
  by (auto simp: core_ok_def less_SucI)

lemma core_active:
  "core_ok am n lg \<Longrightarrow> (\<exists>a. map_of (activeAdapters am) s = Some (i, a)) \<longleftrightarrow> StartAdapter i s \<in> set lg \<and> StopAdapter i s \<notin> set lg"
  unfolding core_ok_def by blast

lemma core_stop:
  assumes "core_ok am n lg" "map_of (activeAdapters am) s = Some (i, a)"
  shows "core_ok (RemoveAdapter s am) n (lg @ [StopAdapter i s])"
proof -
  have st: "StartAdapter i s \<in> set lg" "StopAdapter i s \<notin> set lg" using core_active [OF assms(1), of s i] assms(2) by blast+
  have one: False if "StartAdapter j s \<in> set lg" "StopAdapter j s \<notin> set lg" "j \<noteq> i" for j
    using core_active [OF assms(1), of s j] that assms(2) by auto
  have "(\<exists>b. map_of (activeAdapters (RemoveAdapter s am)) t = Some (j, b)) \<longleftrightarrow>
      StartAdapter j t \<in> set (lg @ [StopAdapter i s]) \<and> StopAdapter j t \<notin> set (lg @ [StopAdapter i s])" for j t
    using core_active [OF assms(1), of t j] one [of j] by (cases "t = s") (auto simp: RemoveAdapter_def)
  with assms(1) st show ?thesis unfolding core_ok_def by (simp add: RemoveAdapter_def)
qed

lemma core_add:
  assumes "core_ok am n lg" "map_of (activeAdapters am) s = None"
  shows "core_ok (AddAdapter s (n, a) c n am) (Suc n) (lg @ [StartAdapter n s])"
proof -
  have fresh: "StartAdapter n t \<notin> set lg" "StopAdapter n t \<notin> set lg" for t using assms(1) unfolding core_ok_def by blast+
  have "(\<exists>b. map_of (activeAdapters (AddAdapter s (n, a) c n am)) t = Some (j, b)) \<longleftrightarrow>
      StartAdapter j t \<in> set (lg @ [StartAdapter n s]) \<and> StopAdapter j t \<notin> set (lg @ [StartAdapter n s])" for j t
    using core_active [OF assms(1), of t j] fresh assms(2) by (cases "t = s") (auto simp: AddAdapter_def)
  with assms(1) fresh show ?thesis unfolding core_ok_def by (simp add: AddAdapter_def) (blast intro: less_SucI)
qed

lemma handleAdapterError_core [simp]:
  "adapterManager (handleAdapterError s n c it e t orch) = adapterManager orch"
  "next_id (handleAdapterError s n c it e t orch) = next_id orch" "o_log (handleAdapterError s n c it e t orch) = o_log orch"
  "adapterFactory (handleAdapterError s n c it e t orch) = adapterFactory orch"
  by (simp_all add: handleAdapterError_def Let_def)

lemma mark_active_core [simp]:
  "adapterManager (mark_active c ns orch) = adapterManager orch" "next_id (mark_active c ns orch) = next_id orch"
  "o_log (mark_active c ns orch) = o_log orch" "adapterFactory (mark_active c ns orch) = adapterFactory orch"
  by (simp_all add: mark_active_def)

lemma stop_adapter_core [simp]:
  "adapterManager (stop_adapter s ad orch) = RemoveAdapter s (adapterManager orch)" "next_id (stop_adapter s ad orch) = next_id orch"
  "o_log (stop_adapter s ad orch) = o_log orch @ [StopAdapter (fst ad) s]" "adapterFactory (stop_adapter s ad orch) = adapterFactory orch"
  by (simp_all add: stop_adapter_def)

lemma retire_core [simp]:
  "adapterManager (retire (s, ad) orch) = RemoveAdapter s (adapterManager orch)" "next_id (retire (s, ad) orch) = next_id orch"
  "o_log (retire (s, ad) orch) = o_log orch @ [StopAdapter (fst ad) s]" "adapterFactory (retire (s, ad) orch) = adapterFactory orch"
  by (auto simp: retire_def Let_def split: prod.splits)

lemma create_core:
  assumes "orch_ok orch" "map_of (activeAdapters (adapterManager orch)) s = None"
  shows "orch_ok (snd (createAndStartAdapterForSource start s nm c it orch))"
  using assms core_add [OF assms, of _ c] core_skip [OF assms(1)]
  by (auto simp: createAndStartAdapterForSource_def Let_def split: sum.splits option.splits)

lemma RemoveAdapter_lookup [simp]:
  "map_of (activeAdapters (RemoveAdapter s am)) = (map_of (activeAdapters am))(s := None)"
  "map_of (activeConfigs (RemoveAdapter s am)) = (map_of (activeConfigs am))(s := None)"
  by (simp_all add: RemoveAdapter_def)

lemma process_core:
  assumes "orch_ok (fst st)"
  shows "orch_ok (fst (processIngesterConfigItem start it ic st))"
proof -
  obtain orch act where st: "st = (orch, act)" by (cases st)
  obtain c where c: "ConvertIngesterConfigToGeneric (Some ic) = Some c" by (simp add: ConvertIngesterConfigToGeneric_def)
  let ?o1 = "mark_active c (fst it) orch"
  show ?thesis
  proof (cases "GetAdapter (adapterManager ?o1) (sc_source c)")
    case None
    then show ?thesis using assms st c create_core [of ?o1 "sc_source c"]
      by (simp add: processIngesterConfigItem_def Let_def GetAdapter_def)
  next
    case (Some ex)
    obtain i a where ex: "ex = (i, a)" by (cases ex)
    have "orch_ok (stop_adapter (sc_source c) ex ?o1)"
      using core_stop [of "adapterManager orch" "next_id orch" "o_log orch" "sc_source c" i a] assms Some st ex by (simp add: GetAdapter_def)
    with create_core [OF this, of "sc_source c" start _ c it] assms Some st c show ?thesis
      by (simp add: processIngesterConfigItem_def Let_def)
  qed
qed

lemma fold_keeps:
  assumes "\<And>x st. orch_ok (fst st) \<Longrightarrow> orch_ok (fst (f x st))"
  shows "orch_ok (fst st) \<Longrightarrow> orch_ok (fst (fold f xs st))"
proof (induction xs arbitrary: st)
  case (Cons x xs)
  from Cons.IH [OF assms [OF Cons.prems]] show ?case by simp
qed simp

lemma fold_items_core: "orch_ok (fst st) \<Longrightarrow> orch_ok (fst (fold (process_item getenv u start) items st))"
  unfolding process_item_def by (intro fold_keeps process_core)

lemma fold_stop_core:
  assumes "\<And>s ad orch. adapterManager (f (s, ad) orch) = RemoveAdapter s (adapterManager orch) \<and> next_id (f (s, ad) orch) = next_id orch \<and>
    o_log (f (s, ad) orch) = o_log orch @ [StopAdapter (fst ad) s]"
  shows "orch_ok orch \<Longrightarrow> distinct (map fst es) \<Longrightarrow> \<forall>(s, ad) \<in> set es. map_of (activeAdapters (adapterManager orch)) s = Some ad \<Longrightarrow>
    orch_ok (fold f es orch)"
proof (induction es arbitrary: orch)
  case (Cons e es)
  obtain s i a where e: "e = (s, i, a)" by (cases e)
  have "orch_ok (f e orch)" using core_stop [OF Cons.prems(1), of s i a] Cons.prems(3) assms [of s "(i, a)" orch] e by simp
  moreover have "\<forall>(t, ad) \<in> set es. map_of (activeAdapters (adapterManager (f e orch))) t = Some ad"
    using Cons.prems assms [of s "(i, a)" orch] e by (force simp: rev_image_eqI)
  ultimately show ?case using Cons by simp
qed simp

lemma entries_active:
  "orch_ok orch \<Longrightarrow> \<forall>(s, ad) \<in> set (activeAdapters (adapterManager orch)). map_of (activeAdapters (adapterManager orch)) s = Some ad"
  by (auto simp: core_ok_def wf_map_def)

lemma reload_core:
  assumes "orch_ok orch" shows "orch_ok (reloadAdapters getenv u start listed orch)"
proof (cases listed)
  case (Inr items)
  obtain o1 act where o1: "fold (process_item getenv u start) items (orch, []) = (o1, act)" by fastforce
  have ok: "orch_ok o1" using fold_items_core [of "(orch, [])" getenv u start items] assms o1 by simp
  have "distinct (map fst (filter (\<lambda>(s, a). s \<notin> set act) (activeAdapters (adapterManager o1))))"
    using ok by (simp add: core_ok_def wf_map_def distinct_map_filter)
  then show ?thesis
    using fold_stop_core [of retire o1, OF _ ok] entries_active [OF ok] by (auto simp: reloadAdapters_def Inr o1 GetAllAdapters_def)
qed (simp add: reloadAdapters_def assms)

lemma stop_core:
  assumes "orch_ok orch" shows "orch_ok (orch_Stop orch)"
proof -
  have "distinct (map fst (activeAdapters (adapterManager orch)))" using assms by (simp add: core_ok_def wf_map_def)
  with assms entries_active [OF assms] show ?thesis
    unfolding orch_Stop_def GetAllAdapters_def by (intro fold_stop_core) auto
qed

text \<open>The log only grows.\<close>

lemma create_log: "\<exists>lg. o_log (snd (createAndStartAdapterForSource start s nm c it orch)) = o_log orch @ lg"
  by (auto simp: createAndStartAdapterForSource_def Let_def split: sum.splits option.splits)

lemma process_log: "\<exists>lg. o_log (fst (processIngesterConfigItem start it ic st)) = o_log (fst st) @ lg"
proof -
  obtain orch act where st: "st = (orch, act)" by (cases st)
  obtain c where c: "ConvertIngesterConfigToGeneric (Some ic) = Some c" by (simp add: ConvertIngesterConfigToGeneric_def)
  show ?thesis
    using create_log [of start "sc_source c" "extractSourceName (sc_source c) (fst it) (snd it)" c it "mark_active c (fst it) orch"]
      create_log [of start "sc_source c" "extractSourceName (sc_source c) (fst it) (snd it)" c it "stop_adapter (sc_source c) ad (mark_active c (fst it) orch)" for ad]
    by (auto simp: processIngesterConfigItem_def st c Let_def split: option.splits)
qed

lemma fold_log:
  assumes "\<And>x st. \<exists>lg. o_log (g (f x st)) = o_log (g st) @ lg"
  shows "\<exists>lg. o_log (g (fold f xs st)) = o_log (g st) @ lg"
proof (induction xs arbitrary: st)
  case (Cons x xs)
  from Cons.IH [of "f x st"] assms [of x st] show ?case by auto
qed simp

lemma reload_log: "\<exists>lg. o_log (reloadAdapters getenv u start listed orch) = o_log orch @ lg"
proof (cases listed)
  case (Inr items)
  obtain o1 act where o1: "fold (process_item getenv u start) items (orch, []) = (o1, act)" by fastforce
  have "\<exists>lg. o_log (fst (fold (process_item getenv u start) items (orch, []))) = o_log (fst (orch, [] :: string list)) @ lg"
    by (rule fold_log) (simp add: process_item_def fold_log [where g = fst, OF process_log])
  moreover have "\<exists>lg. o_log (fold retire es o1) = o_log o1 @ lg" for es
    by (rule fold_log [where g = "\<lambda>x. x"]) auto
  ultimately show ?thesis by (auto simp: reloadAdapters_def Inr o1) (metis append.assoc)
qed (simp add: reloadAdapters_def)

section \<open>Reachable states\<close>

inductive orch_run :: "(string \<Rightarrow> string) \<Rightarrow> uapi \<Rightarrow> Factory \<Rightarrow> GenericOrchestrator \<Rightarrow> bool" for getenv u f where
  start: "orch_run getenv u f (NewGenericOrchestratorWithMetrics f metrics)"
| reload: "orch_run getenv u f orch \<Longrightarrow> orch_run getenv u f (reloadAdapters getenv u start listed orch)"
| stop: "orch_run getenv u f orch \<Longrightarrow> orch_run getenv u f (orch_Stop orch)"

lemma orch_run_ok: "orch_run getenv u f orch \<Longrightarrow> orch_ok orch"
  by (induction rule: orch_run.induct) (auto intro: reload_core stop_core simp: NewGenericOrchestratorWithMetrics_def core_new)

text \<open>C8. No adapter is lost: after any series of reloads and stops, whatever the Ingesters and the adapters do, the manager knows the
  configuration and the channel of exactly the sources with an active adapter, no instance is started or stopped
  twice, only started ones are stopped, and the active ones are precisely those started and not yet stopped.\<close>

theorem adapters_accounted:
  assumes "orch_run getenv u f orch"
  shows "distinct (o_log orch) \<and>
    (\<forall>i s. StopAdapter i s \<in> set (o_log orch) \<longrightarrow> StartAdapter i s \<in> set (o_log orch)) \<and>
    (\<forall>i s. (\<exists>a. GetAdapter (adapterManager orch) s = Some (i, a)) \<longleftrightarrow>
       StartAdapter i s \<in> set (o_log orch) \<and> StopAdapter i s \<notin> set (o_log orch)) \<and>
    (\<forall>s. (am_GetConfig (adapterManager orch) s = None \<longleftrightarrow> GetAdapter (adapterManager orch) s = None) \<and>
         GetEventStream (adapterManager orch) s = map_option fst (GetAdapter (adapterManager orch) s))"
  using orch_run_ok [OF assms] unfolding core_ok_def GetAdapter_def am_GetConfig_def GetEventStream_def by blast

definition orch1 :: GenericOrchestrator where
  "orch1 = reloadAdapters (\<lambda>_. []) walk_api (\<lambda>_ _ _. None) (Inr [single0])
     (NewGenericOrchestratorWithMetrics (NewFactory True True) True)"

lemma orch1_run: "orch_run (\<lambda>_. []) walk_api (NewFactory True True) orch1"
  unfolding orch1_def by (intro orch_run.intros)

lemma orch1_trivy: "GetAdapter (adapterManager orch1) ''trivy'' = Some (0, WebhookAdapter)"
  by code_simp

theorem adapters_accounted_witness:
  "StartAdapter 0 ''trivy'' \<in> set (o_log orch1) \<and> GetEventStream (adapterManager orch1) ''trivy'' = Some 0"
  using adapters_accounted [OF orch1_run] orch1_trivy by (metis fst_conv option.simps(9))

section \<open>What a reload does\<close>

text \<open>The specification: the configurations in force, by source. An item of the list replaces the configuration of its source only
  when the kind of adapter changes, and only by a usable one, whose adapter exists, validates it and starts; sources that are not listed are
  dropped. \<open>starts\<close> says which adapters start with which configuration.\<close>

definition usable :: "(GenericAdapter \<Rightarrow> SourceConfig \<Rightarrow> bool) \<Rightarrow> Factory \<Rightarrow> SourceConfig \<Rightarrow> bool" where
  "usable starts f c = (case NewAdapter f (sc_ingester c) of Inl _ \<Rightarrow> False | Inr a \<Rightarrow> Validate a c = None \<and> starts a c)"

definition adopt :: "(GenericAdapter \<Rightarrow> SourceConfig \<Rightarrow> bool) \<Rightarrow> Factory \<Rightarrow> SourceConfig \<Rightarrow> SourceConfig option \<Rightarrow> SourceConfig option" where
  "adopt starts f c old =
     (case old of
        Some d \<Rightarrow> if sc_ingester d = sc_ingester c then Some d else if usable starts f c then Some c else None
      | None \<Rightarrow> if usable starts f c then Some c else None)"

definition generic_of :: "IngesterConfig \<Rightarrow> SourceConfig" where
  "generic_of ic = the (ConvertIngesterConfigToGeneric (Some ic))"

definition adopt_item :: "(GenericAdapter \<Rightarrow> SourceConfig \<Rightarrow> bool) \<Rightarrow> Factory \<Rightarrow> IngesterConfig \<Rightarrow> (string \<rightharpoonup> SourceConfig) \<Rightarrow> (string \<rightharpoonup> SourceConfig)" where
  "adopt_item starts f ic m = m(ic_source ic := adopt starts f (generic_of ic) (m (ic_source ic)))"

definition reconcile :: "(GenericAdapter \<Rightarrow> SourceConfig \<Rightarrow> bool) \<Rightarrow> Factory \<Rightarrow> IngesterConfig list \<Rightarrow> (string \<rightharpoonup> SourceConfig) \<Rightarrow> (string \<rightharpoonup> SourceConfig)" where
  "reconcile starts f ics m = fold (adopt_item starts f) ics m |` set (map ic_source ics)"

lemma generic_of: "ConvertIngesterConfigToGeneric (Some ic) = Some (generic_of ic)" "sc_source (generic_of ic) = ic_source ic"
  by (simp_all add: generic_of_def ConvertIngesterConfigToGeneric_def source_config_def)

lemma AddAdapter_config: "am_GetConfig (AddAdapter s a c i am) = (am_GetConfig am)(s \<mapsto> c)"
  by (rule ext) (simp add: am_GetConfig_def AddAdapter_def)

lemma RemoveAdapter_config: "am_GetConfig (RemoveAdapter s am) = (am_GetConfig am)(s := None)"
  by (rule ext) (simp add: am_GetConfig_def RemoveAdapter_def)

lemma create_effect:
  assumes "\<And>i a. start i a c = None \<longleftrightarrow> starts a c"
  shows "adapterManager (snd (createAndStartAdapterForSource start s nm c it orch)) =
      (case NewAdapter (adapterFactory orch) (sc_ingester c) of
         Inr a \<Rightarrow> if Validate a c = None \<and> starts a c then AddAdapter s (next_id orch, a) c (next_id orch) (adapterManager orch) else adapterManager orch
       | Inl _ \<Rightarrow> adapterManager orch)"
    "\<not> usable starts (adapterFactory orch) c \<Longrightarrow> o_log (snd (createAndStartAdapterForSource start s nm c it orch)) = o_log orch"
    "adapterFactory (snd (createAndStartAdapterForSource start s nm c it orch)) = adapterFactory orch"
proof -
  have "starts a c \<longleftrightarrow> (case start (next_id orch) a c of None \<Rightarrow> True | Some _ \<Rightarrow> False)" for a
    using assms [of "next_id orch" a] by (cases "start (next_id orch) a c") auto
  note eqs = createAndStartAdapterForSource_def usable_def this Let_def
  show "adapterManager (snd (createAndStartAdapterForSource start s nm c it orch)) =
      (case NewAdapter (adapterFactory orch) (sc_ingester c) of
         Inr a \<Rightarrow> if Validate a c = None \<and> starts a c then AddAdapter s (next_id orch, a) c (next_id orch) (adapterManager orch) else adapterManager orch
       | Inl _ \<Rightarrow> adapterManager orch)"
    "\<not> usable starts (adapterFactory orch) c \<Longrightarrow> o_log (snd (createAndStartAdapterForSource start s nm c it orch)) = o_log orch"
    "adapterFactory (snd (createAndStartAdapterForSource start s nm c it orch)) = adapterFactory orch"
    by (auto simp: eqs split: sum.splits option.splits)
qed

lemma process_effect:
  assumes "orch_ok orch" "\<And>i a c. start i a c = None \<longleftrightarrow> starts a c"
  shows "am_GetConfig (adapterManager (fst (processIngesterConfigItem start it ic (orch, act)))) =
      adopt_item starts (adapterFactory orch) ic (am_GetConfig (adapterManager orch))"
    "snd (processIngesterConfigItem start it ic (orch, act)) = act @ [ic_source ic]"
    "adapterFactory (fst (processIngesterConfigItem start it ic (orch, act))) = adapterFactory orch"
proof -
  let ?c = "generic_of ic" and ?am = "adapterManager orch" and ?s = "ic_source ic"
  have agree: "am_GetConfig ?am ?s = None \<longleftrightarrow> GetAdapter ?am ?s = None"
    using assms(1) by (simp add: core_ok_def am_GetConfig_def GetAdapter_def)
  note eff = create_effect [of start ?c starts, OF assms(2)]
  show "am_GetConfig (adapterManager (fst (processIngesterConfigItem start it ic (orch, act)))) =
      adopt_item starts (adapterFactory orch) ic (am_GetConfig ?am)"
    using agree
    by (auto simp: processIngesterConfigItem_def generic_of Let_def configChanged_def adopt_item_def adopt_def eff usable_def
        AddAdapter_config RemoveAdapter_config fun_upd_idem split: option.splits sum.splits)
  show "snd (processIngesterConfigItem start it ic (orch, act)) = act @ [ic_source ic]"
    by (auto simp: processIngesterConfigItem_def generic_of Let_def split: option.splits)
  show "adapterFactory (fst (processIngesterConfigItem start it ic (orch, act))) = adapterFactory orch"
    by (auto simp: processIngesterConfigItem_def generic_of Let_def eff split: option.splits)
qed

lemma fold_process_effect:
  assumes "\<And>i a c. start i a c = None \<longleftrightarrow> starts a c"
  shows "orch_ok orch \<Longrightarrow> fold (processIngesterConfigItem start it) ics (orch, act) = (o', act') \<Longrightarrow>
    am_GetConfig (adapterManager o') = fold (adopt_item starts (adapterFactory orch)) ics (am_GetConfig (adapterManager orch)) \<and>
    act' = act @ map ic_source ics \<and> adapterFactory o' = adapterFactory orch \<and> orch_ok o'"
proof (induction ics arbitrary: orch act)
  case (Cons ic ics)
  obtain o1 act1 where p: "processIngesterConfigItem start it ic (orch, act) = (o1, act1)" by fastforce
  have ok: "orch_ok o1" using process_core [of "(orch, act)" start it ic] Cons.prems(1) p by simp
  from process_effect [where it = it and ic = ic and act = act and start = start, OF Cons.prems(1) assms] p Cons.IH [OF ok, of act1] Cons.prems(2) show ?case by simp
qed simp

lemma fold_items_effect:
  assumes "\<And>i a c. start i a c = None \<longleftrightarrow> starts a c"
  shows "orch_ok orch \<Longrightarrow> fold (process_item getenv u start) items (orch, act) = (o', act') \<Longrightarrow>
    am_GetConfig (adapterManager o') =
      fold (adopt_item starts (adapterFactory orch)) (concat (map (ConvertToIngesterConfigs getenv u) items)) (am_GetConfig (adapterManager orch)) \<and>
    act' = act @ map ic_source (concat (map (ConvertToIngesterConfigs getenv u) items)) \<and> adapterFactory o' = adapterFactory orch \<and> orch_ok o'"
proof (induction items arbitrary: orch act)
  case (Cons item items)
  obtain o1 act1 where p: "process_item getenv u start item (orch, act) = (o1, act1)" by fastforce
  from fold_process_effect [OF assms Cons.prems(1) p [unfolded process_item_def]] Cons.IH [of o1 act1] Cons.prems(2) p show ?case by simp
qed simp

lemma fold_retire_config:
  "am_GetConfig (adapterManager (fold retire es orch)) = am_GetConfig (adapterManager orch) |` (- fst ` set es)"
  by (induction es arbitrary: orch) (auto simp: RemoveAdapter_config restrict_map_def fun_eq_iff)

lemma reload_effect:
  assumes "orch_ok orch" "\<And>i a c. start i a c = None \<longleftrightarrow> starts a c"
  shows "am_GetConfig (adapterManager (reloadAdapters getenv u start (Inr items) orch)) =
    reconcile starts (adapterFactory orch) (concat (map (ConvertToIngesterConfigs getenv u) items)) (am_GetConfig (adapterManager orch))"
proof -
  obtain o1 act where o1: "fold (process_item getenv u start) items (orch, []) = (o1, act)" by fastforce
  note eff = fold_items_effect [OF assms(2,1) o1]
  have dom: "s \<notin> fst ` set (activeAdapters (adapterManager o1)) \<Longrightarrow> am_GetConfig (adapterManager o1) s = None" for s
  proof -
    assume "s \<notin> fst ` set (activeAdapters (adapterManager o1))"
    then have "map_of (activeAdapters (adapterManager o1)) s = None" by (simp add: map_of_eq_None_iff)
    moreover have "orch_ok o1" using eff by blast
    ultimately show ?thesis unfolding core_ok_def am_GetConfig_def by blast
  qed
  have "am_GetConfig (adapterManager (reloadAdapters getenv u start (Inr items) orch)) = am_GetConfig (adapterManager o1) |` set act"
    using dom by (auto simp: reloadAdapters_def o1 GetAllAdapters_def fold_retire_config restrict_map_def fun_eq_iff image_iff) force?
  with eff show ?thesis by (simp add: reconcile_def)
qed

text \<open>C11. A reload reconciles: where whether an adapter starts depends on its kind and its configuration, the configurations in force after a reload are those of the
  specification, as a function of those before. A listed source keeps its old configuration while its kind of adapter is
  the same, whatever else has changed in the Ingester; it gets the listed one when it is new or of another kind and an adapter for it exists, accepts and starts,
  and has none otherwise; a source that is not listed has none. When the Ingesters cannot be listed, nothing changes.\<close>

theorem reload_reconciles:
  assumes "orch_run getenv u f orch" "\<And>i a c. start i a c = None \<longleftrightarrow> starts a c"
  shows "am_GetConfig (adapterManager (reloadAdapters getenv u start listed orch)) =
    (case listed of
       Inl _ \<Rightarrow> am_GetConfig (adapterManager orch)
     | Inr items \<Rightarrow> reconcile starts (adapterFactory orch) (concat (map (ConvertToIngesterConfigs getenv u) items)) (am_GetConfig (adapterManager orch)))"
proof (cases listed)
  case (Inr items)
  with reload_effect [OF orch_run_ok [OF assms(1)] assms(2)] show ?thesis by simp
qed (simp add: reloadAdapters_def)

lemma adopt_nothing: "fold (adopt_item (\<lambda>_ _. False) f) ics (\<lambda>_. None) = (\<lambda>_. None)"
proof -
  have "adopt_item (\<lambda>_ _. False) f ic (\<lambda>_. None) = (\<lambda>_. None)" for ic
    by (auto simp: adopt_item_def adopt_def usable_def split: sum.splits)
  then show ?thesis by (induction ics) simp_all
qed

text \<open>An Ingester that is gone, and one whose adapter does not start.\<close>

theorem reload_reconciles_witness:
  "am_GetConfig (adapterManager (reloadAdapters (\<lambda>_. []) walk_api (\<lambda>_ _ _. None) (Inr []) orch1)) ''trivy'' = None \<and>
   am_GetConfig (adapterManager (reloadAdapters (\<lambda>_. []) walk_api (\<lambda>_ _ _. Some ''refused'') (Inr [single0])
     (NewGenericOrchestratorWithMetrics (NewFactory True True) True))) ''trivy'' = None"
proof
  show "am_GetConfig (adapterManager (reloadAdapters (\<lambda>_. []) walk_api (\<lambda>_ _ _. None) (Inr []) orch1)) ''trivy'' = None"
    using reload_reconciles [OF orch1_run, of "\<lambda>_ _ _. None" "\<lambda>_ _. True" "Inr []"] by (simp add: reconcile_def)
  let ?new = "NewGenericOrchestratorWithMetrics (NewFactory True True) True"
  have "am_GetConfig (adapterManager ?new) = (\<lambda>_. None)"
    by (simp add: fun_eq_iff am_GetConfig_def NewGenericOrchestratorWithMetrics_def NewAdapterManager_def)
  then show "am_GetConfig (adapterManager (reloadAdapters (\<lambda>_. []) walk_api (\<lambda>_ _ _. Some ''refused'') (Inr [single0]) ?new)) ''trivy'' = None"
    using reload_reconciles [OF orch_run.start, of "\<lambda>_ _ _. Some ''refused''" "\<lambda>_ _. False" "(\<lambda>_. [])" walk_api "Inr [single0]"]
    by (simp add: reconcile_def adopt_nothing restrict_map_def)
qed

lemma adopt_idem: "adopt starts f c (adopt starts f c old) = adopt starts f c old"
  by (auto simp: adopt_def split: option.splits)

lemma fold_adopt_other: "s \<notin> set (map ic_source ics) \<Longrightarrow> fold (adopt_item starts f) ics m s = m s"
  by (induction ics arbitrary: m) (auto simp: adopt_item_def)

lemma fold_adopt_fixed:
  "distinct (map ic_source ics) \<Longrightarrow> ic \<in> set ics \<Longrightarrow>
   adopt starts f (generic_of ic) (fold (adopt_item starts f) ics m (ic_source ic)) = fold (adopt_item starts f) ics m (ic_source ic)"
proof (induction ics arbitrary: m)
  case (Cons jc ics)
  show ?case
  proof (cases "ic = jc")
    case True
    then have "fold (adopt_item starts f) ics (adopt_item starts f jc m) (ic_source ic) = adopt starts f (generic_of ic) (m (ic_source ic))"
      using Cons.prems fold_adopt_other [of "ic_source ic" ics] by (simp add: adopt_item_def)
    then show ?thesis by (simp add: adopt_idem)
  qed (use Cons in auto)
qed simp

lemma reconcile_fixed:
  assumes "distinct (map ic_source ics)" "ic \<in> set ics"
  shows "adopt starts f (generic_of ic) (reconcile starts f ics m (ic_source ic)) = reconcile starts f ics m (ic_source ic)"
  using fold_adopt_fixed [OF assms] assms(2) by (simp add: reconcile_def)

lemma process_fixed:
  assumes "orch_ok orch" "\<And>i a c. start i a c = None \<longleftrightarrow> starts a c"
    "adopt starts (adapterFactory orch) (generic_of ic) (am_GetConfig (adapterManager orch) (ic_source ic)) = am_GetConfig (adapterManager orch) (ic_source ic)"
  shows "adapterManager (fst (processIngesterConfigItem start it ic (orch, act))) = adapterManager orch \<and>
    o_log (fst (processIngesterConfigItem start it ic (orch, act))) = o_log orch"
proof -
  let ?c = "generic_of ic" and ?am = "adapterManager orch" and ?s = "ic_source ic"
  have agree: "am_GetConfig ?am ?s = None \<longleftrightarrow> GetAdapter ?am ?s = None"
    using assms(1) by (simp add: core_ok_def am_GetConfig_def GetAdapter_def)
  note eff = create_effect [of start ?c starts, OF assms(2)]
  show ?thesis
  proof (cases "am_GetConfig ?am ?s")
    case None
    then have "\<not> usable starts (adapterFactory orch) ?c" using assms(3) by (auto simp: adopt_def split: if_splits)
    then show ?thesis using None agree
      by (auto simp: processIngesterConfigItem_def generic_of Let_def eff usable_def split: option.splits sum.splits if_splits)
  next
    case (Some d)
    then have "sc_ingester d = sc_ingester ?c" using assms(3) by (auto simp: adopt_def split: if_splits)
    then show ?thesis using Some agree
      by (auto simp: processIngesterConfigItem_def generic_of Let_def configChanged_def split: option.splits)
  qed
qed

lemma fold_process_fixed:
  assumes "\<And>i a c. start i a c = None \<longleftrightarrow> starts a c"
  shows "orch_ok orch \<Longrightarrow> \<forall>ic \<in> set ics. adopt starts (adapterFactory orch) (generic_of ic) (am_GetConfig (adapterManager orch) (ic_source ic)) =
      am_GetConfig (adapterManager orch) (ic_source ic) \<Longrightarrow>
    fold (processIngesterConfigItem start it) ics (orch, act) = (o', act') \<Longrightarrow>
    adapterManager o' = adapterManager orch \<and> o_log o' = o_log orch \<and> adapterFactory o' = adapterFactory orch \<and> orch_ok o'"
proof (induction ics arbitrary: orch act)
  case (Cons ic ics)
  obtain o1 act1 where p: "processIngesterConfigItem start it ic (orch, act) = (o1, act1)" by fastforce
  have ok: "orch_ok o1" using process_core [of "(orch, act)" start it ic] Cons.prems(1) p by simp
  have same: "adapterManager o1 = adapterManager orch" "o_log o1 = o_log orch" "adapterFactory o1 = adapterFactory orch"
    using process_fixed [where it = it and ic = ic and act = act and start = start, OF Cons.prems(1) assms]
      process_effect(3) [where it = it and ic = ic and act = act and start = start, OF Cons.prems(1) assms] Cons.prems(2) p by auto
  have "\<forall>ic \<in> set ics. adopt starts (adapterFactory o1) (generic_of ic) (am_GetConfig (adapterManager o1) (ic_source ic)) =
      am_GetConfig (adapterManager o1) (ic_source ic)" using Cons.prems(2) unfolding same by simp
  from Cons.IH [OF ok this] have "adapterManager o' = adapterManager o1 \<and> o_log o' = o_log o1 \<and> adapterFactory o' = adapterFactory o1 \<and> orch_ok o'"
    using Cons.prems(3) p by (metis fold_Cons comp_apply)
  with same show ?case by metis
qed simp

lemma fold_items_fixed:
  assumes "\<And>i a c. start i a c = None \<longleftrightarrow> starts a c"
  shows "orch_ok orch \<Longrightarrow> \<forall>ic \<in> set (concat (map (ConvertToIngesterConfigs getenv u) items)).
      adopt starts (adapterFactory orch) (generic_of ic) (am_GetConfig (adapterManager orch) (ic_source ic)) = am_GetConfig (adapterManager orch) (ic_source ic) \<Longrightarrow>
    fold (process_item getenv u start) items (orch, act) = (o', act') \<Longrightarrow> adapterManager o' = adapterManager orch \<and> o_log o' = o_log orch"
proof (induction items arbitrary: orch act)
  case (Cons item items)
  obtain o1 act1 where p: "process_item getenv u start item (orch, act) = (o1, act1)" by fastforce
  from fold_process_fixed [OF assms Cons.prems(1) _ p [unfolded process_item_def]] Cons.prems(2)
  have "adapterManager o1 = adapterManager orch \<and> o_log o1 = o_log orch \<and> adapterFactory o1 = adapterFactory orch \<and> orch_ok o1" by auto
  then have same: "adapterManager o1 = adapterManager orch" "o_log o1 = o_log orch" "adapterFactory o1 = adapterFactory orch" and ok: "orch_ok o1"
    by blast+
  have "\<forall>ic \<in> set (concat (map (ConvertToIngesterConfigs getenv u) items)).
      adopt starts (adapterFactory o1) (generic_of ic) (am_GetConfig (adapterManager o1) (ic_source ic)) = am_GetConfig (adapterManager o1) (ic_source ic)"
    using Cons.prems(2) unfolding same by simp
  from Cons.IH [OF ok this] have "adapterManager o' = adapterManager o1 \<and> o_log o' = o_log o1"
    using Cons.prems(3) p by (metis fold_Cons comp_apply)
  with same show ?case by metis
qed simp

text \<open>A second reload of the same list starts and stops nothing.\<close>

lemma reload_again:
  assumes "orch_run getenv u f orch" "\<And>i a c. start i a c = None \<longleftrightarrow> starts a c"
    "distinct (map ic_source (concat (map (ConvertToIngesterConfigs getenv u) items)))"
  shows "let o1 = reloadAdapters getenv u start (Inr items) orch; o2 = reloadAdapters getenv u start (Inr items) o1
    in adapterManager o2 = adapterManager o1 \<and> o_log o2 = o_log o1"
proof -
  let ?ics = "concat (map (ConvertToIngesterConfigs getenv u) items)"
  define o1 where "o1 = reloadAdapters getenv u start (Inr items) orch"
  have ok: "orch_ok o1" unfolding o1_def using orch_run_ok [OF assms(1)] by (rule reload_core)
  have m: "am_GetConfig (adapterManager o1) = reconcile starts (adapterFactory orch) ?ics (am_GetConfig (adapterManager orch))"
    unfolding o1_def by (rule reload_effect [OF orch_run_ok [OF assms(1)] assms(2)])
  have fac: "adapterFactory (fold retire es t) = adapterFactory t" for es t by (induction es arbitrary: t) auto
  obtain t act where t: "fold (process_item getenv u start) items (orch, []) = (t, act)" by fastforce
  have f1: "adapterFactory o1 = adapterFactory orch"
    using fold_items_effect [OF assms(2) orch_run_ok [OF assms(1)] t] by (simp add: o1_def reloadAdapters_def t fac)
  have fixed: "\<forall>ic \<in> set ?ics. adopt starts (adapterFactory o1) (generic_of ic) (am_GetConfig (adapterManager o1) (ic_source ic)) =
      am_GetConfig (adapterManager o1) (ic_source ic)"
    unfolding f1 m using reconcile_fixed [OF assms(3)] by blast
  obtain o2 act2 where o2: "fold (process_item getenv u start) items (o1, []) = (o2, act2)" by fastforce
  have same: "adapterManager o2 = adapterManager o1 \<and> o_log o2 = o_log o1" by (rule fold_items_fixed [OF assms(2) ok fixed o2])
  have act2: "act2 = map ic_source ?ics" using fold_items_effect [OF assms(2) ok o2] by simp
  have "s \<in> set act2" if "(s, a) \<in> set (activeAdapters (adapterManager o1))" for s a
  proof (rule ccontr)
    assume "s \<notin> set act2"
    then have "am_GetConfig (adapterManager o1) s = None" unfolding m act2 reconcile_def by (rule restrict_out)
    then have "map_of (activeAdapters (adapterManager o1)) s = None" using ok unfolding core_ok_def am_GetConfig_def by blast
    with that show False by (force simp: map_of_eq_None_iff)
  qed
  then have "filter (\<lambda>(s, a). s \<notin> set act2) (activeAdapters (adapterManager o2)) = []" using same by (auto simp: filter_empty_conv)
  then show ?thesis using same unfolding o1_def [symmetric] Let_def by (simp add: reloadAdapters_def o2 GetAllAdapters_def)
qed

section \<open>Source identifiers and the publication of the status\<close>

lemma in_status_targets:
  "(ns, n) \<in> set (status_targets orch) \<longleftrightarrow>
     ns \<noteq> [] \<and> n \<noteq> [] \<and> (\<exists>src \<in> set (ListSources (adapterManager orch)). \<exists>t. parseSourceIdentifier src = (ns, n, t))"
  (is "?l \<longleftrightarrow> ?r")
proof
  assume ?l
  then obtain src where "src \<in> set (ListSources (adapterManager orch))"
    "(case parseSourceIdentifier src of (a, b, _) \<Rightarrow> if a \<noteq> [] \<and> b \<noteq> [] then Some (a, b) else None) = Some (ns, n)"
    by (auto simp: status_targets_def List.map_filter_def)
  then show ?r by (cases "parseSourceIdentifier src") (auto split: if_splits)
next
  assume ?r
  then obtain src t where *: "src \<in> set (ListSources (adapterManager orch))" "parseSourceIdentifier src = (ns, n, t)" "ns \<noteq> []" "n \<noteq> []" by blast
  show ?l unfolding status_targets_def List.map_filter_def set_map set_filter comp_def
    by (rule image_eqI [where x = src]) (use * in simp_all)
qed

text \<open>The identifier of a source is read back: for parts without a slash the parser returns namespace, name and source name, and the
  source name is found by its prefix; for a source in any other form the parser gives up, and the Ingester's status is
  not written for it. So the status of an Ingester is published exactly when one of its sources is active, never when
  all of them failed.\<close>

theorem source_identifiers:
  assumes "CHR ''/'' \<notin> set ns" "CHR ''/'' \<notin> set n" "CHR ''/'' \<notin> set s" "s \<noteq> []" "ns \<noteq> []" "n \<noteq> []"
  shows "parseSourceIdentifier (ns @ ''/'' @ n @ ''/'' @ s) = (ns, n, s) \<and>
    extractSourceName (ns @ ''/'' @ n @ ''/'' @ s) ns n = s \<and>
    ((ns, n) \<in> set (status_targets orch) \<longleftrightarrow>
      (\<exists>t. CHR ''/'' \<notin> set t \<and> ns @ ''/'' @ n @ ''/'' @ t \<in> set (ListSources (adapterManager orch))))"
proof -
  have parse: "parseSourceIdentifier (ns @ ''/'' @ n @ ''/'' @ t) = (ns, n, t)" if "CHR ''/'' \<notin> set t" for t
    using assms that by (simp add: parseSourceIdentifier_def split_on_append_sep split_on_no_sep)
  have unparse: "src = ns @ ''/'' @ n @ ''/'' @ t \<and> CHR ''/'' \<notin> set t" if "parseSourceIdentifier src = (ns, n, t)" for src t
  proof -
    have "split_on (CHR ''/'') src = [ns, n, t]"
      using that assms(5) by (auto simp: parseSourceIdentifier_def split: list.splits)
    with join_split_on [of "CHR ''/''" src] show ?thesis
      using split_on_parts [of t "CHR ''/''" src] by auto
  qed
  have "(ns, n) \<in> set (status_targets orch) \<longleftrightarrow> (\<exists>src \<in> set (ListSources (adapterManager orch)). \<exists>t. parseSourceIdentifier src = (ns, n, t))"
    using assms(5,6) by (simp add: in_status_targets)
  also have "\<dots> \<longleftrightarrow> (\<exists>t. CHR ''/'' \<notin> set t \<and> ns @ ''/'' @ n @ ''/'' @ t \<in> set (ListSources (adapterManager orch)))"
    using parse unparse by metis
  finally show ?thesis using parse [OF assms(3)] assms(4) by (simp add: extractSourceName_def Let_def)
qed


theorem source_identifiers_witness:
  "parseSourceIdentifier ''ns/ing/a'' = (''ns'', ''ing'', ''a'') \<and> extractSourceName ''ns/ing/a'' ''ns'' ''ing'' = ''a''"
  using source_identifiers [of "''ns''" "''ing''" "''a''"] by simp

end
