(* ===== verification/Event_Loop.thy ===== *)
theory Event_Loop
  imports Orchestrator "HOL-Library.Sublist"
begin

text \<open>
  The goroutines of the orchestrator, \<^verbatim>\<open>pkg/orchestrator/generic.go\<close>: the loop that takes the events of one adapter from
  its channel to the batch processor or the pipeline (\<open>processEvents\<close>), with its metrics, and the two loops woken by
  tickers, \<open>watchConfigChanges\<close> and \<open>statusUpdateLoop\<close>.

  In single mode the events received until the channel is closed are a list, each with the readings of the clock around it. The record \<open>loop_state\<close>
  holds what such a loop changes: its two local variables, the batch processor and the pipeline behind it, the
  status trackers, and its share of the vectors of the metrics. In batch mode, which the constructor always chooses, the loop is a step relation,
  interleaved with the loops of the other adapters, the ticker of the batch processor and the goroutines it starts.

  Results: in batch mode the batches of a source are taken in the order its events arrive, whatever the interleaving, and are processed without
  the configuration of the source; failures are counted as processed, and the time a source was last seen is never
  recorded; in single mode every event is processed with its configuration and counted as processed or failed; polling unchanged
  Ingesters settles after the first reload.
\<close>

section \<open>The loop of an adapter\<close>

record loop_ticks =
  lt_add :: "int \<times> int"
  lt_take :: int
  lt_batch :: "nat \<Rightarrow> ticks"
  lt_start :: int
  lt_done :: int
  lt_now :: int
  lt_unix :: int
  lt_check :: int
  lt_rate :: int
  lt_reset :: int
  lt_seen :: string

record ('l, 's, 'd) loop_state =
  lp_batch :: BatchProcessor
  lp_proc :: "('l, 's, 'd) Processor"
  lp_status :: IngesterStatusUpdater
  lp_metrics :: bool
  eventCount :: int
  lastRateUpdate :: int
  lastEventTimestamp :: "(string, int) gomap"
  IngesterErrorsTotal :: "(string \<times> string \<times> string) list"
  IngesterEventsProcessed :: "(string \<times> string) list"
  IngesterProcessingLatency :: "(string \<times> string \<times> f64) list"
  IngestersLastEventTimestamp :: "(string, f64) gomap"
  IngesterEventsProcessedRate :: "(string, f64) gomap"

definition count_failure :: "string \<Rightarrow> string \<Rightarrow> string \<Rightarrow> ('l, 's, 'd) loop_state \<Rightarrow> ('l, 's, 'd) loop_state" where
  "count_failure source errorType stage s =
     (if lp_metrics s then s\<lparr>IngesterErrorsTotal := IngesterErrorsTotal s @ [(source, errorType, stage)]\<rparr> else s)"

definition update_rate :: "loop_ticks \<Rightarrow> string \<Rightarrow> ('l, 's, 'd) loop_state \<Rightarrow> ('l, 's, 'd) loop_state" where
  "update_rate lt source s =
     (if lt_check lt - lastRateUpdate s \<ge> 10 ^ 9
      then s\<lparr>IngesterEventsProcessedRate :=
               put source (f64_div (f64_of_int (eventCount s)) (dur_seconds (lt_rate lt - lastRateUpdate s))) (IngesterEventsProcessedRate s),
             eventCount := 0, lastRateUpdate := lt_reset lt\<rparr>
      else s)"

definition updateEventMetrics :: "loop_ticks \<Rightarrow> string \<Rightarrow> string \<Rightarrow> string \<Rightarrow> ('l, 's, 'd) loop_state \<Rightarrow> ('l, 's, 'd) loop_state" where
  "updateEventMetrics lt source ingester processorType s =
     (let s1 = s\<lparr>eventCount := wrap64 (eventCount s + 1)\<rparr>
      in if lp_metrics s1
         then update_rate lt source
           (s1\<lparr>IngesterEventsProcessed := IngesterEventsProcessed s1 @ [(source, ingester)],
               IngesterProcessingLatency := IngesterProcessingLatency s1 @ [(source, processorType, dur_seconds (lt_done lt - lt_start lt))],
               lastEventTimestamp := put source (lt_now lt) (lastEventTimestamp s1),
               IngestersLastEventTimestamp := put source (f64_of_int (lt_unix lt)) (IngestersLastEventTimestamp s1)\<rparr>)
         else s1)"

definition single_event ::
    "('l, 's, 'd) externals \<Rightarrow> string \<Rightarrow> SourceConfig \<Rightarrow> loop_ticks \<times> RawEvent \<Rightarrow> ('l, 's, 'd) loop_state \<Rightarrow> ('l, 's, 'd) loop_state" where
  "single_event x source conf = (\<lambda>(lt, rawEvent) s.
     let ((err, raw'), p) = ProcessEvent x (lt_batch lt 0) rawEvent (Some conf) (lp_proc s);
         s1 = s\<lparr>lp_proc := p\<rparr>
     in if err \<noteq> None then count_failure source ''process_failed'' ''processor'' s1
        else
          (let s2 = updateEventMetrics lt source (sc_ingester conf) ''processor'' s1
           in case parseSourceIdentifier source of (namespace, name, sourceName) \<Rightarrow>
                if namespace \<noteq> [] \<and> name \<noteq> []
                then s2\<lparr>lp_status := with_tracker namespace name (UpdateSourceLastSeen (lt_seen lt) sourceName) (lp_status s2)\<rparr>
                else s2))"

definition processSingleEvents ::
    "('l, 's, 'd) externals \<Rightarrow> string \<Rightarrow> SourceConfig \<Rightarrow> (loop_ticks \<times> RawEvent) list \<Rightarrow> ('l, 's, 'd) loop_state \<Rightarrow> ('l, 's, 'd) loop_state" where
  "processSingleEvents x source conf events s = fold (single_event x source conf) events s"

section \<open>The loop in batch mode\<close>

text \<open>In batch mode the loop shares the batch processor with the loops of the other adapters and with the ticker that \<open>NewBatchProcessor\<close> starts. It is
  \<open>Receiving\<close> from its channel; or \<open>Handing\<close>, inside \<open>AddEvent\<close>, after the lock is released and before the batch is taken; or
  \<open>Handling\<close> the events it took, one after the other. All other goroutines inside \<open>processBatch\<close>, those of the ticker and of
  other adapters, are \<open>bl_due\<close> before they take and \<open>bl_taken\<close> afterwards. The last three fields are the history: what was added,
  what was taken and by the goroutines of which source, and how many events this loop received.\<close>

datatype loop_at = Receiving | Handing loop_ticks string | Handling loop_ticks "RawEvent list"

record ('l, 's, 'd) batch_loop =
  bl_state :: "('l, 's, 'd) loop_state"
  bl_at :: loop_at
  bl_due :: "string list"
  bl_taken :: "RawEvent list list"
  bl_added :: "RawEvent list"
  bl_takes :: "(string \<times> RawEvent list) list"
  bl_received :: nat

definition batch_loop_start :: "('l, 's, 'd) loop_state \<Rightarrow> ('l, 's, 'd) batch_loop" where
  "batch_loop_start s = \<lparr>bl_state = s, bl_at = Receiving, bl_due = [], bl_taken = [], bl_added = [], bl_takes = [], bl_received = 0\<rparr>"

text \<open>The end of one round of the loop: \<open>AddEvent\<close> always returns nil.\<close>

definition added_event :: "string \<Rightarrow> SourceConfig \<Rightarrow> loop_ticks \<Rightarrow> ('l, 's, 'd) batch_loop \<Rightarrow> ('l, 's, 'd) batch_loop" where
  "added_event source conf lt c = c\<lparr>bl_state := updateEventMetrics lt source (sc_ingester conf) ''batch'' (bl_state c), bl_at := Receiving\<rparr>"

text \<open>The first five steps are those of the loop: an event received joins a batch that is not ready, or one that is; the batch is taken; one of its events goes
  through the pipeline, with no configuration; the call returns. The other five are those of the other goroutines.\<close>

inductive processBatchEvents ::
    "('l, 's, 'd) externals \<Rightarrow> string \<Rightarrow> SourceConfig \<Rightarrow> ('l, 's, 'd) batch_loop \<Rightarrow> ('l, 's, 'd) batch_loop \<Rightarrow> bool" for x source conf where
  receive: "bl_at c = Receiving \<Longrightarrow> bp_AddEvent (lt_add lt) raw (lp_batch (bl_state c)) = (False, bp) \<Longrightarrow>
    processBatchEvents x source conf c
      (added_event source conf lt (c\<lparr>bl_state := (bl_state c)\<lparr>lp_batch := bp\<rparr>, bl_added := bl_added c @ [raw], bl_received := bl_received c + 1\<rparr>))"
| receive_ready: "bl_at c = Receiving \<Longrightarrow> bp_AddEvent (lt_add lt) raw (lp_batch (bl_state c)) = (True, bp) \<Longrightarrow>
    processBatchEvents x source conf c
      (c\<lparr>bl_state := (bl_state c)\<lparr>lp_batch := bp\<rparr>, bl_added := bl_added c @ [raw], bl_received := bl_received c + 1, bl_at := Handing lt (raw_source raw)\<rparr>)"
| taking: "bl_at c = Handing lt k \<Longrightarrow> take_batch (lt_take lt) k (lp_batch (bl_state c)) = (es, bp) \<Longrightarrow>
    processBatchEvents x source conf c
      (c\<lparr>bl_state := (bl_state c)\<lparr>lp_batch := bp\<rparr>, bl_takes := bl_takes c @ [(k, es)], bl_at := Handling lt es\<rparr>)"
| handle_event: "bl_at c = Handling lt (e # es) \<Longrightarrow>
    processBatchEvents x source conf c
      (c\<lparr>bl_state := (bl_state c)\<lparr>lp_proc := snd (ProcessEvent x tk e None (lp_proc (bl_state c)))\<rparr>, bl_at := Handling lt es\<rparr>)"
| returned: "bl_at c = Handling lt [] \<Longrightarrow> processBatchEvents x source conf c (added_event source conf lt c)"
| other_adds: "bp_AddEvent t raw (lp_batch (bl_state c)) = (ready, bp) \<Longrightarrow>
    processBatchEvents x source conf c
      (c\<lparr>bl_state := (bl_state c)\<lparr>lp_batch := bp\<rparr>, bl_added := bl_added c @ [raw], bl_due := bl_due c @ (if ready then [raw_source raw] else [])\<rparr>)"
| ticked: "processBatchEvents x source conf c (c\<lparr>bl_due := bl_due c @ processAllBatches now (lp_batch (bl_state c))\<rparr>)"
| other_takes: "bl_due c = ks @ k # ks' \<Longrightarrow> take_batch now k (lp_batch (bl_state c)) = (es, bp) \<Longrightarrow>
    processBatchEvents x source conf c
      (c\<lparr>bl_state := (bl_state c)\<lparr>lp_batch := bp\<rparr>, bl_due := ks @ ks', bl_takes := bl_takes c @ [(k, es)], bl_taken := bl_taken c @ [es]\<rparr>)"
| other_handles: "bl_taken c = gs @ (e # es) # gs' \<Longrightarrow>
    processBatchEvents x source conf c
      (c\<lparr>bl_state := (bl_state c)\<lparr>lp_proc := snd (ProcessEvent x tk e None (lp_proc (bl_state c)))\<rparr>, bl_taken := gs @ es # gs'\<rparr>)"
| other_returns: "bl_taken c = gs @ [] # gs' \<Longrightarrow> processBatchEvents x source conf c (c\<lparr>bl_taken := gs @ gs'\<rparr>)"

text \<open>In batch mode the loop starts and goes on by the steps above; in single mode the result is the state after the events of the channel.\<close>

definition processEvents ::
    "bool \<Rightarrow> ('l, 's, 'd) externals \<Rightarrow> int \<Rightarrow> string \<Rightarrow> SourceConfig \<Rightarrow> (loop_ticks \<times> RawEvent) list \<Rightarrow> ('l, 's, 'd) loop_state \<Rightarrow>
     ('l, 's, 'd) batch_loop + ('l, 's, 'd) loop_state" where
  "processEvents enableBatching x now source conf events s =
     (let s0 = s\<lparr>eventCount := 0, lastRateUpdate := now\<rparr>
      in if enableBatching then Inl (batch_loop_start s0) else Inr (processSingleEvents x source conf events s0))"

section \<open>The loops of the tickers\<close>

text \<open>What a select statement finds: a tick, with what the server then answers, or the end of the context.\<close>

datatype 'a wakeup = Ticked 'a | Ended

fun watchConfigChanges ::
    "(string \<Rightarrow> string) \<Rightarrow> uapi \<Rightarrow> ((nat \<Rightarrow> GenericAdapter \<Rightarrow> SourceConfig \<Rightarrow> string option) \<times> (string + obj list)) wakeup list \<Rightarrow>
     GenericOrchestrator \<Rightarrow> GenericOrchestrator" where
  "watchConfigChanges getenv u [] orch = orch"
| "watchConfigChanges getenv u (Ended # _) orch = orch"
| "watchConfigChanges getenv u (Ticked (start, listed) # ws) orch = watchConfigChanges getenv u ws (reloadAdapters getenv u start listed orch)"

definition orch_Start ::
    "(string \<Rightarrow> string) \<Rightarrow> uapi \<Rightarrow> (nat \<Rightarrow> GenericAdapter \<Rightarrow> SourceConfig \<Rightarrow> string option) \<times> (string + obj list) \<Rightarrow>
     ((nat \<Rightarrow> GenericAdapter \<Rightarrow> SourceConfig \<Rightarrow> string option) \<times> (string + obj list)) wakeup list \<Rightarrow> GenericOrchestrator \<Rightarrow> GenericOrchestrator" where
  "orch_Start getenv u initial ws orch = watchConfigChanges getenv u ws (reloadAdapters getenv u (fst initial) (snd initial) orch)"

fun statusUpdateLoop ::
    "((string \<Rightarrow> string \<Rightarrow> string + obj) \<times> (obj \<Rightarrow> string option) \<times> string \<times> GenericOrchestrator) wakeup list \<Rightarrow> (obj option \<times> string option) list list" where
  "statusUpdateLoop [] = []"
| "statusUpdateLoop (Ended # _) = []"
| "statusUpdateLoop (Ticked (get, upd, now, orch) # ws) = updateAllIngesterStatus get upd now orch # statusUpdateLoop ws"

section \<open>What the batch loop does\<close>

lemma count_failure_simps [simp]:
  "lp_batch (count_failure a b c s) = lp_batch s" "lp_proc (count_failure a b c s) = lp_proc s" "lp_status (count_failure a b c s) = lp_status s"
  "lp_metrics (count_failure a b c s) = lp_metrics s" "IngesterEventsProcessed (count_failure a b c s) = IngesterEventsProcessed s"
  "IngesterErrorsTotal (count_failure a b c s) = IngesterErrorsTotal s @ (if lp_metrics s then [(a, b, c)] else [])"
  by (simp_all add: count_failure_def)

lemma updateEventMetrics_simps [simp]:
  "lp_batch (updateEventMetrics lt a b c s) = lp_batch s" "lp_proc (updateEventMetrics lt a b c s) = lp_proc s"
  "lp_status (updateEventMetrics lt a b c s) = lp_status s" "lp_metrics (updateEventMetrics lt a b c s) = lp_metrics s"
  "IngesterErrorsTotal (updateEventMetrics lt a b c s) = IngesterErrorsTotal s"
  "IngesterEventsProcessed (updateEventMetrics lt a b c s) = IngesterEventsProcessed s @ (if lp_metrics s then [(a, b)] else [])"
  by (simp_all add: updateEventMetrics_def update_rate_def Let_def)

lemma added_event_simps [simp]:
  "bl_added (added_event source conf lt c) = bl_added c" "bl_taken (added_event source conf lt c) = bl_taken c" "bl_takes (added_event source conf lt c) = bl_takes c"
  "lp_batch (bl_state (added_event source conf lt c)) = lp_batch (bl_state c)" "bl_at (added_event source conf lt c) = Receiving"
  "bl_received (added_event source conf lt c) = bl_received c" "lp_status (bl_state (added_event source conf lt c)) = lp_status (bl_state c)"
  "lp_metrics (bl_state (added_event source conf lt c)) = lp_metrics (bl_state c)"
  "IngesterErrorsTotal (bl_state (added_event source conf lt c)) = IngesterErrorsTotal (bl_state c)"
  "IngesterEventsProcessed (bl_state (added_event source conf lt c)) =
     IngesterEventsProcessed (bl_state c) @ (if lp_metrics (bl_state c) then [(source, sc_ingester conf)] else [])"
  by (simp_all add: added_event_def)

text \<open>The events of a source that waited and were added are those of its batches, in the order they were taken, and what waits. What a goroutine still has
  to process is the end of a batch that was taken.\<close>

definition takes_of :: "string \<Rightarrow> ('l, 's, 'd) batch_loop \<Rightarrow> RawEvent list" where
  "takes_of k c = concat (map snd (filter (\<lambda>t. fst t = k) (bl_takes c)))"

definition in_order :: "(string \<Rightarrow> RawEvent list) \<Rightarrow> ('l, 's, 'd) batch_loop \<Rightarrow> bool" where
  "in_order waited c \<longleftrightarrow> (\<forall>k. waited k @ filter (\<lambda>e. raw_source e = k) (bl_added c) = takes_of k c @ events_of (lp_batch (bl_state c)) k)"

fun in_hand :: "loop_at \<Rightarrow> RawEvent list list" where
  "in_hand (Handling lt es) = [es]"
| "in_hand _ = []"

definition ends_of_batches :: "('l, 's, 'd) batch_loop \<Rightarrow> bool" where
  "ends_of_batches c \<longleftrightarrow> (\<forall>g \<in> set (bl_taken c @ in_hand (bl_at c)). \<exists>t \<in> set (bl_takes c). suffix g (snd t))"

lemma in_order_add:
  "in_order w c \<Longrightarrow> bp_AddEvent t raw (lp_batch (bl_state c)) = (r, bp) \<Longrightarrow> bl_added c' = bl_added c @ [raw] \<Longrightarrow> bl_takes c' = bl_takes c \<Longrightarrow>
   lp_batch (bl_state c') = bp \<Longrightarrow> in_order w c'"
  by (auto simp: in_order_def takes_of_def events_of_AddEvent)

lemma in_order_take:
  assumes "in_order w c" "take_batch t k (lp_batch (bl_state c)) = (es, bp)" "bl_added c' = bl_added c" "bl_takes c' = bl_takes c @ [(k, es)]"
    "lp_batch (bl_state c') = bp"
  shows "in_order w c'"
  using assms events_of_take [OF assms(2)] by (auto simp: in_order_def takes_of_def)

lemma in_order_same:
  "in_order w c \<Longrightarrow> bl_added c' = bl_added c \<Longrightarrow> bl_takes c' = bl_takes c \<Longrightarrow> lp_batch (bl_state c') = lp_batch (bl_state c) \<Longrightarrow> in_order w c'"
  by (simp add: in_order_def takes_of_def)

lemma in_order_step: "processBatchEvents x source conf c c' \<Longrightarrow> in_order w c \<Longrightarrow> in_order w c'"
  by (induction rule: processBatchEvents.induct)
     ((erule in_order_add in_order_take, assumption, simp, simp, simp) | (erule in_order_same, simp, simp, simp))+

lemma ends_step: "processBatchEvents x source conf c c' \<Longrightarrow> ends_of_batches c \<Longrightarrow> ends_of_batches c'"
  by (induction rule: processBatchEvents.induct) (auto simp: ends_of_batches_def dest: suffix_ConsD)

lemma run_order:
  "(processBatchEvents x source conf)\<^sup>*\<^sup>* c c' \<Longrightarrow> in_order w c \<and> ends_of_batches c \<Longrightarrow> in_order w c' \<and> ends_of_batches c'"
  by (induction rule: rtranclp_induct) (auto intro: in_order_step ends_step)

lemma start_order: "in_order (events_of (lp_batch s)) (batch_loop_start s) \<and> ends_of_batches (batch_loop_start s)"
  by (simp add: in_order_def ends_of_batches_def batch_loop_start_def takes_of_def)

text \<open>What the loop counts: each event it is done with as processed, none as failed.\<close>

definition loop_counts :: "string \<Rightarrow> SourceConfig \<Rightarrow> ('l, 's, 'd) loop_state \<Rightarrow> ('l, 's, 'd) batch_loop \<Rightarrow> bool" where
  "loop_counts source conf s c \<longleftrightarrow> lp_metrics (bl_state c) = lp_metrics s \<and> lp_status (bl_state c) = lp_status s \<and>
     IngesterErrorsTotal (bl_state c) = IngesterErrorsTotal s \<and> (bl_at c \<noteq> Receiving \<longrightarrow> bl_received c \<noteq> 0) \<and>
     (lp_metrics s \<longrightarrow> IngesterEventsProcessed (bl_state c) =
        IngesterEventsProcessed s @ replicate (bl_received c - (if bl_at c = Receiving then 0 else 1)) (source, sc_ingester conf))"

lemma loop_counts_step: "processBatchEvents x source conf c c' \<Longrightarrow> loop_counts source conf s c \<Longrightarrow> loop_counts source conf s c'"
  by (induction rule: processBatchEvents.induct) (auto simp: loop_counts_def replicate_append_same [symmetric] gr0_conv_Suc)

text \<open>The pipeline and the batches do not depend on the configuration of the source.\<close>

definition relabel :: "(string \<times> string) list \<Rightarrow> ('l, 's, 'd) batch_loop \<Rightarrow> ('l, 's, 'd) batch_loop" where
  "relabel ls c = c\<lparr>bl_state := (bl_state c)\<lparr>IngesterEventsProcessed := ls\<rparr>\<rparr>"

lemma relabel_metrics:
  "updateEventMetrics lt source i' t (s\<lparr>IngesterEventsProcessed := ls\<rparr>) =
     (updateEventMetrics lt source i t s)\<lparr>IngesterEventsProcessed := (if lp_metrics s then ls @ [(source, i')] else ls)\<rparr>"
  by (cases s) (simp add: updateEventMetrics_def update_rate_def Let_def)

lemma relabel_simps:
  "bl_at (relabel ls c) = bl_at c" "bl_due (relabel ls c) = bl_due c" "bl_taken (relabel ls c) = bl_taken c" "bl_added (relabel ls c) = bl_added c"
  "bl_takes (relabel ls c) = bl_takes c" "bl_received (relabel ls c) = bl_received c" "bl_state (relabel ls c) = (bl_state c)\<lparr>IngesterEventsProcessed := ls\<rparr>"
  "relabel ls (c\<lparr>bl_at := v1\<rparr>) = (relabel ls c)\<lparr>bl_at := v1\<rparr>" "relabel ls (c\<lparr>bl_due := v2\<rparr>) = (relabel ls c)\<lparr>bl_due := v2\<rparr>"
  "relabel ls (c\<lparr>bl_taken := v3\<rparr>) = (relabel ls c)\<lparr>bl_taken := v3\<rparr>" "relabel ls (c\<lparr>bl_added := v4\<rparr>) = (relabel ls c)\<lparr>bl_added := v4\<rparr>"
  "relabel ls (c\<lparr>bl_takes := v5\<rparr>) = (relabel ls c)\<lparr>bl_takes := v5\<rparr>" "relabel ls (c\<lparr>bl_received := v6\<rparr>) = (relabel ls c)\<lparr>bl_received := v6\<rparr>"
  "relabel ls (c\<lparr>bl_state := s\<lparr>lp_batch := bp\<rparr>\<rparr>) = (relabel ls c)\<lparr>bl_state := s\<lparr>IngesterEventsProcessed := ls, lp_batch := bp\<rparr>\<rparr>"
  "relabel ls (c\<lparr>bl_state := s\<lparr>lp_proc := p\<rparr>\<rparr>) = (relabel ls c)\<lparr>bl_state := s\<lparr>IngesterEventsProcessed := ls, lp_proc := p\<rparr>\<rparr>"
  by (simp_all add: relabel_def)

lemma relabel_added: "\<exists>ls'. added_event source conf' lt (relabel ls c) = relabel ls' (added_event source conf lt c)"
  by (rule exI [of _ "if lp_metrics (bl_state c) then ls @ [(source, sc_ingester conf')] else ls"])
     (simp add: added_event_def relabel_def relabel_metrics [where i = "sc_ingester conf"])

lemma relabel_step:
  assumes "processBatchEvents x source conf c c'"
  shows "\<exists>ls'. processBatchEvents x source conf' (relabel ls c) (relabel ls' c')"
  using assms
proof (induction rule: processBatchEvents.induct)
  case (receive c lt raw bp)
  let ?c = "c\<lparr>bl_state := (bl_state c)\<lparr>lp_batch := bp\<rparr>, bl_added := bl_added c @ [raw], bl_received := bl_received c + 1\<rparr>"
  obtain ls' where "added_event source conf' lt (relabel ls ?c) = relabel ls' (added_event source conf lt ?c)" using relabel_added by blast
  with receive show ?case using processBatchEvents.receive [of "relabel ls c" lt raw bp x source conf'] by (intro exI [of _ ls']) (simp add: relabel_simps)
next
  case (returned c lt)
  obtain ls' where "added_event source conf' lt (relabel ls c) = relabel ls' (added_event source conf lt c)" using relabel_added by blast
  with returned show ?case using processBatchEvents.returned [of "relabel ls c" lt x source conf'] by (intro exI [of _ ls']) (simp add: relabel_simps)
next
  case (receive_ready c lt raw bp)
  then show ?case using processBatchEvents.receive_ready [of "relabel ls c" lt raw bp x source conf'] by (intro exI [of _ ls]) (simp add: relabel_simps)
next
  case (taking c lt k es bp)
  then show ?case using processBatchEvents.taking [of "relabel ls c" lt k es bp x source conf'] by (intro exI [of _ ls]) (simp add: relabel_simps)
next
  case (handle_event c lt e es tk)
  then show ?case using processBatchEvents.handle_event [of "relabel ls c" lt e es x source conf' tk] by (intro exI [of _ ls]) (simp add: relabel_simps)
next
  case (other_adds t raw c ready bp)
  then show ?case using processBatchEvents.other_adds [of t raw "relabel ls c" ready bp x source conf'] by (intro exI [of _ ls]) (simp add: relabel_simps)
next
  case (ticked c now)
  then show ?case using processBatchEvents.ticked [of x source conf' "relabel ls c" now] by (intro exI [of _ ls]) (simp add: relabel_simps)
next
  case (other_takes c ks k ks' now es bp)
  then show ?case using processBatchEvents.other_takes [of "relabel ls c" ks k ks' now es bp x source conf'] by (intro exI [of _ ls]) (simp add: relabel_simps)
next
  case (other_handles c gs e es gs' tk)
  then show ?case using processBatchEvents.other_handles [of "relabel ls c" gs e es gs' x source conf' tk] by (intro exI [of _ ls]) (simp add: relabel_simps)
next
  case (other_returns c gs gs')
  then show ?case using processBatchEvents.other_returns [of "relabel ls c" gs gs' x source conf'] by (intro exI [of _ ls]) (simp add: relabel_simps)
qed

lemma relabel_run:
  "(processBatchEvents x source conf)\<^sup>*\<^sup>* c c' \<Longrightarrow> \<exists>ls. (processBatchEvents x source conf')\<^sup>*\<^sup>* c (relabel ls c')"
proof (induction rule: rtranclp_induct)
  case base
  have "relabel (IngesterEventsProcessed (bl_state c)) c = c" by (simp add: relabel_def)
  then show ?case by (metis rtranclp.rtrancl_refl)
next
  case (step c1 c2)
  then show ?case using relabel_step [OF step.hyps(2)] by (meson rtranclp.rtrancl_into_rtrancl)
qed

text \<open>C21. Batching keeps the order of a source and drops its configuration. However the loop of an adapter in batch mode, the loops of the others, the ticker and its
  goroutines interleave: for every source, what waited at the start followed by what was added since is what its
  batches held, one after the other in the order in which they were taken, followed by what waits now; whatever a goroutine still has
  to process is the end of a taken batch; and with any other configuration of the source the same batches and the same state of the pipeline are
  reached.\<close>

theorem batch_mode_order:
  assumes "processEvents True x now source conf events s = Inl c0" "(processBatchEvents x source conf)\<^sup>*\<^sup>* c0 c"
  shows "(\<forall>k. events_of (lp_batch s) k @ filter (\<lambda>e. raw_source e = k) (bl_added c) = takes_of k c @ events_of (lp_batch (bl_state c)) k) \<and>
    (\<forall>g \<in> set (bl_taken c @ in_hand (bl_at c)). \<exists>t \<in> set (bl_takes c). suffix g (snd t)) \<and>
    (\<forall>conf'. \<exists>c'. (processBatchEvents x source conf')\<^sup>*\<^sup>* c0 c' \<and> bl_takes c' = bl_takes c \<and> lp_proc (bl_state c') = lp_proc (bl_state c) \<and>
       lp_batch (bl_state c') = lp_batch (bl_state c))"
proof -
  have "in_order (events_of (lp_batch s)) c \<and> ends_of_batches c"
    using run_order [OF assms(2)] start_order [of "s\<lparr>eventCount := 0, lastRateUpdate := now\<rparr>"] assms(1) by (auto simp: processEvents_def Let_def)
  moreover have "\<exists>c'. (processBatchEvents x source conf')\<^sup>*\<^sup>* c0 c' \<and> bl_takes c' = bl_takes c \<and> lp_proc (bl_state c') = lp_proc (bl_state c) \<and>
      lp_batch (bl_state c') = lp_batch (bl_state c)" for conf'
  proof -
    obtain ls where "(processBatchEvents x source conf')\<^sup>*\<^sup>* c0 (relabel ls c)" using relabel_run [OF assms(2)] by blast
    then show ?thesis by (intro exI [of _ "relabel ls c"]) (simp add: relabel_def)
  qed
  ultimately show ?thesis by (simp add: in_order_def ends_of_batches_def)
qed

lemma single_event_counts:
  "lp_metrics (single_event x source conf ev s) = lp_metrics s \<and>
   (lp_metrics s \<longrightarrow> length (IngesterEventsProcessed (single_event x source conf ev s)) + length (IngesterErrorsTotal (single_event x source conf ev s)) =
     length (IngesterEventsProcessed s) + length (IngesterErrorsTotal s) + 1)"
  by (auto simp: single_event_def Let_def split: prod.splits)

lemma single_loop_counts:
  "lp_metrics s \<Longrightarrow> length (IngesterEventsProcessed (processSingleEvents x source conf events s)) + length (IngesterErrorsTotal (processSingleEvents x source conf events s)) =
     length (IngesterEventsProcessed s) + length (IngesterErrorsTotal s) + length events"
proof (induction events arbitrary: s)
  case (Cons ev events)
  then show ?case using Cons.IH [of "single_event x source conf ev s"] single_event_counts [of x source conf ev s]
    by (simp add: processSingleEvents_def)
qed (simp add: processSingleEvents_def)

text \<open>What the loop itself adds to the counters: in single mode every event received is counted once, as processed or as failed. In batch mode
  every event received, except one whose call has not yet returned, is counted as processed, whatever the pipeline answers, none as failed, and the status
  of the Ingester, so the time its source was last seen, is not touched.\<close>

lemma run_counts:
  "(processBatchEvents x source conf)\<^sup>*\<^sup>* c c' \<Longrightarrow> loop_counts source conf s c \<Longrightarrow> loop_counts source conf s c'"
  by (induction rule: rtranclp_induct) (auto intro: loop_counts_step)

theorem loop_counters:
  assumes "lp_metrics s" "processEvents True x now source conf events s = Inl c0" "(processBatchEvents x source conf)\<^sup>*\<^sup>* c0 c"
    "processEvents False x now source conf events s = Inr s'"
  shows "length (IngesterEventsProcessed s') + length (IngesterErrorsTotal s') =
      length (IngesterEventsProcessed s) + length (IngesterErrorsTotal s) + length events \<and>
    (bl_at c = Receiving \<longrightarrow> IngesterEventsProcessed (bl_state c) =
      IngesterEventsProcessed s @ replicate (bl_received c) (source, sc_ingester conf)) \<and>
    IngesterErrorsTotal (bl_state c) = IngesterErrorsTotal s \<and> lp_status (bl_state c) = lp_status s"
proof -
  let ?s = "s\<lparr>eventCount := 0, lastRateUpdate := now\<rparr>"
  have "loop_counts source conf ?s c0" using assms(2) by (auto simp: processEvents_def batch_loop_start_def loop_counts_def)
  with run_counts [OF assms(3)] have "loop_counts source conf ?s c" .
  with single_loop_counts [of ?s x source conf events] assms(1,4) show ?thesis by (auto simp: processEvents_def loop_counts_def)
qed

definition lt0 :: loop_ticks where
  "lt0 = \<lparr>lt_add = (0, 0), lt_take = 0, lt_batch = (\<lambda>_. tk0), lt_start = 0, lt_done = 5, lt_now = 5, lt_unix = 0, lt_check = 10 ^ 9, lt_rate = 10 ^ 9,
     lt_reset = 10 ^ 9, lt_seen = ''now''\<rparr>"

definition loop0 :: "(unit, unit, unit) loop_state" where
  "loop0 = \<lparr>lp_batch = NewBatchProcessor 2 100, lp_proc = p0, lp_status = [], lp_metrics = True, eventCount = 0, lastRateUpdate = 0,
     lastEventTimestamp = [], IngesterErrorsTotal = [], IngesterEventsProcessed = [], IngesterProcessingLatency = [],
     IngestersLastEventTimestamp = [], IngesterEventsProcessedRate = []\<rparr>"

text \<open>One event makes a batch of size one ready; the loop takes it.\<close>

definition one0 :: "(unit, unit, unit) loop_state" where
  "one0 = loop0\<lparr>lp_batch := NewBatchProcessor 1 100\<rparr>"

definition bp_one :: BatchProcessor where
  "bp_one = snd (bp_AddEvent (0, 0) ev1 (NewBatchProcessor 1 100))"

definition loop_begins :: "(unit, unit, unit) batch_loop" where
  "loop_begins = batch_loop_start one0"

definition loop_hands :: "(unit, unit, unit) batch_loop" where
  "loop_hands = loop_begins\<lparr>bl_state := one0\<lparr>lp_batch := bp_one\<rparr>, bl_added := [ev1], bl_received := 1, bl_at := Handing lt0 ''falco''\<rparr>"

definition loop_took :: "(unit, unit, unit) batch_loop" where
  "loop_took = loop_hands\<lparr>bl_state := one0\<lparr>lp_batch := snd (take_batch 0 ''falco'' bp_one)\<rparr>, bl_takes := [(''falco'', [ev1])], bl_at := Handling lt0 [ev1]\<rparr>"

lemma loop_took_run:
  "processEvents True x0 0 ''falco'' (source_config ''falco'') [] one0 = Inl loop_begins"
  "(processBatchEvents x0 ''falco'' (source_config ''falco''))\<^sup>*\<^sup>* loop_begins loop_took"
proof -
  show "processEvents True x0 0 ''falco'' (source_config ''falco'') [] one0 = Inl loop_begins"
    by (simp add: processEvents_def loop_begins_def one0_def loop0_def)
  have src: "raw_source ev1 = ''falco''" by (simp add: ev1_def)
  have ready: "bp_AddEvent (0, 0) ev1 (NewBatchProcessor 1 100) = (True, bp_one)"
    by (simp add: bp_one_def bp_AddEvent_def NewBatchProcessor_def NewEventBatch_def AddEvent_def IsReadyForProcessing_def Let_def)
  have taken: "take_batch 0 ''falco'' bp_one = ([ev1], snd (take_batch 0 ''falco'' bp_one))"
    using events_of_take [of 0 "''falco''" bp_one] events_of_AddEvent [OF ready] src by (cases "take_batch 0 ''falco'' bp_one") (simp add: new_ok)
  have "processBatchEvents x0 ''falco'' (source_config ''falco'') loop_begins loop_hands"
    using processBatchEvents.receive_ready [of loop_begins lt0 ev1 bp_one x0 "''falco''" "source_config ''falco''"] ready src
    by (simp add: loop_begins_def batch_loop_start_def loop_hands_def one0_def lt0_def)
  moreover have "processBatchEvents x0 ''falco'' (source_config ''falco'') loop_hands loop_took"
    using processBatchEvents.taking [of loop_hands lt0 "''falco''" "[ev1]" "snd (take_batch 0 ''falco'' bp_one)" x0 "''falco''" "source_config ''falco''"] taken
    by (simp add: loop_begins_def batch_loop_start_def loop_hands_def loop_took_def one0_def lt0_def)
  ultimately show "(processBatchEvents x0 ''falco'' (source_config ''falco''))\<^sup>*\<^sup>* loop_begins loop_took" by auto
qed

theorem batch_mode_order_witness:
  "(processBatchEvents x0 ''falco'' (source_config ''falco''))\<^sup>*\<^sup>* loop_begins loop_took \<and> bl_added loop_took = [ev1] \<and>
   takes_of ''falco'' loop_took = [ev1] \<and> events_of (lp_batch (bl_state loop_took)) ''falco'' = [] \<and>
   (\<exists>c'. (processBatchEvents x0 ''falco'' cfg0)\<^sup>*\<^sup>* loop_begins c' \<and> bl_takes c' = [(''falco'', [ev1])])"
proof -
  note order = batch_mode_order [OF loop_took_run]
  have "events_of (lp_batch one0) ''falco'' = []" by (simp add: one0_def new_ok)
  moreover have "bl_added loop_took = [ev1]" "takes_of ''falco'' loop_took = [ev1]" "bl_takes loop_took = [(''falco'', [ev1])]"
    by (simp_all add: loop_took_def loop_hands_def takes_of_def)
  moreover have "raw_source ev1 = ''falco''" by (simp add: ev1_def)
  moreover have "events_of (lp_batch one0) ''falco'' @ filter (\<lambda>e. raw_source e = ''falco'') (bl_added loop_took) =
      takes_of ''falco'' loop_took @ events_of (lp_batch (bl_state loop_took)) ''falco''" using order by blast
  moreover have "\<exists>c'. (processBatchEvents x0 ''falco'' cfg0)\<^sup>*\<^sup>* loop_begins c' \<and> bl_takes c' = bl_takes loop_took" using order by blast
  ultimately show ?thesis using loop_took_run(2) by simp
qed

theorem loop_counters_witness: "IngesterErrorsTotal (bl_state loop_took) = [] \<and> lp_status (bl_state loop_took) = []"
proof -
  have "lp_metrics one0" "IngesterErrorsTotal one0 = []" "lp_status one0 = []" by (simp_all add: one0_def loop0_def)
  moreover obtain s' where "processEvents False x0 0 ''falco'' (source_config ''falco'') [] one0 = Inr s'" by (simp add: processEvents_def)
  ultimately show ?thesis using loop_counters [OF _ loop_took_run] by simp
qed

section \<open>Polling\<close>

lemma watch_run: "orch_run getenv u f orch \<Longrightarrow> orch_run getenv u f (watchConfigChanges getenv u ws orch)"
  by (induction getenv u ws orch rule: watchConfigChanges.induct) (auto intro: orch_run.reload)

text \<open>The reloads of a loop that always finds the same list.\<close>

abbreviation reloaded ::
    "(string \<Rightarrow> string) \<Rightarrow> uapi \<Rightarrow> (nat \<Rightarrow> GenericAdapter \<Rightarrow> SourceConfig \<Rightarrow> string option) \<Rightarrow> obj list \<Rightarrow> GenericOrchestrator \<Rightarrow> GenericOrchestrator" where
  "reloaded getenv u start items \<equiv> reloadAdapters getenv u start (Inr items)"

lemma watch_replicate:
  "watchConfigChanges getenv u (replicate n (Ticked (start, Inr items))) orch = (reloaded getenv u start items ^^ n) orch"
  by (induction n arbitrary: orch) (simp_all add: funpow_swap1)

text \<open>C20. Polling settles: while the Ingesters stay the same, all name different sources, and whether an adapter starts depends on its kind and its configuration, the
  first reload does all the work. However often the list is polled afterwards, no adapter is started or stopped, and the
  manager stays as it is.\<close>

theorem polling_settles:
  assumes "orch_run getenv u f orch" "\<And>i a c. start i a c = None \<longleftrightarrow> starts a c"
    "distinct (map ic_source (concat (map (ConvertToIngesterConfigs getenv u) items)))"
  shows "let o1 = reloaded getenv u start items orch;
      on = orch_Start getenv u (start, Inr items) (replicate n (Ticked (start, Inr items))) orch
    in adapterManager on = adapterManager o1 \<and> o_log on = o_log o1"
proof -
  have "orch_run getenv u f ((reloaded getenv u start items ^^ k) orch)" for k
    by (induction k) (use assms(1) orch_run.reload in auto)
  then have step: "adapterManager ((reloaded getenv u start items ^^ Suc (Suc k)) orch) = adapterManager ((reloaded getenv u start items ^^ Suc k) orch) \<and>
      o_log ((reloaded getenv u start items ^^ Suc (Suc k)) orch) = o_log ((reloaded getenv u start items ^^ Suc k) orch)" for k
    using reload_again [OF _ assms(2,3), of f "(reloaded getenv u start items ^^ k) orch"] by (simp add: Let_def)
  have "adapterManager ((reloaded getenv u start items ^^ Suc n) orch) = adapterManager (reloaded getenv u start items orch) \<and>
      o_log ((reloaded getenv u start items ^^ Suc n) orch) = o_log (reloaded getenv u start items orch)"
    by (induction n) (use step in auto)
  then show ?thesis by (simp add: orch_Start_def watch_replicate Let_def funpow_swap1)
qed

theorem polling_settles_witness:
  "o_log (orch_Start (\<lambda>_. []) walk_api (\<lambda>_ _ _. None, Inr [single0]) (replicate 100 (Ticked (\<lambda>_ _ _. None, Inr [single0])))
     (NewGenericOrchestratorWithMetrics (NewFactory True True) True)) = o_log orch1"
proof -
  have "map ic_source (ConvertToIngesterConfigs (\<lambda>_. []) walk_api single0) = [''trivy'']" by code_simp
  then have "distinct (map ic_source (concat (map (ConvertToIngesterConfigs (\<lambda>_. []) walk_api) [single0])))" by simp
  from polling_settles [OF orch_run.start [where metrics = True] _ this, of "\<lambda>_ _ _. None" "\<lambda>_ _. True" "NewFactory True True" 100]
  show ?thesis by (simp add: Let_def orch1_def)
qed

end
