(* ===== verification/Garbage_Collector.thy ===== *)
theory Garbage_Collector
  imports Zen_Time K8s_Unstructured
begin

text \<open>
  The garbage collector of \<^verbatim>\<open>pkg/gc/collector.go\<close>: a run lists the observations page by page, decides for each whether
  its time to live has passed, and asks the API server to delete those.

  The API server, the clock and the calling context are outside the program. They are the record \<open>gc_env\<close>, whose
  functions read and change a world of an arbitrary type: a list call returns an error or the items of a page and
  the continue token, a delete call an error or nothing, \<open>mono_now\<close> the monotonic clock in nanoseconds, \<open>wall_now\<close>
  the wall clock, \<open>cancelled_at\<close> the time the calling context was cancelled, if it was. \<open>IsExpired\<close> is that of
  \<^verbatim>\<open>zen-sdk/pkg/gc/ttl\<close>, which reads the clock itself. The loop over the pages ends only when the server stops sending tokens or the
  context is done, so it is a partial function, and that it ends is proved from the advance of the clock.

  Times are seconds since year 1 and nanoseconds, as in package \<^verbatim>\<open>time\<close>; \<^verbatim>\<open>AddDate\<close> moves the seconds, which
  wrap at 64 bits, in a location without clock changes (UTC in the image). Logging is left out. The vectors of
  the metrics are lists of the label values that were incremented.
\<close>

section \<open>Time\<close>

record gotime =
  t_sec :: int
  t_nsec :: int

definition Before :: "gotime \<Rightarrow> gotime \<Rightarrow> bool" where
  "Before t u \<longleftrightarrow> t_sec t < t_sec u \<or> t_sec t = t_sec u \<and> t_nsec t < t_nsec u"

definition AddDate_days :: "int \<Rightarrow> gotime \<Rightarrow> gotime" where
  "AddDate_days d t = t\<lparr>t_sec := wrap64 (t_sec t + 86400 * d)\<rparr>"

section \<open>The surroundings\<close>

datatype ctx_error = Canceled | DeadlineExceeded

text \<open>A namespace is \<open>None\<close> in a call that is not restricted to one.\<close>

record 'w gc_env =
  List_obs :: "string option \<Rightarrow> string \<Rightarrow> 'w \<Rightarrow> (string + obj list \<times> string) \<times> 'w"
  Delete_obs :: "string \<Rightarrow> string \<Rightarrow> 'w \<Rightarrow> string option \<times> 'w"
  GetCreationTimestamp :: "obj \<Rightarrow> gotime"
  IsExpired :: "obj \<Rightarrow> int \<Rightarrow> 'w \<Rightarrow> string + bool"
  mono_now :: "'w \<Rightarrow> int"
  wall_now :: "'w \<Rightarrow> gotime"
  cancelled_at :: "'w \<Rightarrow> int option"

text \<open>The error of a context with a deadline: whichever of cancellation and deadline came first.\<close>

definition ctx_Err :: "'w gc_env \<Rightarrow> int \<Rightarrow> 'w \<Rightarrow> ctx_error option" where
  "ctx_Err e deadline w =
     (case cancelled_at e w of
        Some t \<Rightarrow> Some (if t < deadline then Canceled else DeadlineExceeded)
      | None \<Rightarrow> if deadline \<le> mono_now e w then Some DeadlineExceeded else None)"

section \<open>The collector\<close>

text \<open>The calls the collector makes, as the server sees them.\<close>

datatype gc_call = ListCall "string option" string | DeleteCall string string

record Collector =
  ttlDays :: int
  gcInterval :: int
  observationsDeleted :: "(string \<times> string) list option"
  gcRunsTotal :: "nat option"
  gcErrors :: "(string \<times> string) list option"
  gc_calls :: "gc_call list"

definition DefaultTTLDays :: int where "DefaultTTLDays = 7"
definition DefaultGCInterval :: int where "DefaultGCInterval = 3600 * 10 ^ 9"
definition DefaultGCTimeout :: int where "DefaultGCTimeout = 300 * 10 ^ 9"

definition positive_or :: "int \<Rightarrow> int option \<Rightarrow> int" where
  "positive_or dflt v = (case v of Some d \<Rightarrow> if d > 0 then d else dflt | None \<Rightarrow> dflt)"

definition NewCollector ::
    "(string \<Rightarrow> string) \<Rightarrow> (string \<times> string) list option \<Rightarrow> nat option \<Rightarrow> (string \<times> string) list option \<Rightarrow> Collector" where
  "NewCollector getenv deletedVec runs errorsVec =
     \<lparr>ttlDays = (if getenv ''OBSERVATION_TTL_DAYS'' \<noteq> [] then positive_or DefaultTTLDays (parse_int (getenv ''OBSERVATION_TTL_DAYS'')) else DefaultTTLDays),
      gcInterval = (if getenv ''GC_INTERVAL'' \<noteq> [] then positive_or DefaultGCInterval (parse_duration (getenv ''GC_INTERVAL'')) else DefaultGCInterval),
      observationsDeleted = deletedVec, gcRunsTotal = runs, gcErrors = errorsVec, gc_calls = []\<rparr>"

definition count_error :: "string \<Rightarrow> string \<Rightarrow> Collector \<Rightarrow> Collector" where
  "count_error operation errorType gc = gc\<lparr>gcErrors := map_option (\<lambda>v. v @ [(operation, errorType)]) (gcErrors gc)\<rparr>"

definition count_deleted :: "string \<Rightarrow> string \<Rightarrow> Collector \<Rightarrow> Collector" where
  "count_deleted source reason gc = gc\<lparr>observationsDeleted := map_option (\<lambda>v. v @ [(source, reason)]) (observationsDeleted gc)\<rparr>"

definition record_call :: "gc_call \<Rightarrow> Collector \<Rightarrow> Collector" where
  "record_call c gc = gc\<lparr>gc_calls := gc_calls gc @ [c]\<rparr>"

definition shouldDeleteObservation :: "uapi \<Rightarrow> 'w gc_env \<Rightarrow> obj \<Rightarrow> gotime \<Rightarrow> 'w \<Rightarrow> bool \<times> string" where
  "shouldDeleteObservation u e obs defaultCutoffTime w =
     (case NestedInt64 u obs [''spec'', ''ttlSecondsAfterCreation''] of
        Some ttlVal \<Rightarrow>
          if ttlVal > 0 then (if IsExpired e obs ttlVal w = Inr True then (True, ''ttl_spec'') else (False, []))
          else if Before (GetCreationTimestamp e obs) defaultCutoffTime then (True, ''ttl_default'') else (False, [])
      | None \<Rightarrow> if Before (GetCreationTimestamp e obs) defaultCutoffTime then (True, ''ttl_default'') else (False, []))"

definition extractSourceFromObservation :: "uapi \<Rightarrow> obj \<Rightarrow> string" where
  "extractSourceFromObservation u obs =
     (case NestedFieldCopy u obs [''spec'', ''source''] of
        None \<Rightarrow> ''unknown''
      | Some v \<Rightarrow> if v = VNil then ''unknown'' else (case as_string v of Some str \<Rightarrow> str | None \<Rightarrow> fmt_v v))"

definition handleDeleteError :: "string \<Rightarrow> Collector \<Rightarrow> Collector" where
  "handleDeleteError err gc =
     (let errMsg = to_lower err
      in count_error ''delete''
           (if contains_str errMsg ''not found'' then ''not_found''
            else if contains_str errMsg ''forbidden'' then ''forbidden'' else ''delete_failed'') gc)"

text \<open>The body of the loop over the items of a page, for an item whose time has come.\<close>

definition delete_item ::
    "'w gc_env \<Rightarrow> string \<Rightarrow> string \<Rightarrow> string \<Rightarrow> string \<Rightarrow> int \<times> Collector \<times> 'w \<Rightarrow> int \<times> Collector \<times> 'w" where
  "delete_item e namespace name source reason = (\<lambda>(deletedCount, gc, w).
     let (err, w') = Delete_obs e namespace name w; gc' = record_call (DeleteCall namespace name) gc
     in (case err of
           Some err \<Rightarrow> (deletedCount, handleDeleteError err gc', w')
         | None \<Rightarrow> (deletedCount + 1, count_deleted source reason gc', w')))"

definition process_observation ::
    "uapi \<Rightarrow> 'w gc_env \<Rightarrow> string \<Rightarrow> gotime \<Rightarrow> obj \<Rightarrow> int \<times> Collector \<times> 'w \<Rightarrow> int \<times> Collector \<times> 'w" where
  "process_observation u e namespace cutoffTime obs = (\<lambda>(deletedCount, gc, w).
     let (shouldDelete, reason) = shouldDeleteObservation u e obs cutoffTime w
     in if \<not> shouldDelete then (deletedCount, gc, w)
        else delete_item e namespace (GetName u obs) (extractSourceFromObservation u obs) reason (deletedCount, gc, w))"

text \<open>It returns no error on any path.\<close>

definition processObservationChunk ::
    "uapi \<Rightarrow> 'w gc_env \<Rightarrow> string \<Rightarrow> gotime \<Rightarrow> obj list \<Rightarrow> Collector \<Rightarrow> 'w \<Rightarrow> int \<times> Collector \<times> 'w" where
  "processObservationChunk u e namespace cutoffTime observations gc w =
     fold (process_observation u e namespace cutoffTime) observations (0, gc, w)"

definition chunk_item ::
    "uapi \<Rightarrow> 'w gc_env \<Rightarrow> gotime \<Rightarrow> obj \<Rightarrow> int \<times> Collector \<times> 'w \<Rightarrow> int \<times> Collector \<times> 'w" where
  "chunk_item u e cutoffTime obs = (\<lambda>(deletedCount, gc, w).
     let (shouldDelete, reason) = shouldDeleteObservation u e obs cutoffTime w
     in if \<not> shouldDelete then (deletedCount, gc, w)
        else
          (let source = (case NestedFieldCopy u obs [''spec'', ''source''] of
                 None \<Rightarrow> ''unknown'' | Some v \<Rightarrow> if v = VNil then ''unknown'' else fmt_v v);
               namespace = (if GetNamespace u obs = [] then ''default'' else GetNamespace u obs)
           in delete_item e namespace (GetName u obs) source reason (deletedCount, gc, w)))"

definition processChunk ::
    "uapi \<Rightarrow> 'w gc_env \<Rightarrow> gotime \<Rightarrow> obj list \<Rightarrow> Collector \<Rightarrow> 'w \<Rightarrow> int \<times> Collector \<times> 'w" where
  "processChunk u e cutoffTime items gc w = fold (chunk_item u e cutoffTime) items (0, gc, w)"

datatype gc_error = CtxErr ctx_error | ListErr string

text \<open>The loop both collecting functions are written around: the context is looked at, a page is listed and processed, and the
  loop goes on while there is a continue token. Not returning is \<open>None\<close>.\<close>

partial_function (option) collect_pages ::
    "'w gc_env \<Rightarrow> int \<Rightarrow> string option \<Rightarrow> (obj list \<Rightarrow> Collector \<Rightarrow> 'w \<Rightarrow> int \<times> Collector \<times> 'w) \<Rightarrow>
     string \<Rightarrow> int \<Rightarrow> Collector \<Rightarrow> 'w \<Rightarrow> (int \<times> gc_error option \<times> Collector \<times> 'w) option" where
  "collect_pages e deadline ns process continueToken deletedCount gc w =
     (case ctx_Err e deadline w of
        Some err \<Rightarrow> Some (deletedCount, Some (CtxErr err), gc, w)
      | None \<Rightarrow>
          (case List_obs e ns continueToken w of (res, w1) \<Rightarrow>
             (case res of
                Inl err \<Rightarrow> Some (deletedCount, Some (ListErr err), count_error ''list'' ''list_failed'' (record_call (ListCall ns continueToken) gc), w1)
              | Inr page \<Rightarrow>
                  (case process (fst page) (record_call (ListCall ns continueToken) gc) w1 of (chunkDeleted, gc2, w2) \<Rightarrow>
                     if snd page = [] then Some (deletedCount + chunkDeleted, None, gc2, w2)
                     else collect_pages e deadline ns process (snd page) (deletedCount + chunkDeleted) gc2 w2))))"

definition cutoff :: "'w gc_env \<Rightarrow> Collector \<Rightarrow> 'w \<Rightarrow> gotime" where
  "cutoff e gc w = AddDate_days (- ttlDays gc) (wall_now e w)"

definition collectNamespace ::
    "uapi \<Rightarrow> 'w gc_env \<Rightarrow> int \<Rightarrow> string \<Rightarrow> Collector \<Rightarrow> 'w \<Rightarrow> (int \<times> gc_error option \<times> Collector \<times> 'w) option" where
  "collectNamespace u e deadline namespace gc w =
     collect_pages e deadline (Some namespace) (processObservationChunk u e namespace (cutoff e gc w)) [] 0 gc w"

definition collectAllNamespaces ::
    "uapi \<Rightarrow> 'w gc_env \<Rightarrow> int \<Rightarrow> Collector \<Rightarrow> 'w \<Rightarrow> (int \<times> gc_error option \<times> Collector \<times> 'w) option" where
  "collectAllNamespaces u e deadline gc w =
     collect_pages e deadline None (processChunk u e (cutoff e gc w)) [] 0 gc w"

definition getNamespacesToScan :: "(string \<Rightarrow> string) \<Rightarrow> string list" where
  "getNamespacesToScan getenv = (if getenv ''WATCH_NAMESPACE'' \<noteq> [] then [getenv ''WATCH_NAMESPACE''] else [[]])"

fun run_namespaces ::
    "uapi \<Rightarrow> 'w gc_env \<Rightarrow> int \<Rightarrow> string list \<Rightarrow> int \<Rightarrow> Collector \<Rightarrow> 'w \<Rightarrow> (int \<times> Collector \<times> 'w) option" where
  "run_namespaces u e deadline [] totalDeleted gc w = Some (totalDeleted, gc, w)"
| "run_namespaces u e deadline (ns # rest) totalDeleted gc w =
     (case (if ns = [] then collectAllNamespaces u e deadline gc w else collectNamespace u e deadline ns gc w) of
        None \<Rightarrow> None
      | Some (deleted, err, gc', w') \<Rightarrow>
          (if err = None then run_namespaces u e deadline rest (totalDeleted + deleted) gc' w'
           else run_namespaces u e deadline rest totalDeleted
             (if ctx_Err e deadline w' = Some DeadlineExceeded then count_error ''timeout'' ''gc_timeout'' gc' else gc') w'))"

definition gc_timeout :: "(string \<Rightarrow> string) \<Rightarrow> int" where
  "gc_timeout getenv =
     (if getenv ''GC_TIMEOUT'' \<noteq> [] then positive_or DefaultGCTimeout (parse_duration (getenv ''GC_TIMEOUT'')) else DefaultGCTimeout)"

definition runGC :: "(string \<Rightarrow> string) \<Rightarrow> uapi \<Rightarrow> 'w gc_env \<Rightarrow> Collector \<Rightarrow> 'w \<Rightarrow> (int \<times> Collector \<times> 'w) option" where
  "runGC getenv u e gc w =
     run_namespaces u e (mono_now e w + gc_timeout getenv) (getNamespacesToScan getenv) 0 (gc\<lparr>gcRunsTotal := map_option Suc (gcRunsTotal gc)\<rparr>) w"

text \<open>The loop of \<^verbatim>\<open>Start\<close>: a run at once, then one for each tick, until the context is done. The argument lists what the
  select statement finds, a tick with the world at that time.\<close>

datatype 'w gc_wakeup = Tick 'w | Done

fun gc_loop :: "(Collector \<Rightarrow> 'w \<Rightarrow> (int \<times> Collector \<times> 'w) option) \<Rightarrow> 'w gc_wakeup list \<Rightarrow> Collector \<Rightarrow> Collector option" where
  "gc_loop run [] gc = Some gc"
| "gc_loop run (Done # _) gc = Some gc"
| "gc_loop run (Tick w # rest) gc = (case run gc w of None \<Rightarrow> None | Some (_, gc', _) \<Rightarrow> gc_loop run rest gc')"

definition gc_Start :: "(string \<Rightarrow> string) \<Rightarrow> uapi \<Rightarrow> 'w gc_env \<Rightarrow> Collector \<Rightarrow> 'w \<Rightarrow> 'w gc_wakeup list \<Rightarrow> Collector option" where
  "gc_Start getenv u e gc w wakeups = gc_loop (runGC getenv u e) (Tick w # wakeups) gc"

section \<open>A run ends\<close>

text \<open>What the surroundings provide: the clock never runs backwards over a call, and a list call takes time.\<close>

definition clock_advances :: "'w gc_env \<Rightarrow> bool" where
  "clock_advances e \<longleftrightarrow> (\<forall>ns tok w. mono_now e w < mono_now e (snd (List_obs e ns tok w))) \<and>
     (\<forall>ns name w. mono_now e w \<le> mono_now e (snd (Delete_obs e ns name w)))"

definition keeps_clock :: "'w gc_env \<Rightarrow> (int \<times> Collector \<times> 'w \<Rightarrow> int \<times> Collector \<times> 'w) \<Rightarrow> bool" where
  "keeps_clock e f \<longleftrightarrow> (\<forall>n gc w. mono_now e w \<le> mono_now e (snd (snd (f (n, gc, w)))))"

lemma delete_item_clock: "clock_advances e \<Longrightarrow> keeps_clock e (delete_item e ns name source reason)"
  unfolding clock_advances_def keeps_clock_def delete_item_def
  by (auto simp: Let_def split: prod.splits option.splits) (metis snd_conv)+

lemma process_observation_clock: "clock_advances e \<Longrightarrow> keeps_clock e (process_observation u e ns ct obs)"
  using delete_item_clock by (fastforce simp: keeps_clock_def process_observation_def Let_def split: prod.splits)

lemma chunk_item_clock: "clock_advances e \<Longrightarrow> keeps_clock e (chunk_item u e ct obs)"
  using delete_item_clock by (fastforce simp: keeps_clock_def chunk_item_def Let_def split: prod.splits)

lemma fold_clock:
  assumes "\<And>x. keeps_clock e (f x)"
  shows "mono_now e (snd (snd s)) \<le> mono_now e (snd (snd (fold f xs s)))"
proof (induction xs arbitrary: s)
  case (Cons x xs)
  obtain n gc w where "s = (n, gc, w)" by (metis prod_cases3)
  then have "mono_now e (snd (snd s)) \<le> mono_now e (snd (snd (f x s)))" using assms [of x] by (simp add: keeps_clock_def)
  also have "\<dots> \<le> mono_now e (snd (snd (fold f xs (f x s))))" by (rule Cons.IH)
  finally show ?case by simp
qed simp

lemma ctx_Err_deadline: "ctx_Err e deadline w = None \<Longrightarrow> mono_now e w < deadline"
  by (auto simp: ctx_Err_def split: option.splits if_splits)

lemma collect_pages_returns:
  assumes "clock_advances e" "\<And>items gc w. mono_now e w \<le> mono_now e (snd (snd (process items gc w)))"
  shows "\<exists>r. collect_pages e deadline ns process tok n gc w = Some r"
proof (induction "nat (deadline - mono_now e w)" arbitrary: tok n gc w rule: less_induct)
  case less
  show ?case
  proof (cases "ctx_Err e deadline w")
    case None
    obtain res w1 where l: "List_obs e ns tok w = (res, w1)" by fastforce
    show ?thesis
    proof (cases res)
      case (Inr page)
      obtain k gc2 w2 where p: "process (fst page) (record_call (ListCall ns tok) gc) w1 = (k, gc2, w2)" by (metis prod_cases3)
      have "mono_now e w < mono_now e w1" using assms(1) l unfolding clock_advances_def by (metis snd_conv)
      also have "mono_now e w1 \<le> mono_now e w2" using assms(2) [of w1 "fst page" "record_call (ListCall ns tok) gc"] p by simp
      finally have "nat (deadline - mono_now e w2) < nat (deadline - mono_now e w)" using ctx_Err_deadline [OF None] by simp
      from less [OF this, of "snd page" "n + k" gc2] show ?thesis
        by (subst collect_pages.simps) (simp add: None l Inr p)
    qed (subst collect_pages.simps, simp add: None l)
  qed (subst collect_pages.simps, simp)
qed

lemma chunk_clocks:
  assumes "clock_advances e"
  shows "mono_now e w \<le> mono_now e (snd (snd (processObservationChunk u e ns ct items gc w)))"
    "mono_now e w \<le> mono_now e (snd (snd (processChunk u e ct items gc w)))"
  using fold_clock [where s = "(0, gc, w)", OF process_observation_clock [OF assms]]
    fold_clock [where s = "(0, gc, w)", OF chunk_item_clock [OF assms]]
  by (simp_all add: processObservationChunk_def processChunk_def)

lemma run_namespaces_returns: "clock_advances e \<Longrightarrow> \<exists>r. run_namespaces u e deadline nss n gc w = Some r"
proof (induction nss arbitrary: n gc w)
  case (Cons ns nss)
  have "\<exists>r. (if ns = [] then collectAllNamespaces u e deadline gc w else collectNamespace u e deadline ns gc w) = Some r"
    using collect_pages_returns [OF Cons.prems chunk_clocks(1) [OF Cons.prems]] collect_pages_returns [OF Cons.prems chunk_clocks(2) [OF Cons.prems]]
    by (simp add: collectAllNamespaces_def collectNamespace_def)
  then obtain d err gc' w' where "(if ns = [] then collectAllNamespaces u e deadline gc w else collectNamespace u e deadline ns gc w) = Some (d, err, gc', w')"
    by (metis prod_cases4)
  then show ?case using Cons.IH [OF Cons.prems] by simp
qed simp

text \<open>C18. Every run of the collector ends, whatever the server answers: even when it sends a continue token for ever, the deadline of
  the run stops the loop over the pages, as long as a list call takes some time.\<close>

theorem gc_run_ends:
  assumes "clock_advances e"
  shows "\<exists>deleted gc' w'. runGC getenv u e gc w = Some (deleted, gc', w')"
  using run_namespaces_returns [OF assms, of u "mono_now e w + gc_timeout getenv"] unfolding runGC_def by (metis prod_cases3)

text \<open>A server that sends the same page and token for ever; its world is the time, and a call takes a minute.\<close>

definition endless_env :: "int gc_env" where
  "endless_env =
     \<lparr>List_obs = (\<lambda>ns tok w. (Inr ([], ''more''), w + 60 * 10 ^ 9)), Delete_obs = (\<lambda>ns name w. (None, w)),
      GetCreationTimestamp = (\<lambda>obs. \<lparr>t_sec = 0, t_nsec = 0\<rparr>), IsExpired = (\<lambda>obs n w. Inr False),
      mono_now = (\<lambda>w. w), wall_now = (\<lambda>w. \<lparr>t_sec = 0, t_nsec = w\<rparr>), cancelled_at = (\<lambda>w. None)\<rparr>"

theorem gc_run_ends_witness:
  "\<exists>deleted gc' w'. runGC (\<lambda>_. []) walk_api endless_env (NewCollector (\<lambda>_. []) None None None) 0 = Some (deleted, gc', w')"
  by (rule gc_run_ends) (simp add: clock_advances_def endless_env_def)

section \<open>Only expired observations are deleted\<close>

text \<open>The rule: an own time to live decides alone; without one, the default counted from the creation.\<close>

definition expired :: "uapi \<Rightarrow> 'w gc_env \<Rightarrow> gotime \<Rightarrow> 'w \<Rightarrow> obj \<Rightarrow> bool" where
  "expired u e ct w obs \<longleftrightarrow>
     (\<exists>ttl > 0. NestedInt64 u obs [''spec'', ''ttlSecondsAfterCreation''] = Some ttl \<and> IsExpired e obs ttl w = Inr True) \<or>
     (\<forall>ttl > 0. NestedInt64 u obs [''spec'', ''ttlSecondsAfterCreation''] \<noteq> Some ttl) \<and> Before (GetCreationTimestamp e obs) ct"

lemma shouldDelete_iff: "fst (shouldDeleteObservation u e obs ct w) \<longleftrightarrow> expired u e ct w obs"
  by (auto simp: shouldDeleteObservation_def expired_def split: option.splits if_splits)

definition served :: "'w gc_env \<Rightarrow> string option \<Rightarrow> obj \<Rightarrow> bool" where
  "served e ns obs \<longleftrightarrow> (\<exists>tok w items more. fst (List_obs e ns tok w) = Inr (items, more) \<and> obs \<in> set items)"

text \<open>The namespace a deletion goes to: the one that was listed, or the object's own.\<close>

definition home :: "uapi \<Rightarrow> string option \<Rightarrow> obj \<Rightarrow> string" where
  "home u ns obs = (case ns of Some n \<Rightarrow> n | None \<Rightarrow> if GetNamespace u obs = [] then ''default'' else GetNamespace u obs)"

definition justified :: "uapi \<Rightarrow> 'w gc_env \<Rightarrow> string option \<Rightarrow> gotime \<Rightarrow> gc_call \<Rightarrow> bool" where
  "justified u e ns ct c =
     (case c of ListCall _ _ \<Rightarrow> True
      | DeleteCall n name \<Rightarrow> \<exists>obs w. served e ns obs \<and> expired u e ct w obs \<and> n = home u ns obs \<and> name = GetName u obs)"

definition extends_by :: "(gc_call \<Rightarrow> bool) \<Rightarrow> Collector \<Rightarrow> Collector \<Rightarrow> bool" where
  "extends_by P gc gc' \<longleftrightarrow> ttlDays gc' = ttlDays gc \<and> (\<exists>log. gc_calls gc' = gc_calls gc @ log \<and> list_all P log)"

lemma extends_refl [simp]: "extends_by P gc gc"
  by (simp add: extends_by_def)

lemma extends_trans: "extends_by P a b \<Longrightarrow> extends_by P b c \<Longrightarrow> extends_by P a c"
  unfolding extends_by_def by (metis append.assoc list_all_append)

lemma calls_simps [simp]:
  "gc_calls (record_call c gc) = gc_calls gc @ [c]" "gc_calls (count_error a b gc) = gc_calls gc"
  "gc_calls (count_deleted a b gc) = gc_calls gc" "gc_calls (handleDeleteError err gc) = gc_calls gc"
  "ttlDays (record_call c gc) = ttlDays gc" "ttlDays (count_error a b gc) = ttlDays gc"
  "ttlDays (count_deleted a b gc) = ttlDays gc" "ttlDays (handleDeleteError err gc) = ttlDays gc"
  by (simp_all add: record_call_def count_error_def count_deleted_def handleDeleteError_def Let_def)

lemma extends_record: "P c \<Longrightarrow> extends_by P gc (record_call c gc)"
  by (simp add: extends_by_def)

lemma delete_item_extends:
  "P (DeleteCall ns name) \<Longrightarrow> extends_by P gc (fst (snd (delete_item e ns name source reason (n, gc, w))))"
  by (auto simp: delete_item_def extends_by_def Let_def split: prod.splits option.splits)

lemma fold_extends:
  assumes "\<And>x n gc w. x \<in> set xs \<Longrightarrow> extends_by P gc (fst (snd (f x (n, gc, w))))"
  shows "extends_by P (fst (snd s)) (fst (snd (fold f xs s)))"
  using assms
proof (induction xs arbitrary: s)
  case (Cons x xs)
  obtain n gc w where s: "s = (n, gc, w)" by (metis prod_cases3)
  have "extends_by P (fst (snd s)) (fst (snd (f x s)))" using Cons.prems [of x gc n w] by (simp add: s)
  from extends_trans [OF this Cons.IH] Cons.prems show ?case by simp
qed simp

definition chunk_for :: "uapi \<Rightarrow> 'w gc_env \<Rightarrow> string option \<Rightarrow> gotime \<Rightarrow> obj list \<Rightarrow> Collector \<Rightarrow> 'w \<Rightarrow> int \<times> Collector \<times> 'w" where
  "chunk_for u e ns ct = (case ns of Some n \<Rightarrow> processObservationChunk u e n ct | None \<Rightarrow> processChunk u e ct)"

lemma item_extends:
  assumes "served e ns obs"
  shows "ns = Some m \<Longrightarrow> extends_by (justified u e ns ct) gc (fst (snd (process_observation u e m ct obs (n, gc, w))))"
    "ns = None \<Longrightarrow> extends_by (justified u e ns ct) gc (fst (snd (chunk_item u e ct obs (n, gc, w))))"
proof -
  obtain b r where b: "shouldDeleteObservation u e obs ct w = (b, r)" by fastforce
  have just: "b \<Longrightarrow> justified u e ns ct (DeleteCall (home u ns obs) (GetName u obs))"
    using assms shouldDelete_iff [of u e obs ct w] b by (auto simp: justified_def)
  show "ns = Some m \<Longrightarrow> extends_by (justified u e ns ct) gc (fst (snd (process_observation u e m ct obs (n, gc, w))))"
    using just by (auto simp: process_observation_def b home_def intro!: delete_item_extends)
  show "ns = None \<Longrightarrow> extends_by (justified u e ns ct) gc (fst (snd (chunk_item u e ct obs (n, gc, w))))"
    using just by (auto simp: chunk_item_def b home_def Let_def intro!: delete_item_extends)
qed

lemma chunk_extends:
  assumes "\<forall>obs \<in> set items. served e ns obs"
  shows "extends_by (justified u e ns ct) gc (fst (snd (chunk_for u e ns ct items gc w)))"
proof (cases ns)
  case None
  have "extends_by (justified u e ns ct) (fst (snd (0 :: int, gc, w))) (fst (snd (fold (chunk_item u e ct) items (0, gc, w))))"
    by (rule fold_extends, rule item_extends(2)) (use assms None in auto)
  then show ?thesis by (simp add: chunk_for_def None processChunk_def)
next
  case (Some m)
  have "extends_by (justified u e ns ct) (fst (snd (0 :: int, gc, w))) (fst (snd (fold (process_observation u e m ct) items (0, gc, w))))"
    by (rule fold_extends, rule item_extends(1)) (use assms Some in auto)
  then show ?thesis by (simp add: chunk_for_def Some processObservationChunk_def)
qed

text \<open>An invariant of the collector and the count is kept by the loop over the pages when it is kept by a page.\<close>

lemma collect_pages_invariant:
  assumes "collect_pages e deadline ns process tok n gc w = Some r" "Inv n gc"
    and page: "\<And>items more tok w w1 n gc k gc2 w2. List_obs e ns tok w = (Inr (items, more), w1) \<Longrightarrow> Inv n gc \<Longrightarrow>
      process items gc w1 = (k, gc2, w2) \<Longrightarrow> Inv (n + k) gc2"
    and list: "\<And>n gc tok. Inv n gc \<Longrightarrow> Inv n (record_call (ListCall ns tok) gc)"
    and fail: "\<And>n gc. Inv n gc \<Longrightarrow> Inv n (count_error ''list'' ''list_failed'' gc)"
  shows "Inv (fst r) (fst (snd (snd r)))"
proof -
  let ?P = "\<lambda>e' d' ns' process' tok n gc w r. e' = e \<and> ns' = ns \<and> process' = process \<longrightarrow> Inv n gc \<longrightarrow> Inv (fst r) (fst (snd (snd r)))"
  have "?P e deadline ns process tok n gc w r"
  proof (rule collect_pages.raw_induct [where P = ?P, OF _ assms(1)], intro impI)
    fix f e' d' ns' process' tok n gc w r
    assume IH: "\<And>e' d' ns' process' tok n gc w r. f e' d' ns' process' tok n gc w = Some r \<Longrightarrow> ?P e' d' ns' process' tok n gc w r"
      and body: "(case ctx_Err e' d' w of None \<Rightarrow> (case List_obs e' ns' tok w of (res, w1) \<Rightarrow>
          (case res of Inl err \<Rightarrow> Some (n, Some (ListErr err), count_error ''list'' ''list_failed'' (record_call (ListCall ns' tok) gc), w1)
           | Inr page \<Rightarrow> (case process' (fst page) (record_call (ListCall ns' tok) gc) w1 of (k, gc2, w2) \<Rightarrow>
               if snd page = [] then Some (n + k, None, gc2, w2) else f e' d' ns' process' (snd page) (n + k) gc2 w2)))
        | Some err \<Rightarrow> Some (n, Some (CtxErr err), gc, w)) = Some r"
      and eqs: "e' = e \<and> ns' = ns \<and> process' = process" and inv: "Inv n gc"
    from eqs have q: "e' = e" "ns' = ns" "process' = process" by auto
    note body = body [unfolded q]
    show "Inv (fst r) (fst (snd (snd r)))"
    proof (cases "ctx_Err e d' w")
      case None
      obtain res w1 where l: "List_obs e ns tok w = (res, w1)" by fastforce
      note listed = list [OF inv]
      show ?thesis
      proof (cases res)
        case (Inl err)
        then show ?thesis using body fail [OF listed] by (auto simp: None l)
      next
        case (Inr pg)
        obtain items more where pg: "pg = (items, more)" by fastforce
        obtain k gc2 w2 where p: "process items (record_call (ListCall ns tok) gc) w1 = (k, gc2, w2)" by (metis prod_cases3)
        have inv2: "Inv (n + k) gc2" by (rule page [OF _ listed p]) (use l Inr pg in simp)
        have "r = (n + k, None, gc2, w2) \<or> f e d' ns process more (n + k) gc2 w2 = Some r"
          using body by (auto simp: None l Inr pg p split: if_splits)
        then show ?thesis using inv2 IH [of e d' ns process more "n + k" gc2 w2 r] by auto
      qed
    qed (use body inv in auto)
  qed
  with assms(2) show ?thesis by simp
qed

text \<open>A run collects once: in the namespace that is watched, or in all.\<close>

definition scanned :: "(string \<Rightarrow> string) \<Rightarrow> string option" where
  "scanned getenv = (if getenv ''WATCH_NAMESPACE'' \<noteq> [] then Some (getenv ''WATCH_NAMESPACE'') else None)"

definition begin_run :: "Collector \<Rightarrow> Collector" where
  "begin_run gc = gc\<lparr>gcRunsTotal := map_option Suc (gcRunsTotal gc)\<rparr>"

lemma runGC_collects:
  "runGC getenv u e gc w =
     (case collect_pages e (mono_now e w + gc_timeout getenv) (scanned getenv) (chunk_for u e (scanned getenv) (cutoff e gc w)) [] 0 (begin_run gc) w of
        None \<Rightarrow> None
      | Some (d, err, gc', w') \<Rightarrow>
          Some (if err = None then (d, gc', w')
            else (0, if ctx_Err e (mono_now e w + gc_timeout getenv) w' = Some DeadlineExceeded then count_error ''timeout'' ''gc_timeout'' gc' else gc', w')))"
  (is "_ = (case ?X of None \<Rightarrow> _ | Some p \<Rightarrow> _ p)")
proof -
  define ns where "ns = getenv ''WATCH_NAMESPACE''"
  have one: "getNamespacesToScan getenv = [ns]" by (simp add: getNamespacesToScan_def ns_def)
  have coll: "(if ns = [] then collectAllNamespaces u e D (begin_run gc) w else collectNamespace u e D ns (begin_run gc) w) =
    collect_pages e D (scanned getenv) (chunk_for u e (scanned getenv) (cutoff e gc w)) [] 0 (begin_run gc) w" for D
    by (simp add: ns_def scanned_def collectAllNamespaces_def collectNamespace_def chunk_for_def cutoff_def begin_run_def)
  show ?thesis unfolding runGC_def one run_namespaces.simps begin_run_def [symmetric] coll by (cases ?X) auto
qed

text \<open>What a run asks of the server.\<close>

lemma run_justified:
  assumes "runGC getenv u e gc w = Some (deleted, gc', w')"
  shows "extends_by (justified u e (scanned getenv) (cutoff e gc w)) gc gc'"
proof -
  let ?ns = "scanned getenv" and ?D = "mono_now e w + gc_timeout getenv" and ?C = "cutoff e gc w"
  let ?J = "justified u e ?ns ?C"
  obtain r where r: "collect_pages e ?D ?ns (chunk_for u e ?ns (cutoff e gc w)) [] 0 (begin_run gc) w = Some r"
    and calls: "gc_calls gc' = gc_calls (fst (snd (snd r)))" "ttlDays gc' = ttlDays (fst (snd (snd r)))"
    using assms by (auto simp: runGC_collects split: option.splits if_splits)
  have "extends_by ?J (begin_run gc) (fst (snd (snd r)))"
  proof (rule collect_pages_invariant [where Inv = "\<lambda>_. extends_by ?J (begin_run gc)", OF r])
    fix items more tok v w1 n gc' k gc2 w2
    assume l: "List_obs e ?ns tok v = (Inr (items, more), w1)" and ext: "extends_by ?J (begin_run gc) gc'"
      and p: "chunk_for u e ?ns ?C items gc' w1 = (k, gc2, w2)"
    have "\<forall>obs \<in> set items. served e ?ns obs" using l unfolding served_def by (metis fst_conv)
    from chunk_extends [OF this, of u ?C gc' w1] p have "extends_by ?J gc' gc2" by simp
    with ext show "extends_by ?J (begin_run gc) gc2" by (rule extends_trans)
  qed (auto simp: extends_by_def justified_def)
  with calls show ?thesis by (simp add: extends_by_def begin_run_def)
qed

text \<open>C9. The collector deletes only what has expired: every deletion a run asks for is of an observation the server listed for the
  scanned namespace, in that observation's namespace, and its time to live had passed when it was looked at, by its own setting if it has
  a positive one and by the default counted from its creation otherwise.\<close>

theorem gc_deletes_expired:
  assumes "runGC getenv u e gc w = Some (deleted, gc', w')"
  shows "\<exists>log. gc_calls gc' = gc_calls gc @ log \<and>
    (\<forall>ns name. DeleteCall ns name \<in> set log \<longrightarrow>
      (\<exists>obs w1. served e (scanned getenv) obs \<and> expired u e (cutoff e gc w) w1 obs \<and>
        ns = home u (scanned getenv) obs \<and> name = GetName u obs))"
  using run_justified [OF assms] by (auto simp: extends_by_def list_all_iff) (fastforce simp: justified_def)

definition old_obs :: obj where
  "old_obs = [(''metadata'', VMap [(''name'', VStr ''obs1''), (''namespace'', VStr ''ns'')]), (''spec'', VMap [(''source'', VStr ''trivy'')])]"

definition kept_obs :: obj where
  "kept_obs = [(''metadata'', VMap [(''name'', VStr ''obs2''), (''namespace'', VStr ''ns'')]),
     (''spec'', VMap [(''ttlSecondsAfterCreation'', VInt64 31536000)])]"

text \<open>A server with two pages, whose world is the list of the names it was asked to delete; the observations are from year 1, today is
  a month later.\<close>

definition small_env :: "string list gc_env" where
  "small_env =
     \<lparr>List_obs = (\<lambda>ns tok w. (Inr (if tok = [] then ([old_obs, kept_obs], ''2'') else ([kept_obs], [])), w)),
      Delete_obs = (\<lambda>ns name w. (None, w @ [name])),
      GetCreationTimestamp = (\<lambda>obs. \<lparr>t_sec = 0, t_nsec = 0\<rparr>), IsExpired = (\<lambda>obs n w. Inr (n < 2592000)),
      mono_now = (\<lambda>w. 0), wall_now = (\<lambda>w. \<lparr>t_sec = 2592000, t_nsec = 0\<rparr>), cancelled_at = (\<lambda>w. None)\<rparr>"

definition gc0 :: Collector where
  "gc0 = NewCollector (\<lambda>_. []) (Some []) (Some 0) (Some [])"

declare collect_pages.simps [code]

lemma small_run:
  "runGC (\<lambda>_. []) walk_api small_env gc0 [] =
     Some (1, gc0\<lparr>observationsDeleted := Some [(''trivy'', ''ttl_default'')], gcRunsTotal := Some 1,
       gc_calls := [ListCall None [], DeleteCall ''ns'' ''obs1'', ListCall None ''2'']\<rparr>, [''obs1''])"
  by code_simp

theorem gc_deletes_expired_witness:
  "\<exists>obs w1. served small_env None obs \<and> expired walk_api small_env (cutoff small_env gc0 []) w1 obs \<and> GetName walk_api obs = ''obs1''"
  using gc_deletes_expired [OF small_run] by (auto simp: gc0_def NewCollector_def scanned_def)

section \<open>The counts\<close>

definition deletions :: "Collector \<Rightarrow> int" where
  "deletions gc = int (length (filter (\<lambda>c. case c of DeleteCall _ _ \<Rightarrow> True | _ \<Rightarrow> False) (gc_calls gc)))"

definition failures :: "Collector \<Rightarrow> int" where
  "failures gc = int (length (filter (\<lambda>(op, _). op = ''delete'') (the (gcErrors gc))))"

definition successes :: "Collector \<Rightarrow> int" where
  "successes gc = int (length (the (observationsDeleted gc)))"

text \<open>Against a state before: both vectors are there, the count is that of the successes, and every deletion is a success or a failure.\<close>

definition balanced :: "Collector \<Rightarrow> int \<Rightarrow> Collector \<Rightarrow> bool" where
  "balanced g n gc \<longleftrightarrow> observationsDeleted gc \<noteq> None \<and> gcErrors gc \<noteq> None \<and> n = successes gc - successes g \<and>
     deletions gc - deletions g = (successes gc - successes g) + (failures gc - failures g)"

lemmas balance_defs = balanced_def deletions_def failures_def successes_def record_call_def count_error_def count_deleted_def
  handleDeleteError_def

lemma balanced_delete_item:
  "balanced g n gc \<Longrightarrow> delete_item e ns name source reason (n, gc, w) = (n', gc', w') \<Longrightarrow> balanced g n' gc'"
  by (auto simp: delete_item_def balance_defs Let_def split: prod.splits option.splits if_splits)

lemma balanced_fold:
  assumes "\<And>x n gc w n' gc' w'. balanced g n gc \<Longrightarrow> f x (n, gc, w) = (n', gc', w') \<Longrightarrow> balanced g n' gc'"
  shows "balanced g n gc \<Longrightarrow> fold f xs (n, gc, w) = (n', gc', w') \<Longrightarrow> balanced g n' gc'"
proof (induction xs arbitrary: n gc w)
  case (Cons x xs)
  obtain n1 gc1 w1 where f: "f x (n, gc, w) = (n1, gc1, w1)" by (metis prod_cases3)
  from Cons.IH [OF assms [OF Cons.prems(1) f]] Cons.prems(2) f show ?case by simp
qed simp

lemma balanced_chunk:
  assumes "balanced g 0 gc" "chunk_for u e ns ct items gc w = (k, gc2, w2)"
  shows "balanced g k gc2"
proof -
  have obs: "balanced g n' gc'" if "balanced g n gc" "process_observation u e m ct obs (n, gc, w) = (n', gc', w')" for m obs n gc w n' gc' w'
    using that balanced_delete_item by (auto simp: process_observation_def Let_def split: prod.splits if_splits)
  have item: "balanced g n' gc'" if "balanced g n gc" "chunk_item u e ct obs (n, gc, w) = (n', gc', w')" for obs n gc w n' gc' w'
    using that balanced_delete_item by (auto simp: chunk_item_def Let_def split: prod.splits if_splits)
  show ?thesis
    using assms balanced_fold [OF obs] balanced_fold [OF item]
    by (auto simp: chunk_for_def processObservationChunk_def processChunk_def split: option.splits)
qed

lemma balanced_trans: "balanced g n a \<Longrightarrow> balanced a k b \<Longrightarrow> balanced g (n + k) b"
  by (auto simp: balanced_def)

text \<open>The books of a run balance: when both vectors are kept, every deletion a run asks for is counted once, as deleted or as a
  failed deletion; the number a run reports is that of the deletions that were counted, or nothing when the listing
  failed or the run was cut off, however many it had deleted until then.\<close>

theorem gc_counts:
  assumes "runGC getenv u e gc w = Some (deleted, gc', w')" "observationsDeleted gc \<noteq> None" "gcErrors gc \<noteq> None"
  shows "deletions gc' - deletions gc = (successes gc' - successes gc) + (failures gc' - failures gc) \<and>
    (deleted = successes gc' - successes gc \<or> deleted = 0)"
proof -
  let ?ns = "scanned getenv" and ?D = "mono_now e w + gc_timeout getenv" and ?C = "cutoff e gc w"
  obtain d err g w2 where r: "collect_pages e ?D ?ns (chunk_for u e ?ns ?C) [] 0 (begin_run gc) w = Some (d, err, g, w2)"
    and res: "deleted = d \<and> gc' = g \<or> deleted = 0 \<and> (gc' = g \<or> gc' = count_error ''timeout'' ''gc_timeout'' g)"
    using assms(1) by (auto simp: runGC_collects split: option.splits if_splits)
  have "balanced (begin_run gc) (fst (d, err, g, w2)) (fst (snd (snd (d, err, g, w2))))"
  proof (rule collect_pages_invariant [where Inv = "balanced (begin_run gc)", OF r])
    show "balanced (begin_run gc) 0 (begin_run gc)" using assms(2,3) by (simp add: balanced_def begin_run_def)
  next
    fix items gc' w1 n k gc2 w2
    assume b: "balanced (begin_run gc) n gc'" and p: "chunk_for u e ?ns ?C items gc' w1 = (k, gc2, w2)"
    have "balanced gc' 0 gc'" using b by (simp add: balanced_def)
    from balanced_trans [OF b balanced_chunk [OF this p]] show "balanced (begin_run gc) (n + k) gc2" .
  qed (auto simp: balance_defs)
  with res show ?thesis by (auto simp: balance_defs begin_run_def)
qed

theorem gc_counts_witness:
  "deletions gc0 = 0 \<and> successes gc0 = 0 \<and>
   (let gc' = gc0\<lparr>observationsDeleted := Some [(''trivy'', ''ttl_default'')], gcRunsTotal := Some 1,
       gc_calls := [ListCall None [], DeleteCall ''ns'' ''obs1'', ListCall None ''2'']\<rparr>
    in deletions gc' - deletions gc0 = (successes gc' - successes gc0) + (failures gc' - failures gc0))"
proof -
  have "observationsDeleted gc0 \<noteq> None" "gcErrors gc0 \<noteq> None" by (simp_all add: gc0_def NewCollector_def)
  from gc_counts [OF small_run this] show ?thesis
    by (simp add: Let_def deletions_def successes_def gc0_def NewCollector_def)
qed

section \<open>The two ways to process a page\<close>

lemma source_text: "extractSourceFromObservation u obs =
    (case NestedFieldCopy u obs [''spec'', ''source''] of None \<Rightarrow> ''unknown'' | Some v \<Rightarrow> if v = VNil then ''unknown'' else fmt_v v)"
  unfolding extractSourceFromObservation_def by (auto split: option.splits)

text \<open>The two loops over a page agree: on observations of one namespace, the loop of the cluster-wide collection does what the loop
  of the collection of that namespace does, counters, calls and errors included. So collecting in one namespace and
  collecting everywhere treat an observation alike.\<close>

theorem chunks_agree:
  assumes "\<forall>obs \<in> set items. GetNamespace u obs = ns" "ns \<noteq> []"
  shows "processChunk u e ct items gc w = processObservationChunk u e ns ct items gc w"
proof -
  have "chunk_item u e ct obs = process_observation u e ns ct obs" if "obs \<in> set items" for obs
    using assms that by (auto simp: chunk_item_def process_observation_def source_text Let_def fun_eq_iff split: prod.splits)
  then show ?thesis unfolding processChunk_def processObservationChunk_def by (metis fold_cong)
qed

theorem chunks_agree_witness:
  "processChunk walk_api small_env (cutoff small_env gc0 []) [old_obs, kept_obs] gc0 [] = processObservationChunk walk_api small_env ''ns'' (cutoff small_env gc0 []) [old_obs, kept_obs] gc0 []"
  by (rule chunks_agree) (simp_all add: old_obs_def kept_obs_def walk_api_def)

section \<open>Everything that has expired is deleted\<close>

text \<open>The pages behind a token.\<close>

inductive pages_of :: "(string \<Rightarrow> obj list \<times> string) \<Rightarrow> string \<Rightarrow> obj list list \<Rightarrow> bool" for pages where
  last: "pages tok = (items, []) \<Longrightarrow> pages_of pages tok [items]"
| more: "pages tok = (items, t) \<Longrightarrow> t \<noteq> [] \<Longrightarrow> pages_of pages t rest \<Longrightarrow> pages_of pages tok (items # rest)"

definition is_delete :: "gc_call \<Rightarrow> bool" where
  "is_delete c = (case c of DeleteCall _ _ \<Rightarrow> True | ListCall _ _ \<Rightarrow> False)"

abbreviation deletes :: "Collector \<Rightarrow> gc_call list" where
  "deletes gc \<equiv> filter is_delete (gc_calls gc)"

definition deletes_of :: "uapi \<Rightarrow> string option \<Rightarrow> (obj \<Rightarrow> bool) \<Rightarrow> obj list \<Rightarrow> gc_call list" where
  "deletes_of u ns v items = map (\<lambda>obs. DeleteCall (home u ns obs) (GetName u obs)) (filter v items)"

text \<open>A world within the run, with time left for \<open>k\<close> more calls that take up to \<open>d\<close> each.\<close>

definition in_time :: "'w gc_env \<Rightarrow> int \<Rightarrow> int \<Rightarrow> int \<Rightarrow> nat \<Rightarrow> 'w \<Rightarrow> bool" where
  "in_time e start deadline d k w \<longleftrightarrow> start \<le> mono_now e w \<and> mono_now e w + int k * d < deadline"

text \<open>What a run relies on while it lasts, that is in worlds between its start and its deadline: it is not cancelled, a continue token is answered with the page
  it was given out for (the server keeps the snapshot of a continued list), deletions succeed, no observation of the pages expires
  meanwhile, and a call takes between no time and \<open>d\<close>.\<close>

definition calm :: "uapi \<Rightarrow> 'w gc_env \<Rightarrow> int \<Rightarrow> int \<Rightarrow> int \<Rightarrow> string option \<Rightarrow> (string \<Rightarrow> obj list \<times> string) \<Rightarrow> gotime \<Rightarrow> (obj \<Rightarrow> bool) \<Rightarrow> bool" where
  "calm u e start deadline d ns pages ct v \<longleftrightarrow> 0 \<le> d \<and>
     (\<forall>w. start \<le> mono_now e w \<and> mono_now e w < deadline \<longrightarrow>
        cancelled_at e w = None \<and> (\<forall>tok. tok \<noteq> [] \<longrightarrow> fst (List_obs e ns tok w) = Inr (pages tok)) \<and> (\<forall>n name. fst (Delete_obs e n name w) = None) \<and>
        (\<forall>tok. \<forall>obs \<in> set (fst (pages tok)). expired u e ct w obs \<longleftrightarrow> v obs) \<and>
        (\<forall>tok. mono_now e (snd (List_obs e ns tok w)) - mono_now e w \<in> {0..d}) \<and> (\<forall>n name. mono_now e (snd (Delete_obs e n name w)) - mono_now e w \<in> {0..d}))"

lemma in_time_span: "in_time e start deadline d k w \<Longrightarrow> 0 \<le> d \<Longrightarrow> start \<le> mono_now e w \<and> mono_now e w < deadline"
  unfolding in_time_def by (meson add_increasing2 le_less_trans mult_nonneg_nonneg of_nat_0_le_iff order_refl)

lemma in_time_next:
  "in_time e start deadline d (Suc k) w \<Longrightarrow> mono_now e w' - mono_now e w \<in> {0..d} \<Longrightarrow> in_time e start deadline d k w'"
  by (auto simp: in_time_def algebra_simps)

lemma in_time_fewer: "in_time e start deadline d k w \<Longrightarrow> 0 \<le> d \<Longrightarrow> j \<le> k \<Longrightarrow> in_time e start deadline d j w"
  unfolding in_time_def by (meson add_left_mono le_less_trans mult_right_mono of_nat_mono)

lemma delete_item_succeeds:
  assumes "calm u e start deadline d ns pages ct v" "in_time e start deadline d (Suc k) w"
  shows "\<exists>gc' w'. delete_item e m name source reason (n, gc, w) = (n + 1, gc', w') \<and> deletes gc' = deletes gc @ [DeleteCall m name] \<and>
    in_time e start deadline d k w'"
proof -
  obtain r w' where gone: "Delete_obs e m name w = (r, w')" by fastforce
  have "start \<le> mono_now e w \<and> mono_now e w < deadline" using in_time_span [OF assms(2)] assms(1) by (simp add: calm_def)
  with assms(1) have "fst (Delete_obs e m name w) = None" "mono_now e (snd (Delete_obs e m name w)) - mono_now e w \<in> {0..d}" unfolding calm_def by blast+
  with gone in_time_next [OF assms(2), of w'] show ?thesis by (auto simp: delete_item_def Let_def is_delete_def)
qed

text \<open>A loop over items that deletes those with \<open>v\<close>, one call each.\<close>

lemma fold_deletes:
  assumes "\<And>obs k n gc w. obs \<in> S \<Longrightarrow> v obs \<Longrightarrow> T (Suc k) w \<Longrightarrow> \<exists>gc' w'. f obs (n, gc, w) = (n + 1, gc', w') \<and> deletes gc' = deletes gc @ [c obs] \<and> T k w'"
    "\<And>obs k n gc w. obs \<in> S \<Longrightarrow> \<not> v obs \<Longrightarrow> T k w \<Longrightarrow> f obs (n, gc, w) = (n, gc, w)"
  shows "set items \<subseteq> S \<Longrightarrow> T (length (filter v items) + k) w \<Longrightarrow> \<exists>gc' w'. fold f items (n, gc, w) = (n + int (length (filter v items)), gc', w') \<and>
    deletes gc' = deletes gc @ map c (filter v items) \<and> T k w'"
proof (induction items arbitrary: n gc w)
  case (Cons obs items)
  then have obs: "obs \<in> S" by simp
  show ?case
  proof (cases "v obs")
    case True
    then have "T (Suc (length (filter v items) + k)) w" using Cons.prems by simp
    from assms(1) [OF obs True this, of n gc] obtain gc' w'
      where f: "f obs (n, gc, w) = (n + 1, gc', w')" "deletes gc' = deletes gc @ [c obs]" "T (length (filter v items) + k) w'" by blast
    from Cons.IH [OF _ f(3), of "n + 1" gc'] Cons.prems f True show ?thesis by (auto simp: algebra_simps)
  qed (use Cons assms(2) [OF obs] in simp)
qed simp

lemma calm_chunk:
  assumes "calm u e start deadline d ns pages ct v" "in_time e start deadline d (length (filter v items) + k) w" "fst (pages tok) = items"
  shows "\<exists>gc' w'. chunk_for u e ns ct items gc w = (int (length (filter v items)), gc', w') \<and> deletes gc' = deletes gc @ deletes_of u ns v items \<and>
    in_time e start deadline d k w'"
proof -
  let ?c = "\<lambda>obs. DeleteCall (home u ns obs) (GetName u obs)" and ?T = "in_time e start deadline d"
  have ex: "fst (shouldDeleteObservation u e obs ct w) = v obs" if "obs \<in> set items" "?T k w" for k w obs
    using in_time_span [OF that(2)] assms(1,3) that(1) unfolding calm_def shouldDelete_iff by blast
  show ?thesis
  proof (cases ns)
    case None
    have "\<exists>gc' w'. chunk_item u e ct obs (n, gc, w) = (n + 1, gc', w') \<and> deletes gc' = deletes gc @ [?c obs] \<and> ?T k w'"
      if "obs \<in> set items" "v obs" "?T (Suc k) w" for obs n gc w k
      using delete_item_succeeds [OF assms(1) that(3)] ex [OF that(1,3)] that(2) by (auto simp: chunk_item_def Let_def None home_def split: prod.splits)
    moreover have "chunk_item u e ct obs (n, gc, w) = (n, gc, w)" if "obs \<in> set items" "\<not> v obs" "?T k w" for obs k n gc w
      using ex [OF that(1,3)] that(2) by (auto simp: chunk_item_def split: prod.splits)
    ultimately show ?thesis using fold_deletes [of "set items" v ?T "chunk_item u e ct" ?c items k w 0 gc] assms(2)
      by (simp add: chunk_for_def None processChunk_def deletes_of_def)
  next
    case (Some m)
    have "\<exists>gc' w'. process_observation u e m ct obs (n, gc, w) = (n + 1, gc', w') \<and> deletes gc' = deletes gc @ [?c obs] \<and> ?T k w'"
      if "obs \<in> set items" "v obs" "?T (Suc k) w" for obs n gc w k
      using delete_item_succeeds [OF assms(1) that(3)] ex [OF that(1,3)] that(2) by (auto simp: process_observation_def Let_def Some home_def split: prod.splits)
    moreover have "process_observation u e m ct obs (n, gc, w) = (n, gc, w)" if "obs \<in> set items" "\<not> v obs" "?T k w" for obs k n gc w
      using ex [OF that(1,3)] that(2) by (auto simp: process_observation_def split: prod.splits)
    ultimately show ?thesis using fold_deletes [of "set items" v ?T "process_observation u e m ct" ?c items k w 0 gc] assms(2)
      by (simp add: chunk_for_def Some processObservationChunk_def deletes_of_def)
  qed
qed

lemma is_delete_ListCall [simp]: "\<not> is_delete (ListCall ns tok)"
  by (simp add: is_delete_def)

text \<open>The number of calls for the pages.\<close>

definition calls_of :: "(obj \<Rightarrow> bool) \<Rightarrow> obj list list \<Rightarrow> nat" where
  "calls_of v pss = length pss + length (filter v (concat pss))"

text \<open>A page: it is listed and processed.\<close>

lemma calm_page:
  assumes "calm u e start deadline d ns pages ct v" "in_time e start deadline d (Suc (length (filter v items) + k)) w" "fst (List_obs e ns tok w) = Inr (items, t)" "pages tok = (items, t)"
  shows "ctx_Err e deadline w = None \<and> (\<exists>w1 gc' w'. List_obs e ns tok w = (Inr (items, t), w1) \<and>
    chunk_for u e ns ct items (record_call (ListCall ns tok) gc) w1 = (int (length (filter v items)), gc', w') \<and>
    deletes gc' = deletes gc @ deletes_of u ns v items \<and> in_time e start deadline d k w')"
proof -
  have span: "start \<le> mono_now e w \<and> mono_now e w < deadline" using in_time_span [OF assms(2)] assms(1) by (simp add: calm_def)
  obtain w1 where l: "List_obs e ns tok w = (Inr (items, t), w1)" using assms(3) by (metis prod.collapse)
  from span assms(1) have "cancelled_at e w = None" "mono_now e (snd (List_obs e ns tok w)) - mono_now e w \<in> {0..d}" unfolding calm_def by blast+
  with l in_time_next [OF assms(2), of w1] have "in_time e start deadline d (length (filter v items) + k) w1" by simp
  from calm_chunk [OF assms(1) this, of tok "record_call (ListCall ns tok) gc"] assms(4) l span \<open>cancelled_at e w = None\<close> show ?thesis by (auto simp: ctx_Err_def)
qed

lemma calm_collect:
  assumes "pages_of pages tok pss" "calm u e start deadline d ns pages ct v"
  shows "in_time e start deadline d (calls_of v pss) w \<Longrightarrow> fst (List_obs e ns tok w) = Inr (pages tok) \<Longrightarrow>
    \<exists>gc' w'. collect_pages e deadline ns (chunk_for u e ns ct) tok n gc w = Some (n + int (length (filter v (concat pss))), None, gc', w') \<and>
    deletes gc' = deletes gc @ deletes_of u ns v (concat pss)"
  using assms(1)
proof (induction arbitrary: n gc w)
  case (last tok items)
  then have "in_time e start deadline d (Suc (length (filter v items) + 0)) w" "fst (List_obs e ns tok w) = Inr (items, [])" by (simp_all add: calls_of_def)
  from calm_page [OF assms(2) this last(1), of gc] show ?case by (subst collect_pages.simps) auto
next
  case (more tok items t rest)
  have "in_time e start deadline d (Suc (length (filter v items) + calls_of v rest)) w" "fst (List_obs e ns tok w) = Inr (items, t)"
    using more by (simp_all add: calls_of_def add.commute add.left_commute)
  from calm_page [OF assms(2) this more(1), of gc] obtain w1 gc' w' where
    p: "ctx_Err e deadline w = None" "List_obs e ns tok w = (Inr (items, t), w1)"
      "chunk_for u e ns ct items (record_call (ListCall ns tok) gc) w1 = (int (length (filter v items)), gc', w')"
      "deletes gc' = deletes gc @ deletes_of u ns v items" "in_time e start deadline d (calls_of v rest) w'" by blast
  have "0 \<le> d" using assms(2) by (simp add: calm_def)
  from in_time_span [OF p(5) this] assms(2) more(2) have "fst (List_obs e ns t w') = Inr (pages t)" unfolding calm_def by blast
  from more.IH [OF p(5) this, of "n + int (length (filter v items))" gc'] p more(2)
  show ?case by (subst collect_pages.simps) (auto simp: deletes_of_def algebra_simps)
qed

text \<open>C10. A run that has the time deletes everything that has expired: the list is answered, continue tokens are answered from its pages, there are
  finitely many, deletions succeed, nothing expires during the run, it is not cancelled, and each call takes at most \<open>d\<close>, where one list call
  for each page and one deletion for each expired observation fit into the timeout. Then the run returns, asks for the deletion of exactly
  the expired observations of all pages, each once and in the order they are listed, and reports their number.\<close>

theorem gc_complete:
  assumes "calm u e (mono_now e w) (mono_now e w + gc_timeout getenv) d (scanned getenv) pages (cutoff e gc w) v" "pages_of pages [] pss"
    "fst (List_obs e (scanned getenv) [] w) = Inr (pages [])" "int (calls_of v pss) * d < gc_timeout getenv"
  shows "\<exists>gc' w'. runGC getenv u e gc w = Some (int (length (filter v (concat pss))), gc', w') \<and>
    deletes gc' = deletes gc @ deletes_of u (scanned getenv) v (concat pss)"
proof -
  have "in_time e (mono_now e w) (mono_now e w + gc_timeout getenv) d (calls_of v pss) w" using assms(4) by (simp add: in_time_def)
  from calm_collect [OF assms(2,1) this assms(3), of 0 "begin_run gc"] show ?thesis by (auto simp: runGC_collects begin_run_def)
qed

text \<open>A server whose every call takes a second and that forgets what is deleted; only a snapshot keeps it.\<close>

definition live_env :: "(int \<times> string list) gc_env" where
  "live_env =
     \<lparr>List_obs = (\<lambda>ns tok (t, gone). (Inr (if tok = [] then (filter (\<lambda>obs. GetName walk_api obs \<notin> set gone) [old_obs, kept_obs], ''2'') else ([kept_obs], [])), (t + 10 ^ 9, gone))),
      Delete_obs = (\<lambda>ns name (t, gone). (None, (t + 10 ^ 9, name # gone))),
      GetCreationTimestamp = (\<lambda>obs. \<lparr>t_sec = 0, t_nsec = 0\<rparr>), IsExpired = (\<lambda>obs n (t, gone). Inr (n < 2592000 + t div 10 ^ 9)),
      mono_now = fst, wall_now = (\<lambda>(t, gone). \<lparr>t_sec = 2592000 + t div 10 ^ 9, t_nsec = 0\<rparr>), cancelled_at = (\<lambda>w. None)\<rparr>"

lemma live_expired:
  assumes "0 \<le> t" "t < 300 * 10 ^ 9"
  shows "expired walk_api live_env (cutoff live_env gc0 (0, [])) (t, gone) old_obs" "\<not> expired walk_api live_env (cutoff live_env gc0 (0, [])) (t, gone) kept_obs"
proof -
  have t: "0 \<le> t div 1000000000" "t div 1000000000 < 300" using assms by simp_all
  have "to_int64 (VInt64 31536000) = Some 31536000" by code_simp
  with t show "expired walk_api live_env (cutoff live_env gc0 (0, [])) (t, gone) old_obs" "\<not> expired walk_api live_env (cutoff live_env gc0 (0, [])) (t, gone) kept_obs"
    by (simp_all add: expired_def live_env_def cutoff_def gc0_def NewCollector_def DefaultTTLDays_def AddDate_days_def Before_def wrap64_def old_obs_def kept_obs_def walk_api_def)
qed

theorem gc_complete_witness:
  "\<exists>gc' w'. runGC (\<lambda>_. []) walk_api live_env gc0 (0, []) = Some (1, gc', w') \<and> deletes gc' = [DeleteCall ''ns'' ''obs1'']"
proof -
  let ?pages = "\<lambda>tok. if tok = [] then ([old_obs, kept_obs], ''2'') else ([kept_obs], [])"
  let ?v = "\<lambda>obs. obs = old_obs"
  have ne: "kept_obs \<noteq> old_obs" by (simp add: old_obs_def kept_obs_def)
  have "calm walk_api live_env 0 (300 * 10 ^ 9) (10 ^ 9) None ?pages (cutoff live_env gc0 (0, [])) ?v"
    unfolding calm_def using live_expired ne by (auto simp: live_env_def split: prod.splits)
  moreover have "mono_now live_env (0, []) = 0" "gc_timeout (\<lambda>_. []) = 300 * 10 ^ 9" "scanned (\<lambda>_. []) = None"
    by (simp_all add: live_env_def gc_timeout_def DefaultGCTimeout_def scanned_def)
  moreover have "pages_of ?pages [] [[old_obs, kept_obs], [kept_obs]]"
    by (rule pages_of.more [where t = "''2''"]) (auto intro: pages_of.last)
  moreover have "fst (List_obs live_env None [] (0, [])) = Inr (?pages [])" by (simp add: live_env_def)
  ultimately show ?thesis
    using gc_complete [of walk_api live_env "(0, [])" "\<lambda>_. []" "10 ^ 9" ?pages gc0 ?v "[[old_obs, kept_obs], [kept_obs]]"] ne
    by (simp add: deletes_of_def home_def gc0_def NewCollector_def calls_of_def) (simp add: old_obs_def walk_api_def)
qed

section \<open>The default time to live\<close>

text \<open>C39. How the configured default, a number of days, acts on an observation without a positive time to live of its own: as long as it reaches back no further than the
  64 bit seconds do, the observation goes exactly when its creation plus the days is past; when it reaches further, up to the range of 64
  bits, the seconds of the cutoff wrap around into the future and the observation goes however young it is.\<close>

theorem default_ttl_bounds:
  assumes "0 \<le> t_sec (wall_now e w)" "t_sec (wall_now e w) < 2 ^ 63" "t_sec (GetCreationTimestamp e obs) \<le> t_sec (wall_now e w)"
    "\<forall>ttl. NestedInt64 u obs [''spec'', ''ttlSecondsAfterCreation''] = Some ttl \<longrightarrow> ttl \<le> 0" "0 < ttlDays gc" "86400 * ttlDays gc < 2 ^ 64"
  shows "fst (shouldDeleteObservation u e obs (cutoff e gc w) w) \<longleftrightarrow>
      86400 * ttlDays gc > t_sec (wall_now e w) + 2 ^ 63 \<or>
      Before ((GetCreationTimestamp e obs)\<lparr>t_sec := t_sec (GetCreationTimestamp e obs) + 86400 * ttlDays gc\<rparr>) (wall_now e w)"
proof -
  define s where "s = t_sec (wall_now e w)"
  define D where "D = 86400 * ttlDays gc"
  have "fst (shouldDeleteObservation u e obs (cutoff e gc w) w) \<longleftrightarrow> Before (GetCreationTimestamp e obs) (cutoff e gc w)"
    unfolding shouldDelete_iff expired_def using assms(4) by (metis not_less)
  also have "\<dots> \<longleftrightarrow> D > s + 2 ^ 63 \<or> Before ((GetCreationTimestamp e obs)\<lparr>t_sec := t_sec (GetCreationTimestamp e obs) + D\<rparr>) (wall_now e w)"
  proof (cases "D > s + 2 ^ 63")
    case True
    then have "wrap64 (s - D) = s - D + 2 ^ 64"
    proof -
      have "(s - D + 2 ^ 63) mod 2 ^ 64 = (s - D + 2 ^ 63 + 2 ^ 64) mod 2 ^ 64" by (rule mod_add_self2 [symmetric])
      also have "\<dots> = s - D + 2 ^ 63 + 2 ^ 64" using True assms by (intro mod_pos_pos_trivial) (auto simp: s_def D_def)
      finally show ?thesis by (simp add: wrap64_def)
    qed
    with True assms show ?thesis by (auto simp: cutoff_def AddDate_days_def Before_def s_def [symmetric] D_def)
  next
    case False
    then have "wrap64 (s - D) = s - D" using assms by (intro wrap64_id) (auto simp: in_int64_def s_def D_def)
    with False show ?thesis by (auto simp: cutoff_def AddDate_days_def Before_def s_def D_def)
  qed
  finally show ?thesis by (simp add: s_def D_def)
qed

theorem default_ttl_bounds_witness:
  "fst (shouldDeleteObservation walk_api small_env old_obs
     (cutoff small_env (NewCollector (\<lambda>_. ''200000000000000'') None None None) []) [])"
proof -
  have "NestedInt64 walk_api old_obs [''spec'', ''ttlSecondsAfterCreation''] = None" by (simp add: walk_api_def old_obs_def)
  moreover have "parse_int ''200000000000000'' = Some 200000000000000" by code_simp
  then have "ttlDays (NewCollector (\<lambda>_. ''200000000000000'') None None None) = 200000000000000" by (simp add: NewCollector_def positive_or_def)
  ultimately show ?thesis
    using default_ttl_bounds [of small_env "[]" old_obs walk_api "NewCollector (\<lambda>_. ''200000000000000'') None None None"] by (simp add: small_env_def)
qed

end
