(* ===== verification/Config_Manager.thy ===== *)
theory Config_Manager
  imports Filter_Merge K8s_Unstructured
begin

text \<open>
  The two watchers of ConfigMaps in \<^verbatim>\<open>pkg/config\<close>: \<^verbatim>\<open>config_manager.go\<close>, which merges a base configuration with that of an environment
  and with defaults, and \<^verbatim>\<open>configmap_loader.go\<close>, which reloads the filter.

  The YAML decoder (\<^verbatim>\<open>gopkg.in/yaml.v3\<close>) and the JSON decoder into a filter configuration are the parameters
  \<open>yaml\<close> and \<open>unmarshal\<close>, as in \<open>Filter_Merge\<close>; the answers of the API server are arguments. The read-write lock of the manager
  matters here, so it is a field: a call that asks for it while a writer holds it blocks, and a handler
  that blocks never returns. A handler gives the state it leaves and whether it returned.

  Results: leaf by leaf, the environment wins over the base and the base over the defaults; the filter always has the last
  configuration that could be read; and the manager deadlocks on the first ConfigMap it accepts.
\<close>

section \<open>Merging\<close>

text \<open>The result starts as the base; the override is written over it, and two maps under one key are merged.\<close>

fun deepMerge :: "obj \<Rightarrow> obj \<Rightarrow> obj" where
  "deepMerge result [] = result"
| "deepMerge result ((k, VMap overrideMap) # rest) =
     (case map_of result k of
        Some (VMap baseMap) \<Rightarrow> deepMerge (put k (VMap (deepMerge baseMap overrideMap)) result) rest
      | _ \<Rightarrow> deepMerge (put k (VMap overrideMap) result) rest)"
| "deepMerge result ((k, v) # rest) = deepMerge (put k v result) rest"

definition config_defaults :: obj where
  "config_defaults =
     [(''worker_pool'', VMap [(''enabled'', VBool False), (''size'', VInt 5), (''queue_size'', VInt 1000)]),
      (''event_batching'', VMap [(''enabled'', VBool False), (''batch_size'', VInt 50), (''batch_age'', VStr ''10s''), (''flush_interval'', VStr ''30s'')]),
      (''namespace_filtering'', VMap [(''enabled'', VBool True), (''included_namespaces'', VList []),
         (''excluded_namespaces'', VList [VStr ''kube-system'', VStr ''kube-public'', VStr ''kube-node-lease''])])]"

definition applyDefaults :: "obj \<Rightarrow> obj" where
  "applyDefaults conf = deepMerge config_defaults conf"

section \<open>The configuration manager\<close>

text \<open>\<open>onConfigChange\<close> holds the registered callbacks, \<open>notified\<close> the calls made to them.\<close>

record 'c ConfigManager =
  cm_locked :: bool
  baseConfig :: obj
  envConfig :: obj
  finalConfig :: obj
  onConfigChange :: "'c list"
  baseConfigName :: string
  envConfigName :: string
  cm_metrics :: bool
  ConfigMapLoadTotal :: "(string \<times> string) list"
  ConfigMapValidationErrors :: "(string \<times> string) list"
  notified :: "('c \<times> obj) list"

record ConfigMap =
  cm_name :: string
  cm_data :: "(string, string) gomap"

definition NewConfigManagerWithMetrics :: "(string \<Rightarrow> string) \<Rightarrow> bool \<Rightarrow> 'c ConfigManager" where
  "NewConfigManagerWithMetrics getenv m =
     \<lparr>cm_locked = False, baseConfig = [], envConfig = [], finalConfig = [], onConfigChange = [],
      baseConfigName = env_or getenv ''BASE_CONFIG_NAME'' ''zen-watcher-base-config'', envConfigName = env_or getenv ''ENV_CONFIG_NAME'' [],
      cm_metrics = m, ConfigMapLoadTotal = [], ConfigMapValidationErrors = [], notified = []\<rparr>"

definition count_load :: "string \<Rightarrow> string \<Rightarrow> 'c ConfigManager \<Rightarrow> 'c ConfigManager" where
  "count_load name outcome cm = (if cm_metrics cm then cm\<lparr>ConfigMapLoadTotal := ConfigMapLoadTotal cm @ [(name, outcome)]\<rparr> else cm)"

definition count_invalid :: "string \<Rightarrow> string \<Rightarrow> 'c ConfigManager \<Rightarrow> 'c ConfigManager" where
  "count_invalid name reason cm = (if cm_metrics cm then cm\<lparr>ConfigMapValidationErrors := ConfigMapValidationErrors cm @ [(name, reason)]\<rparr> else cm)"

definition mergeConfigurations :: "'c ConfigManager \<Rightarrow> 'c ConfigManager" where
  "mergeConfigurations cm = cm\<lparr>finalConfig := deepMerge (baseConfig cm) (envConfig cm)\<rparr>"

text \<open>The reading functions; \<open>None\<close> is a call that blocks.\<close>

definition cm_GetConfig :: "'c ConfigManager \<Rightarrow> obj option" where
  "cm_GetConfig cm = (if cm_locked cm then None else Some (finalConfig cm))"

definition GetConfigWithDefaults :: "'c ConfigManager \<Rightarrow> obj option" where
  "GetConfigWithDefaults cm = map_option applyDefaults (cm_GetConfig cm)"

definition OnConfigChange :: "'c \<Rightarrow> 'c ConfigManager \<Rightarrow> 'c ConfigManager \<times> bool" where
  "OnConfigChange callback cm = (if cm_locked cm then (cm, False) else (cm\<lparr>onConfigChange := onConfigChange cm @ [callback]\<rparr>, True))"

definition notifyConfigChange :: "'c ConfigManager \<Rightarrow> 'c ConfigManager \<times> bool" where
  "notifyConfigChange cm =
     (case GetConfigWithDefaults cm of
        None \<Rightarrow> (cm, False)
      | Some conf \<Rightarrow> (cm\<lparr>notified := notified cm @ map (\<lambda>callback. (callback, conf)) (onConfigChange cm)\<rparr>, True))"

text \<open>The end of both handlers: the lock is taken, the configuration is changed, merged and announced, and the deferred call releases the lock.\<close>

definition under_lock :: "('c ConfigManager \<Rightarrow> 'c ConfigManager) \<Rightarrow> 'c ConfigManager \<Rightarrow> 'c ConfigManager \<times> bool" where
  "under_lock change cm =
     (if cm_locked cm then (cm, False)
      else
        (case notifyConfigChange (mergeConfigurations (change (cm\<lparr>cm_locked := True\<rparr>))) of
           (cm', True) \<Rightarrow> (cm'\<lparr>cm_locked := False\<rparr>, True)
         | (cm', False) \<Rightarrow> (cm', False)))"

definition store_config :: "string \<Rightarrow> obj \<Rightarrow> 'c ConfigManager \<Rightarrow> 'c ConfigManager" where
  "store_config name parsedConfig cm =
     (if name = baseConfigName cm then cm\<lparr>baseConfig := parsedConfig\<rparr>
      else if name = envConfigName cm then cm\<lparr>envConfig := parsedConfig\<rparr> else cm)"

definition processConfigMap :: "(string \<Rightarrow> obj option) \<Rightarrow> ConfigMap \<Rightarrow> 'c ConfigManager \<Rightarrow> 'c ConfigManager \<times> bool" where
  "processConfigMap yaml m cm =
     (if cm_name m \<noteq> baseConfigName cm \<and> cm_name m \<noteq> envConfigName cm then (cm, True)
      else
        (case map_of (cm_data m) ''features.yaml'' of
           None \<Rightarrow> (count_invalid (cm_name m) ''missing_features_yaml'' cm, True)
         | Some configData \<Rightarrow>
             (case yaml configData of
                None \<Rightarrow> (count_invalid (cm_name m) ''parse_error'' cm, True)
              | Some parsedConfig \<Rightarrow> under_lock (store_config (cm_name m) parsedConfig) cm)))"

datatype cm_object = CMObject ConfigMap | CMTombstone "ConfigMap option" | CMOther

definition handleConfigMapAdd :: "(string \<Rightarrow> obj option) \<Rightarrow> cm_object \<Rightarrow> 'c ConfigManager \<Rightarrow> 'c ConfigManager \<times> bool" where
  "handleConfigMapAdd yaml ob cm = (case ob of CMObject m \<Rightarrow> processConfigMap yaml m cm | _ \<Rightarrow> (cm, True))"

definition handleConfigMapUpdate :: "(string \<Rightarrow> obj option) \<Rightarrow> cm_object \<Rightarrow> 'c ConfigManager \<Rightarrow> 'c ConfigManager \<times> bool" where
  "handleConfigMapUpdate yaml newObj cm = (case newObj of CMObject m \<Rightarrow> processConfigMap yaml m cm | _ \<Rightarrow> (cm, True))"

definition handleConfigMapDelete :: "cm_object \<Rightarrow> 'c ConfigManager \<Rightarrow> 'c ConfigManager \<times> bool" where
  "handleConfigMapDelete ob cm =
     (case (case ob of CMObject m \<Rightarrow> Some m | CMTombstone m \<Rightarrow> m | CMOther \<Rightarrow> None) of
        None \<Rightarrow> (cm, True)
      | Some m \<Rightarrow> under_lock (store_config (cm_name m) []) cm)"

text \<open>An answer of the API server: not found, another error, or the ConfigMap.\<close>

datatype cm_answer = NotFound | Failed string | Got ConfigMap

text \<open>Loading one ConfigMap: \<open>None\<close> continues, \<open>Some r\<close> returns.\<close>

definition load_one ::
    "(string \<Rightarrow> obj option) \<Rightarrow> string \<Rightarrow> string \<Rightarrow> cm_answer \<Rightarrow> 'c ConfigManager \<Rightarrow> ('c ConfigManager \<times> bool) \<times> string option option" where
  "load_one yaml name errText answer cm =
     (case answer of
        NotFound \<Rightarrow> ((count_load name ''not_found'' cm, True), Some None)
      | Failed e \<Rightarrow> ((count_invalid name ''load_error'' (count_load name ''error'' cm), True), Some (Some (errText @ e)))
      | Got m \<Rightarrow> (processConfigMap yaml m (count_load name ''success'' cm), None))"

definition loadInitialConfig ::
    "(string \<Rightarrow> obj option) \<Rightarrow> cm_answer \<Rightarrow> cm_answer \<Rightarrow> 'c ConfigManager \<Rightarrow> ('c ConfigManager \<times> bool) \<times> string option" where
  "loadInitialConfig yaml base env cm =
     (case load_one yaml (baseConfigName cm) ''failed to load base config: '' base cm of
        (r, Some e) \<Rightarrow> (r, e)
      | ((cm1, returned), None) \<Rightarrow>
          (if \<not> returned then ((cm1, False), None)
           else if envConfigName cm1 \<noteq> []
           then (case load_one yaml (envConfigName cm1) ''failed to load env config: '' env cm1 of
                   (r, Some e) \<Rightarrow> (r, e) | (r, None) \<Rightarrow> (r, None))
           else ((cm1, True), None)))"

section \<open>Leaf by leaf\<close>

text \<open>Maps with distinct keys all the way down, as Go's are.\<close>

primrec deep_wf :: "val \<Rightarrow> bool" where
  "deep_wf VNil = True"
| "deep_wf (VBool b) = True"
| "deep_wf (VStr s) = True"
| "deep_wf (VInt n) = True"
| "deep_wf (VInt32 n) = True"
| "deep_wf (VInt64 n) = True"
| "deep_wf (VFloat x) = True"
| "deep_wf (VFloat32 x t) = True"
| "deep_wf (VBytes bs) = True"
| "deep_wf (VList vs) = True"
| "deep_wf (VMap m) = (wf_map m \<and> list_all snd (map (map_prod id deep_wf) m))"
| "deep_wf (VOther t) = True"

abbreviation deep_wf_map :: "obj \<Rightarrow> bool" where
  "deep_wf_map m \<equiv> deep_wf (VMap m)"

lemma deep_wf_sub: "deep_wf_map m \<Longrightarrow> map_of m k = Some v \<Longrightarrow> deep_wf v"
  by (auto simp: list_all_iff dest!: map_of_SomeD)

text \<open>A map that says nothing about a path: following it, a key is missing.\<close>

fun silent :: "obj \<Rightarrow> string list \<Rightarrow> bool" where
  "silent m [] = False"
| "silent m (k # ks) = (case map_of m k of None \<Rightarrow> True | Some v \<Rightarrow> (case as_map v of Some m' \<Rightarrow> silent m' ks | None \<Rightarrow> False))"

text \<open>The value a key gets: two maps are merged, otherwise the new value is taken.\<close>

definition merged :: "val option \<Rightarrow> val \<Rightarrow> val" where
  "merged old v = (case (as_map v, Option.bind old as_map) of (Some m, Some b) \<Rightarrow> VMap (deepMerge b m) | _ \<Rightarrow> v)"

lemma deepMerge_Cons: "deepMerge result ((k, v) # rest) = deepMerge (put k (merged (map_of result k) v) result) rest"
proof (cases "as_map v")
  case None
  then show ?thesis by (cases v) (simp_all add: merged_def)
next
  case (Some m)
  then have v: "v = VMap m" by (simp)
  show ?thesis
  proof (cases "Option.bind (map_of result k) as_map")
    case None
    then show ?thesis by (auto simp: v merged_def bind_eq_None_conv split: option.splits val.splits)
  next
    case (Some b)
    then have "map_of result k = Some (VMap b)" by (auto simp: bind_eq_Some_conv)
    then show ?thesis by (simp add: v merged_def)
  qed
qed

lemma deepMerge_lookup:
  "wf_map over \<Longrightarrow> map_of (deepMerge base over) k = (case map_of over k of None \<Rightarrow> map_of base k | Some v \<Rightarrow> Some (merged (map_of base k) v))"
proof (induction over arbitrary: base)
  case (Cons kv rest)
  obtain k' v where kv: "kv = (k', v)" by fastforce
  have "map_of rest k' = None" "wf_map rest" using Cons.prems by (simp_all add: kv wf_map_def map_of_eq_None_keys)
  then show ?case using Cons.IH by (simp add: kv deepMerge_Cons del: deepMerge.simps split: option.splits)
qed simp

lemma merge_leaf:
  "deep_wf_map over \<Longrightarrow> as_map v = None \<Longrightarrow>
   walk (VMap (deepMerge base over)) ks = Some v \<longleftrightarrow> walk (VMap over) ks = Some v \<or> silent over ks \<and> walk (VMap base) ks = Some v"
proof (induction ks arbitrary: base over)
  case (Cons k ks)
  show ?case
  proof (cases "map_of over k")
    case None
    then show ?thesis using Cons.prems by (simp add: deepMerge_lookup)
  next
    case (Some w)
    show ?thesis
    proof (cases "as_map w")
      case None
      then show ?thesis using Cons.prems Some by (simp add: deepMerge_lookup merged_def)
    next
      case (Some m)
      then have w: "w = VMap m" by (simp)
      then have sub: "deep_wf_map m" using deep_wf_sub [OF Cons.prems(1) \<open>map_of over k = Some w\<close>] by simp
      have look: "map_of (deepMerge base over) k = Some (merged (map_of base k) (VMap m))"
        using Cons.prems \<open>map_of over k = Some w\<close> w by (simp add: deepMerge_lookup)
      show ?thesis
      proof (cases "Option.bind (map_of base k) as_map")
        case None
        have "walk (VMap base) (k # ks) = Some v \<Longrightarrow> ks = [] " using None by (cases ks) (auto split: option.splits)
        then show ?thesis using None look Cons.prems(2) \<open>map_of over k = Some w\<close> w
          by (cases ks) (auto simp: merged_def)
      next
        case (Some b)
        then have "map_of base k = Some (VMap b)" by (auto simp: bind_eq_Some_conv)
        then show ?thesis using Cons.IH [OF sub Cons.prems(2), of b] look \<open>map_of over k = Some w\<close> w by (simp add: merged_def)
      qed
    qed
  qed
qed auto

lemma put_all: "list_all snd (map (map_prod id f) m) \<Longrightarrow> f v \<Longrightarrow> list_all snd (map (map_prod id f) (put k v m))"
  by (induction m) auto

lemma put_wf: "deep_wf_map m \<Longrightarrow> deep_wf v \<Longrightarrow> deep_wf_map (put k v m)"
  by (simp add: put_all)

lemma deep_wf_Cons: "deep_wf_map ((k, v) # m) \<Longrightarrow> deep_wf v \<and> deep_wf_map m"
  by (auto simp: wf_map_def)

lemma deepMerge_wf: "deep_wf_map base \<Longrightarrow> deep_wf_map over \<Longrightarrow> deep_wf_map (deepMerge base over)"
proof (induction base over rule: deepMerge.induct)
  case (2 result k om rest)
  have over: "deep_wf_map om" "deep_wf_map rest" using deep_wf_Cons [OF "2.prems"(2)] by blast+
  show ?case
  proof (cases "map_of result k")
    case None
    then show ?thesis using "2.IH"(1) [OF None] put_wf [OF "2.prems"(1), of "VMap om" k] over by (simp del: deep_wf.simps)
  next
    case (Some w)
    note sub = deep_wf_sub [OF "2.prems"(1) Some]
    show ?thesis
    proof (cases w)
      case (VMap b)
      have "deep_wf_map (deepMerge b om)" using "2.IH"(12) [OF Some VMap] sub over VMap by (simp del: deep_wf.simps)
      then show ?thesis using "2.IH"(13) [OF Some VMap] put_wf [OF "2.prems"(1)] over Some VMap by (simp del: deep_wf.simps)
    qed (use "2.IH" Some put_wf [OF "2.prems"(1), of "VMap om" k] over in \<open>simp_all del: deep_wf.simps\<close>)
  qed
qed (auto dest!: deep_wf_Cons intro: put_wf simp del: deep_wf.simps(11))

text \<open>C23. Which setting is in force: at every path that ends in a value that is not a map, the configuration that is announced has the
  value of the environment, where that says nothing the value of the base, and where their merge says nothing the default; and
  no other.\<close>

theorem config_precedence:
  assumes "deep_wf_map base" "deep_wf_map env" "as_map v = None"
  shows "walk (VMap (applyDefaults (deepMerge base env))) ks = Some v \<longleftrightarrow>
    walk (VMap env) ks = Some v \<or> silent env ks \<and> walk (VMap base) ks = Some v \<or>
    silent (deepMerge base env) ks \<and> walk (VMap config_defaults) ks = Some v"
  unfolding applyDefaults_def merge_leaf [OF deepMerge_wf [OF assms(1,2)] assms(3)] merge_leaf [OF assms(2,3)] by blast

theorem config_precedence_witness:
  "walk (VMap (applyDefaults (deepMerge [(''worker_pool'', VMap [(''size'', VInt 8)])] [(''worker_pool'', VMap [(''size'', VInt 9)])])))
     [''worker_pool'', ''size''] = Some (VInt 9)"
  using config_precedence [of "[(''worker_pool'', VMap [(''size'', VInt 8)])]" "[(''worker_pool'', VMap [(''size'', VInt 9)])]" "VInt 9"
      "[''worker_pool'', ''size'']"]
  by (simp add: wf_map_def)

section \<open>The manager deadlocks\<close>

datatype 'c cm_event = EAdd cm_object | EUpdate cm_object | EDelete cm_object | ERegister 'c

definition cm_handle :: "(string \<Rightarrow> obj option) \<Rightarrow> 'c cm_event \<Rightarrow> 'c ConfigManager \<Rightarrow> 'c ConfigManager \<times> bool" where
  "cm_handle yaml ev cm =
     (case ev of EAdd ob \<Rightarrow> handleConfigMapAdd yaml ob cm | EUpdate ob \<Rightarrow> handleConfigMapUpdate yaml ob cm
      | EDelete ob \<Rightarrow> handleConfigMapDelete ob cm | ERegister c \<Rightarrow> OnConfigChange c cm)"

lemma count_simps [simp]:
  "notified (count_invalid a b cm) = notified cm" "cm_locked (count_invalid a b cm) = cm_locked cm"
  "notified (count_load a b cm) = notified cm" "cm_locked (count_load a b cm) = cm_locked cm"
  by (simp_all add: count_invalid_def count_load_def)

lemma store_config_simps [simp]:
  "notified (store_config n p cm) = notified cm" "cm_locked (store_config n p cm) = cm_locked cm"
  by (simp_all add: store_config_def)

lemma under_lock_blocks:
  assumes "under_lock (store_config n p) cm = (cm', r)"
  shows "\<not> r \<and> notified cm' = notified cm \<and> cm_locked cm'"
  using assms
  by (auto simp: under_lock_def mergeConfigurations_def notifyConfigChange_def GetConfigWithDefaults_def cm_GetConfig_def
      split: if_splits prod.splits bool.splits option.splits)

lemma process_blocks:
  "processConfigMap yaml m cm = (cm', r) \<Longrightarrow> notified cm' = notified cm \<and> (cm_locked cm \<longrightarrow> cm_locked cm')"
  by (auto simp: processConfigMap_def dest: under_lock_blocks split: if_splits option.splits)

lemma handle_blocks:
  assumes "cm_handle yaml ev cm = (cm', r)"
  shows "notified cm' = notified cm \<and> (cm_locked cm \<longrightarrow> cm_locked cm')"
  using assms
  by (auto dest: process_blocks under_lock_blocks simp: cm_handle_def handleConfigMapAdd_def handleConfigMapUpdate_def handleConfigMapDelete_def OnConfigChange_def
      split: cm_event.splits cm_object.splits option.splits if_splits)

lemma handles_block:
  "notified (fold (\<lambda>ev cm. fst (cm_handle yaml ev cm)) evs cm) = notified cm \<and>
   (cm_locked cm \<longrightarrow> cm_locked (fold (\<lambda>ev cm. fst (cm_handle yaml ev cm)) evs cm))"
proof (induction evs arbitrary: cm)
  case (Cons ev evs)
  obtain cm' r where "cm_handle yaml ev cm = (cm', r)" by fastforce
  with handle_blocks [OF this] Cons.IH [of cm'] show ?case by simp
qed simp

text \<open>The manager deadlocks: announcing a configuration asks for the lock the handler holds. So the first ConfigMap that is accepted,
  and the first deletion of any ConfigMap, leave their handler blocked with the lock taken; whatever comes
  afterwards, no callback is ever called and asking for the configuration blocks as well.\<close>

theorem config_manager_deadlocks:
  assumes "\<not> cm_locked cm"
    "ev = EDelete (CMObject m) \<or>
     (ev = EAdd (CMObject m) \<or> ev = EUpdate (CMObject m)) \<and> cm_name m \<in> {baseConfigName cm, envConfigName cm} \<and>
       map_of (cm_data m) ''features.yaml'' = Some text \<and> yaml text = Some parsed"
  shows "\<exists>cm'. cm_handle yaml ev cm = (cm', False) \<and>
    (\<forall>evs. let cm'' = fold (\<lambda>ev cm. fst (cm_handle yaml ev cm)) evs cm' in notified cm'' = notified cm \<and> GetConfigWithDefaults cm'' = None)"
proof -
  obtain n p where "cm_handle yaml ev cm = under_lock (store_config n p) cm"
    using assms(2) by (auto simp: cm_handle_def handleConfigMapAdd_def handleConfigMapUpdate_def handleConfigMapDelete_def processConfigMap_def)
  moreover obtain cm' r where u: "under_lock (store_config n p) cm = (cm', r)" by fastforce
  ultimately show ?thesis using under_lock_blocks [OF u] handles_block [of yaml _ cm']
    by (auto simp: Let_def GetConfigWithDefaults_def cm_GetConfig_def)
qed

definition base_map :: ConfigMap where
  "base_map = \<lparr>cm_name = ''zen-watcher-base-config'', cm_data = [(''features.yaml'', ''worker_pool: {}'')]\<rparr>"

theorem config_manager_deadlocks_witness:
  "\<exists>cm'. cm_handle (\<lambda>_. Some [(''worker_pool'', VMap [])]) (EAdd (CMObject base_map))
       (NewConfigManagerWithMetrics (\<lambda>_. []) False :: nat ConfigManager) = (cm', False) \<and> GetConfigWithDefaults cm' = None"
proof -
  let ?cm = "NewConfigManagerWithMetrics (\<lambda>_. []) False :: nat ConfigManager" and ?y = "\<lambda>_. Some [(''worker_pool'', VMap [])]"
  have "\<not> cm_locked ?cm" by (simp add: NewConfigManagerWithMetrics_def)
  from config_manager_deadlocks [OF this, of "EAdd (CMObject base_map)" base_map "''worker_pool: {}''" ?y "[(''worker_pool'', VMap [])]"]
  obtain cm' where "cm_handle ?y (EAdd (CMObject base_map)) ?cm = (cm', False)"
    and all: "\<forall>evs. let cm'' = fold (\<lambda>ev cm. fst (cm_handle ?y ev cm)) evs cm' in notified cm'' = notified ?cm \<and> GetConfigWithDefaults cm'' = None"
    by (auto simp: base_map_def NewConfigManagerWithMetrics_def env_or_def)
  moreover have "GetConfigWithDefaults cm' = None" using spec [OF all, of "[]"] by (simp add: Let_def)
  ultimately show ?thesis by blast
qed

section \<open>The loader of the filter (configmap_loader.go)\<close>

record 's ConfigMapLoader =
  cml_filter :: "'s Filter option"
  configMapName :: string
  configMapNamespace :: string
  configMapKey :: string
  lastGoodConfig :: "FilterConfig option"

definition NewConfigMapLoader :: "(string \<Rightarrow> string) \<Rightarrow> 's Filter option \<Rightarrow> 's ConfigMapLoader" where
  "NewConfigMapLoader getenv f =
     \<lparr>cml_filter = f, configMapName = env_or getenv ''FILTER_CONFIGMAP_NAME'' ''zen-watcher-filter'',
      configMapNamespace = env_or getenv ''FILTER_CONFIGMAP_NAMESPACE'' (env_or getenv ''WATCH_NAMESPACE'' ''zen-system''),
      configMapKey = env_or getenv ''FILTER_CONFIGMAP_KEY'' ''filter.json'', lastGoodConfig = None\<rparr>"

definition updateFilter :: "(FilterConfig option \<Rightarrow> 's) \<Rightarrow> FilterConfig \<Rightarrow> 's ConfigMapLoader \<Rightarrow> 's ConfigMapLoader" where
  "updateFilter sdk_new conf cml = cml\<lparr>cml_filter := UpdateConfig sdk_new (Some conf) (cml_filter cml)\<rparr>"

definition setLastGoodConfig :: "FilterConfig \<Rightarrow> 's ConfigMapLoader \<Rightarrow> 's ConfigMapLoader" where
  "setLastGoodConfig conf cml = cml\<lparr>lastGoodConfig := Some conf\<rparr>"

definition with_sources :: "FilterConfig \<Rightarrow> FilterConfig" where
  "with_sources conf = (if Sources conf = None then conf\<lparr>Sources := Some []\<rparr> else conf)"

definition handleConfigMapChange ::
    "(FilterConfig option \<Rightarrow> 's) \<Rightarrow> (string \<Rightarrow> FilterConfig option) \<Rightarrow> ConfigMap \<Rightarrow> 's ConfigMapLoader \<Rightarrow> 's ConfigMapLoader" where
  "handleConfigMapChange sdk_new unmarshal cm cml =
     (case map_of (cm_data cm) (configMapKey cml) of
        None \<Rightarrow> cml
      | Some filterJSON \<Rightarrow>
          (case unmarshal filterJSON of
             None \<Rightarrow> cml
           | Some conf \<Rightarrow> (let conf' = with_sources conf in updateFilter sdk_new conf' (setLastGoodConfig conf' cml))))"

text \<open>Reading the ConfigMap once; \<open>answer\<close> is what the API server returns for its name and namespace.\<close>

definition loadConfigWithContext ::
    "(string \<Rightarrow> FilterConfig option) \<Rightarrow> string + ConfigMap \<Rightarrow> 's ConfigMapLoader \<Rightarrow> string + FilterConfig" where
  "loadConfigWithContext unmarshal answer cml =
     (case answer of
        Inl e \<Rightarrow> Inl (''ConfigMap not found: '' @ e)
      | Inr cm \<Rightarrow>
          (case map_of (cm_data cm) (configMapKey cml) of
             None \<Rightarrow> Inl (''key '' @ [CHR 39] @ configMapKey cml @ [CHR 39] @ '' not found in ConfigMap'')
           | Some filterJSON \<Rightarrow>
               (case unmarshal filterJSON of
                  None \<Rightarrow> Inl ''failed to parse filter config''
                | Some conf \<Rightarrow> Inr (with_sources conf))))"

text \<open>\<^verbatim>\<open>Start\<close>: the initial load, then the handlers of the informer.\<close>

definition initial_load ::
    "(FilterConfig option \<Rightarrow> 's) \<Rightarrow> (string \<Rightarrow> FilterConfig option) \<Rightarrow> string + ConfigMap \<Rightarrow> 's ConfigMapLoader \<Rightarrow> 's ConfigMapLoader" where
  "initial_load sdk_new unmarshal answer cml =
     (case loadConfigWithContext unmarshal answer cml of
        Inl _ \<Rightarrow> cml
      | Inr conf \<Rightarrow> setLastGoodConfig conf (updateFilter sdk_new conf cml))"

datatype loader_event = FAdd cm_object | FUpdate cm_object | FDelete cm_object

definition loader_handle ::
    "(FilterConfig option \<Rightarrow> 's) \<Rightarrow> (string \<Rightarrow> FilterConfig option) \<Rightarrow> loader_event \<Rightarrow> 's ConfigMapLoader \<Rightarrow> 's ConfigMapLoader" where
  "loader_handle sdk_new unmarshal ev cml =
     (case ev of
        FAdd (CMObject cm) \<Rightarrow> if cm_name cm = configMapName cml then handleConfigMapChange sdk_new unmarshal cm cml else cml
      | FUpdate (CMObject cm) \<Rightarrow> if cm_name cm = configMapName cml then handleConfigMapChange sdk_new unmarshal cm cml else cml
      | _ \<Rightarrow> cml)"

definition loader_Start ::
    "(FilterConfig option \<Rightarrow> 's) \<Rightarrow> (string \<Rightarrow> FilterConfig option) \<Rightarrow> string + ConfigMap \<Rightarrow> loader_event list \<Rightarrow> 's ConfigMapLoader \<Rightarrow> 's ConfigMapLoader" where
  "loader_Start sdk_new unmarshal answer evs cml = fold (loader_handle sdk_new unmarshal) evs (initial_load sdk_new unmarshal answer cml)"

subsection \<open>The last good configuration\<close>

text \<open>The specification: the readable configurations among the answer and the events, in order.\<close>

definition readable :: "string \<Rightarrow> (string \<Rightarrow> FilterConfig option) \<Rightarrow> ConfigMap \<Rightarrow> FilterConfig option" where
  "readable key unmarshal cm = map_option with_sources (Option.bind (map_of (cm_data cm) key) unmarshal)"

definition offered :: "string \<Rightarrow> loader_event \<Rightarrow> ConfigMap option" where
  "offered name ev =
     (case ev of FAdd (CMObject cm) \<Rightarrow> if cm_name cm = name then Some cm else None
      | FUpdate (CMObject cm) \<Rightarrow> if cm_name cm = name then Some cm else None | _ \<Rightarrow> None)"

definition good_configs :: "string \<Rightarrow> string \<Rightarrow> (string \<Rightarrow> FilterConfig option) \<Rightarrow> string + ConfigMap \<Rightarrow> loader_event list \<Rightarrow> FilterConfig list" where
  "good_configs name key unmarshal answer evs =
     List.map_filter (readable key unmarshal) (case answer of Inl _ \<Rightarrow> [] | Inr cm \<Rightarrow> [cm]) @
     List.map_filter (\<lambda>ev. Option.bind (offered name ev) (readable key unmarshal)) evs"

definition install :: "(FilterConfig option \<Rightarrow> 's) \<Rightarrow> FilterConfig \<Rightarrow> 's ConfigMapLoader \<Rightarrow> 's ConfigMapLoader" where
  "install sdk_new conf cml = cml\<lparr>lastGoodConfig := Some conf, cml_filter := UpdateConfig sdk_new (Some conf) (cml_filter cml)\<rparr>"

lemma install_keeps [simp]: "configMapName (install n c cml) = configMapName cml" "configMapKey (install n c cml) = configMapKey cml"
  by (simp_all add: install_def)

lemma initial_load_install:
  "initial_load sdk_new unmarshal answer cml =
     fold (install sdk_new) (List.map_filter (readable (configMapKey cml) unmarshal) (case answer of Inl _ \<Rightarrow> [] | Inr cm \<Rightarrow> [cm])) cml"
  by (auto simp: initial_load_def loadConfigWithContext_def readable_def install_def setLastGoodConfig_def updateFilter_def List.map_filter_def
      split: sum.splits option.splits)

lemma loader_handle_install:
  "loader_handle sdk_new unmarshal ev cml =
     (case Option.bind (offered (configMapName cml) ev) (readable (configMapKey cml) unmarshal) of None \<Rightarrow> cml | Some c \<Rightarrow> install sdk_new c cml)"
  by (auto simp: loader_handle_def handleConfigMapChange_def offered_def readable_def install_def setLastGoodConfig_def updateFilter_def Let_def
      split: loader_event.splits cm_object.splits option.splits)

lemma loader_handles_install:
  "fold (loader_handle sdk_new unmarshal) evs cml =
     fold (install sdk_new) (List.map_filter (\<lambda>ev. Option.bind (offered (configMapName cml) ev) (readable (configMapKey cml) unmarshal)) evs) cml"
proof (induction evs arbitrary: cml)
  case (Cons ev evs)
  then show ?case by (simp add: loader_handle_install List.map_filter_simps split: option.splits)
qed (simp add: List.map_filter_simps)

lemma fold_install_names: "configMapName (fold (install n) cs cml) = configMapName cml \<and> configMapKey (fold (install n) cs cml) = configMapKey cml"
  by (induction cs arbitrary: cml) auto

lemma install_effect:
  "cml_filter s = Some g \<Longrightarrow> Sources c \<noteq> None \<Longrightarrow> lastGoodConfig (install n c s) = Some c \<and>
   (\<exists>g'. cml_filter (install n c s) = Some g' \<and> config g' = Some c \<and> sdkFilter g' = map_option (\<lambda>_. n (Some c)) (sdkFilter g))"
  by (auto simp: install_def UpdateConfig_def Let_def)

lemma readable_sources: "readable key unmarshal cm = Some c \<Longrightarrow> Sources c \<noteq> None"
  by (auto simp: readable_def with_sources_def)

lemma fold_install_last:
  "cs \<noteq> [] \<Longrightarrow> cml_filter cml = Some f \<Longrightarrow> \<forall>c \<in> set cs. Sources c \<noteq> None \<Longrightarrow>
   lastGoodConfig (fold (install n) cs cml) = Some (last cs) \<and>
   (\<exists>f'. cml_filter (fold (install n) cs cml) = Some f' \<and> config f' = Some (last cs) \<and>
     sdkFilter f' = map_option (\<lambda>_. n (Some (last cs))) (sdkFilter f))"
proof (induction cs rule: rev_induct)
  case (snoc c cs)
  show ?case
  proof (cases "cs = []")
    case True
    then show ?thesis using install_effect [OF snoc.prems(2)] snoc.prems(3) by simp
  next
    case False
    then obtain f' where "cml_filter (fold (install n) cs cml) = Some f'" "sdkFilter f' = map_option (\<lambda>_. n (Some (last cs))) (sdkFilter f)"
      using snoc by auto
    then show ?thesis using install_effect [of "fold (install n) cs cml" f' c n] snoc.prems(3) by (simp add: option.map_comp comp_def)
  qed
qed simp

text \<open>C22. The filter has the last configuration that could be read: after the start and any series of notifications, if any ConfigMap
  offered so far was readable, the loader remembers the last such one and the filter decides by it; otherwise nothing has changed.
  Deletions, other ConfigMaps, missing keys and text that does not parse never replace a good configuration.\<close>

theorem last_good_config:
  assumes "cml_filter cml = Some f" "cs = good_configs (configMapName cml) (configMapKey cml) unmarshal answer evs"
  shows "if cs = [] then loader_Start sdk_new unmarshal answer evs cml = cml
    else lastGoodConfig (loader_Start sdk_new unmarshal answer evs cml) = Some (last cs) \<and>
      (\<exists>f'. cml_filter (loader_Start sdk_new unmarshal answer evs cml) = Some f' \<and> config f' = Some (last cs) \<and>
        sdkFilter f' = map_option (\<lambda>_. sdk_new (Some (last cs))) (sdkFilter f))"
proof -
  have run: "loader_Start sdk_new unmarshal answer evs cml = fold (install sdk_new) cs cml"
    by (simp add: loader_Start_def initial_load_install loader_handles_install fold_install_names assms(2) good_configs_def)
  have "\<forall>c \<in> set cs. Sources c \<noteq> None"
    using readable_sources by (fastforce simp: assms(2) good_configs_def List.map_filter_def bind_eq_Some_conv split: if_splits sum.splits)
  then show ?thesis using fold_install_last [of cs cml f sdk_new] assms(1) by (simp add: run)
qed

definition filter_map :: ConfigMap where
  "filter_map = \<lparr>cm_name = ''zen-watcher-filter'', cm_data = [(''filter.json'', ''good'')]\<rparr>"

definition broken_map :: ConfigMap where
  "broken_map = \<lparr>cm_name = ''zen-watcher-filter'', cm_data = [(''filter.json'', ''broken'')]\<rparr>"

definition unmarshal0 :: "string \<Rightarrow> FilterConfig option" where
  "unmarshal0 text = (if text = ''good'' then Some (sources_config (Some [(''trivy'', no_filter)])) else None)"

definition loader0 :: "FilterConfig option ConfigMapLoader" where
  "loader0 = NewConfigMapLoader (\<lambda>_. []) (Some (NewFilterWithMetrics id None False))"

theorem last_good_config_witness:
  "lastGoodConfig (loader_Start id unmarshal0 (Inr filter_map) [FUpdate (CMObject broken_map), FDelete (CMObject filter_map)] loader0) =
     Some (sources_config (Some [(''trivy'', no_filter)]))"
proof -
  let ?evs = "[FUpdate (CMObject broken_map), FDelete (CMObject filter_map)]"
  have f: "cml_filter loader0 = Some (NewFilterWithMetrics id None False)" by (simp add: loader0_def NewConfigMapLoader_def)
  have "good_configs (configMapName loader0) (configMapKey loader0) unmarshal0 (Inr filter_map) ?evs = [sources_config (Some [(''trivy'', no_filter)])]"
    by (simp add: good_configs_def loader0_def NewConfigMapLoader_def env_or_def filter_map_def broken_map_def List.map_filter_simps readable_def
        unmarshal0_def with_sources_def offered_def)
  from last_good_config [OF f this [symmetric], of id] show ?thesis by simp
qed

text \<open>Ignored kinds are forgotten by a reload: at start-up \<^verbatim>\<open>LoadFilterConfig\<close> adds them to the excluded ones, the loader does not, neither
  in its initial load nor later.\<close>

theorem reload_forgets_ignored:
  assumes "map_of (cm_data cm) (env_or getenv ''FILTER_CONFIGMAP_KEY'' ''filter.json'') = Some text" "unmarshal text = Some conf"
    "Sources conf = Some [(source, f)]" "IgnoreKinds f = [kind]" "ExcludeKinds f = []"
  shows "\<exists>c f'. LoadFilterConfig getenv (\<lambda>_ _. Some (cm_data cm)) unmarshal = Inr c \<and> Sources c = Some [(source, f')] \<and> ExcludeKinds f' = [kind]"
    and "loadConfigWithContext unmarshal (Inr cm) (NewConfigMapLoader getenv flt) = Inr conf"
  using assms
  by (simp_all add: LoadFilterConfig_def loadConfigWithContext_def NewConfigMapLoader_def with_sources_def normalizeKinds_def add_seen_def Let_def)

end
