(* ===== verification/Startup.thy ===== *)
theory Startup
  imports Config_Manager Worker_Pool Observation_Creator
begin

text \<open>
  The settings of the main program, \<^verbatim>\<open>cmd/zen-watcher/main.go\<close>, and the launcher of \<^verbatim>\<open>pkg/watcher/adapter_factory.go\<close>: what
  \<^verbatim>\<open>handleConfigChange\<close> does to the worker pool, the launcher and the filter when a configuration is announced, how
  \<^verbatim>\<open>startAllServices\<close> begins, and how the launcher takes an event to the observation creator, directly or through the pool.

  Results: a namespace filter that is configured lasts until the next reload of the filter; a negative queue size crashes the
  program; and the pool of the main program never runs a worker, however it is configured.
\<close>

section \<open>Reading settings\<close>

definition getBool :: "obj \<Rightarrow> string \<Rightarrow> bool \<Rightarrow> bool" where
  "getBool conf key defaultValue = (case as_bool (idx conf key) of Some b \<Rightarrow> b | None \<Rightarrow> defaultValue)"

definition getInt :: "obj \<Rightarrow> string \<Rightarrow> int \<Rightarrow> int" where
  "getInt conf key defaultValue =
     (case as_int (idx conf key) of Some n \<Rightarrow> n
      | None \<Rightarrow> (case as_float (idx conf key) of Some x \<Rightarrow> f64_to_int x | None \<Rightarrow> defaultValue))"

definition getDuration :: "obj \<Rightarrow> string \<Rightarrow> int \<Rightarrow> int" where
  "getDuration conf key defaultValue =
     (case as_string (idx conf key) of
        Some s \<Rightarrow> (case parse_duration s of Some d \<Rightarrow> d | None \<Rightarrow> defaultValue)
      | None \<Rightarrow> defaultValue)"

section \<open>The launcher (adapter_factory.go)\<close>

text \<open>The adapters of the launcher come from \<^verbatim>\<open>CreateAdapters\<close>, which makes none; whether there is a pool is all the launcher keeps of it,
  since the program has a single one.\<close>

record AdapterLauncher =
  workerPool :: bool
  useWorkerPool :: bool

definition CreateAdapters :: "'a list" where
  "CreateAdapters = []"

definition NewAdapterLauncher :: AdapterLauncher where
  "NewAdapterLauncher = \<lparr>workerPool = False, useWorkerPool = False\<rparr>"

definition SetWorkerPool :: "bool \<Rightarrow> AdapterLauncher \<Rightarrow> AdapterLauncher" where
  "SetWorkerPool pool al = al\<lparr>workerPool := pool, useWorkerPool := pool\<rparr>"

section \<open>A change of the configuration\<close>

record ('s, 'w) services =
  sv_pool :: "'w WorkerPool"
  sv_launcher :: AdapterLauncher
  sv_filter :: "'s Filter"

text \<open>How a call ends: it returns, a goroutine waits for a lock it holds itself, or the program panics.\<close>

datatype ended = Returns | Hangs | Panics

definition worker_settings :: "obj \<Rightarrow> WorkerPoolConfig" where
  "worker_settings workerPoolConfig =
     WorkerPoolConfig.make (getBool workerPoolConfig ''enabled'' False) (getInt workerPoolConfig ''size'' 5)
       (getInt workerPoolConfig ''queue_size'' 1000)"

definition change_workers :: "obj \<Rightarrow> ('s, 'w) services \<Rightarrow> ended \<times> ('s, 'w) services" where
  "change_workers newConfig sv =
     (case as_map (idx newConfig ''worker_pool'') of
        None \<Rightarrow> (Returns, sv)
      | Some workerPoolConfig \<Rightarrow>
          (let new = worker_settings workerPoolConfig
           in if Worker_Pool.Enabled new
              then (case Worker_Pool.UpdateConfig new (sv_pool sv) of
                      (MakePanic, wp) \<Rightarrow> (Panics, sv\<lparr>sv_pool := wp\<rparr>)
                    | (SelfDeadlock, wp) \<Rightarrow> (Hangs, sv\<lparr>sv_pool := wp\<rparr>)
                    | (AwaitsStop, wp) \<Rightarrow> (Hangs, sv\<lparr>sv_pool := wp\<rparr>)
                    | (Updated, wp) \<Rightarrow>
                        (Returns, sv\<lparr>sv_pool := (if IsRunning wp then wp else Start wp), sv_launcher := SetWorkerPool True (sv_launcher sv)\<rparr>))
              else (Returns, sv\<lparr>sv_pool := Stop (sv_pool sv), sv_launcher := SetWorkerPool False (sv_launcher sv)\<rparr>)))"

definition strings_of :: "val \<Rightarrow> string list" where
  "strings_of v = (case as_list v of Some vs \<Rightarrow> List.map_filter as_string vs | None \<Rightarrow> [])"

definition change_namespaces :: "(FilterConfig option \<Rightarrow> 's) \<Rightarrow> obj \<Rightarrow> 's Filter \<Rightarrow> 's Filter" where
  "change_namespaces sdk_new newConfig flt =
     (case as_map (idx newConfig ''namespace_filtering'') of
        None \<Rightarrow> flt
      | Some nsFilterConfigMap \<Rightarrow>
          (let currentFilterConfig = Filter_Merge.GetConfig flt;
               global =
                 (if getBool nsFilterConfigMap ''enabled'' True
                  then Some \<lparr>gn_Enabled = True, IncludedNamespaces = strings_of (idx nsFilterConfigMap ''included_namespaces''),
                             ExcludedNamespaces = strings_of (idx nsFilterConfigMap ''excluded_namespaces'')\<rparr>
                  else map_option (\<lambda>g. g\<lparr>gn_Enabled := False\<rparr>) (fc_GlobalNamespaceFilter currentFilterConfig))
           in the (Filter_Merge.UpdateConfig sdk_new
                (Some \<lparr>Sources = Sources currentFilterConfig, fc_Expression = fc_Expression currentFilterConfig, fc_GlobalNamespaceFilter = global\<rparr>)
                (Some flt))))"

definition handleConfigChange :: "(FilterConfig option \<Rightarrow> 's) \<Rightarrow> obj \<Rightarrow> ('s, 'w) services \<Rightarrow> ended \<times> ('s, 'w) services" where
  "handleConfigChange sdk_new newConfig sv =
     (case change_workers newConfig sv of
        (Returns, sv1) \<Rightarrow> (Returns, sv1\<lparr>sv_filter := change_namespaces sdk_new newConfig (sv_filter sv1)\<rparr>)
      | r \<Rightarrow> r)"

text \<open>The beginning of \<^verbatim>\<open>startAllServices\<close>, with the pool, the launcher, and the configuration that the manager then has.\<close>

definition launcher_start :: "('s, 'w) services \<Rightarrow> ('s, 'w) services" where
  "launcher_start sv =
     (if useWorkerPool (sv_launcher sv) \<and> workerPool (sv_launcher sv) then sv\<lparr>sv_pool := Start (sv_pool sv)\<rparr> else sv)"

definition launcher_Stop :: "('s, 'w) services \<Rightarrow> ('s, 'w) services" where
  "launcher_Stop sv =
     (if useWorkerPool (sv_launcher sv) \<and> workerPool (sv_launcher sv) then sv\<lparr>sv_pool := Stop (sv_pool sv)\<rparr> else sv)"

definition startAllServices :: "(string \<Rightarrow> string) \<Rightarrow> (FilterConfig option \<Rightarrow> 's) \<Rightarrow> obj \<Rightarrow> 's Filter \<Rightarrow> (ended \<times> ('s, 'w) services) option" where
  "startAllServices getenv sdk_new initialConfig flt =
     (case NewWorkerPool getenv 5 10 of
        None \<Rightarrow> None
      | Some wp \<Rightarrow>
          (case handleConfigChange sdk_new initialConfig \<lparr>sv_pool = wp, sv_launcher = NewAdapterLauncher, sv_filter = flt\<rparr> of
             (Returns, sv) \<Rightarrow> Some (Returns, launcher_start sv)
           | r \<Rightarrow> Some r))"

section \<open>The launcher and an event\<close>

definition processEvent ::
    "uapi \<Rightarrow> api_server \<Rightarrow> (string \<Rightarrow> string) \<Rightarrow> clock \<Rightarrow> string \<Rightarrow> Event option \<Rightarrow> ObservationCreator \<Rightarrow> ObservationCreator" where
  "processEvent u api getenv clk now event oc =
     (case EventToObservation u now event of None \<Rightarrow> oc | Some observation \<Rightarrow> snd (CreateObservation u api getenv clk observation oc))"

text \<open>The work item of an event.\<close>

definition Process ::
    "uapi \<Rightarrow> api_server \<Rightarrow> (string \<Rightarrow> string) \<Rightarrow> clock \<Rightarrow> string \<Rightarrow> Event option \<Rightarrow> ObservationCreator \<Rightarrow> create_err option \<times> ObservationCreator" where
  "Process u api getenv clk now event oc =
     (case EventToObservation u now event of None \<Rightarrow> (None, oc)
      | Some observation \<Rightarrow> (let ((err, _), oc') = CreateObservation u api getenv clk observation oc in (err, oc')))"

text \<open>One event from the channel of the launcher: into the pool, a call that may wait, or processed at once. The result lists the possible
  outcomes, as for \<^verbatim>\<open>EnqueueBlocking\<close>.\<close>

definition launch_event ::
    "uapi \<Rightarrow> api_server \<Rightarrow> (string \<Rightarrow> string) \<Rightarrow> clock \<Rightarrow> string \<Rightarrow> bool \<Rightarrow> Event option \<Rightarrow>
     ('s, Event option) services \<times> ObservationCreator \<Rightarrow> (('s, Event option) services \<times> ObservationCreator) list" where
  "launch_event u api getenv clk now ctx_done event = (\<lambda>(sv, oc).
     if useWorkerPool (sv_launcher sv) \<and> workerPool (sv_launcher sv)
     then map (\<lambda>(_, wp). (sv\<lparr>sv_pool := wp\<rparr>, oc)) (EnqueueBlocking True ctx_done (current (sv_pool sv)) (Some event) (sv_pool sv))
     else [(sv, processEvent u api getenv clk now event oc)])"

section \<open>The pool never runs\<close>

text \<open>The pool as the constructor made it, enabled and with workers to start, but none started.\<close>

definition idle :: "'w WorkerPool \<Rightarrow> bool" where
  "idle wp \<longleftrightarrow> Worker_Pool.Enabled (pool_config wp) \<and> 0 < workers wp \<and> threads wp = []"

lemma enabled_settings: "Worker_Pool.Enabled (worker_settings c) = getBool c ''enabled'' False" "QueueSize (worker_settings c) = getInt c ''queue_size'' 1000"
  by (simp_all add: worker_settings_def WorkerPoolConfig.defs)

lemma idle_new: "NewWorkerPool getenv 5 10 = Some wp \<Longrightarrow> idle wp"
  by (auto simp: NewWorkerPool_def idle_def Let_def)

lemma idle_Stop: "idle wp \<Longrightarrow> idle (Stop wp)"
  by (simp add: idle_def Stop_def)

lemma idle_launcher_Stop: "idle (sv_pool sv) \<Longrightarrow> idle (sv_pool (launcher_Stop sv))"
  by (simp add: launcher_Stop_def idle_Stop)

lemma idle_IsRunning: "idle wp \<Longrightarrow> IsRunning wp"
  by (simp add: idle_def IsRunning_def)

lemma idle_update:
  "idle wp \<Longrightarrow> Worker_Pool.Enabled new \<Longrightarrow> Worker_Pool.UpdateConfig new wp = (r, wp') \<Longrightarrow> idle wp' \<and> r \<noteq> SelfDeadlock \<and> r \<noteq> AwaitsStop"
  by (auto simp: idle_def Worker_Pool.UpdateConfig_def split: if_splits)

lemma idle_workers:
  assumes "idle (sv_pool sv)" "change_workers c sv = (r, sv')"
  shows "idle (sv_pool sv') \<and> r \<noteq> Hangs"
proof -
  obtain u wp where u: "Worker_Pool.UpdateConfig (worker_settings (the (as_map (idx c ''worker_pool'')))) (sv_pool sv) = (u, wp)" by fastforce
  note up = idle_update [OF assms(1) _ u]
  show ?thesis using assms idle_Stop [OF assms(1)] up u
    by (auto simp: change_workers_def Let_def idle_IsRunning split: option.splits if_splits update.splits)
qed

lemma idle_change:
  assumes "idle (sv_pool sv)" "handleConfigChange n c sv = (r, sv')"
  shows "idle (sv_pool sv') \<and> r \<noteq> Hangs"
proof -
  obtain q sv1 where w: "change_workers c sv = (q, sv1)" by fastforce
  from idle_workers [OF assms(1) w] assms(2) show ?thesis by (cases q) (auto simp: handleConfigChange_def w)
qed

text \<open>The pool of the main program never runs: once the services have started with a pool that is not enabled, as it is by
  default, no announced configuration starts a worker, also not one that enables the pool, because the pool calls itself running
  from the beginning. An event that is then handed to the pool stays in its queue.\<close>

theorem pool_never_runs:
  fixes sv :: "('s, 'w) services"
  assumes "startAllServices getenv sdk_new initial flt = Some (r, sv)"
    "\<And>m. as_map (idx initial ''worker_pool'') = Some m \<Longrightarrow> \<not> getBool m ''enabled'' False"
  shows "threads (sv_pool (fold (\<lambda>c sv. snd (handleConfigChange sdk_new c sv)) cs sv)) = []"
proof -
  obtain wp :: "'w WorkerPool" where wp: "NewWorkerPool getenv 5 10 = Some wp"
    using assms(1) by (auto simp: startAllServices_def split: option.splits)
  let ?sv0 = "\<lparr>sv_pool = wp, sv_launcher = NewAdapterLauncher, sv_filter = flt\<rparr>"
  obtain q sv1 where w: "change_workers initial ?sv0 = (q, sv1)" by fastforce
  have off: "q = Returns \<and> \<not> useWorkerPool (sv_launcher sv1)"
    using w assms(2) by (auto simp: change_workers_def Let_def enabled_settings NewAdapterLauncher_def SetWorkerPool_def split: option.splits)
  have "idle (sv_pool sv1)" using idle_workers [OF _ w] idle_new [OF wp] by simp
  then have "idle (sv_pool sv)"
    using assms(1) off by (auto simp: startAllServices_def wp handleConfigChange_def w launcher_start_def)
  then have "idle (sv_pool (fold (\<lambda>c sv. snd (handleConfigChange sdk_new c sv)) cs sv))"
  proof (induction cs arbitrary: sv)
    case (Cons c cs)
    obtain q sv1 where "handleConfigChange sdk_new c sv = (q, sv1)" by fastforce
    with Cons idle_change [OF Cons.prems this] show ?case by simp
  qed simp
  then show ?thesis by (simp add: idle_def)
qed

definition enabled_config :: obj where
  "enabled_config = [(''worker_pool'', VMap [(''enabled'', VBool True)])]"

theorem pool_never_runs_witness:
  "\<exists>sv :: (unit, nat) services. startAllServices (\<lambda>_. []) (\<lambda>_. ()) (applyDefaults []) (NewFilterWithMetrics (\<lambda>_. ()) None False) = Some (Returns, sv) \<and>
     threads (sv_pool (snd (handleConfigChange (\<lambda>_. ()) enabled_config sv))) = []"
proof -
  let ?start = "startAllServices (\<lambda>_. []) (\<lambda>_. ()) (applyDefaults []) (NewFilterWithMetrics (\<lambda>_. ()) None False) :: (ended \<times> (unit, nat) services) option"
  have "map_option fst ?start = Some Returns" by code_simp
  then obtain sv where sv: "?start = Some (Returns, sv)" by auto
  have "\<not> getBool m ''enabled'' False" if "as_map (idx (applyDefaults []) ''worker_pool'') = Some m" for m
    using that by (auto simp: applyDefaults_def config_defaults_def idx_def getBool_def)
  from pool_never_runs [OF sv this, of "[enabled_config]"] sv show ?thesis by auto
qed

text \<open>What a configuration does to the filter and where it crashes: a change that returns leaves sources and expression of the
  filter as they were, and, when namespace filtering is on, installs exactly the strings of the two lists as the
  namespace filter. A change that enables the pool with a negative size of the queue panics. No change hangs.\<close>

theorem config_change:
  assumes "idle (sv_pool sv)" "handleConfigChange sdk_new c sv = (r, sv')"
  shows "(r = Returns \<longrightarrow>
      sources_of (Some (Filter_Merge.GetConfig (sv_filter sv'))) = sources_of (Some (Filter_Merge.GetConfig (sv_filter sv))) \<and>
      fc_Expression (Filter_Merge.GetConfig (sv_filter sv')) = fc_Expression (Filter_Merge.GetConfig (sv_filter sv)) \<and>
      (\<forall>m. idx c ''namespace_filtering'' = VMap m \<longrightarrow> getBool m ''enabled'' True \<longrightarrow>
        fc_GlobalNamespaceFilter (Filter_Merge.GetConfig (sv_filter sv')) =
          Some \<lparr>gn_Enabled = True, IncludedNamespaces = strings_of (idx m ''included_namespaces''),
            ExcludedNamespaces = strings_of (idx m ''excluded_namespaces'')\<rparr>)) \<and>
    (r = Panics \<longleftrightarrow> (\<exists>m. idx c ''worker_pool'' = VMap m \<and> getBool m ''enabled'' False \<and>
        getInt m ''queue_size'' 1000 < 0 \<and> getInt m ''queue_size'' 1000 \<noteq> maxQueueSize (sv_pool sv))) \<and>
    r \<noteq> Hangs"
proof -
  obtain q sv1 where w: "change_workers c sv = (q, sv1)" by fastforce
  have flt: "sv_filter sv1 = sv_filter sv"
    using w by (auto simp: change_workers_def Let_def split: option.splits if_splits prod.splits update.splits)
  have panics: "q = Panics \<longleftrightarrow> (\<exists>m. idx c ''worker_pool'' = VMap m \<and> getBool m ''enabled'' False \<and>
        getInt m ''queue_size'' 1000 < 0 \<and> getInt m ''queue_size'' 1000 \<noteq> maxQueueSize (sv_pool sv))"
    using w assms(1)
    by (auto simp: change_workers_def Let_def idle_def Worker_Pool.UpdateConfig_def enabled_settings split: option.splits if_splits)
  show ?thesis
  proof (cases "q = Returns")
    case True
    then have "r = Returns" "sv' = sv1\<lparr>sv_filter := change_namespaces sdk_new c (sv_filter sv)\<rparr>"
      using assms(2) by (auto simp: handleConfigChange_def w flt)
    with panics True show ?thesis
      by (auto simp: change_namespaces_def Filter_Merge.UpdateConfig_def Filter_Merge.GetConfig_def sources_of_def Let_def split: option.splits)
  next
    case False
    then have "r = q" using assms(2) by (cases q) (auto simp: handleConfigChange_def w)
    with panics False idle_change [OF assms] show ?thesis by auto
  qed
qed

definition services0 :: "(unit, nat) services" where
  "services0 = \<lparr>sv_pool = the (NewWorkerPool (\<lambda>_. []) 5 10), sv_launcher = NewAdapterLauncher, sv_filter = NewFilterWithMetrics (\<lambda>_. ()) None False\<rparr>"

theorem config_change_witness:
  "\<exists>sv'. handleConfigChange (\<lambda>_. ()) (applyDefaults []) services0 = (Returns, sv') \<and>
     fc_GlobalNamespaceFilter (Filter_Merge.GetConfig (sv_filter sv')) =
       Some \<lparr>gn_Enabled = True, IncludedNamespaces = [], ExcludedNamespaces = [''kube-system'', ''kube-public'', ''kube-node-lease'']\<rparr>"
proof -
  let ?c = "applyDefaults []"
  have "idle (sv_pool services0)" by (simp add: services0_def NewWorkerPool_def idle_def)
  moreover have "fst (handleConfigChange (\<lambda>_. ()) ?c services0) = Returns" by code_simp
  then obtain sv' where run: "handleConfigChange (\<lambda>_. ()) ?c services0 = (Returns, sv')" by (metis prod.collapse)
  moreover obtain m where m: "idx ?c ''namespace_filtering'' = VMap m" "getBool m ''enabled'' True" "strings_of (idx m ''included_namespaces'') = []"
    "strings_of (idx m ''excluded_namespaces'') = [''kube-system'', ''kube-public'', ''kube-node-lease'']"
    by (simp add: applyDefaults_def config_defaults_def idx_def getBool_def strings_of_def List.map_filter_simps)
  ultimately show ?thesis using config_change [of services0 "\<lambda>_. ()" ?c Returns sv'] by simp
qed

end
