(* ===== verification/HA_Mode.thy ===== *)
theory HA_Mode
  imports Zen_Time Zen_Float64 Zen_Sha256 Filter_Merge "HOL-Library.Multiset"
begin

text \<open>
  High availability: the settings of \<^verbatim>\<open>pkg/config/ha_config.go\<close>, the load balancer of \<^verbatim>\<open>pkg/balancer/load_balancer.go\<close>, the scaling
  coordinator of \<^verbatim>\<open>pkg/scaling/hpa_coordinator.go\<close>, the traffic analyzer of \<^verbatim>\<open>pkg/optimization/ha_dedup_optimization.go\<close> and the way
  the main program feeds them.

  The replicas are a map, listed in the order in which the call at hand iterates over it; Go may choose another
  order for every call. Loads are IEEE doubles. Mutexes are not reentrant; where a method asks for a lock it holds, the call never
  returns, and its result says so.

  Results: only healthy replicas seen within two minutes are selected, and one is selected whenever there is one; the least loaded
  strategy selects a minimum; the strategy called consistent hashing depends on the order of the map; a decision
  to scale follows the thresholds; the coordinator and the analyzer block on their first update.
\<close>

section \<open>Settings (ha_config.go)\<close>

record AutoScalingConfig =
  as_Enabled :: bool
  MinReplicas :: int
  MaxReplicas :: int
  TargetCPU :: int
  ScaleUpDelay :: string
  ScaleDownDelay :: string

record DedupOptimizationConfig =
  do_Enabled :: bool
  LowTrafficWindow :: string
  HighTrafficWindow :: string
  AdaptiveWindows :: bool

record CacheOptimizationConfig =
  co_Enabled :: bool
  LowTrafficSize :: int
  HighTrafficSize :: int
  MemoryBasedSizing :: bool

record LoadBalancingConfig =
  lb_Strategy :: string
  HealthCheckInterval :: string
  RebalanceThreshold :: f64

record HAConfig =
  AutoScaling :: AutoScalingConfig
  DedupOptimization :: DedupOptimizationConfig
  CacheOptimization :: CacheOptimizationConfig
  LoadBalancing :: LoadBalancingConfig
  ha_on :: bool

definition getEnvFloat64 :: "(string \<Rightarrow> string) \<Rightarrow> string \<Rightarrow> f64 \<Rightarrow> f64" where
  "getEnvFloat64 getenv key defaultValue =
     (if getenv key = [] then defaultValue else (case parse_float (getenv key) of Some x \<Rightarrow> x | None \<Rightarrow> defaultValue))"

definition LoadHAConfig :: "(string \<Rightarrow> string) \<Rightarrow> HAConfig" where
  "LoadHAConfig getenv =
     (if \<not> getEnvBool getenv ''HA_OPTIMIZATION_ENABLED'' False
      then \<lparr>AutoScaling = \<lparr>as_Enabled = False, MinReplicas = 0, MaxReplicas = 0, TargetCPU = 0, ScaleUpDelay = [], ScaleDownDelay = []\<rparr>,
            DedupOptimization = \<lparr>do_Enabled = False, LowTrafficWindow = [], HighTrafficWindow = [], AdaptiveWindows = False\<rparr>,
            CacheOptimization = \<lparr>co_Enabled = False, LowTrafficSize = 0, HighTrafficSize = 0, MemoryBasedSizing = False\<rparr>,
            LoadBalancing = \<lparr>lb_Strategy = [], HealthCheckInterval = [], RebalanceThreshold = Fin 0\<rparr>, ha_on = False\<rparr>
      else \<lparr>AutoScaling =
              \<lparr>as_Enabled = getEnvBool getenv ''HA_AUTO_SCALING_ENABLED'' True, MinReplicas = getEnvInt getenv ''HA_MIN_REPLICAS'' 2,
               MaxReplicas = getEnvInt getenv ''HA_MAX_REPLICAS'' 10, TargetCPU = getEnvInt getenv ''HA_TARGET_CPU'' 70,
               ScaleUpDelay = env_or getenv ''HA_SCALE_UP_DELAY'' ''2m'', ScaleDownDelay = env_or getenv ''HA_SCALE_DOWN_DELAY'' ''10m''\<rparr>,
            DedupOptimization =
              \<lparr>do_Enabled = getEnvBool getenv ''HA_DEDUP_OPTIMIZATION_ENABLED'' True, LowTrafficWindow = env_or getenv ''HA_LOW_TRAFFIC_WINDOW'' ''300s'',
               HighTrafficWindow = env_or getenv ''HA_HIGH_TRAFFIC_WINDOW'' ''60s'', AdaptiveWindows = getEnvBool getenv ''HA_ADAPTIVE_WINDOWS'' True\<rparr>,
            CacheOptimization =
              \<lparr>co_Enabled = getEnvBool getenv ''HA_CACHE_OPTIMIZATION_ENABLED'' True, LowTrafficSize = getEnvInt getenv ''HA_LOW_TRAFFIC_SIZE'' 5000,
               HighTrafficSize = getEnvInt getenv ''HA_HIGH_TRAFFIC_SIZE'' 50000, MemoryBasedSizing = getEnvBool getenv ''HA_MEMORY_BASED_SIZING'' True\<rparr>,
            LoadBalancing =
              \<lparr>lb_Strategy = env_or getenv ''HA_LOAD_BALANCING_STRATEGY'' ''least_loaded'', HealthCheckInterval = env_or getenv ''HA_HEALTH_CHECK_INTERVAL'' ''30s'',
               RebalanceThreshold = getEnvFloat64 getenv ''HA_REBALANCE_THRESHOLD'' (Fin 2)\<rparr>,
            ha_on = True\<rparr>)"

definition GetLowTrafficWindow :: "DedupOptimizationConfig \<Rightarrow> int option" where
  "GetLowTrafficWindow c = parse_duration (LowTrafficWindow c)"

definition GetHighTrafficWindow :: "DedupOptimizationConfig \<Rightarrow> int option" where
  "GetHighTrafficWindow c = parse_duration (HighTrafficWindow c)"

section \<open>The load balancer (load_balancer.go)\<close>

record ReplicaInfo =
  ri_ID :: string
  ri_Load :: f64
  ri_Healthy :: bool
  LastSeen :: int
  ri_CPU :: f64
  ri_Memory :: f64
  ri_Events :: f64

record LoadBalancer =
  strategy :: string
  replicas :: "(string, ReplicaInfo) gomap"
  currentIndex :: int
  rebalanceThreshold :: f64

definition NewLoadBalancer :: "LoadBalancingConfig option \<Rightarrow> LoadBalancer option" where
  "NewLoadBalancer haConfig =
     map_option (\<lambda>c. \<lparr>strategy = (if lb_Strategy c = [] then ''least_loaded'' else lb_Strategy c), replicas = [], currentIndex = 0,
       rebalanceThreshold = RebalanceThreshold c\<rparr>) haConfig"

definition UpdateReplica :: "int \<Rightarrow> string \<Rightarrow> f64 \<Rightarrow> f64 \<Rightarrow> f64 \<Rightarrow> f64 \<Rightarrow> bool \<Rightarrow> LoadBalancer \<Rightarrow> LoadBalancer" where
  "UpdateReplica now replicaID load cpuUsage memoryUsage eventsPerSec healthy lb =
     (let replica = (case map_of (replicas lb) replicaID of
            Some r \<Rightarrow> r
          | None \<Rightarrow> \<lparr>ri_ID = replicaID, ri_Load = Fin 0, ri_Healthy = False, LastSeen = 0, ri_CPU = Fin 0, ri_Memory = Fin 0, ri_Events = Fin 0\<rparr>)
      in lb\<lparr>replicas := put replicaID (replica\<lparr>ri_Load := load, ri_CPU := cpuUsage, ri_Memory := memoryUsage, ri_Events := eventsPerSec,
            ri_Healthy := healthy, LastSeen := now\<rparr>) (replicas lb)\<rparr>)"

definition RemoveReplica :: "string \<Rightarrow> LoadBalancer \<Rightarrow> LoadBalancer" where
  "RemoveReplica replicaID lb = lb\<lparr>replicas := del replicaID (replicas lb)\<rparr>"

text \<open>The index is a signed number, so its remainder may be negative after it has wrapped: indexing panics.\<close>

datatype selection = Selected string | NoReplica string | IndexPanic

definition go_rem :: "int \<Rightarrow> int \<Rightarrow> int" where
  "go_rem a b = (if a < 0 then - ((- a) mod b) else a mod b)"

definition at_index :: "ReplicaInfo list \<Rightarrow> int \<Rightarrow> selection" where
  "at_index rs i = (if 0 \<le> i \<and> nat i < length rs then Selected (ri_ID (rs ! nat i)) else IndexPanic)"

definition selectRoundRobin :: "ReplicaInfo list \<Rightarrow> LoadBalancer \<Rightarrow> selection \<times> LoadBalancer" where
  "selectRoundRobin rs lb =
     (if rs = [] then (NoReplica ''no replicas available'', lb)
      else (let s = at_index rs (go_rem (currentIndex lb) (int (length rs)))
            in (s, if s = IndexPanic then lb else lb\<lparr>currentIndex := wrap64 (currentIndex lb + 1)\<rparr>)))"

definition selectLeastLoaded :: "ReplicaInfo list \<Rightarrow> selection" where
  "selectLeastLoaded rs =
     (case rs of
        [] \<Rightarrow> NoReplica ''no replicas available''
      | r # rest \<Rightarrow> Selected (ri_ID (fold (\<lambda>replica least. if f64_less (ri_Load replica) (ri_Load least) then replica else least) rest r)))"

definition hash_value :: "string \<Rightarrow> int" where
  "hash_value eventKey =
     (let hash = Sum256 eventKey; b = (\<lambda>i. byte_of (hash ! i)) in b 0 + b 1 * 2 ^ 8 + b 2 * 2 ^ 16 + b 3 * 2 ^ 24)"

definition selectConsistentHash :: "ReplicaInfo list \<Rightarrow> string \<Rightarrow> selection" where
  "selectConsistentHash rs eventKey =
     (if rs = [] then NoReplica ''no replicas available'' else at_index rs (hash_value eventKey mod int (length rs)))"

definition healthyReplicas :: "int \<Rightarrow> LoadBalancer \<Rightarrow> ReplicaInfo list" where
  "healthyReplicas now lb = filter (\<lambda>r. ri_Healthy r \<and> now - LastSeen r < 120 * 10 ^ 9) (map snd (replicas lb))"

definition SelectReplica :: "int \<Rightarrow> string \<Rightarrow> LoadBalancer option \<Rightarrow> selection \<times> LoadBalancer option" where
  "SelectReplica now eventKey olb =
     (case olb of
        None \<Rightarrow> (NoReplica ''load balancer not initialized'', None)
      | Some lb \<Rightarrow>
          (let rs = healthyReplicas now lb
           in if rs = [] then (NoReplica ''no healthy replicas available'', Some lb)
              else if strategy lb = ''round_robin'' then (let (s, lb') = selectRoundRobin rs lb in (s, Some lb'))
              else if strategy lb = ''consistent_hash'' then (selectConsistentHash rs eventKey, Some lb)
              else (selectLeastLoaded rs, Some lb)))"

definition min_max_load :: "ReplicaInfo list \<Rightarrow> f64 \<times> f64" where
  "min_max_load rs =
     fold (\<lambda>r (minLoad, maxLoad).
       if ri_Healthy r
       then (if f64_less (ri_Load r) minLoad then ri_Load r else minLoad, if f64_greater (ri_Load r) maxLoad then ri_Load r else maxLoad)
       else (minLoad, maxLoad)) rs (Fin 1, Fin 0)"

definition ShouldRebalance :: "LoadBalancer option \<Rightarrow> bool" where
  "ShouldRebalance olb =
     (case olb of None \<Rightarrow> False
      | Some lb \<Rightarrow>
          if length (replicas lb) < 2 then False
          else (let (minLoad, maxLoad) = min_max_load (map snd (replicas lb))
                in f64_greater minLoad (Fin 0) \<and> f64_greater (f64_div maxLoad minLoad) (rebalanceThreshold lb)))"

text \<open>The statistics: strategy, numbers of all and of healthy replicas, and the average load when there is a healthy one.\<close>

definition GetReplicaStats :: "LoadBalancer option \<Rightarrow> obj option" where
  "GetReplicaStats olb =
     map_option (\<lambda>lb.
       let healthy = filter ri_Healthy (map snd (replicas lb)); healthyCount = int (length healthy);
           totalLoad = fold (\<lambda>r t. f64_add t (ri_Load r)) healthy (Fin 0)
       in [(''strategy'', VStr (strategy lb)), (''total_replicas'', VInt (int (length (replicas lb)))), (''healthy_replicas'', VInt healthyCount)] @
          (if healthyCount > 0 then [(''average_load'', VFloat (f64_div totalLoad (f64_of_int healthyCount)))] else [])) olb"

section \<open>The scaling coordinator (hpa_coordinator.go)\<close>

record HPACoordinator =
  hpa_config :: AutoScalingConfig
  haMetrics :: bool
  replicaID :: string
  currentCPU :: f64
  currentMemory :: f64
  hpa_events :: f64
  queueDepth :: int
  responseTime :: f64
  metrics_locked :: bool
  hpa_gauges :: "(string \<times> f64) list"
  ScalingDecisions :: "(string \<times> string) list"

record ScalingDecision =
  Action :: string
  Reason :: string
  CurrentCPU :: f64
  sd_TargetCPU :: int
  sd_QueueDepth :: int
  sd_Events :: f64

definition NewHPACoordinator :: "AutoScalingConfig option \<Rightarrow> bool \<Rightarrow> string \<Rightarrow> HPACoordinator option" where
  "NewHPACoordinator conf metrics rid =
     (case conf of None \<Rightarrow> None
      | Some c \<Rightarrow> if \<not> as_Enabled c then None
          else Some \<lparr>hpa_config = c, haMetrics = metrics, replicaID = rid, currentCPU = Fin 0, currentMemory = Fin 0, hpa_events = Fin 0,
                 queueDepth = 0, responseTime = Fin 0, metrics_locked = False, hpa_gauges = [], ScalingDecisions = []\<rparr>)"

text \<open>\<^verbatim>\<open>calculateLoad\<close> asks for the read lock; \<open>None\<close> is a call that blocks.\<close>

definition load_of :: "HPACoordinator \<Rightarrow> f64" where
  "load_of c =
     (let cpuFactor = f64_div (currentCPU c) (Fin 100); queueFactor = f64_div (f64_of_int (queueDepth c)) (Fin 10000);
          responseFactor = f64_div (responseTime c) (Fin 10);
          load = f64_add (f64_add (f64_mul cpuFactor (Fin (1 / 2))) (f64_mul queueFactor (rnd64 (3 / 10)))) (f64_mul responseFactor (rnd64 (1 / 5)))
      in if f64_greater load (Fin 1) then Fin 1 else load)"

definition calculateLoad :: "HPACoordinator \<Rightarrow> f64 option" where
  "calculateLoad c = (if metrics_locked c then None else Some (load_of c))"

text \<open>Whether \<^verbatim>\<open>UpdateMetrics\<close> returns, and the state it leaves.\<close>

definition UpdateMetrics :: "f64 \<Rightarrow> f64 \<Rightarrow> f64 \<Rightarrow> int \<Rightarrow> f64 \<Rightarrow> HPACoordinator \<Rightarrow> HPACoordinator \<times> bool" where
  "UpdateMetrics cpuUsage memoryUsage eventsPerSec depth response c =
     (if metrics_locked c then (c, False)
      else
        (let c1 = c\<lparr>metrics_locked := True, currentCPU := cpuUsage, currentMemory := memoryUsage, hpa_events := eventsPerSec, queueDepth := depth,
                    responseTime := response\<rparr>
         in if haMetrics c1
            then (let c2 = c1\<lparr>hpa_gauges := [(''cpu'', cpuUsage), (''memory'', memoryUsage), (''events'', eventsPerSec), (''queue'', f64_of_int depth)]\<rparr>
                  in case calculateLoad c2 of
                       None \<Rightarrow> (c2, False)
                     | Some load \<Rightarrow> (c2\<lparr>hpa_gauges := hpa_gauges c2 @ [(''load'', load)], metrics_locked := False\<rparr>, True))
            else (c1\<lparr>metrics_locked := False\<rparr>, True)))"

text \<open>\<^verbatim>\<open>%.nf\<close>: correctly rounded, ties to even.\<close>

definition fixed_digits :: "nat \<Rightarrow> rat \<Rightarrow> string" where
  "fixed_digits d q =
     (let n = round_even (q * 10 ^ d); frac = show_int (n mod 10 ^ d)
      in show_int (n div 10 ^ d) @ ''.'' @ replicate (d - length frac) (CHR ''0'') @ frac)"

definition fmt_fixed :: "nat \<Rightarrow> f64 \<Rightarrow> string" where
  "fmt_fixed d x =
     (case x of NaN \<Rightarrow> ''NaN'' | PosInf \<Rightarrow> ''+Inf'' | NegInf \<Rightarrow> ''-Inf'' | NegZero \<Rightarrow> ''-'' @ fixed_digits d 0
      | Fin q \<Rightarrow> (if q < 0 then ''-'' @ fixed_digits d (- q) else fixed_digits d q))"

definition decide :: "AutoScalingConfig \<Rightarrow> f64 \<Rightarrow> int \<Rightarrow> f64 \<Rightarrow> string \<times> string" where
  "decide conf cpu depth response =
     (let target = TargetCPU conf
      in if f64_greater cpu (f64_of_int target)
         then (''scale_up'', ''CPU usage '' @ fmt_fixed 1 cpu @ ''% exceeds target '' @ show_int target @ ''%'')
         else if depth > 1000 then (''scale_up'', ''Queue depth '' @ show_int depth @ '' exceeds threshold 1000'')
         else if f64_greater response (Fin 5) then (''scale_up'', ''Response time '' @ fmt_fixed 2 response @ ''s exceeds SLA 5s'')
         else if f64_less cpu (f64_of_int (wrap64 (target - 20))) \<and> depth < 100
         then (''scale_down'', ''CPU usage '' @ fmt_fixed 1 cpu @ ''% well below target '' @ show_int target @ ''% and low queue depth'')
         else (''no_action'', ''metrics within acceptable range''))"

definition EvaluateScaling :: "HPACoordinator option \<Rightarrow> ScalingDecision option" where
  "EvaluateScaling oc =
     (case oc of
        None \<Rightarrow> Some \<lparr>Action = ''no_action'', Reason = ''coordinator_not_initialized'', CurrentCPU = Fin 0, sd_TargetCPU = 0, sd_QueueDepth = 0, sd_Events = Fin 0\<rparr>
      | Some c \<Rightarrow>
          if metrics_locked c then None
          else (case decide (hpa_config c) (currentCPU c) (queueDepth c) (responseTime c) of (action, reason) \<Rightarrow>
                  Some \<lparr>Action = action, Reason = reason, CurrentCPU = currentCPU c, sd_TargetCPU = TargetCPU (hpa_config c),
                        sd_QueueDepth = queueDepth c, sd_Events = hpa_events c\<rparr>))"

definition ExecuteScalingDecision :: "ScalingDecision \<Rightarrow> HPACoordinator \<Rightarrow> HPACoordinator" where
  "ExecuteScalingDecision d c = (if haMetrics c then c\<lparr>ScalingDecisions := ScalingDecisions c @ [(Action d, Reason d)]\<rparr> else c)"

text \<open>What the goroutine of \<^verbatim>\<open>Start\<close> does at a tick.\<close>

definition scaling_tick :: "HPACoordinator \<Rightarrow> HPACoordinator \<times> bool" where
  "scaling_tick c =
     (case EvaluateScaling (Some c) of
        None \<Rightarrow> (c, False)
      | Some d \<Rightarrow> (if Action d \<noteq> ''no_action'' then ExecuteScalingDecision d c else c, True))"

section \<open>The main program\<close>

record readings =
  rd_cpu :: f64
  rd_memory :: f64
  rd_events :: f64
  rd_queue :: int
  rd_response :: f64
  rd_now :: int
  rd_host :: string

text \<open>\<^verbatim>\<open>updateHAMetrics\<close>, up to the update of the server's status, which is \<open>published\<close>; the flag says whether the call returned.\<close>

record ha_parts =
  ha_coordinator :: "HPACoordinator option"
  ha_balancer :: "LoadBalancer option"
  published :: "readings list"

definition updateHAMetrics :: "readings \<Rightarrow> ha_parts \<Rightarrow> ha_parts \<times> bool" where
  "updateHAMetrics rd ha =
     (let (coord, returned) =
            (case ha_coordinator ha of None \<Rightarrow> (None, True)
             | Some c \<Rightarrow> (case UpdateMetrics (rd_cpu rd) (rd_memory rd) (rd_events rd) (rd_queue rd) (rd_response rd) c of (c', r) \<Rightarrow> (Some c', r)))
      in if \<not> returned then (ha\<lparr>ha_coordinator := coord\<rparr>, False)
         else (\<lparr>ha_coordinator = coord,
                ha_balancer = map_option (UpdateReplica (rd_now rd) (rd_host rd) (Fin 0) (rd_cpu rd) (rd_memory rd) (rd_events rd) True) (ha_balancer ha),
                published = published ha @ [rd]\<rparr>, True))"

definition startHAComponents :: "(string \<Rightarrow> string) \<Rightarrow> string \<Rightarrow> ha_parts option" where
  "startHAComponents getenv host =
     (let haConfig = LoadHAConfig getenv
      in if \<not> ha_on haConfig then None
         else Some \<lparr>ha_coordinator = (if as_Enabled (AutoScaling haConfig) then NewHPACoordinator (Some (AutoScaling haConfig)) True host else None),
                    ha_balancer = (if lb_Strategy (LoadBalancing haConfig) \<noteq> [] then NewLoadBalancer (Some (LoadBalancing haConfig)) else None),
                    published = []\<rparr>)"

text \<open>The loop of \<^verbatim>\<open>startHAMetricsLoop\<close>: a call that does not return ends it.\<close>

fun startHAMetricsLoop :: "readings list \<Rightarrow> ha_parts \<Rightarrow> ha_parts" where
  "startHAMetricsLoop [] ha = ha"
| "startHAMetricsLoop (rd # rds) ha = (case updateHAMetrics rd ha of (ha', True) \<Rightarrow> startHAMetricsLoop rds ha' | (ha', False) \<Rightarrow> ha')"

section \<open>The traffic analyzer (ha_dedup_optimization.go)\<close>

record TrafficSample =
  ts_Timestamp :: int
  ts_Events :: f64
  ts_Window :: int

record TrafficAnalyzer =
  windowHistory :: "TrafficSample list"
  currentWindow :: int
  ta_config :: DedupOptimizationConfig
  history_locked :: bool

definition NewTrafficAnalyzer :: "DedupOptimizationConfig \<Rightarrow> TrafficAnalyzer" where
  "NewTrafficAnalyzer c = \<lparr>windowHistory = [], currentWindow = 0, ta_config = c, history_locked = False\<rparr>"

definition average_since :: "int \<Rightarrow> TrafficSample list \<Rightarrow> f64" where
  "average_since cutoff samples =
     (let recent = filter (\<lambda>s. ts_Timestamp s > cutoff) samples
      in if recent = [] then Fin 0 else f64_div (fold (\<lambda>s t. f64_add t (ts_Events s)) recent (Fin 0)) (f64_of_int (int (length recent))))"

definition CalculateEventsPerSecond :: "int \<Rightarrow> int \<Rightarrow> TrafficAnalyzer \<Rightarrow> f64 option" where
  "CalculateEventsPerSecond now window ta = (if history_locked ta then None else Some (average_since (now - window) (windowHistory ta)))"

definition window_or_zero :: "int option \<Rightarrow> int" where
  "window_or_zero d = (case d of Some n \<Rightarrow> n | None \<Rightarrow> 0)"

definition GetOptimalWindow :: "int \<Rightarrow> TrafficAnalyzer \<Rightarrow> int option" where
  "GetOptimalWindow now ta =
     (let c = ta_config ta
      in if \<not> do_Enabled c \<or> \<not> AdaptiveWindows c then Some (60 * 10 ^ 9)
         else map_option (\<lambda>avg.
                if f64_less avg (Fin 50) then window_or_zero (GetLowTrafficWindow c)
                else if f64_greater avg (Fin 500) then window_or_zero (GetHighTrafficWindow c)
                else (let sum = wrap64 (window_or_zero (GetLowTrafficWindow c) + window_or_zero (GetHighTrafficWindow c))
                      in if sum < 0 then - ((- sum) div 2) else sum div 2))
              (CalculateEventsPerSecond now (300 * 10 ^ 9) ta))"

text \<open>The window is set, then the history is locked and the average asked for, which needs the same lock.\<close>

definition UpdateWindow :: "int \<Rightarrow> TrafficAnalyzer \<Rightarrow> TrafficAnalyzer \<times> bool" where
  "UpdateWindow now ta =
     (case GetOptimalWindow now ta of
        None \<Rightarrow> (ta, False)
      | Some newWindow \<Rightarrow>
          (let ta1 = ta\<lparr>currentWindow := newWindow\<rparr>
           in if history_locked ta1 then (ta1, False)
              else (let ta2 = ta1\<lparr>history_locked := True\<rparr>
                    in case CalculateEventsPerSecond now (60 * 10 ^ 9) ta2 of
                         None \<Rightarrow> (ta2, False)
                       | Some avg \<Rightarrow>
                           (let h = windowHistory ta2 @ [\<lparr>ts_Timestamp = now, ts_Events = avg, ts_Window = newWindow\<rparr>]
                            in (ta2\<lparr>windowHistory := drop (length h - 100) h, history_locked := False\<rparr>, True)))))"

section \<open>Selecting a replica\<close>

text \<open>The states of a balancer: replicas are updated and removed, selections advance the index, and Go may list the map in another order.\<close>

inductive lb_run :: "LoadBalancingConfig \<Rightarrow> LoadBalancer \<Rightarrow> bool" for conf where
  new: "NewLoadBalancer (Some conf) = Some lb \<Longrightarrow> lb_run conf lb"
| update: "lb_run conf lb \<Longrightarrow> lb_run conf (UpdateReplica now rid load cpu mem ev healthy lb)"
| remove: "lb_run conf lb \<Longrightarrow> lb_run conf (RemoveReplica rid lb)"
| select: "lb_run conf lb \<Longrightarrow> SelectReplica now key (Some lb) = (s, Some lb') \<Longrightarrow> lb_run conf lb'"
| reorder: "lb_run conf lb \<Longrightarrow> mset m = mset (replicas lb) \<Longrightarrow> lb_run conf (lb\<lparr>replicas := m\<rparr>)"

definition lb_ok :: "LoadBalancer \<Rightarrow> bool" where
  "lb_ok lb \<longleftrightarrow> wf_map (replicas lb) \<and> (\<forall>(k, r) \<in> set (replicas lb). ri_ID r = k)"

lemma set_put: "(k', v') \<in> set (put k v m) \<Longrightarrow> (k', v') = (k, v) \<or> (k', v') \<in> set m"
  by (induction m) (auto split: if_splits)

lemma set_del: "(k', v') \<in> set (del k m) \<Longrightarrow> (k', v') \<in> set m"
  by (auto simp: AList.delete_eq)

lemma select_replicas: "SelectReplica now key (Some lb) = (s, Some lb') \<Longrightarrow> replicas lb' = replicas lb"
  by (auto simp: SelectReplica_def selectRoundRobin_def Let_def split: if_splits)

lemma lb_run_ok: "lb_run conf lb \<Longrightarrow> lb_ok lb"
proof (induction rule: lb_run.induct)
  case (new lb)
  then show ?case by (auto simp: NewLoadBalancer_def lb_ok_def)
next
  case (update lb now rid load cpu mem ev healthy)
  have "ri_ID r = k" if "map_of (replicas lb) k = Some r" for k r
    using update.IH map_of_SomeD [OF that] by (auto simp: lb_ok_def)
  with update.IH show ?case by (auto simp: UpdateReplica_def lb_ok_def Let_def dest!: set_put split: option.splits)
next
  case (remove lb rid)
  then show ?case by (auto simp: RemoveReplica_def lb_ok_def dest!: set_del)
next
  case (select lb now key s lb')
  then show ?case by (simp add: lb_ok_def select_replicas)
next
  case (reorder lb m)
  then have "set m = set (replicas lb)" "distinct (map fst m) = distinct (map fst (replicas lb))"
    by (metis set_mset_mset, metis mset_map mset_eq_imp_distinct_iff)
  with reorder.IH show ?case by (auto simp: lb_ok_def wf_map_def)
qed

lemma healthy_registered:
  assumes "lb_ok lb" "r \<in> set (healthyReplicas now lb)"
  shows "map_of (replicas lb) (ri_ID r) = Some r \<and> ri_Healthy r \<and> now - LastSeen r < 120 * 10 ^ 9"
proof -
  obtain k where "(k, r) \<in> set (replicas lb)" using assms(2) by (auto simp: healthyReplicas_def)
  with assms(1) have "(ri_ID r, r) \<in> set (replicas lb)" "distinct (map fst (replicas lb))" by (auto simp: lb_ok_def wf_map_def)
  then show ?thesis using assms(2) by (auto simp: healthyReplicas_def)
qed

lemma least_in: "fold (\<lambda>replica least. if P replica least then replica else least) rs r \<in> set (r # rs)"
  by (induction rs arbitrary: r) auto

lemma at_index_in: "at_index rs i = Selected s \<Longrightarrow> \<exists>r \<in> set rs. ri_ID r = s"
  by (auto simp: at_index_def split: if_splits)

lemma least_loaded_in: "selectLeastLoaded rs = Selected rid \<Longrightarrow> \<exists>r \<in> set rs. ri_ID r = rid"
proof -
  assume sel: "selectLeastLoaded rs = Selected rid"
  then obtain a list where rs: "rs = a # list" by (auto simp: selectLeastLoaded_def split: list.splits)
  show ?thesis unfolding rs
    by (rule bexI [OF _ least_in]) (use sel in \<open>simp add: selectLeastLoaded_def rs\<close>)
qed

lemma round_robin_in: "selectRoundRobin rs lb = (Selected rid, lb') \<Longrightarrow> \<exists>r \<in> set rs. ri_ID r = rid"
  by (auto simp: selectRoundRobin_def Let_def dest: at_index_in split: if_splits)

lemma consistent_hash_in: "selectConsistentHash rs key = Selected rid \<Longrightarrow> \<exists>r \<in> set rs. ri_ID r = rid"
  by (auto simp: selectConsistentHash_def dest: at_index_in split: if_splits)

lemma at_index_mod: "rs \<noteq> [] \<Longrightarrow> 0 \<le> n \<Longrightarrow> at_index rs (n mod int (length rs)) = Selected (ri_ID (rs ! nat (n mod int (length rs))))"
  by (simp add: at_index_def nat_less_iff)

lemma hash_value_nonneg: "0 \<le> hash_value key"
  by (simp add: hash_value_def Let_def)

text \<open>Only healthy replicas are selected: whatever has happened to the balancer, a selected replica is registered, healthy and was
  seen within two minutes. There is no selection exactly when there is no such replica, except that the rotation panics once its
  index has wrapped to a negative number.\<close>

theorem selection_healthy:
  assumes "lb_run conf lb" "SelectReplica now key (Some lb) = (s, lb')"
  shows "case s of
      Selected rid \<Rightarrow> \<exists>r. map_of (replicas lb) rid = Some r \<and> ri_Healthy r \<and> now - LastSeen r < 120 * 10 ^ 9
    | NoReplica _ \<Rightarrow> \<forall>r. r \<in> snd ` set (replicas lb) \<longrightarrow> \<not> (ri_Healthy r \<and> now - LastSeen r < 120 * 10 ^ 9)
    | IndexPanic \<Rightarrow> strategy lb = ''round_robin'' \<and> currentIndex lb < 0"
proof -
  let ?rs = "healthyReplicas now lb"
  have sel: "\<exists>r \<in> set ?rs. ri_ID r = rid" if "s = Selected rid" for rid
    using assms(2) that
    by (auto simp: SelectReplica_def Let_def dest: least_loaded_in round_robin_in consistent_hash_in split: if_splits prod.splits)
  have none: "?rs = []" if "s = NoReplica e" for e
    using assms(2) that
    by (auto simp: SelectReplica_def selectRoundRobin_def selectConsistentHash_def selectLeastLoaded_def Let_def at_index_def split: if_splits list.splits)
  have panic: "strategy lb = ''round_robin'' \<and> currentIndex lb < 0" if "s = IndexPanic"
    using assms(2) that at_index_mod [of ?rs "currentIndex lb"] at_index_mod [of ?rs "hash_value key"] hash_value_nonneg
    by (auto simp: SelectReplica_def selectRoundRobin_def selectConsistentHash_def selectLeastLoaded_def Let_def go_rem_def split: if_splits list.splits)
  show ?thesis
  proof (cases s)
    case (Selected rid)
    with sel healthy_registered [OF lb_run_ok [OF assms(1)]] show ?thesis by fastforce
  next
    case (NoReplica e)
    with none show ?thesis by (auto simp: healthyReplicas_def filter_empty_conv)
  qed (use panic in simp)
qed

text \<open>What is called consistent hashing depends on the order in which the map is listed: with two healthy replicas, listing
  them the other way round sends every key to the other replica.\<close>

theorem hash_depends_on_order:
  assumes "healthyReplicas now lb = [a, b]" "healthyReplicas now lb' = [b, a]" "ri_ID a \<noteq> ri_ID b"
    "strategy lb = ''consistent_hash''" "strategy lb' = ''consistent_hash''"
  shows "fst (SelectReplica now key (Some lb)) \<noteq> fst (SelectReplica now key (Some lb'))"
proof -
  have "hash_value key mod 2 = 0 \<or> hash_value key mod 2 = 1" by presburger
  then show ?thesis using assms by (auto simp: SelectReplica_def selectConsistentHash_def at_index_def)
qed

section \<open>The least loaded replica\<close>

lemma f64_less_trans: "f64_less x y \<Longrightarrow> f64_less y z \<Longrightarrow> f64_less x z"
  by (cases x; cases y; cases z) auto

lemma f64_not_less_trans: "y \<noteq> NaN \<Longrightarrow> \<not> f64_less x y \<Longrightarrow> \<not> f64_less y z \<Longrightarrow> \<not> f64_less x z"
  by (cases x; cases y; cases z) auto

lemma f64_less_irrefl: "\<not> f64_less x x"
  by (cases x) auto

lemma least_minimal:
  "\<forall>r' \<in> set (r # rs). ri_Load r' \<noteq> NaN \<Longrightarrow> r' \<in> set (r # rs) \<Longrightarrow>
   \<not> f64_less (ri_Load r') (ri_Load (fold (\<lambda>replica least. if f64_less (ri_Load replica) (ri_Load least) then replica else least) rs r))"
proof (induction rs arbitrary: r r')
  case Nil
  then show ?case by (simp add: f64_less_irrefl)
next
  case (Cons x rs)
  let ?f = "\<lambda>replica least. if f64_less (ri_Load replica) (ri_Load least) then replica else least"
  let ?m = "?f x r" let ?l = "fold ?f rs ?m"
  have num: "\<forall>r' \<in> set (?m # rs). ri_Load r' \<noteq> NaN" using Cons.prems(1) by auto
  have m: "\<not> f64_less (ri_Load ?m) (ri_Load ?l)" "r' \<in> set rs \<Longrightarrow> \<not> f64_less (ri_Load r') (ri_Load ?l)"
    using Cons.IH [OF num] by auto
  have "\<not> f64_less (ri_Load x) (ri_Load ?m)" "\<not> f64_less (ri_Load r) (ri_Load ?m)"
    using f64_less_irrefl f64_less_trans by auto
  moreover have "ri_Load ?m \<noteq> NaN" using num by simp
  ultimately have "\<not> f64_less (ri_Load x) (ri_Load ?l)" "\<not> f64_less (ri_Load r) (ri_Load ?l)"
    using f64_not_less_trans [OF _ _ m(1)] by blast+
  with m(2) Cons.prems(2) show ?case by auto
qed

text \<open>The least loaded strategy, which is also the default for an unknown one, selects a replica such that no healthy one has
  a lower load, when all loads are numbers.\<close>

theorem least_loaded_minimal:
  assumes "lb_run conf lb" "strategy lb \<noteq> ''round_robin''" "strategy lb \<noteq> ''consistent_hash''"
    "SelectReplica now key (Some lb) = (Selected rid, lb')" "\<forall>r \<in> set (healthyReplicas now lb). ri_Load r \<noteq> NaN"
  shows "\<exists>sel. map_of (replicas lb) rid = Some sel \<and> (\<forall>r \<in> set (healthyReplicas now lb). \<not> f64_less (ri_Load r) (ri_Load sel))"
proof -
  let ?f = "\<lambda>replica least. if f64_less (ri_Load replica) (ri_Load least) then replica else least"
  obtain r rs where rs: "healthyReplicas now lb = r # rs" "rid = ri_ID (fold ?f rs r)"
    using assms(2-4) by (auto simp: SelectReplica_def selectLeastLoaded_def Let_def split: if_splits list.splits)
  have "fold ?f rs r \<in> set (healthyReplicas now lb)" unfolding rs by (rule least_in)
  then have "map_of (replicas lb) rid = Some (fold ?f rs r)" using healthy_registered [OF lb_run_ok [OF assms(1)]] rs(2) by simp
  with least_minimal [of r rs] assms(5) show ?thesis unfolding rs(1) by blast
qed

section \<open>The rotation\<close>

text \<open>Calls in a row, at one time and with the map listed in the same order.\<close>

fun select_many :: "nat \<Rightarrow> int \<Rightarrow> string \<Rightarrow> LoadBalancer option \<Rightarrow> selection list" where
  "select_many 0 now key lb = []"
| "select_many (Suc n) now key lb = (case SelectReplica now key lb of (s, lb') \<Rightarrow> s # select_many n now key lb')"

lemma round_robin_step:
  assumes "strategy lb = ''round_robin''" "healthyReplicas now lb = rs" "rs \<noteq> []" "0 \<le> currentIndex lb" "currentIndex lb < 2 ^ 63 - 1"
  shows "SelectReplica now key (Some lb) = (Selected (ri_ID (rs ! (nat (currentIndex lb) mod length rs))), Some (lb\<lparr>currentIndex := currentIndex lb + 1\<rparr>))"
proof -
  let ?i = "currentIndex lb"
  have "wrap64 (?i + 1) = ?i + 1" using assms by (intro wrap64_id) (simp add: in_int64_def)
  moreover have "go_rem ?i (int (length rs)) = ?i mod int (length rs)" using assms by (simp add: go_rem_def)
  moreover have "nat (?i mod int (length rs)) = nat ?i mod length rs" using assms by (simp add: nat_mod_distrib)
  ultimately show ?thesis
    using assms at_index_mod [OF assms(3,4)] by (simp add: SelectReplica_def selectRoundRobin_def Let_def)
qed

lemma healthy_index [simp]: "healthyReplicas now (lb\<lparr>currentIndex := i\<rparr>) = healthyReplicas now lb"
  by (simp add: healthyReplicas_def)

lemma select_many_index:
  "strategy lb = ''round_robin'' \<Longrightarrow> healthyReplicas now lb = rs \<Longrightarrow> rs \<noteq> [] \<Longrightarrow> 0 \<le> currentIndex lb \<Longrightarrow> currentIndex lb + int n < 2 ^ 63 \<Longrightarrow>
   select_many n now key (Some lb) = map (\<lambda>k. Selected (ri_ID (rs ! ((nat (currentIndex lb) + k) mod length rs)))) [0..<n]"
proof (induction n arbitrary: lb)
  case (Suc n)
  let ?i = "currentIndex lb" and ?lb = "lb\<lparr>currentIndex := currentIndex lb + 1\<rparr>"
  have "select_many n now key (Some ?lb) = map (\<lambda>k. Selected (ri_ID (rs ! ((nat (?i + 1) + k) mod length rs)))) [0..<n]"
    using Suc.IH [of ?lb] Suc.prems by simp
  also have "\<dots> = map (\<lambda>k. Selected (ri_ID (rs ! ((nat ?i + Suc k) mod length rs)))) [0..<n]"
    using Suc.prems(4) by (simp add: nat_add_distrib)
  finally show ?case using round_robin_step [OF Suc.prems(1-4)] Suc.prems(5)
    by (simp add: map_upt_Suc del: upt_Suc)
qed simp

text \<open>The rotation is fair: as many selections in a row as there are healthy replicas, with the map listed in the same
  order and before the index overflows, take every one of them exactly once, in the order of the list, beginning where the index points.\<close>

theorem round_robin_fair:
  assumes "strategy lb = ''round_robin''" "healthyReplicas now lb = rs" "0 \<le> currentIndex lb" "currentIndex lb + int (length rs) < 2 ^ 63"
  shows "select_many (length rs) now key (Some lb) = map (\<lambda>r. Selected (ri_ID r)) (rotate (nat (currentIndex lb)) rs)"
proof (cases "rs = []")
  case False
  show ?thesis unfolding select_many_index [OF assms(1,2) False assms(3,4)]
    by (rule nth_equalityI) (simp_all add: nth_rotate)
qed simp

section \<open>Scaling\<close>

text \<open>At least as high, for numbers.\<close>

definition f64_le :: "f64 \<Rightarrow> f64 \<Rightarrow> bool" where
  "f64_le x y \<longleftrightarrow> x \<noteq> NaN \<and> y \<noteq> NaN \<and> \<not> f64_less y x"

definition urgency :: "string \<Rightarrow> int" where
  "urgency action = (if action = ''scale_up'' then 2 else if action = ''scale_down'' then 0 else 1)"

lemma f64_less_le: "f64_less x y \<Longrightarrow> f64_le y z \<Longrightarrow> f64_less x z"
  by (cases x; cases y; cases z) (auto simp: f64_le_def)

lemma f64_le_less: "f64_le x y \<Longrightarrow> f64_less y z \<Longrightarrow> f64_less x z"
  by (cases x; cases y; cases z) (auto simp: f64_le_def)

text \<open>Decisions to scale follow the load: with more CPU usage, a deeper queue and a longer response time the decision never turns
  towards fewer replicas, so there is no range in which more load scales down.\<close>

theorem scaling_monotone:
  assumes "f64_le cpu cpu'" "depth \<le> depth'" "f64_le response response'"
  shows "urgency (fst (decide conf cpu depth response)) \<le> urgency (fst (decide conf cpu' depth' response'))"
  using assms f64_less_le [OF _ assms(1)] f64_less_le [OF _ assms(3)] f64_le_less [OF assms(1)]
  by (auto simp: decide_def urgency_def Let_def)

section \<open>Locks taken twice\<close>

text \<open>C37. High availability stalls at once when the main program starts it with automatic scaling on, so that there is a coordinator: the coordinator asks in its
  first update for the lock it holds, the loop that collects the readings never continues, so whatever the readings, nothing is published and the balancer never learns of a
  replica and selects none; and after the first reading every evaluation of the scaling blocks as well.\<close>

theorem ha_stalls:
  assumes "startHAComponents getenv host = Some ha" "ha_coordinator ha = Some c"
  shows "published (startHAMetricsLoop rds ha) = [] \<and>
    (\<forall>lb. ha_balancer (startHAMetricsLoop rds ha) = Some lb \<longrightarrow> (\<exists>e. fst (SelectReplica now key (Some lb)) = NoReplica e)) \<and>
    (rds \<noteq> [] \<longrightarrow> EvaluateScaling (ha_coordinator (startHAMetricsLoop rds ha)) = None)"
proof -
  have c: "haMetrics c" "\<not> metrics_locked c" and ha: "published ha = []" "\<And>lb. ha_balancer ha = Some lb \<Longrightarrow> replicas lb = []"
    using assms by (auto simp: startHAComponents_def Let_def NewHPACoordinator_def NewLoadBalancer_def split: if_splits)
  have stall: "snd (updateHAMetrics rd ha) = False \<and> published (fst (updateHAMetrics rd ha)) = [] \<and> ha_balancer (fst (updateHAMetrics rd ha)) = ha_balancer ha \<and>
      (\<exists>c'. ha_coordinator (fst (updateHAMetrics rd ha)) = Some c' \<and> metrics_locked c')" for rd
    using c ha(1) assms(2) by (auto simp: updateHAMetrics_def UpdateMetrics_def calculateLoad_def Let_def)
  have run: "startHAMetricsLoop rds ha = (case rds of [] \<Rightarrow> ha | rd # _ \<Rightarrow> fst (updateHAMetrics rd ha))"
    using stall by (cases rds) (auto split: prod.splits bool.splits simp: prod_eq_iff)
  have none: "replicas lb = [] \<Longrightarrow> fst (SelectReplica now key (Some lb)) = NoReplica ''no healthy replicas available''" for lb
    by (simp add: SelectReplica_def healthyReplicas_def)
  show ?thesis
  proof (cases rds)
    case Nil
    then show ?thesis using ha none by (auto simp: run)
  next
    case (Cons rd rest)
    have "startHAMetricsLoop rds ha = fst (updateHAMetrics rd ha)" unfolding run unfolding Cons by simp
    then show ?thesis using stall [of rd] ha(2) none by (auto simp: EvaluateScaling_def)
  qed
qed

text \<open>The traffic analyzer, which the main program does not build, blocks in its first update as well.\<close>

theorem analyzer_blocks: "snd (UpdateWindow now (NewTrafficAnalyzer dconf)) = False"
  by (auto simp: UpdateWindow_def NewTrafficAnalyzer_def GetOptimalWindow_def CalculateEventsPerSecond_def Let_def)

section \<open>Examples\<close>

definition lb_conf :: "string \<Rightarrow> LoadBalancingConfig" where
  "lb_conf st = \<lparr>lb_Strategy = st, HealthCheckInterval = ''30s'', RebalanceThreshold = Fin 2\<rparr>"

definition two_replicas :: "string \<Rightarrow> LoadBalancer" where
  "two_replicas st =
     UpdateReplica 0 ''b'' (Fin (1 / 4)) (Fin 10) (Fin 0) (Fin 5) True
       (UpdateReplica 0 ''a'' (Fin (1 / 2)) (Fin 50) (Fin 0) (Fin 5) True (the (NewLoadBalancer (Some (lb_conf st)))))"

lemma two_replicas_run: "lb_run (lb_conf st) (two_replicas st)"
  unfolding two_replicas_def by (intro lb_run.update lb_run.new) (simp add: NewLoadBalancer_def)

lemma two_replicas_healthy: "map ri_ID (healthyReplicas 1 (two_replicas st)) = [''a'', ''b'']"
  by (simp add: two_replicas_def UpdateReplica_def NewLoadBalancer_def healthyReplicas_def Let_def)

theorem selection_healthy_witness:
  "\<exists>r. map_of (replicas (two_replicas ''least_loaded'')) ''b'' = Some r \<and> ri_Healthy r"
proof -
  have "fst (SelectReplica 1 ''key'' (Some (two_replicas ''least_loaded''))) = Selected ''b''" by code_simp
  then obtain lb' where "SelectReplica 1 ''key'' (Some (two_replicas ''least_loaded'')) = (Selected ''b'', lb')" by (metis prod.collapse)
  from selection_healthy [OF two_replicas_run this] show ?thesis by auto
qed

theorem round_robin_fair_witness:
  "select_many 2 1 ''key'' (Some (two_replicas ''round_robin'')) = [Selected ''a'', Selected ''b'']"
proof -
  let ?lb = "two_replicas ''round_robin''" let ?rs = "healthyReplicas 1 ?lb"
  have lb: "strategy ?lb = ''round_robin''" "currentIndex ?lb = 0"
    by (simp_all add: two_replicas_def UpdateReplica_def NewLoadBalancer_def lb_conf_def Let_def)
  have len: "length ?rs = 2" using arg_cong [OF two_replicas_healthy [of "''round_robin''"], of length] by simp
  have "map (\<lambda>r. Selected (ri_ID r)) ?rs = map Selected [''a'', ''b'']"
    using arg_cong [OF two_replicas_healthy [of "''round_robin''"], of "map Selected"] by (simp add: comp_def)
  with round_robin_fair [OF lb(1) refl, where now = 1 and key = "''key''"] lb(2) len show ?thesis by simp
qed

theorem scaling_monotone_witness:
  "urgency (fst (decide (AutoScaling (LoadHAConfig (\<lambda>_. []))) (Fin 10) 5 (Fin 1))) \<le> urgency (fst (decide (AutoScaling (LoadHAConfig (\<lambda>_. []))) (Fin 90) 5 (Fin 1)))"
  by (rule scaling_monotone) (simp_all add: f64_le_def)

theorem ha_stalls_witness:
  "\<exists>ha. startHAComponents (\<lambda>k. if k = ''HA_OPTIMIZATION_ENABLED'' then ''true'' else []) ''host'' = Some ha \<and>
     published (startHAMetricsLoop [\<lparr>rd_cpu = Fin 10, rd_memory = Fin 0, rd_events = Fin 0, rd_queue = 0, rd_response = Fin 0, rd_now = 0, rd_host = ''host''\<rparr>] ha) = []"
proof -
  let ?env = "\<lambda>k. if k = ''HA_OPTIMIZATION_ENABLED'' then ''true'' else []"
  have on: "getEnvBool ?env ''HA_OPTIMIZATION_ENABLED'' False" "getEnvBool ?env ''HA_AUTO_SCALING_ENABLED'' True" by code_simp+
  then obtain ha c where ha: "startHAComponents ?env ''host'' = Some ha" "ha_coordinator ha = Some c"
    by (simp add: startHAComponents_def LoadHAConfig_def Let_def NewHPACoordinator_def)
  from ha_stalls [OF this] ha(1) show ?thesis by blast
qed

end
