(* ===== verification/Ingester_Lint.thy ===== *)
theory Ingester_Lint
  imports Ingester_Config
begin

text \<open>
  The linter of Ingesters, \<^verbatim>\<open>cmd/ingester-lint/main.go\<close>. Reading a file and decoding its YAML are parameters; the output and the flags are
  left out, the exit code is \<open>exit_code\<close>.

  Results: an Ingester without errors is accepted by the loader, if any of its destinations is a map; the summary adds up and a
  stricter threshold fails whenever a laxer one does; Ingesters with several sources, which the loader accepts, always have errors.
\<close>

section \<open>Issues\<close>

record Issue =
  i_Severity :: string
  i_Code :: string
  i_Message :: string
  i_Field :: string

record Summary =
  Total :: int
  Errors :: int
  Warnings :: int
  Infos :: int

record LintResult =
  File :: string
  Issues :: "Issue list"
  summary :: Summary

record IngesterSpec =
  APIVersion :: string
  Kind :: string
  Metadata :: "obj option"
  Spec :: "obj option"

abbreviation issue :: "string \<Rightarrow> string \<Rightarrow> string \<Rightarrow> string \<Rightarrow> Issue" where
  "issue severity code message field \<equiv> \<lparr>i_Severity = severity, i_Code = code, i_Message = message, i_Field = field\<rparr>"

definition countBySeverity :: "Issue list \<Rightarrow> string \<Rightarrow> int" where
  "countBySeverity issues severity = int (length (filter (\<lambda>i. i_Severity i = severity) issues))"

section \<open>The checks\<close>

definition isHighRateSource :: "string \<Rightarrow> string \<Rightarrow> bool" where
  "isHighRateSource source ingesterType = list_ex (\<lambda>s. source = s \<or> ingesterType = s) [''audit'', ''kubernetes-events'']"

definition isDuplicateProneSource :: "string \<Rightarrow> bool" where
  "isDuplicateProneSource source = list_ex (\<lambda>s. source = s) [''cert-manager'', ''sealed-secrets'']"

text \<open>The pattern is not looked at; bytes of other characters are outside the ranges, as those characters are.\<close>

definition lint_matchesPattern :: "string \<Rightarrow> bool" where
  "lint_matchesPattern s = list_all (\<lambda>r. in_range 97 122 r \<or> in_range 48 57 r \<or> r = CHR ''-'') s"

definition lintRequiredFields :: "obj \<Rightarrow> Issue list" where
  "lintRequiredFields spec =
     (if non_nil (as_string (idx spec ''source'')) = None
      then [issue ''error'' ''MISSING_SOURCE'' ''spec.source is required'' ''spec.source''] else []) @
     (if non_nil (as_string (idx spec ''ingester'')) = None
      then [issue ''error'' ''MISSING_INGESTER'' ''spec.ingester is required'' ''spec.ingester''] else []) @
     (if list_at spec ''destinations'' = []
      then [issue ''error'' ''MISSING_DESTINATIONS'' ''spec.destinations is required and must have at least one destination'' ''spec.destinations''] else [])"

abbreviation dest_field :: "nat \<Rightarrow> string \<Rightarrow> string" where
  "dest_field i sfx \<equiv> ''spec.destinations['' @ show_int (int i) @ '']'' @ sfx"

abbreviation apostrophes :: "string \<Rightarrow> string" where
  "apostrophes s \<equiv> [CHR 39] @ s @ [CHR 39]"

definition lint_destination :: "nat \<Rightarrow> val \<Rightarrow> Issue list" where
  "lint_destination i dest =
     (case as_map dest of None \<Rightarrow> []
      | Some destMap \<Rightarrow>
          (let destType = getString destMap ''type''
           in if destType \<noteq> ''crd''
              then [issue ''error'' ''INVALID_DESTINATION_TYPE''
                      (''Destination type '' @ apostrophes destType @ '' is not supported in v1 (only '' @ apostrophes ''crd'' @ '' is supported)'') (dest_field i ''.type'')]
              else (let value = getString destMap ''value''
                    in if value = []
                       then [issue ''error'' ''MISSING_DESTINATION_VALUE'' (''Destination value is required for type '' @ apostrophes ''crd'') (dest_field i ''.value'')]
                       else if \<not> lint_matchesPattern value
                       then [issue ''error'' ''INVALID_DESTINATION_VALUE''
                               (''Destination value '' @ apostrophes value @ '' does not match pattern ^[a-z0-9-]+$'') (dest_field i ''.value'')]
                       else [])))"

definition lintDestinations :: "val list \<Rightarrow> Issue list" where
  "lintDestinations destinations = concat (map (\<lambda>(i, dest). lint_destination i dest) (zip [0..<length destinations] destinations))"

definition lintDangerousSettings :: "obj \<Rightarrow> string \<Rightarrow> string \<Rightarrow> Issue list" where
  "lintDangerousSettings spec source ingesterType =
     (if isHighRateSource source ingesterType \<and> (case map_at spec ''filters'' of None \<Rightarrow> True | Some filters \<Rightarrow> filters = [])
      then [issue ''error'' ''NO_FILTERS_HIGH_RATE''
              (''Source '' @ apostrophes source @ '' is known for high event rates but has no filters configured'') ''spec.filters''] else []) @
     (case map_at spec ''informer'' of None \<Rightarrow> []
      | Some informer \<Rightarrow>
          if getString informer ''namespace'' = [] \<and> getString informer ''labelSelector'' = [] \<and> getString informer ''fieldSelector'' = []
          then [issue ''warning'' ''WIDE_MATCHER'' ''Informer has no namespace, label, or field selectors - will watch all resources'' ''spec.informer''] else []) @
     (if isDuplicateProneSource source \<and>
         (case map_at spec ''deduplication'' of None \<Rightarrow> True | Some dedup \<Rightarrow> as_bool (idx dedup ''enabled'') \<noteq> Some True)
      then [issue ''error'' ''NO_DEDUP_DUPLICATE_PRONE''
              (''Source '' @ apostrophes source @ '' is known for duplicate events but deduplication is disabled or missing'') ''spec.deduplication''] else [])"

definition missing_map :: "obj \<Rightarrow> string \<Rightarrow> bool" where
  "missing_map m k = (case map_at m k of None \<Rightarrow> True | Some x \<Rightarrow> x = [])"

definition lint_mapping :: "nat \<Rightarrow> val \<Rightarrow> Issue list" where
  "lint_mapping i dest =
     (case Option.bind (as_map dest) (\<lambda>m. map_at m ''mapping'') of None \<Rightarrow> []
      | Some mapping \<Rightarrow>
          (if missing_map mapping ''priority''
           then [issue ''info'' ''NO_PRIORITY_MAPPING'' ''No priority mapping configured - events may get default priority'' (dest_field i ''.mapping.priority'')] else []) @
          (if missing_map mapping ''severityMap''
           then [issue ''info'' ''NO_SEVERITY_MAPPING'' ''No severity mapping configured - severity may not be normalized correctly'' (dest_field i ''.mapping.severityMap'')] else []) @
          (if list_at mapping ''fieldMapping'' = []
           then [issue ''info'' ''NO_FIELD_MAPPING'' ''No field mappings configured - source-specific fields may not be extracted'' (dest_field i ''.mapping.fieldMapping'')] else []))"

definition lintNormalizationHints :: "val list \<Rightarrow> Issue list" where
  "lintNormalizationHints destinations = concat (map (\<lambda>(i, dest). lint_mapping i dest) (zip [0..<length destinations] destinations))"

definition lintIngester :: "IngesterSpec \<Rightarrow> Issue list" where
  "lintIngester ingester =
     (case Spec ingester of
        None \<Rightarrow> [issue ''error'' ''MISSING_SPEC'' ''Ingester spec is missing'' ''spec'']
      | Some spec \<Rightarrow>
          lintRequiredFields spec @ lintDestinations (list_at spec ''destinations'') @
          lintDangerousSettings spec (getString spec ''source'') (getString spec ''ingester'') @ lintNormalizationHints (list_at spec ''destinations''))"

section \<open>Files\<close>

definition one_error :: "string \<Rightarrow> string \<Rightarrow> string \<Rightarrow> LintResult" where
  "one_error filename code message =
     \<lparr>File = filename, Issues = [issue ''error'' code message []], summary = \<lparr>Total = 1, Errors = 1, Warnings = 0, Infos = 0\<rparr>\<rparr>"

text \<open>\<open>read_file\<close> and \<open>yaml\<close> give the error or the contents.\<close>

definition lintFile :: "(string \<Rightarrow> string + string) \<Rightarrow> (string \<Rightarrow> string + IngesterSpec) \<Rightarrow> string \<Rightarrow> LintResult" where
  "lintFile read_file yaml filename =
     (case read_file filename of
        Inl err \<Rightarrow> one_error filename ''FILE_READ_ERROR'' (''Failed to read file: '' @ err)
      | Inr data \<Rightarrow>
          (case yaml data of
             Inl err \<Rightarrow> one_error filename ''PARSE_ERROR'' (''Failed to parse YAML: '' @ err)
           | Inr ingester \<Rightarrow>
               if Kind ingester \<noteq> ''Ingester'' \<or> \<not> contains_str (APIVersion ingester) ''zen.kube-zen.io''
               then \<lparr>File = filename, Issues = [], summary = \<lparr>Total = 0, Errors = 0, Warnings = 0, Infos = 0\<rparr>\<rparr>
               else (let issues = lintIngester ingester
                     in \<lparr>File = filename, Issues = issues,
                         summary = \<lparr>Total = int (length issues), Errors = countBySeverity issues ''error'',
                           Warnings = countBySeverity issues ''warning'', Infos = countBySeverity issues ''info''\<rparr>\<rparr>)))"

definition shouldFail :: "LintResult \<Rightarrow> string \<Rightarrow> bool" where
  "shouldFail result threshold =
     (if threshold = ''warning'' then Errors (summary result) > 0 \<or> Warnings (summary result) > 0
      else if threshold = ''info'' then Total (summary result) > 0
      else Errors (summary result) > 0)"

definition exit_code :: "(string \<Rightarrow> string + string) \<Rightarrow> (string \<Rightarrow> string + IngesterSpec) \<Rightarrow> string \<Rightarrow> string list \<Rightarrow> int" where
  "exit_code read_file yaml threshold files =
     (if files = [] \<or> list_ex (\<lambda>f. shouldFail (lintFile read_file yaml f) threshold) files then 1 else 0)"

definition print_issue :: "Issue \<Rightarrow> string" where
  "print_issue i =
     ''  ['' @ to_upper (i_Severity i) @ ''] '' @ i_Code i @ '': '' @ i_Message i @
     (if i_Field i \<noteq> [] then '' (field: '' @ i_Field i @ '')'' else []) @ [CHR 10]"

definition printTextOutput :: "LintResult \<Rightarrow> string" where
  "printTextOutput result =
     (if Total (summary result) = 0
      then [CHR 0xE2, CHR 0x9C, CHR 0x93] @ '' '' @ File result @ '': No issues found'' @ [CHR 10]
      else File result @ '':'' @ [CHR 10] @ concat (map print_issue (Issues result)) @
           ''  Summary: '' @ show_int (Total (summary result)) @ '' total ('' @ show_int (Errors (summary result)) @ '' errors, '' @
           show_int (Warnings (summary result)) @ '' warnings, '' @ show_int (Infos (summary result)) @ '' infos)'' @ [CHR 10])"

section \<open>What a clean Ingester is\<close>

lemma count_zero: "countBySeverity issues sev = 0 \<longleftrightarrow> (\<forall>i \<in> set issues. i_Severity i \<noteq> sev)"
  by (auto simp: countBySeverity_def filter_empty_conv)

lemma count_append [simp]: "countBySeverity (xs @ ys) sev = countBySeverity xs sev + countBySeverity ys sev"
  by (simp add: countBySeverity_def)

lemma count_nonneg [simp]: "0 \<le> countBySeverity xs sev"
  by (simp add: countBySeverity_def)

lemma count_parts: "countBySeverity (xs @ ys) sev = 0 \<longleftrightarrow> countBySeverity xs sev = 0 \<and> countBySeverity ys sev = 0"
  using count_nonneg [of xs sev] count_nonneg [of ys sev] by (simp del: count_nonneg) linarith

text \<open>A group, version and resource that is given but not valid makes the loader skip a destination.\<close>

definition bad_gvr :: "obj \<Rightarrow> bool" where
  "bad_gvr destMap =
     (case map_at destMap ''gvr'' of None \<Rightarrow> False
      | Some m \<Rightarrow> getString m ''version'' \<noteq> [] \<and> getString m ''resource'' \<noteq> [] \<and>
          ValidateGVRConfig (getString m ''group'') (getString m ''version'') (getString m ''resource'') \<noteq> None)"

definition clean_destination :: "val \<Rightarrow> bool" where
  "clean_destination dest =
     (case as_map dest of None \<Rightarrow> True
      | Some m \<Rightarrow> getString m ''type'' = ''crd'' \<and> getString m ''value'' \<noteq> [] \<and> lint_matchesPattern (getString m ''value''))"

lemma lint_destination_clean: "countBySeverity (lint_destination i dest) ''error'' = 0 \<longleftrightarrow> clean_destination dest"
  by (auto simp: lint_destination_def clean_destination_def countBySeverity_def Let_def split: option.splits)

lemma lint_destinations_clean: "countBySeverity (lintDestinations ds) ''error'' = 0 \<Longrightarrow> d \<in> set ds \<Longrightarrow> clean_destination d"
proof -
  assume a: "countBySeverity (lintDestinations ds) ''error'' = 0" "d \<in> set ds"
  then obtain i where "i < length ds" "ds ! i = d" by (auto simp: in_set_conv_nth)
  then have "(i, d) \<in> set (zip [0..<length ds] ds)" by (force simp: in_set_conv_nth)
  with a(1) have "countBySeverity (lint_destination i d) ''error'' = 0" by (force simp: count_zero lintDestinations_def)
  then show ?thesis by (simp add: lint_destination_clean)
qed

lemma clean_extracted:
  assumes "clean_destination d"
  shows "extractDestination getenv d = None \<longleftrightarrow> (case as_map d of None \<Rightarrow> True | Some m \<Rightarrow> bad_gvr m)"
  using assms
  by (auto simp: clean_destination_def extractDestination_def bad_gvr_def resolveDestinationGVR_def ResolveDestinationGVR_def ObservationsGVR_def Let_def split: option.splits if_splits)

lemma extracted_none: "extractDestinations getenv ds = [] \<longleftrightarrow> (\<forall>d \<in> set ds. extractDestination getenv d = None)"
  unfolding extractDestinations_def by (induction ds) (auto simp: List.map_filter_simps split: option.splits)

lemma extracted_in: "c \<in> set (extractDestinations getenv ds) \<longleftrightarrow> (\<exists>d \<in> set ds. extractDestination getenv d = Some c)"
  unfolding extractDestinations_def by (induction ds) (auto simp: List.map_filter_simps split: option.splits)

text \<open>C36. An Ingester in which the linter finds no error is loaded exactly when one of its destinations is a map whose group,
  version and resource, if given, are valid. It then has the source and kind of its spec, and every destination of it is a custom resource with
  a value that follows the naming pattern.\<close>

theorem lint_clean_loads:
  assumes "countBySeverity (lintIngester ing) ''error'' = 0" "Spec ing = Some spec" "map_at ob ''spec'' = Some spec"
  shows "(ConvertToIngesterConfig getenv u ob \<noteq> None \<longleftrightarrow>
      (\<exists>d \<in> set (list_at spec ''destinations''). \<exists>m. as_map d = Some m \<and> \<not> bad_gvr m)) \<and>
    (\<forall>c. ConvertToIngesterConfig getenv u ob = Some c \<longrightarrow>
      ic_source c = getString spec ''source'' \<and> ic_ingester c = getString spec ''ingester'' \<and>
      (\<forall>dst \<in> set (ic_destinations c). dst_type dst = ''crd'' \<and> dst_value dst \<noteq> [] \<and> lint_matchesPattern (dst_value dst)))"
proof -
  have req: "countBySeverity (lintRequiredFields spec) ''error'' = 0" and dests: "countBySeverity (lintDestinations (list_at spec ''destinations'')) ''error'' = 0"
    using assms(1,2) by (simp_all add: lintIngester_def count_parts del: count_append)
  obtain src where src: "non_nil (as_string (idx spec ''source'')) = Some src"
    using req by (auto simp: lintRequiredFields_def countBySeverity_def split: if_splits)
  obtain kind where kind: "non_nil (as_string (idx spec ''ingester'')) = Some kind"
    using req by (auto simp: lintRequiredFields_def countBySeverity_def split: if_splits)
  obtain ds where ds: "as_list (idx spec ''destinations'') = Some ds" "ds \<noteq> []"
    using req by (auto simp: lintRequiredFields_def countBySeverity_def split: if_splits option.splits)
  have names: "src = getString spec ''source''" "kind = getString spec ''ingester''"
    using src kind by (auto simp: getString_def non_nil_def split: option.splits if_splits)
  have clean: "\<forall>d \<in> set ds. clean_destination d" using lint_destinations_clean [OF dests] ds by simp
  have none: "extractDestinations getenv ds = [] \<longleftrightarrow> \<not> (\<exists>d \<in> set ds. \<exists>m. as_map d = Some m \<and> \<not> bad_gvr m)"
    using clean clean_extracted by (fastforce simp: extracted_none split: option.splits)
  have dst: "dst_type dst = ''crd'' \<and> dst_value dst \<noteq> [] \<and> lint_matchesPattern (dst_value dst)" if "dst \<in> set (extractDestinations getenv ds)" for dst
    using that clean by (fastforce simp: extracted_in extractDestination_def clean_destination_def Let_def split: option.splits if_splits)
  have r: "required_fields getenv spec = (if extractDestinations getenv ds = [] then None else Some (src, kind, extractDestinations getenv ds))"
    using src kind ds by (simp add: required_fields_def Let_def)
  have conv: "ConvertToIngesterConfig getenv u ob \<noteq> None \<longleftrightarrow> extractDestinations getenv ds \<noteq> []"
    using assms(3) r by (auto simp: ConvertToIngesterConfig_def split: prod.splits)
  have some: "ic_source c = src \<and> ic_ingester c = kind \<and> ic_destinations c = extractDestinations getenv ds"
    if "ConvertToIngesterConfig getenv u ob = Some c" for c
    using that assms(3) r by (auto simp: ConvertToIngesterConfig_def with_source_def split: if_splits prod.splits)
  show ?thesis using conv none some dst ds(1) names by auto
qed

definition ingester_of :: "obj \<Rightarrow> IngesterSpec" where
  "ingester_of ob = \<lparr>APIVersion = ''zen.kube-zen.io/v1'', Kind = ''Ingester'', Metadata = map_at ob ''metadata'', Spec = map_at ob ''spec''\<rparr>"

theorem lint_clean_loads_witness: "ConvertToIngesterConfig (\<lambda>_. []) walk_api single0 \<noteq> None"
proof -
  obtain spec where spec: "map_at single0 ''spec'' = Some spec" "list_at spec ''destinations'' = [crd_dest]"
    by (simp add: single0_def idx_def)
  moreover have "countBySeverity (lintIngester (ingester_of single0)) ''error'' = 0" by code_simp
  moreover have "\<exists>m. as_map crd_dest = Some m \<and> \<not> bad_gvr m" by (simp add: crd_dest_def bad_gvr_def idx_def)
  ultimately show ?thesis using lint_clean_loads [of "ingester_of single0" spec single0 "\<lambda>_. []" walk_api] by (simp add: ingester_of_def)
qed

section \<open>The summary\<close>

definition known_severity :: "Issue \<Rightarrow> bool" where
  "known_severity i \<longleftrightarrow> i_Severity i = ''error'' \<or> i_Severity i = ''warning'' \<or> i_Severity i = ''info''"

lemma known [simp]:
  "known_severity (issue ''error'' c m f)" "known_severity (issue ''warning'' c m f)" "known_severity (issue ''info'' c m f)"
  by (simp_all add: known_severity_def)

lemma severities_required [simp]: "list_all known_severity (lintRequiredFields spec)"
  by (simp add: lintRequiredFields_def)

lemma severities_destination [simp]: "list_all known_severity (lint_destination i d)"
  by (simp add: lint_destination_def Let_def split: option.split)

lemma severities_mapping [simp]: "list_all known_severity (lint_mapping i d)"
  by (simp add: lint_mapping_def split: option.split)

lemma severities_settings [simp]: "list_all known_severity (lintDangerousSettings spec source kind)"
  unfolding lintDangerousSettings_def by (simp split: option.split)

lemma list_all_concat_zip: "(\<And>i d. list_all P (f i d)) \<Longrightarrow> list_all P (concat (map (\<lambda>(i, d). f i d) xs))"
  by (induction xs) auto

lemma severities: "list_all known_severity (lintIngester ing)"
  by (simp add: lintIngester_def lintDestinations_def lintNormalizationHints_def list_all_concat_zip split: option.split)

lemma counts_add_up:
  "list_all known_severity xs \<Longrightarrow>
   int (length xs) = countBySeverity xs ''error'' + countBySeverity xs ''warning'' + countBySeverity xs ''info''"
  by (induction xs) (auto simp: countBySeverity_def known_severity_def)

text \<open>The summary of a file adds up: the total is the number of issues, and the numbers by severity sum to it. So a run
  that fails with a laxer threshold fails with a stricter one, whatever the files are.\<close>

theorem lint_summary_adds_up:
  "let s = summary (lintFile read_file yaml filename) in
     Total s = int (length (Issues (lintFile read_file yaml filename))) \<and> Total s = Errors s + Warnings s + Infos s \<and>
     exit_code read_file yaml ''error'' files \<le> exit_code read_file yaml ''warning'' files \<and>
     exit_code read_file yaml ''warning'' files \<le> exit_code read_file yaml ''info'' files"
proof -
  have sum: "Total (summary (lintFile read_file yaml f)) = int (length (Issues (lintFile read_file yaml f))) \<and>
      Total (summary (lintFile read_file yaml f)) = Errors (summary (lintFile read_file yaml f)) + Warnings (summary (lintFile read_file yaml f)) + Infos (summary (lintFile read_file yaml f)) \<and>
      0 \<le> Errors (summary (lintFile read_file yaml f)) \<and> 0 \<le> Warnings (summary (lintFile read_file yaml f)) \<and> 0 \<le> Infos (summary (lintFile read_file yaml f))" for f
    using counts_add_up [OF severities] by (simp add: lintFile_def one_error_def Let_def split: sum.splits)
  have "shouldFail (lintFile read_file yaml f) ''error'' \<Longrightarrow> shouldFail (lintFile read_file yaml f) ''warning''"
    "shouldFail (lintFile read_file yaml f) ''warning'' \<Longrightarrow> shouldFail (lintFile read_file yaml f) ''info''" for f
    using sum [of f] by (auto simp: shouldFail_def)
  then show ?thesis using sum [of filename] by (auto simp: exit_code_def list_ex_iff Let_def)
qed

text \<open>The linter does not know Ingesters with several sources: a spec without a top-level source always has an error,
  although the loader turns its sources into configurations.\<close>

theorem multi_source_rejected:
  "(Spec ing = Some spec \<and> as_string (idx spec ''source'') = None \<longrightarrow> countBySeverity (lintIngester ing) ''error'' > 0) \<and>
   countBySeverity (lintIngester (ingester_of multi0)) ''error'' > 0 \<and> ConvertToIngesterConfigs (\<lambda>_. []) walk_api multi0 \<noteq> []"
proof (intro conjI impI)
  assume a: "Spec ing = Some spec \<and> as_string (idx spec ''source'') = None"
  then have "countBySeverity (lintRequiredFields spec) ''error'' \<noteq> 0" by (simp add: lintRequiredFields_def non_nil_def countBySeverity_def)
  with a have "countBySeverity (lintIngester ing) ''error'' \<noteq> 0" by (simp add: lintIngester_def count_parts del: count_append)
  then show "countBySeverity (lintIngester ing) ''error'' > 0" using count_nonneg [of "lintIngester ing" "''error''"] by linarith
next
  show "countBySeverity (lintIngester (ingester_of multi0)) ''error'' > 0" by code_simp
  show "ConvertToIngesterConfigs (\<lambda>_. []) walk_api multi0 \<noteq> []" by code_simp
qed

end
