(* ===== verification/Sdk_Validate.thy ===== *)
theory Sdk_Validate
  imports Ingester_Config Zen_Time
begin

text \<open>
  The package for external users: its types (\<^verbatim>\<open>pkg/sdk/ingester.go\<close>, \<^verbatim>\<open>observations.go\<close>), the validation of \<^verbatim>\<open>validate.go\<close> and the examples of
  \<^verbatim>\<open>examples.go\<close>. Regular expressions are the trees of \<open>GVR_Validation\<close>. \<open>to_object\<close> is the object an Ingester becomes in the
  API server, by the JSON tags of its fields; metadata and status, of types of the API machinery, are kept in that form.

  Results: a validated Ingester is loaded, with its source, kind and destinations; a validated window is a duration the
  pipeline can read; the examples are valid exactly under the default API group.
\<close>

section \<open>Types (ingester.go, observations.go)\<close>

record sdk_GVRConfig =
  sg_Group :: string
  sg_Version :: string
  sg_Resource :: string

record sdk_FieldMapping =
  sf_From :: string
  sf_To :: string
  sf_Transform :: string

record NormalizationMapping =
  nm_Domain :: string
  nm_Type :: string
  nm_Priority :: obj
  nm_SeverityMap :: obj
  nm_FieldMapping :: "sdk_FieldMapping list"
  nm_Resource :: obj
  nm_Templates :: obj

record Destination =
  d_Type :: string
  d_Value :: string
  d_GVR :: "sdk_GVRConfig option"
  d_Mapping :: "NormalizationMapping option"

record DeduplicationConfig =
  dd_Enabled :: "bool option"
  dd_Fields :: "string list"
  dd_LearningRate :: "f64 option"
  dd_MinChange :: "f64 option"
  dd_Strategy :: string
  dd_Window :: string
  dd_WindowSeconds :: "int option"

record sdk_FilterConfig =
  sf_MinPriority :: "f64 option"
  sf_MinSeverity :: string
  sf_IncludeNamespaces :: "string list"
  sf_ExcludeNamespaces :: "string list"

record sdk_ThresholdRange =
  tr_Warning :: f64
  tr_Critical :: f64

record sdk_OptimizationThresholds =
  so_DedupEffectiveness :: "sdk_ThresholdRange option"
  so_LowSeverityPercent :: "sdk_ThresholdRange option"
  so_ObservationsPerMinute :: "sdk_ThresholdRange option"

record sdk_OptimizationConfig =
  so_Order :: string
  so_Thresholds :: "sdk_OptimizationThresholds option"

record sdk_InformerConfig =
  si_GVR :: "sdk_GVRConfig option"
  si_Namespace :: string
  si_LabelSelector :: string
  si_FieldSelector :: string
  si_ResyncPeriod :: string

record sdk_WebhookConfig =
  sw_Path :: string
  sw_Auth :: "(string \<times> string) option"
  sw_RateLimit :: "int option"

record sdk_LogPattern =
  sl_Regex :: string
  sl_Type :: string
  sl_Priority :: f64

record sdk_LogsConfig =
  sl_PodSelector :: string
  sl_Container :: string
  sl_Patterns :: "sdk_LogPattern list"
  sl_SinceSeconds :: int
  sl_PollInterval :: string

record IngesterSource =
  src_Name :: string
  src_Type :: string
  src_Informer :: "sdk_InformerConfig option"
  src_Logs :: "sdk_LogsConfig option"
  src_Webhook :: "sdk_WebhookConfig option"

text \<open>\<^verbatim>\<open>ProcessingConfig\<close> is its only field.\<close>

record sdk_IngesterSpec =
  s_Sources :: "IngesterSource list"
  s_Source :: string
  s_Ingester :: string
  s_Destinations :: "Destination list"
  s_Deduplication :: "DeduplicationConfig option"
  s_Filters :: "sdk_FilterConfig option"
  s_Optimization :: "sdk_OptimizationConfig option"
  s_Processing :: "string option"
  s_Informer :: "sdk_InformerConfig option"
  s_Webhook :: "sdk_WebhookConfig option"
  s_Logs :: "sdk_LogsConfig option"

record Ingester =
  i_APIVersion :: string
  i_Kind :: string
  i_Metadata :: obj
  i_Spec :: sdk_IngesterSpec
  i_Status :: "obj option"

record sdk_ResourceRef =
  rr_APIVersion :: string
  rr_Kind :: string
  rr_Name :: string
  rr_Namespace :: string

record ObservationSpec =
  os_Source :: string
  os_Category :: string
  os_Severity :: string
  os_EventType :: string
  os_Resource :: "sdk_ResourceRef option"
  os_Details :: obj
  os_DetectedAt :: string
  os_TTL :: "int option"

record sdk_Observation =
  o_APIVersion :: string
  o_Kind :: string
  o_Metadata :: obj
  o_Spec :: ObservationSpec
  o_Status :: "obj option"

section \<open>Validation (validate.go)\<close>

record ValidationError =
  ve_Field :: string
  ve_Message :: string
  ve_Suggestion :: string
  ve_Example :: string

definition Error_text :: "ValidationError \<Rightarrow> string" where
  "Error_text e =
     ''validation error in field '' @ [CHR 39] @ ve_Field e @ [CHR 39] @ '': '' @ ve_Message e @
     (if ve_Suggestion e \<noteq> [] then '' (suggestion: '' @ ve_Suggestion e @ '')'' else []) @
     (if ve_Example e \<noteq> [] then '' (example: '' @ ve_Example e @ '')'' else [])"

abbreviation invalid :: "string \<Rightarrow> string \<Rightarrow> ValidationError option" where
  "invalid field message \<equiv> Some \<lparr>ve_Field = field, ve_Message = message, ve_Suggestion = [], ve_Example = []\<rparr>"

text \<open>The three patterns, and the match of a whole text.\<close>

definition Plus :: "regex \<Rightarrow> regex" where
  "Plus r = Seq r (Star r)"

definition name_pattern :: regex where
  "name_pattern = Plus (Class label_char)"

definition event_type_pattern :: regex where
  "event_type_pattern = Plus (Class (\<lambda>c. alnum c \<or> c = CHR ''_''))"

fun literal :: "string \<Rightarrow> regex" where
  "literal [] = Empty"
| "literal (c # s) = Seq (Class (\<lambda>x. x = c)) (literal s)"

definition window_units :: "string list" where
  "window_units = [''ns'', ''us'', [char_of (0xC2 :: int), char_of (0xB5 :: int), CHR ''s''], ''ms'', ''s'', ''m'', ''h'']"

definition window_pattern :: regex where
  "window_pattern = Seq (Plus (Class is_digit_char)) (foldr (\<lambda>u r. Alt (literal u) r) window_units Nothing)"

definition quote :: "string \<Rightarrow> string" where
  "quote s = [CHR 39] @ s @ [CHR 39]"

definition destination_example :: string where
  "destination_example =
     ''spec:'' @ [CHR 10] @ ''  destinations:'' @ [CHR 10] @ ''    - type: crd'' @ [CHR 10] @ ''      value: observations''"

fun validateDestinations :: "nat \<Rightarrow> Destination list \<Rightarrow> ValidationError option" where
  "validateDestinations i [] = None"
| "validateDestinations i (dest # ds) =
     (let field = (\<lambda>f. ''spec.destinations['' @ show_int (int i) @ ''].'' @ f)
      in if d_Type dest \<noteq> ''crd'' then invalid (field ''type'') (''only '' @ quote ''crd'' @ '' is supported in v1'')
         else if d_Value dest = []
         then Some \<lparr>ve_Field = field ''value'', ve_Message = ''is required for type '' @ quote ''crd'',
                    ve_Suggestion = ''Specify the CRD resource name (e.g., '' @ quote ''observations'' @ '', '' @ quote ''configmaps'' @ '')'', ve_Example = destination_example\<rparr>
         else if \<not> matches name_pattern (d_Value dest) then invalid (field ''value'') ''must match pattern ^[a-z0-9-]+$''
         else validateDestinations (Suc i) ds)"

definition outside :: "f64 option \<Rightarrow> bool" where
  "outside x = (case x of None \<Rightarrow> False | Some v \<Rightarrow> f64_less v (Fin 0) \<or> f64_greater v (Fin 1))"

definition validateDeduplication :: "DeduplicationConfig \<Rightarrow> ValidationError option" where
  "validateDeduplication dedup =
     (if dd_Strategy dedup \<noteq> [] \<and> dd_Strategy dedup \<notin> set [''fingerprint'', ''key'', ''hybrid'']
      then invalid ''spec.deduplication.strategy'' (''must be one of: fingerprint, key, hybrid (got: '' @ dd_Strategy dedup @ '')'')
      else if outside (dd_LearningRate dedup) then invalid ''spec.deduplication.learningRate'' ''must be between 0.0 and 1.0''
      else if outside (dd_MinChange dedup) then invalid ''spec.deduplication.minChange'' ''must be between 0.0 and 1.0''
      else if (case dd_WindowSeconds dedup of None \<Rightarrow> False | Some ws \<Rightarrow> ws < 1 \<or> ws > 31536000)
      then invalid ''spec.deduplication.windowSeconds'' ''must be between 1 and 31536000''
      else if dd_Window dedup \<noteq> [] \<and> \<not> matches window_pattern (dd_Window dedup)
      then invalid ''spec.deduplication.window'' (''must match pattern ^[0-9]+(ns|us|'' @ window_units ! 2 @ ''|ms|s|m|h)$'')
      else None)"

definition validateFilters :: "sdk_FilterConfig \<Rightarrow> ValidationError option" where
  "validateFilters filters =
     (if outside (sf_MinPriority filters) then invalid ''spec.filters.minPriority'' ''must be between 0.0 and 1.0''
      else if sf_MinSeverity filters \<noteq> [] \<and> sf_MinSeverity filters \<notin> set [''CRITICAL'', ''HIGH'', ''MEDIUM'', ''LOW'', ''UNKNOWN'']
      then invalid ''spec.filters.minSeverity'' (''must be one of: CRITICAL, HIGH, MEDIUM, LOW, UNKNOWN (got: '' @ sf_MinSeverity filters @ '')'')
      else None)"

definition or_else :: "'e option \<Rightarrow> 'e option \<Rightarrow> 'e option" where
  "or_else a b = (case a of Some e \<Rightarrow> Some e | None \<Rightarrow> b)"

definition ValidateIngester :: "(string \<Rightarrow> string) \<Rightarrow> Ingester option \<Rightarrow> ValidationError option" where
  "ValidateIngester getenv ingester =
     (case ingester of None \<Rightarrow> invalid ''ingester'' ''ingester is nil''
      | Some ing \<Rightarrow>
          (let expectedV1 = getDefaultAPIGroup getenv @ ''/v1''; expectedV1Alpha1 = getDefaultAPIGroup getenv @ ''/v1alpha1''; spec = i_Spec ing
           in if i_APIVersion ing \<noteq> expectedV1 \<and> i_APIVersion ing \<noteq> expectedV1Alpha1
              then invalid ''apiVersion'' (''must be '' @ expectedV1 @ '' or '' @ expectedV1Alpha1)
              else if i_Kind ing \<noteq> ''Ingester'' then invalid ''kind'' (''must be '' @ quote ''Ingester'')
              else if s_Source spec = [] then invalid ''spec.source'' ''is required''
              else if \<not> matches name_pattern (s_Source spec) then invalid ''spec.source'' ''must match pattern ^[a-z0-9-]+$''
              else if s_Ingester spec = []
              then Some \<lparr>ve_Field = ''spec.ingester'', ve_Message = ''is required'', ve_Suggestion = ''Specify one of: informer, webhook, or logs'',
                         ve_Example = ''spec:'' @ [CHR 10] @ ''  ingester: informer''\<rparr>
              else if s_Ingester spec \<notin> set [''informer'', ''webhook'', ''logs'']
              then invalid ''spec.ingester'' (''must be one of: informer, webhook, logs (got: '' @ s_Ingester spec @ '')'')
              else if s_Destinations spec = []
              then Some \<lparr>ve_Field = ''spec.destinations'', ve_Message = ''must have at least one destination'',
                         ve_Suggestion = ''Add at least one destination (e.g., '' @ quote ''observations'' @ '' CRD)'', ve_Example = destination_example\<rparr>
              else or_else (validateDestinations 0 (s_Destinations spec))
                     (or_else (Option.bind (s_Deduplication spec) validateDeduplication)
                       (Option.bind (s_Filters spec) validateFilters))))"

definition ValidateObservation :: "(string \<Rightarrow> string) \<Rightarrow> sdk_Observation option \<Rightarrow> ValidationError option" where
  "ValidateObservation getenv obs =
     (case obs of None \<Rightarrow> invalid ''observation'' ''observation is nil''
      | Some ob \<Rightarrow>
          (let expectedV1 = getDefaultAPIGroup getenv @ ''/v1''; spec = o_Spec ob
           in if o_APIVersion ob \<noteq> expectedV1 then invalid ''apiVersion'' (''must be '' @ expectedV1)
              else if o_Kind ob \<noteq> ''Observation'' then invalid ''kind'' (''must be '' @ quote ''Observation'')
              else if os_Source spec = [] then invalid ''spec.source'' ''is required''
              else if \<not> matches name_pattern (os_Source spec) then invalid ''spec.source'' ''must match pattern ^[a-z0-9-]+$''
              else if os_Category spec = [] then invalid ''spec.category'' ''is required''
              else if os_Category spec \<notin> set [''security'', ''compliance'', ''performance'', ''operations'', ''cost'']
              then invalid ''spec.category'' (''must be one of: security, compliance, performance, operations, cost (got: '' @ os_Category spec @ '')'')
              else if os_Severity spec = [] then invalid ''spec.severity'' ''is required''
              else if os_Severity spec \<notin> set [''critical'', ''high'', ''medium'', ''low'', ''info'']
              then invalid ''spec.severity'' (''must be one of: critical, high, medium, low, info (got: '' @ os_Severity spec @ '')'')
              else if os_EventType spec = [] then invalid ''spec.eventType'' ''is required''
              else if \<not> matches event_type_pattern (os_EventType spec) then invalid ''spec.eventType'' ''must match pattern ^[a-z0-9_]+$''
              else (case os_TTL spec of None \<Rightarrow> None
                    | Some ttl \<Rightarrow>
                        if ttl < 1 then invalid ''spec.ttlSecondsAfterCreation'' ''must be >= 1''
                        else if ttl > 31536000 then invalid ''spec.ttlSecondsAfterCreation'' ''must be <= 31536000 (1 year)''
                        else None)))"

section \<open>The object of an Ingester\<close>

text \<open>A number without fraction is decoded as an integer, also when it was a float; a nan or an infinity cannot be
  encoded and is left as it is. The untyped maps hold JSON values; a value of another kind is left as it is too.\<close>

fun json_float :: "f64 \<Rightarrow> val" where
  "json_float (Fin q) = (if q = of_int \<lfloor>q\<rfloor> \<and> in_int64 \<lfloor>q\<rfloor> then VInt64 \<lfloor>q\<rfloor> else VFloat (Fin q))"
| "json_float NegZero = VInt64 0"
| "json_float x = VFloat x"

primrec json_val :: "val \<Rightarrow> val" where
  "json_val VNil = VNil"
| "json_val (VBool b) = VBool b"
| "json_val (VStr s) = VStr s"
| "json_val (VInt n) = VInt64 n"
| "json_val (VInt32 n) = VInt64 n"
| "json_val (VInt64 n) = VInt64 n"
| "json_val (VFloat x) = json_float x"
| "json_val (VFloat32 x t) = json_float x"
| "json_val (VBytes b) = VBytes b"
| "json_val (VList vs) = VList (map json_val vs)"
| "json_val (VMap m) = VMap (map (map_prod id json_val) m)"
| "json_val (VOther t) = VOther t"

text \<open>Fields with \<^verbatim>\<open>omitempty\<close>.\<close>

definition opt_field :: "('a \<Rightarrow> val) \<Rightarrow> string \<Rightarrow> 'a option \<Rightarrow> obj" where
  "opt_field f k x = (case x of None \<Rightarrow> [] | Some v \<Rightarrow> [(k, f v)])"

definition str_field :: "string \<Rightarrow> string \<Rightarrow> obj" where
  "str_field k s = (if s = [] then [] else [(k, VStr s)])"

definition list_field :: "('a \<Rightarrow> val) \<Rightarrow> string \<Rightarrow> 'a list \<Rightarrow> obj" where
  "list_field f k xs = (if xs = [] then [] else [(k, VList (map f xs))])"

definition map_field :: "string \<Rightarrow> obj \<Rightarrow> obj" where
  "map_field k m = (if m = [] then [] else [(k, json_val (VMap m))])"

definition int_field :: "string \<Rightarrow> int \<Rightarrow> obj" where
  "int_field k n = (if n = 0 then [] else [(k, VInt64 n)])"

definition gvr_object :: "sdk_GVRConfig \<Rightarrow> val" where
  "gvr_object g = VMap [(''group'', VStr (sg_Group g)), (''version'', VStr (sg_Version g)), (''resource'', VStr (sg_Resource g))]"

definition mapping_object :: "NormalizationMapping \<Rightarrow> val" where
  "mapping_object n =
     VMap (str_field ''domain'' (nm_Domain n) @ str_field ''type'' (nm_Type n) @ map_field ''priority'' (nm_Priority n) @ map_field ''severityMap'' (nm_SeverityMap n) @
       list_field (\<lambda>f. VMap ([(''from'', VStr (sf_From f)), (''to'', VStr (sf_To f))] @ str_field ''transform'' (sf_Transform f))) ''fieldMapping'' (nm_FieldMapping n) @
       map_field ''resource'' (nm_Resource n) @ map_field ''templates'' (nm_Templates n))"

definition destination_fields :: "Destination \<Rightarrow> obj" where
  "destination_fields d =
     (''type'', VStr (d_Type d)) # str_field ''value'' (d_Value d) @ opt_field gvr_object ''gvr'' (d_GVR d) @ opt_field mapping_object ''mapping'' (d_Mapping d)"

definition destination_object :: "Destination \<Rightarrow> val" where
  "destination_object d = VMap (destination_fields d)"

definition dedup_object :: "DeduplicationConfig \<Rightarrow> val" where
  "dedup_object d =
     VMap (opt_field VBool ''enabled'' (dd_Enabled d) @ list_field VStr ''fields'' (dd_Fields d) @ opt_field json_float ''learningRate'' (dd_LearningRate d) @
       opt_field json_float ''minChange'' (dd_MinChange d) @ str_field ''strategy'' (dd_Strategy d) @ str_field ''window'' (dd_Window d) @
       opt_field VInt64 ''windowSeconds'' (dd_WindowSeconds d))"

definition filter_object :: "sdk_FilterConfig \<Rightarrow> val" where
  "filter_object f =
     VMap (opt_field json_float ''minPriority'' (sf_MinPriority f) @ str_field ''minSeverity'' (sf_MinSeverity f) @
       list_field VStr ''includeNamespaces'' (sf_IncludeNamespaces f) @ list_field VStr ''excludeNamespaces'' (sf_ExcludeNamespaces f))"

definition range_object :: "sdk_ThresholdRange \<Rightarrow> val" where
  "range_object r = VMap [(''warning'', json_float (tr_Warning r)), (''critical'', json_float (tr_Critical r))]"

definition optimization_object :: "sdk_OptimizationConfig \<Rightarrow> val" where
  "optimization_object c =
     VMap (str_field ''order'' (so_Order c) @
       opt_field (\<lambda>t. VMap (opt_field range_object ''dedupEffectiveness'' (so_DedupEffectiveness t) @ opt_field range_object ''lowSeverityPercent'' (so_LowSeverityPercent t) @
         opt_field range_object ''observationsPerMinute'' (so_ObservationsPerMinute t))) ''thresholds'' (so_Thresholds c))"

definition informer_object :: "sdk_InformerConfig \<Rightarrow> val" where
  "informer_object c =
     VMap (opt_field gvr_object ''gvr'' (si_GVR c) @ str_field ''namespace'' (si_Namespace c) @ str_field ''labelSelector'' (si_LabelSelector c) @
       str_field ''fieldSelector'' (si_FieldSelector c) @ str_field ''resyncPeriod'' (si_ResyncPeriod c))"

definition webhook_object :: "sdk_WebhookConfig \<Rightarrow> val" where
  "webhook_object c =
     VMap (str_field ''path'' (sw_Path c) @ opt_field (\<lambda>(t, s). VMap (str_field ''type'' t @ str_field ''secretRef'' s)) ''auth'' (sw_Auth c) @
       opt_field (\<lambda>n. VMap (int_field ''requestsPerMinute'' n)) ''rateLimit'' (sw_RateLimit c))"

definition logs_object :: "sdk_LogsConfig \<Rightarrow> val" where
  "logs_object c =
     VMap (str_field ''podSelector'' (sl_PodSelector c) @ str_field ''container'' (sl_Container c) @
       list_field (\<lambda>p. VMap ([(''regex'', VStr (sl_Regex p))] @ str_field ''type'' (sl_Type p) @
         (if sl_Priority p = Fin 0 \<or> sl_Priority p = NegZero then [] else [(''priority'', json_float (sl_Priority p))]))) ''patterns'' (sl_Patterns c) @
       int_field ''sinceSeconds'' (sl_SinceSeconds c) @ str_field ''pollInterval'' (sl_PollInterval c))"

definition source_object :: "IngesterSource \<Rightarrow> val" where
  "source_object s =
     VMap ([(''name'', VStr (src_Name s)), (''type'', VStr (src_Type s))] @ opt_field informer_object ''informer'' (src_Informer s) @
       opt_field logs_object ''logs'' (src_Logs s) @ opt_field webhook_object ''webhook'' (src_Webhook s))"

definition spec_object :: "sdk_IngesterSpec \<Rightarrow> obj" where
  "spec_object s =
     list_field source_object ''sources'' (s_Sources s) @ str_field ''source'' (s_Source s) @ str_field ''ingester'' (s_Ingester s) @
     [(''destinations'', VList (map destination_object (s_Destinations s)))] @
     opt_field dedup_object ''deduplication'' (s_Deduplication s) @ opt_field filter_object ''filters'' (s_Filters s) @
     opt_field optimization_object ''optimization'' (s_Optimization s) @ opt_field (\<lambda>ord. VMap (str_field ''order'' ord)) ''processing'' (s_Processing s) @
     opt_field informer_object ''informer'' (s_Informer s) @ opt_field webhook_object ''webhook'' (s_Webhook s) @ opt_field logs_object ''logs'' (s_Logs s)"

definition to_object :: "Ingester \<Rightarrow> obj" where
  "to_object ing =
     [(''apiVersion'', VStr (i_APIVersion ing)), (''kind'', VStr (i_Kind ing)), (''metadata'', VMap (i_Metadata ing)), (''spec'', VMap (spec_object (i_Spec ing)))] @
     opt_field VMap ''status'' (i_Status ing)"

section \<open>Examples (examples.go)\<close>

definition gvr_of :: "string \<Rightarrow> string \<Rightarrow> string \<Rightarrow> sdk_GVRConfig" where
  "gvr_of g v r = \<lparr>sg_Group = g, sg_Version = v, sg_Resource = r\<rparr>"

definition example_ingester ::
  "string \<Rightarrow> string \<Rightarrow> string \<Rightarrow> string \<Rightarrow> string \<Rightarrow> obj \<Rightarrow> (string \<times> string) list \<Rightarrow> sdk_GVRConfig \<Rightarrow> string \<Rightarrow> string list \<Rightarrow> string \<Rightarrow> sdk_FilterConfig option \<Rightarrow> Ingester" where
  "example_ingester namespace name source domain kind priority fieldmap gvr strat dfields window flt =
     \<lparr>i_APIVersion = ''zen.kube-zen.io/v1'', i_Kind = ''Ingester'', i_Metadata = str_field ''name'' name @ str_field ''namespace'' namespace,
      i_Spec = \<lparr>s_Sources = [], s_Source = source, s_Ingester = ''informer'',
        s_Destinations = [\<lparr>d_Type = ''crd'', d_Value = ''observations'', d_GVR = None,
          d_Mapping = Some \<lparr>nm_Domain = domain, nm_Type = kind, nm_Priority = priority, nm_SeverityMap = [],
            nm_FieldMapping = map (\<lambda>(a, b). \<lparr>sf_From = a, sf_To = b, sf_Transform = []\<rparr>) fieldmap, nm_Resource = [], nm_Templates = []\<rparr>\<rparr>],
        s_Deduplication = Some \<lparr>dd_Enabled = Some True, dd_Fields = dfields, dd_LearningRate = None, dd_MinChange = None, dd_Strategy = strat,
          dd_Window = window, dd_WindowSeconds = None\<rparr>,
        s_Filters = flt, s_Optimization = None, s_Processing = None,
        s_Informer = Some \<lparr>si_GVR = Some gvr, si_Namespace = [], si_LabelSelector = [], si_FieldSelector = [], si_ResyncPeriod = []\<rparr>,
        s_Webhook = None, s_Logs = None\<rparr>,
      i_Status = None\<rparr>"

definition NewTrivyIngester :: "string \<Rightarrow> string \<Rightarrow> Ingester" where
  "NewTrivyIngester namespace name =
     example_ingester namespace name ''trivy'' ''security'' ''vulnerability''
       [(''HIGH'', VFloat (rnd64 (8 / 10))), (''MEDIUM'', VFloat (Fin (1 / 2))), (''LOW'', VFloat (rnd64 (3 / 10)))]
       [(''vulnerabilityID'', ''cve''), (''package'', ''package''), (''installedVersion'', ''version'')]
       (gvr_of ''aquasecurity.github.io'' ''v1alpha1'' ''vulnerabilityreports'') ''fingerprint'' [] ''24h''
       (Some \<lparr>sf_MinPriority = Some (rnd64 (3 / 10)), sf_MinSeverity = [], sf_IncludeNamespaces = [], sf_ExcludeNamespaces = []\<rparr>)"

definition NewKyvernoIngester :: "string \<Rightarrow> string \<Rightarrow> Ingester" where
  "NewKyvernoIngester namespace name =
     example_ingester namespace name ''kyverno'' ''compliance'' ''policy_violation''
       [(''fail'', VFloat (rnd64 (9 / 10))), (''warn'', VFloat (Fin (1 / 2))), (''error'', VFloat (rnd64 (7 / 10)))]
       [(''policy'', ''policy''), (''rule'', ''rule''), (''message'', ''message'')]
       (gvr_of ''kyverno.io'' ''v1'' ''policyviolations'') ''key'' [''policy'', ''rule'', ''resource.name''] ''1h''
       (Some \<lparr>sf_MinPriority = None, sf_MinSeverity = ''MEDIUM'', sf_IncludeNamespaces = [], sf_ExcludeNamespaces = []\<rparr>)"

definition NewKubeBenchIngester :: "string \<Rightarrow> string \<Rightarrow> Ingester" where
  "NewKubeBenchIngester namespace name =
     example_ingester namespace name ''kube-bench'' ''compliance'' ''cis_benchmark''
       [(''FAIL'', VFloat (rnd64 (8 / 10))), (''WARN'', VFloat (rnd64 (4 / 10))), (''PASS'', VFloat (rnd64 (1 / 10)))]
       [(''test_number'', ''test''), (''test_desc'', ''description''), (''status'', ''status'')]
       (gvr_of ''aquasecurity.github.io'' ''v1alpha1'' ''ciskubernetesbenchmarks'') ''key'' [''test_number'', ''node''] ''12h'' None"

section \<open>A validated Ingester is loaded\<close>

lemma valid_destinations:
  "validateDestinations i ds = None \<longleftrightarrow> (\<forall>d \<in> set ds. d_Type d = ''crd'' \<and> d_Value d \<noteq> [] \<and> matches name_pattern (d_Value d))"
  by (induction ds arbitrary: i) (auto simp: Let_def)

lemma or_else_None [simp]: "or_else a b = None \<longleftrightarrow> a = None \<and> b = None"
  by (simp add: or_else_def split: option.splits)

lemma valid_ingester:
  assumes "ValidateIngester getenv (Some ing) = None"
  shows "s_Source (i_Spec ing) \<noteq> []" "s_Ingester (i_Spec ing) \<in> {''informer'', ''webhook'', ''logs''}" "s_Destinations (i_Spec ing) \<noteq> []"
    "\<forall>d \<in> set (s_Destinations (i_Spec ing)). d_Type d = ''crd'' \<and> d_Value d \<noteq> []"
    "s_Deduplication (i_Spec ing) = Some dedup \<Longrightarrow> validateDeduplication dedup = None"
    "s_Filters (i_Spec ing) = Some flt \<Longrightarrow> validateFilters flt = None"
  using assms by (auto simp: ValidateIngester_def Let_def valid_destinations split: if_splits)

text \<open>A group, version and resource that is given in full and not valid.\<close>

definition sdk_bad_gvr :: "Destination \<Rightarrow> bool" where
  "sdk_bad_gvr d =
     (case d_GVR d of None \<Rightarrow> False
      | Some g \<Rightarrow> sg_Version g \<noteq> [] \<and> sg_Resource g \<noteq> [] \<and> ValidateGVRConfig (sg_Group g) (sg_Version g) (sg_Resource g) \<noteq> None)"

lemmas object_fields = opt_field_def str_field_def list_field_def map_field_def int_field_def

lemma destination_keys [simp]:
  "getString (destination_fields d) ''type'' = d_Type d" "getString (destination_fields d) ''value'' = d_Value d"
  "idx (destination_fields d) ''gvr'' = (case d_GVR d of None \<Rightarrow> VNil | Some g \<Rightarrow> gvr_object g)"
  by (simp_all add: destination_fields_def getString_def idx_def object_fields split: option.split)

lemma gvr_keys [simp]:
  "as_map (gvr_object g) = Some [(''group'', VStr (sg_Group g)), (''version'', VStr (sg_Version g)), (''resource'', VStr (sg_Resource g))]"
  by (simp add: gvr_object_def)

lemma gvr_strings [simp]:
  "getString [(''group'', VStr g), (''version'', VStr v), (''resource'', VStr r)] ''group'' = g"
  "getString [(''group'', VStr g), (''version'', VStr v), (''resource'', VStr r)] ''version'' = v"
  "getString [(''group'', VStr g), (''version'', VStr v), (''resource'', VStr r)] ''resource'' = r"
  by (simp_all add: getString_def idx_def)

lemma extract_object:
  assumes "d_Type d = ''crd''" "d_Value d \<noteq> []"
  shows "map_option dst_value (extractDestination getenv (destination_object d)) = (if sdk_bad_gvr d then None else Some (d_Value d))"
proof -
  have "as_map (destination_object d) = Some (destination_fields d)" by (simp add: destination_object_def)
  with assms show ?thesis
    by (cases "d_GVR d")
      (auto simp: extractDestination_def Let_def resolveDestinationGVR_def sdk_bad_gvr_def
        ResolveDestinationGVR_def ObservationsGVR_def)
qed

lemma spec_keys:
  "as_string (idx (spec_object s) ''source'') = (if s_Source s = [] then None else Some (s_Source s))"
  "as_string (idx (spec_object s) ''ingester'') = (if s_Ingester s = [] then None else Some (s_Ingester s))"
  "as_list (idx (spec_object s) ''destinations'') = Some (map destination_object (s_Destinations s))"
  by (simp_all add: spec_object_def idx_def object_fields map_of_append map_add_def split: option.split)

lemma extract_objects:
  "\<forall>d \<in> set ds. d_Type d = ''crd'' \<and> d_Value d \<noteq> [] \<Longrightarrow>
   map dst_value (extractDestinations getenv (map destination_object ds)) = map d_Value (filter (\<lambda>d. \<not> sdk_bad_gvr d) ds)"
proof (induction ds)
  case (Cons d ds)
  have d: "map_option dst_value (extractDestination getenv (destination_object d)) = (if sdk_bad_gvr d then None else Some (d_Value d))"
    using Cons.prems by (intro extract_object) auto
  show ?case using Cons d by (auto simp: extractDestinations_def List.map_filter_simps split: option.splits if_splits)
qed (simp add: extractDestinations_def List.map_filter_simps)

text \<open>C35. An Ingester that passes the validation of the package is loaded from the API server unless the group, version and resource
  of all its destinations are invalid, which the validation does not look at. The configuration has the source and the kind of the
  Ingester, and the values of its remaining destinations in order.\<close>

theorem sdk_valid_loads:
  assumes "ValidateIngester getenv (Some ing) = None"
  shows "case ConvertToIngesterConfig getenv u (to_object ing) of
      None \<Rightarrow> \<forall>d \<in> set (s_Destinations (i_Spec ing)). sdk_bad_gvr d
    | Some c \<Rightarrow> ic_source c = s_Source (i_Spec ing) \<and> ic_ingester c = s_Ingester (i_Spec ing) \<and> ic_destinations c \<noteq> [] \<and>
        map dst_value (ic_destinations c) = map d_Value (filter (\<lambda>d. \<not> sdk_bad_gvr d) (s_Destinations (i_Spec ing)))"
proof -
  let ?s = "i_Spec ing" let ?ds = "extractDestinations getenv (map destination_object (s_Destinations ?s))"
  note v = valid_ingester [OF assms]
  have ds: "map dst_value ?ds = map d_Value (filter (\<lambda>d. \<not> sdk_bad_gvr d) (s_Destinations ?s))" using v(4) by (rule extract_objects)
  have "?ds = [] \<longleftrightarrow> map dst_value ?ds = []" by simp
  then have empty: "?ds = [] \<longleftrightarrow> (\<forall>d \<in> set (s_Destinations ?s). sdk_bad_gvr d)" unfolding ds by (simp add: filter_empty_conv)
  have "s_Ingester ?s \<noteq> []" using v(2) by auto
  then have req: "required_fields getenv (spec_object ?s) = (if ?ds = [] then None else Some (s_Source ?s, s_Ingester ?s, ?ds))"
    using v(1,3) by (simp add: required_fields_def spec_keys non_nil_def Let_def)
  have "map_at (to_object ing) ''spec'' = Some (spec_object ?s)" by (simp add: to_object_def idx_def)
  then show ?thesis using req empty ds by (auto simp: ConvertToIngesterConfig_def with_source_def split: prod.split)
qed

theorem sdk_valid_loads_witness:
  "\<exists>c. ConvertToIngesterConfig (\<lambda>_. []) walk_api (to_object (NewTrivyIngester ''ns'' ''trivy'')) = Some c \<and>
     map dst_value (ic_destinations c) = [''observations'']"
proof -
  let ?ing = "NewTrivyIngester ''ns'' ''trivy''"
  have "ValidateIngester (\<lambda>_. []) (Some ?ing) = None" by code_simp
  from sdk_valid_loads [OF this, of walk_api] show ?thesis
    by (auto simp: NewTrivyIngester_def example_ingester_def sdk_bad_gvr_def split: option.splits)
qed

section \<open>The window of the deduplication\<close>

lemma literal_lang [simp]: "lang (literal u) = {u}"
  by (induction u) auto

lemma plus_lang: "s \<in> lang (Plus (Class p)) \<longleftrightarrow> s \<noteq> [] \<and> list_all p s"
proof (cases s)
  case (Cons c v)
  then show ?thesis unfolding Plus_def by (simp only: seq_class star_class) simp
qed (simp add: Plus_def)

lemma alts_lang: "lang (foldr (\<lambda>u r. Alt (literal u) r) us Nothing) = set us"
  by (induction us) auto

lemma window_split:
  assumes "matches window_pattern w"
  obtains ds u where "w = ds @ u" "ds \<noteq> []" "list_all is_digit_char ds" "u \<in> set window_units"
proof -
  from assms obtain ds u where "w = ds @ u" "ds \<in> lang (Plus (Class is_digit_char))" "u \<in> set window_units"
    unfolding matches_lang window_pattern_def lang.simps(4) alts_lang by blast
  then show ?thesis using that by (auto simp: plus_lang)
qed

lemma units_known: "list_all (\<lambda>u. duration_unit u \<noteq> None \<and> no_number u \<and> u \<noteq> []) window_units"
  by code_simp

text \<open>A window that the validation accepts is a duration that the pipeline reads: it is a number and a unit, and it is read as
  their product. The only exception is a product of \<open>2 ^ 63\<close> nanoseconds, about 292 years, or more, which the validation accepts and
  the pipeline rejects.\<close>

theorem valid_window_reads:
  assumes "validateDeduplication dedup = None" "dd_Window dedup \<noteq> []"
  shows "\<exists>ds u n. dd_Window dedup = ds @ u \<and> list_all is_digit_char ds \<and> duration_unit u = Some n \<and>
    parse_duration (dd_Window dedup) = (if digits_val ds * n < 2 ^ 63 then Some (digits_val ds * n) else None)"
proof -
  have "matches window_pattern (dd_Window dedup)" using assms by (auto simp: validateDeduplication_def split: if_splits)
  then obtain ds u where w: "dd_Window dedup = ds @ u" "ds \<noteq> []" "list_all is_digit_char ds" "u \<in> set window_units" by (rule window_split)
  obtain n where n: "duration_unit u = Some n" "no_number u" "u \<noteq> []" using units_known w(4) unfolding list_all_iff by blast
  have "length (ds @ u) \<noteq> length ''0''" using w(2) n(3) by (cases ds; cases u) auto
  then have "ds @ u \<noteq> ''0''" by metis
  then have "parse_duration (ds @ u) = (if digits_val ds * n < 2 ^ 63 then Some (digits_val ds * n) else None)"
    using parse_number_unit [OF w(2,3) n(2)] n(1) by simp
  then show ?thesis using w n(1) by auto
qed

theorem valid_window_reads_witness:
  "validateDeduplication (the (s_Deduplication (i_Spec (NewTrivyIngester ''ns'' ''trivy'')))) = None \<and> parse_duration ''24h'' \<noteq> Some 0 \<and>
   (\<exists>ds u n. ''24h'' = ds @ u \<and> parse_duration ''24h'' = (if digits_val ds * n < 2 ^ 63 then Some (digits_val ds * n) else None))"
proof -
  let ?d = "the (s_Deduplication (i_Spec (NewTrivyIngester ''ns'' ''trivy'')))"
  have v: "validateDeduplication ?d = None" by code_simp
  have w: "dd_Window ?d = ''24h''" by (simp add: NewTrivyIngester_def example_ingester_def)
  have "parse_duration ''24h'' \<noteq> Some 0" by code_simp
  moreover have "\<exists>ds u n. ''24h'' = ds @ u \<and> list_all is_digit_char ds \<and> duration_unit u = Some n \<and>
    parse_duration ''24h'' = (if digits_val ds * n < 2 ^ 63 then Some (digits_val ds * n) else None)"
    using valid_window_reads [OF v] unfolding w by simp
  ultimately show ?thesis using v by blast
qed

section \<open>The examples\<close>

lemma validation_looks_at:
  assumes "getDefaultAPIGroup getenv = getDefaultAPIGroup getenv'" "i_APIVersion a = i_APIVersion b" "i_Kind a = i_Kind b" "i_Spec a = i_Spec b"
  shows "ValidateIngester getenv (Some a) = ValidateIngester getenv' (Some b)"
  unfolding ValidateIngester_def option.case assms ..

lemma example_group:
  assumes "ValidateIngester getenv (Some ing) = None" "i_APIVersion ing = ''zen.kube-zen.io/v1''"
  shows "getDefaultAPIGroup getenv = ''zen.kube-zen.io''"
proof -
  let ?g = "getDefaultAPIGroup getenv"
  have "?g @ ''/v1'' = ''zen.kube-zen.io'' @ ''/v1'' \<or> ?g @ ''/v1alpha1'' = ''zen.kube-zen.io/v1''"
    using assms by (auto simp: ValidateIngester_def Let_def split: if_splits)
  then show ?thesis
  proof
    assume "?g @ ''/v1alpha1'' = ''zen.kube-zen.io/v1''"
    from arg_cong [OF this, of rev] show ?thesis by simp
  qed (simp only: append_same_eq)
qed

text \<open>The examples of the package are valid exactly when the API group is the default one, since they name it literally: under
  another group they are rejected for their version.\<close>

theorem examples_valid:
  "list_all (\<lambda>ing. ValidateIngester getenv (Some ing) = None) [NewTrivyIngester ns name, NewKyvernoIngester ns name, NewKubeBenchIngester ns name] \<longleftrightarrow>
   getDefaultAPIGroup getenv = ''zen.kube-zen.io''"
proof
  assume "list_all (\<lambda>ing. ValidateIngester getenv (Some ing) = None) [NewTrivyIngester ns name, NewKyvernoIngester ns name, NewKubeBenchIngester ns name]"
  then have "ValidateIngester getenv (Some (NewTrivyIngester ns name)) = None" by simp
  then show "getDefaultAPIGroup getenv = ''zen.kube-zen.io''"
    by (rule example_group) (simp add: NewTrivyIngester_def example_ingester_def)
next
  assume "getDefaultAPIGroup getenv = ''zen.kube-zen.io''"
  then have g: "getDefaultAPIGroup getenv = getDefaultAPIGroup (\<lambda>_. [])" by (simp add: getDefaultAPIGroup_def)
  have eq: "ValidateIngester getenv (Some (NewTrivyIngester ns name)) = ValidateIngester (\<lambda>_. []) (Some (NewTrivyIngester [] []))"
    "ValidateIngester getenv (Some (NewKyvernoIngester ns name)) = ValidateIngester (\<lambda>_. []) (Some (NewKyvernoIngester [] []))"
    "ValidateIngester getenv (Some (NewKubeBenchIngester ns name)) = ValidateIngester (\<lambda>_. []) (Some (NewKubeBenchIngester [] []))"
    by (rule validation_looks_at [OF g];
        simp add: NewTrivyIngester_def NewKyvernoIngester_def NewKubeBenchIngester_def example_ingester_def)+
  have "ValidateIngester (\<lambda>_. []) (Some (NewTrivyIngester [] [])) = None" "ValidateIngester (\<lambda>_. []) (Some (NewKyvernoIngester [] [])) = None"
    "ValidateIngester (\<lambda>_. []) (Some (NewKubeBenchIngester [] [])) = None" by code_simp+
  then show "list_all (\<lambda>ing. ValidateIngester getenv (Some ing) = None) [NewTrivyIngester ns name, NewKyvernoIngester ns name, NewKubeBenchIngester ns name]"
    by (simp add: eq)
qed

section \<open>What the loader makes of a valid Ingester\<close>

text \<open>Two settings of a valid Ingester that the loader reads differently: a least priority of 1 is stored as an integer and
  read as 0, and the mapping of a destination is not read at all, since the loader looks for it elsewhere.\<close>

theorem priority_one_ignored:
  "json_float (Fin 1) = VInt64 1 \<and>
   extractFilterFromLegacy [(''filters'', filter_object \<lparr>sf_MinPriority = Some (Fin 1), sf_MinSeverity = [], sf_IncludeNamespaces = [], sf_ExcludeNamespaces = []\<rparr>)] =
     Some \<lparr>ifl_expression = [], ifl_minPriority = Fin 0, ifl_include = [], ifl_exclude = []\<rparr>"
  by (simp add: extractFilterFromLegacy_def extractFilter_def filter_object_def object_fields idx_def getString_def float_at_def in_int64_def List.map_filter_simps)

theorem mapping_not_read:
  "map_option ic_normalization (ConvertToIngesterConfig getenv u (to_object ing)) \<in> {None, Some None}"
proof -
  have "idx (spec_object (i_Spec ing)) ''normalization'' = VNil"
    by (simp add: spec_object_def idx_def object_fields map_add_def split: option.split)
  then show ?thesis
    by (auto simp: ConvertToIngesterConfig_def to_object_def idx_def [of "(k, v) # m" for k v m] extractNormalization_def with_source_def split: option.split prod.split)
qed

end
