(* ===== verification/Optimization.thy ===== *)
theory Optimization
  imports Event_Config Zen_Time
begin

text \<open>
  The measurements of \<^verbatim>\<open>pkg/optimization\<close>: the sliding window and the collector of \<^verbatim>\<open>metrics_collector.go\<close>, \<^verbatim>\<open>performance_tracker.go\<close>,
  \<^verbatim>\<open>strategy_decider.go\<close>, \<^verbatim>\<open>smart_processor.go\<close>, with the settings of \<^verbatim>\<open>config.go\<close>. Times and durations are nanoseconds; clocks are arguments, one reading for
  each call.
  The Prometheus collectors of a source are fields of its collector.

  Results: the bounded window gives the same sums as a log of everything, while no more than 1000 entries are recent; the
  ratios of a collector are always those of its counters; the peak and the average of a tracker are those of the last
  1000 events; what decides the strategy, and where deciding panics.
\<close>

section \<open>Settings (config.go)\<close>

record opt_OptimizationConfig =
  FilterFirstThresholdLowSeverity :: f64
  DedupFirstThresholdEffectiveness :: f64
  AdaptiveThresholdVolume :: int
  OptimizationInterval :: int
  MaxHistorySize :: int
  MaxLatencies :: int
  AggregationWindow :: int
  CooldownPeriod :: int
  MinEventsForConfidence :: int
  HighDedupRate :: f64
  LowDedupRate :: f64
  HighFilterRate :: f64
  LowFilterRate :: f64
  MaxDecisionFrequency :: int

abbreviation minute :: int where "minute \<equiv> 60000000000"

definition DefaultOptimizationConfig :: opt_OptimizationConfig where
  "DefaultOptimizationConfig =
     \<lparr>FilterFirstThresholdLowSeverity = rnd64 (7 / 10), DedupFirstThresholdEffectiveness = Fin (1 / 2), AdaptiveThresholdVolume = 100,
      OptimizationInterval = 5 * minute, MaxHistorySize = 100, MaxLatencies = 1000, AggregationWindow = 10 * minute, CooldownPeriod = 5 * minute,
      MinEventsForConfidence = 100, HighDedupRate = rnd64 (7 / 10), LowDedupRate = rnd64 (2 / 10), HighFilterRate = rnd64 (7 / 10),
      LowFilterRate = rnd64 (2 / 10), MaxDecisionFrequency = minute\<rparr>"

section \<open>The window (metrics_collector.go)\<close>

record MetricsEntry =
  me_Timestamp :: int
  me_Metrics :: "(string, f64) gomap"

record MetricsWindow =
  windowSize :: int
  entries :: "MetricsEntry list"
  maxEntries :: nat

definition NewMetricsWindow :: "int \<Rightarrow> MetricsWindow" where
  "NewMetricsWindow w = \<lparr>windowSize = w, entries = [], maxEntries = 1000\<rparr>"

text \<open>The index of the first entry after the cutoff, 0 when there is none.\<close>

definition cleanup :: "int \<Rightarrow> MetricsWindow \<Rightarrow> MetricsWindow" where
  "cleanup now mw =
     (let old = takeWhile (\<lambda>e. \<not> me_Timestamp e > now - windowSize mw) (entries mw);
          startIdx = (if length old < length (entries mw) then length old else 0)
      in mw\<lparr>entries := drop startIdx (entries mw)\<rparr>)"

definition AddMetric :: "int \<Rightarrow> string \<Rightarrow> f64 \<Rightarrow> MetricsWindow \<Rightarrow> MetricsWindow" where
  "AddMetric now name value mw =
     (let mw1 = cleanup now mw; es = entries mw1 @ [\<lparr>me_Timestamp = now, me_Metrics = [(name, value)]\<rparr>]
      in mw1\<lparr>entries := drop (length es - maxEntries mw1) es\<rparr>)"

definition value_at :: "(string, f64) gomap \<Rightarrow> string \<Rightarrow> f64" where
  "value_at m name = (case map_of m name of None \<Rightarrow> Fin 0 | Some x \<Rightarrow> x)"

definition count_at :: "(string, int) gomap \<Rightarrow> string \<Rightarrow> int" where
  "count_at m name = (case map_of m name of None \<Rightarrow> 0 | Some n \<Rightarrow> n)"

text \<open>One metric of an entry, added to the sums and the counts.\<close>

definition add_value :: "string \<times> f64 \<Rightarrow> (string, f64) gomap \<times> (string, int) gomap \<Rightarrow> (string, f64) gomap \<times> (string, int) gomap" where
  "add_value nv rc =
     (case (nv, rc) of ((name, value), (result, counts)) \<Rightarrow>
        (put name (f64_add (value_at result name) value) result, put name (count_at counts name + 1) counts))"

definition window_sums :: "int \<Rightarrow> MetricsEntry list \<Rightarrow> (string, f64) gomap \<times> (string, int) gomap" where
  "window_sums cutoff es = fold (\<lambda>e rc. if me_Timestamp e < cutoff then rc else fold add_value (me_Metrics e) rc) es ([], [])"

definition GetWindowMetrics :: "int \<Rightarrow> MetricsWindow \<Rightarrow> (string, f64) gomap" where
  "GetWindowMetrics now mw =
     (let (result, counts) = window_sums (now - windowSize mw) (entries mw)
      in fold (\<lambda>name r. if count_at counts name > 0 then put (name @ ''_avg'') (f64_div (value_at r name) (f64_of_int (count_at counts name))) r else r)
           [''processing_latency'', ''cpu_usage'', ''memory_usage''] result)"

definition GetMetric :: "int \<Rightarrow> string \<Rightarrow> MetricsWindow \<Rightarrow> f64" where
  "GetMetric now name mw = value_at (GetWindowMetrics now mw) name"

section \<open>The collector of a source\<close>

record PerSourceMetricsCollector =
  c_source :: string
  collectionInterval :: int
  window :: MetricsWindow
  eventsProcessed :: int
  eventsFiltered :: int
  eventsDeduped :: int
  filterEffectiveness :: f64
  dedupEffectiveness :: f64
  promEventsProcessed :: nat
  promEventsFiltered :: nat
  promEventsDeduped :: nat
  promProcessingLatency :: "f64 list"
  promFilterEffectiveness :: f64
  promDedupEffectiveness :: f64
  promObservationsPerMin :: f64

definition NewPerSourceMetricsCollector :: "string \<Rightarrow> PerSourceMetricsCollector" where
  "NewPerSourceMetricsCollector source =
     \<lparr>c_source = source, collectionInterval = 30 * second, window = NewMetricsWindow (10 * minute), eventsProcessed = 0, eventsFiltered = 0,
      eventsDeduped = 0, filterEffectiveness = Fin 0, dedupEffectiveness = Fin 0, promEventsProcessed = 0, promEventsFiltered = 0,
      promEventsDeduped = 0, promProcessingLatency = [], promFilterEffectiveness = Fin 0, promDedupEffectiveness = Fin 0, promObservationsPerMin = Fin 0\<rparr>"

definition updateDerivedMetrics :: "PerSourceMetricsCollector \<Rightarrow> PerSourceMetricsCollector" where
  "updateDerivedMetrics c =
     (let ratio = (\<lambda>n. if eventsProcessed c > 0 then f64_div (f64_of_int n) (f64_of_int (eventsProcessed c)) else Fin 0)
      in c\<lparr>filterEffectiveness := ratio (eventsFiltered c), dedupEffectiveness := ratio (eventsDeduped c),
           promFilterEffectiveness := ratio (eventsFiltered c), promDedupEffectiveness := ratio (eventsDeduped c)\<rparr>)"

definition RecordProcessing :: "int \<Rightarrow> int \<Rightarrow> bool \<Rightarrow> PerSourceMetricsCollector \<Rightarrow> PerSourceMetricsCollector" where
  "RecordProcessing now processingTime failed c =
     (let w1 = AddMetric now ''events_processed'' (Fin 1) (window c);
          w2 = AddMetric now ''processing_latency'' (f64_of_int (go_quot processingTime millisecond)) w1;
          w3 = (if failed then AddMetric now ''errors'' (Fin 1) w2 else w2)
      in updateDerivedMetrics (c\<lparr>eventsProcessed := wrap64 (eventsProcessed c + 1), window := w3, promEventsProcessed := promEventsProcessed c + 1,
           promProcessingLatency := promProcessingLatency c @ [Seconds processingTime]\<rparr>))"

definition RecordFiltered :: "int \<Rightarrow> string \<Rightarrow> PerSourceMetricsCollector \<Rightarrow> PerSourceMetricsCollector" where
  "RecordFiltered now reason c =
     updateDerivedMetrics (c\<lparr>eventsFiltered := wrap64 (eventsFiltered c + 1),
       window := AddMetric now (''filter_reason_'' @ reason) (Fin 1) (AddMetric now ''events_filtered'' (Fin 1) (window c)),
       promEventsFiltered := promEventsFiltered c + 1\<rparr>)"

definition RecordDeduped :: "int \<Rightarrow> PerSourceMetricsCollector \<Rightarrow> PerSourceMetricsCollector" where
  "RecordDeduped now c =
     updateDerivedMetrics (c\<lparr>eventsDeduped := wrap64 (eventsDeduped c + 1), window := AddMetric now ''events_deduped'' (Fin 1) (window c),
       promEventsDeduped := promEventsDeduped c + 1\<rparr>)"

record opt_OptimizationMetrics =
  om_Source :: string
  om_EventsProcessed :: int
  om_EventsFiltered :: int
  om_EventsDeduped :: int
  ProcessingLatency :: int
  DeduplicationRate :: f64
  om_FilterEffectiveness :: f64
  FalsePositiveRate :: f64
  CPUUsagePercent :: f64
  MemoryUsageBytes :: int
  NetworkBytes :: int
  OptimizationCount :: int
  LowSeverityPercent :: f64
  ObservationsPerMinute :: f64

definition GetOptimizationMetrics :: "int \<Rightarrow> PerSourceMetricsCollector \<Rightarrow> opt_OptimizationMetrics \<times> PerSourceMetricsCollector" where
  "GetOptimizationMetrics now c =
     (let windowMetrics = GetWindowMetrics now (window c); processed = GetMetric now ''events_processed'' (window c);
          perMinute = f64_mul (f64_div processed (Fin 10)) (Fin 6)
      in (\<lparr>om_Source = c_source c, om_EventsProcessed = eventsProcessed c, om_EventsFiltered = eventsFiltered c, om_EventsDeduped = eventsDeduped c,
           ProcessingLatency = f64_to_int (value_at windowMetrics ''processing_latency_avg''), DeduplicationRate = dedupEffectiveness c,
           om_FilterEffectiveness = filterEffectiveness c, FalsePositiveRate = Fin 0,
           CPUUsagePercent = Fin 0, MemoryUsageBytes = 0, NetworkBytes = 0, OptimizationCount = 0, LowSeverityPercent = Fin 0, ObservationsPerMinute = perMinute\<rparr>,
          c\<lparr>promObservationsPerMin := perMinute\<rparr>))"

definition collector_Reset :: "PerSourceMetricsCollector \<Rightarrow> PerSourceMetricsCollector" where
  "collector_Reset c =
     c\<lparr>eventsProcessed := 0, eventsFiltered := 0, eventsDeduped := 0, filterEffectiveness := Fin 0, dedupEffectiveness := Fin 0,
       window := NewMetricsWindow (10 * minute)\<rparr>"

section \<open>The performance tracker (performance_tracker.go)\<close>

text \<open>The zero time is \<open>None\<close>.\<close>

record PerformanceTracker =
  t_source :: string
  startTime :: "int option"
  endTime :: "int option"
  active :: bool
  latencies :: "int list"
  maxLatencies :: nat
  totalProcessed :: int

record PerformanceData =
  pd_Source :: string
  AverageLatency :: int
  PeakLatency :: int
  pd_TotalProcessed :: int
  Throughput :: f64
  pd_LastUpdated :: int

definition NewPerformanceTracker :: "string \<Rightarrow> PerformanceTracker" where
  "NewPerformanceTracker source =
     \<lparr>t_source = source, startTime = None, endTime = None, active = False, latencies = [], maxLatencies = nat (MaxLatencies DefaultOptimizationConfig), totalProcessed = 0\<rparr>"

definition StartProcessing :: "int \<Rightarrow> PerformanceTracker \<Rightarrow> PerformanceTracker" where
  "StartProcessing now pt = pt\<lparr>startTime := Some now, active := True\<rparr>"

definition EndProcessing :: "int \<Rightarrow> PerformanceTracker \<Rightarrow> PerformanceTracker" where
  "EndProcessing now pt = pt\<lparr>endTime := Some now, active := False\<rparr>"

definition RecordEvent :: "int \<Rightarrow> PerformanceTracker \<Rightarrow> PerformanceTracker" where
  "RecordEvent processingTime pt =
     pt\<lparr>totalProcessed := wrap64 (totalProcessed pt + 1),
        latencies := (if length (latencies pt) \<ge> maxLatencies pt then tl (latencies pt) else latencies pt) @ [processingTime]\<rparr>"

definition GetAverageLatency :: "PerformanceTracker \<Rightarrow> int" where
  "GetAverageLatency pt =
     (if latencies pt = [] then 0 else go_quot (fold (\<lambda>lat s. wrap64 (s + lat)) (latencies pt) 0) (int (length (latencies pt))))"

definition GetPeakLatency :: "PerformanceTracker \<Rightarrow> int" where
  "GetPeakLatency pt = fold (\<lambda>lat peak. if lat > peak then lat else peak) (latencies pt) 0"

definition GetThroughput :: "int \<Rightarrow> PerformanceTracker \<Rightarrow> f64" where
  "GetThroughput now pt =
     (if \<not> active pt then Fin 0
      else case startTime pt of None \<Rightarrow> Fin 0
           | Some t \<Rightarrow> (if Seconds (now - t) = Fin 0 \<or> Seconds (now - t) = NegZero then Fin 0 else f64_div (f64_of_int (totalProcessed pt)) (Seconds (now - t))))"

definition GetPerformanceData :: "int \<Rightarrow> PerformanceTracker \<Rightarrow> PerformanceData" where
  "GetPerformanceData now pt =
     \<lparr>pd_Source = t_source pt, AverageLatency = GetAverageLatency pt, PeakLatency = GetPeakLatency pt, pd_TotalProcessed = totalProcessed pt,
      Throughput = GetThroughput now pt, pd_LastUpdated = now\<rparr>"

definition tracker_Reset :: "PerformanceTracker \<Rightarrow> PerformanceTracker" where
  "tracker_Reset pt = pt\<lparr>startTime := None, endTime := None, active := False, totalProcessed := 0, latencies := []\<rparr>"

section \<open>The strategy (strategy_decider.go)\<close>

datatype ProcessingStrategy = ProcessingStrategyFilterFirst | ProcessingStrategyDedupFirst

fun strategy_String :: "ProcessingStrategy \<Rightarrow> string" where
  "strategy_String ProcessingStrategyFilterFirst = ''filter_first''"
| "strategy_String ProcessingStrategyDedupFirst = ''dedup_first''"

record StrategyDecider =
  sd_config :: opt_OptimizationConfig

definition NewStrategyDecider :: StrategyDecider where
  "NewStrategyDecider = \<lparr>sd_config = DefaultOptimizationConfig\<rparr>"

definition NewStrategyDeciderWithConfig :: "opt_OptimizationConfig option \<Rightarrow> StrategyDecider" where
  "NewStrategyDeciderWithConfig conf = \<lparr>sd_config = (case conf of None \<Rightarrow> DefaultOptimizationConfig | Some c \<Rightarrow> c)\<rparr>"

definition NewStrategyDeciderWithThresholds :: "f64 \<Rightarrow> f64 \<Rightarrow> int \<Rightarrow> StrategyDecider" where
  "NewStrategyDeciderWithThresholds filterFirst dedupFirst adaptive =
     \<lparr>sd_config = DefaultOptimizationConfig\<lparr>FilterFirstThresholdLowSeverity := filterFirst, DedupFirstThresholdEffectiveness := dedupFirst,
        AdaptiveThresholdVolume := adaptive\<rparr>\<rparr>"

definition parseStrategy :: "string \<Rightarrow> ProcessingStrategy" where
  "parseStrategy strategy = (if strategy = ''dedup_first'' then ProcessingStrategyDedupFirst else ProcessingStrategyFilterFirst)"

definition getDefaultStrategy :: "string \<Rightarrow> ProcessingStrategy" where
  "getDefaultStrategy source = ProcessingStrategyFilterFirst"

definition f64_geq :: "f64 \<Rightarrow> f64 \<Rightarrow> bool" where
  "f64_geq x y \<longleftrightarrow> x \<noteq> NaN \<and> y \<noteq> NaN \<and> \<not> f64_less x y"

text \<open>A nil dereference is \<open>None\<close>: of the configuration, where its default strategy is asked for, or of its processing settings.\<close>

definition DetermineStrategy :: "StrategyDecider \<Rightarrow> opt_OptimizationMetrics option \<Rightarrow> SourceConfig option \<Rightarrow> ProcessingStrategy option" where
  "DetermineStrategy sd metrics config =
     (let dflt = map_option (\<lambda>c. getDefaultStrategy (sc_source c)) config;
          measured = (case metrics of None \<Rightarrow> dflt
            | Some m \<Rightarrow>
                if f64_geq (LowSeverityPercent m) (FilterFirstThresholdLowSeverity (sd_config sd)) then Some ProcessingStrategyFilterFirst
                else if f64_geq (DeduplicationRate m) (DedupFirstThresholdEffectiveness (sd_config sd)) then Some ProcessingStrategyDedupFirst
                else dflt)
      in case config of None \<Rightarrow> measured
         | Some c \<Rightarrow> (case Processing c of None \<Rightarrow> None
             | Some order \<Rightarrow> if order \<noteq> [] \<and> order \<noteq> ''auto'' then Some (parseStrategy order) else measured))"

definition ShouldOptimize :: "opt_OptimizationMetrics option \<Rightarrow> SourceConfig option \<Rightarrow> bool" where
  "ShouldOptimize metrics config = False"

section \<open>The smart processor (smart_processor.go)\<close>

record SmartProcessor =
  strategyDecider :: StrategyDecider
  metricsCollectors :: "(string, PerSourceMetricsCollector) gomap"
  performanceTrackers :: "(string, PerformanceTracker) gomap"

definition NewSmartProcessor :: SmartProcessor where
  "NewSmartProcessor = \<lparr>strategyDecider = NewStrategyDecider, metricsCollectors = [], performanceTrackers = []\<rparr>"

definition GetOrCreateMetricsCollector :: "string \<Rightarrow> SmartProcessor \<Rightarrow> PerSourceMetricsCollector \<times> SmartProcessor" where
  "GetOrCreateMetricsCollector source sp =
     (case map_of (metricsCollectors sp) source of
        Some c \<Rightarrow> (c, sp)
      | None \<Rightarrow> (let c = NewPerSourceMetricsCollector source in (c, sp\<lparr>metricsCollectors := put source c (metricsCollectors sp)\<rparr>)))"

definition GetOrCreatePerformanceTracker :: "string \<Rightarrow> SmartProcessor \<Rightarrow> PerformanceTracker \<times> SmartProcessor" where
  "GetOrCreatePerformanceTracker source sp =
     (case map_of (performanceTrackers sp) source of
        Some t \<Rightarrow> (t, sp)
      | None \<Rightarrow> (let t = NewPerformanceTracker source in (t, sp\<lparr>performanceTrackers := put source t (performanceTrackers sp)\<rparr>)))"

text \<open>The metrics of a source; reading them sets a gauge of its collector.\<close>

definition GetSourceMetrics :: "int \<Rightarrow> string \<Rightarrow> SmartProcessor \<Rightarrow> opt_OptimizationMetrics \<times> SmartProcessor" where
  "GetSourceMetrics now source sp =
     (let (c, sp1) = GetOrCreateMetricsCollector source sp; (m, c1) = GetOptimizationMetrics now c
      in (m, sp1\<lparr>metricsCollectors := put source c1 (metricsCollectors sp1)\<rparr>))"

definition DetermineOptimalStrategy :: "int \<Rightarrow> string \<Rightarrow> SourceConfig option \<Rightarrow> SmartProcessor \<Rightarrow> ProcessingStrategy option \<times> SmartProcessor" where
  "DetermineOptimalStrategy now source config sp =
     (let (m, sp1) = GetSourceMetrics now source sp in (DetermineStrategy (strategyDecider sp1) (Some m) config, sp1))"

text \<open>\<^verbatim>\<open>ProcessEvent\<close> of an event of \<open>source\<close>, with the readings of the clock at its start, where it reads the metrics and where it ends; whether it returned, and the state it leaves.\<close>

definition smart_ProcessEvent :: "int \<Rightarrow> int \<Rightarrow> int \<Rightarrow> string \<Rightarrow> SourceConfig option \<Rightarrow> SmartProcessor \<Rightarrow> bool \<times> SmartProcessor" where
  "smart_ProcessEvent start mid now source config sp =
     (let (_, sp1) = GetOrCreateMetricsCollector source sp; (_, sp2) = GetOrCreatePerformanceTracker source sp1;
          (strategy, sp3) = DetermineOptimalStrategy mid source config sp2
      in if strategy = None then (False, sp3)
         else (let (c, sp4) = GetOrCreateMetricsCollector source sp3; (t, sp5) = GetOrCreatePerformanceTracker source sp4
               in (True, sp5\<lparr>metricsCollectors := put source (RecordProcessing now (now - start) False c) (metricsCollectors sp5),
                     performanceTrackers := put source (RecordEvent (now - start) t) (performanceTrackers sp5)\<rparr>)))"

section \<open>The window and the log\<close>

definition log_entry :: "int \<times> string \<times> f64 \<Rightarrow> MetricsEntry" where
  "log_entry a = \<lparr>me_Timestamp = fst a, me_Metrics = [(fst (snd a), snd (snd a))]\<rparr>"

definition add_all :: "(int \<times> string \<times> f64) list \<Rightarrow> MetricsWindow \<Rightarrow> MetricsWindow" where
  "add_all adds mw = fold (\<lambda>(t, name, value). AddMetric t name value) adds mw"

text \<open>The window holds the end of the log; what it has dropped is old, unless the window is full.\<close>

definition window_inv :: "MetricsWindow \<Rightarrow> int \<Rightarrow> MetricsEntry list \<Rightarrow> bool" where
  "window_inv mw T lg \<longleftrightarrow>
     (\<exists>dropped. lg = dropped @ entries mw \<and> (maxEntries mw \<le> length (entries mw) \<or> (\<forall>e \<in> set dropped. me_Timestamp e \<le> T - windowSize mw)))"

lemma cleanup_split:
  assumes "sorted (map me_Timestamp (pre @ entries mw))" "\<forall>e \<in> set pre. me_Timestamp e \<le> now - windowSize mw \<or> maxEntries mw \<le> length (entries mw)"
  shows "\<exists>gone. entries mw = gone @ entries (cleanup now mw) \<and>
    (maxEntries mw \<le> length (entries (cleanup now mw)) \<or> (\<forall>e \<in> set (pre @ gone). me_Timestamp e \<le> now - windowSize mw))"
proof -
  let ?old = "takeWhile (\<lambda>e. \<not> me_Timestamp e > now - windowSize mw) (entries mw)"
  show ?thesis
  proof (cases "?old \<noteq> [] \<and> length ?old < length (entries mw)")
    case True
    then have c: "entries (cleanup now mw) = drop (length ?old) (entries mw)" by (simp add: cleanup_def Let_def)
    have e: "entries mw = ?old @ drop (length ?old) (entries mw)" by (metis takeWhile_dropWhile_id dropWhile_eq_drop)
    have old: "\<forall>e \<in> set ?old. me_Timestamp e \<le> now - windowSize mw" by (auto dest: set_takeWhileD)
    obtain x xs where x: "?old = x # xs" using True by (cases ?old) auto
    then have "x \<in> set (entries mw)" using set_takeWhileD [of x] by (metis list.set_intros(1))
    then have "\<forall>e \<in> set pre. me_Timestamp e \<le> me_Timestamp x" using assms(1) by (auto simp: sorted_append)
    moreover have "me_Timestamp x \<le> now - windowSize mw" using old x by simp
    ultimately have "\<forall>e \<in> set pre. me_Timestamp e \<le> now - windowSize mw" by fastforce
    then show ?thesis using c e old by (intro exI [of _ ?old]) auto
  next
    case False
    then have "entries (cleanup now mw) = entries mw" by (auto simp: cleanup_def Let_def)
    then show ?thesis using assms(2) by (intro exI [of _ "[]"]) auto
  qed
qed

lemma cleanup_sizes [simp]: "windowSize (cleanup now mw) = windowSize mw" "maxEntries (cleanup now mw) = maxEntries mw"
  by (simp_all add: cleanup_def Let_def)

lemma add_inv:
  assumes "window_inv mw T lg" "sorted (map me_Timestamp lg)" "T \<le> t"
  shows "window_inv (AddMetric t name value mw) t (lg @ [log_entry (t, name, value)])"
proof -
  obtain pre where pre: "lg = pre @ entries mw" "maxEntries mw \<le> length (entries mw) \<or> (\<forall>e \<in> set pre. me_Timestamp e \<le> T - windowSize mw)"
    using assms(1) by (auto simp: window_inv_def)
  obtain gone where gone: "entries mw = gone @ entries (cleanup t mw)"
    "maxEntries mw \<le> length (entries (cleanup t mw)) \<or> (\<forall>e \<in> set (pre @ gone). me_Timestamp e \<le> t - windowSize mw)"
    using cleanup_split [of pre mw t] assms(2,3) pre by fastforce
  let ?es = "entries (cleanup t mw) @ [log_entry (t, name, value)]" let ?n = "length ?es - maxEntries mw"
  have new: "entries (AddMetric t name value mw) = drop ?n ?es" by (simp add: AddMetric_def Let_def log_entry_def)
  have lg: "lg @ [log_entry (t, name, value)] = (pre @ gone @ take ?n ?es) @ drop ?n ?es"
    using pre(1) gone(1) append_take_drop_id [of ?n ?es] by (metis append_assoc)
  have "maxEntries mw \<le> length (drop ?n ?es) \<or> (\<forall>e \<in> set (pre @ gone @ take ?n ?es). me_Timestamp e \<le> t - windowSize mw)"
    using gone(2) by (cases "?n = 0") auto
  then show ?thesis unfolding window_inv_def using lg new by (auto simp: AddMetric_def Let_def simp del: append_assoc)
qed

lemma add_all_inv:
  "sorted (map fst adds) \<Longrightarrow> \<forall>a \<in> set adds. T \<le> fst a \<Longrightarrow> sorted (map me_Timestamp lg) \<Longrightarrow> \<forall>e \<in> set lg. me_Timestamp e \<le> T \<Longrightarrow> window_inv mw T lg \<Longrightarrow>
   window_inv (add_all adds mw) (last (T # map fst adds)) (lg @ map log_entry adds) \<and> windowSize (add_all adds mw) = windowSize mw \<and> maxEntries (add_all adds mw) = maxEntries mw"
proof (induction adds arbitrary: T lg mw)
  case (Cons a adds)
  obtain t name v where a: "a = (t, name, v)" by (cases a)
  let ?lg = "lg @ [log_entry a]" let ?mw = "AddMetric t name v mw"
  have "T \<le> t" using Cons.prems(2) a by simp
  then have inv: "window_inv ?mw t ?lg" using add_inv [OF Cons.prems(5,3)] a by simp
  have "sorted (map me_Timestamp ?lg)" "\<forall>e \<in> set ?lg. me_Timestamp e \<le> t"
    using Cons.prems(3,4) \<open>T \<le> t\<close> a by (fastforce simp: sorted_append log_entry_def)+
  with Cons.IH [of t ?lg ?mw] Cons.prems(1) inv a show ?case
    by (auto simp: add_all_def AddMetric_def Let_def)
qed (simp add: add_all_def)

lemma sums_recent: "window_sums cutoff es = window_sums cutoff (filter (\<lambda>e. \<not> me_Timestamp e < cutoff) es)"
proof -
  have "fold (\<lambda>e rc. if me_Timestamp e < cutoff then rc else fold add_value (me_Metrics e) rc) es rc =
    fold (\<lambda>e rc. if me_Timestamp e < cutoff then rc else fold add_value (me_Metrics e) rc) (filter (\<lambda>e. \<not> me_Timestamp e < cutoff) es) rc" for rc
    by (induction es arbitrary: rc) auto
  then show ?thesis by (simp add: window_sums_def)
qed

lemma window_metrics_recent:
  assumes "filter (\<lambda>e. \<not> me_Timestamp e < now - windowSize mw) (entries mw) = filter (\<lambda>e. \<not> me_Timestamp e < now - windowSize mw) es"
  shows "GetWindowMetrics now mw = GetWindowMetrics now (mw\<lparr>entries := es\<rparr>)"
proof -
  have "window_sums (now - windowSize mw) (entries mw) = window_sums (now - windowSize mw) es"
    using sums_recent [of "now - windowSize mw" "entries mw"] sums_recent [of "now - windowSize mw" es] assms by simp
  then show ?thesis by (simp add: GetWindowMetrics_def)
qed

text \<open>C33. The bounded window of a source is as good as a log of everything: the sums and averages it gives are those of the
  full log, if the clock does not go back, no more than 1000 entries are younger than the window and none is exactly as
  old. Neither the cleanup nor the limit loses an entry that counts.\<close>

theorem window_exact:
  assumes "sorted (map fst adds)" "\<forall>a \<in> set adds. fst a \<le> now \<and> fst a \<noteq> now - w" "length (filter (\<lambda>a. fst a > now - w) adds) \<le> 1000"
  shows "GetWindowMetrics now (add_all adds (NewMetricsWindow w)) = GetWindowMetrics now ((NewMetricsWindow w)\<lparr>entries := map log_entry adds\<rparr>)"
proof (cases "adds = []")
  case False
  let ?mw = "add_all adds (NewMetricsWindow w)" let ?T = "fst (hd adds)" let ?lg = "map log_entry adds"
  have hd: "\<forall>a \<in> set adds. ?T \<le> fst a" using assms(1) False by (cases adds) auto
  have i: "window_inv ?mw (last (?T # map fst adds)) ?lg" "windowSize ?mw = w" "maxEntries ?mw = 1000"
    using add_all_inv [OF assms(1) hd, of "[]" "NewMetricsWindow w"] by (auto simp: window_inv_def NewMetricsWindow_def)
  have T: "last (?T # map fst adds) \<le> now" using assms(2) False by (auto simp: last_map)
  obtain pre where pre: "?lg = pre @ entries ?mw" "1000 \<le> length (entries ?mw) \<or> (\<forall>e \<in> set pre. me_Timestamp e \<le> now - w)"
    using i T by (fastforce simp: window_inv_def)
  have sorted: "sorted (map me_Timestamp ?lg)" using assms(1) by (simp add: comp_def log_entry_def)
  have exact: "\<forall>e \<in> set ?lg. me_Timestamp e \<noteq> now - w" using assms(2) by (auto simp: log_entry_def)
  have few: "length (filter (\<lambda>e. me_Timestamp e > now - w) ?lg) \<le> 1000" using assms(3) by (simp add: filter_map comp_def log_entry_def)
  have old: "\<forall>e \<in> set pre. me_Timestamp e \<le> now - w"
  proof (rule ccontr)
    assume "\<not> ?thesis"
    then obtain e where e: "e \<in> set pre" "me_Timestamp e > now - w" "1000 \<le> length (entries ?mw)" using pre(2) by fastforce
    then have "\<forall>x \<in> set (entries ?mw). me_Timestamp x > now - w" using sorted by (fastforce simp: pre(1) sorted_append)
    then have "length (filter (\<lambda>e. me_Timestamp e > now - w) (entries ?mw)) = length (entries ?mw)" by simp
    moreover have "0 < length (filter (\<lambda>e. me_Timestamp e > now - w) pre)" using e by (auto simp: filter_empty_conv)
    moreover have "length (filter (\<lambda>e. me_Timestamp e > now - w) pre) + length (filter (\<lambda>e. me_Timestamp e > now - w) (entries ?mw)) \<le> 1000"
      using few unfolding pre(1) by simp
    ultimately show False using e(3) by linarith
  qed
  have "me_Timestamp e \<noteq> now - w" if "e \<in> set pre" for e using exact that unfolding pre(1) by simp
  with old have "filter (\<lambda>e. \<not> me_Timestamp e < now - w) pre = []" by (force simp: filter_empty_conv)
  then have "filter (\<lambda>e. \<not> me_Timestamp e < now - w) (entries ?mw) = filter (\<lambda>e. \<not> me_Timestamp e < now - w) ?lg" unfolding pre(1) by simp
  from window_metrics_recent [of now ?mw, unfolded i(2), OF this] show ?thesis
    using i by (simp add: GetWindowMetrics_def NewMetricsWindow_def)
qed (simp add: add_all_def NewMetricsWindow_def)

definition three_adds :: "(int \<times> string \<times> f64) list" where
  "three_adds = [(0, ''events_processed'', Fin 1), (700000000000, ''events_processed'', Fin 1), (800000000000, ''events_processed'', Fin 1)]"

theorem window_exact_witness:
  "GetWindowMetrics 900000000000 (add_all three_adds (NewMetricsWindow (10 * minute))) =
   GetWindowMetrics 900000000000 ((NewMetricsWindow (10 * minute))\<lparr>entries := map log_entry three_adds\<rparr>)"
  by (rule window_exact) (simp_all add: three_adds_def)

section \<open>The tracker\<close>

lemma record_latencies:
  "latencies (fold RecordEvent evs (NewPerformanceTracker source)) = drop (length evs - 1000) evs \<and>
   maxLatencies (fold RecordEvent evs (NewPerformanceTracker source)) = 1000"
proof (induction evs rule: rev_induct)
  case (snoc e evs)
  have "tl (drop (length evs - 1000) evs) = drop (Suc (length evs) - 1000) evs" if "length evs \<ge> 1000"
  proof -
    have "tl (drop k xs) = drop (Suc k) xs" for k and xs :: "int list" by (simp add: drop_Suc tl_drop)
    moreover have "Suc (length evs - 1000) = Suc (length evs) - 1000" using that by arith
    ultimately show ?thesis by metis
  qed
  with snoc show ?case by (auto simp: RecordEvent_def)
qed (simp add: NewPerformanceTracker_def DefaultOptimizationConfig_def)

lemma record_total:
  "int (length evs) < 2 ^ 63 \<Longrightarrow> totalProcessed (fold RecordEvent evs (NewPerformanceTracker source)) = int (length evs)"
proof (induction evs rule: rev_induct)
  case (snoc e evs)
  have "wrap64 (int (length evs) + 1) = int (length evs) + 1" using snoc.prems by (intro wrap64_id) (simp add: in_int64_def)
  with snoc show ?case by (simp add: RecordEvent_def)
qed (simp add: NewPerformanceTracker_def)

lemma peak_bound: "p \<le> fold (\<lambda>lat peak. if lat > peak then lat else peak) ls p \<and> (\<forall>l \<in> set ls. l \<le> fold (\<lambda>lat peak. if lat > peak then lat else peak) ls p) \<and>
   fold (\<lambda>lat peak. if lat > peak then lat else peak) ls p \<in> insert p (set ls)" for p :: int
proof (induction ls arbitrary: p)
  case (Cons l ls)
  let ?p = "if l > p then l else p"
  have "?p \<le> fold (\<lambda>lat peak. if lat > peak then lat else peak) ls ?p" "\<forall>x \<in> set ls. x \<le> fold (\<lambda>lat peak. if lat > peak then lat else peak) ls ?p"
    "fold (\<lambda>lat peak. if lat > peak then lat else peak) ls ?p \<in> insert ?p (set ls)" using Cons.IH [of ?p] by blast+
  then show ?case by (auto split: if_splits)
qed simp

lemma sum_no_wrap:
  "\<forall>l \<in> set ls. 0 \<le> l \<Longrightarrow> 0 \<le> s \<Longrightarrow> s + sum_list ls < 2 ^ 63 \<Longrightarrow> fold (\<lambda>lat s. wrap64 (s + lat)) ls s = s + sum_list ls" for s :: int
proof (induction ls arbitrary: s)
  case (Cons l ls)
  have "0 \<le> sum_list ls" using Cons.prems(1) by (auto intro: sum_list_nonneg)
  then have "wrap64 (s + l) = s + l" using Cons.prems by (intro wrap64_id) (auto simp: in_int64_def)
  with Cons.IH [of "s + l"] Cons.prems show ?case by (simp add: add.assoc)
qed simp

lemma average_of:
  assumes "latencies pt = ls" "\<forall>l \<in> set ls. 0 \<le> l" "sum_list ls < 2 ^ 63"
  shows "GetAverageLatency pt = (if ls = [] then 0 else sum_list ls div int (length ls))"
proof -
  have "fold (\<lambda>lat s. wrap64 (s + lat)) ls 0 = sum_list ls" using sum_no_wrap [of ls 0] assms by simp
  moreover have "0 \<le> sum_list ls" using assms(2) by (auto intro: sum_list_nonneg)
  ultimately show ?thesis by (simp add: GetAverageLatency_def go_quot_def assms(1))
qed

text \<open>What a tracker reports of any sequence of events, with times that are not negative and do not overflow in sum, is what the last 1000
  of them say: the average is their integer mean, the peak bounds every one of them and is one of them (or 0 when there is none), and the total counts
  all events.\<close>

theorem tracker_reports:
  assumes "\<forall>e \<in> set evs. 0 \<le> e" "sum_list evs < 2 ^ 63" "int (length evs) < 2 ^ 63"
  shows "let d = GetPerformanceData now (fold RecordEvent evs (NewPerformanceTracker source)); recent = drop (length evs - 1000) evs in
    AverageLatency d = (if recent = [] then 0 else sum_list recent div int (length recent)) \<and>
    (\<forall>e \<in> set recent. e \<le> PeakLatency d) \<and> PeakLatency d \<in> insert 0 (set recent) \<and> pd_TotalProcessed d = int (length evs)"
proof -
  let ?pt = "fold RecordEvent evs (NewPerformanceTracker source)" let ?r = "drop (length evs - 1000) evs"
  have r: "\<forall>e \<in> set ?r. 0 \<le> e" using assms(1) by (auto dest: in_set_dropD)
  have "sum_list (take (length evs - 1000) evs) + sum_list ?r = sum_list evs" by (metis append_take_drop_id sum_list_append)
  moreover have "0 \<le> sum_list (take (length evs - 1000) evs)" using assms(1) by (auto intro!: sum_list_nonneg dest: in_set_takeD)
  ultimately have small: "0 + sum_list ?r < 2 ^ 63" using assms(2) by linarith
  have "latencies ?pt = ?r" using record_latencies by blast
  from average_of [OF this r] small have avg: "GetAverageLatency ?pt = (if ?r = [] then 0 else sum_list ?r div int (length ?r))" by simp
  have "GetPeakLatency ?pt = fold (\<lambda>lat peak. if lat > peak then lat else peak) ?r 0"
    using record_latencies [of evs source] by (simp add: GetPeakLatency_def)
  with peak_bound [of 0 ?r] have peak: "(\<forall>e \<in> set ?r. e \<le> GetPeakLatency ?pt) \<and> GetPeakLatency ?pt \<in> insert 0 (set ?r)" by simp
  show ?thesis using avg peak record_total [OF assms(3)] by (simp add: GetPerformanceData_def Let_def)
qed

theorem tracker_reports_witness:
  "AverageLatency (GetPerformanceData 0 (fold RecordEvent [4, 9] (NewPerformanceTracker ''s''))) = 6"
  using tracker_reports [of "[4, 9]" 0 "''s''"] by (simp add: Let_def)

section \<open>The collector\<close>

text \<open>Everything that can happen to the collector of a source.\<close>

inductive collector_run :: "string \<Rightarrow> PerSourceMetricsCollector \<Rightarrow> bool" for source where
  new: "collector_run source (NewPerSourceMetricsCollector source)"
| processing: "collector_run source c \<Longrightarrow> collector_run source (RecordProcessing now d failed c)"
| filtered: "collector_run source c \<Longrightarrow> collector_run source (RecordFiltered now reason c)"
| deduped: "collector_run source c \<Longrightarrow> collector_run source (RecordDeduped now c)"
| read: "collector_run source c \<Longrightarrow> collector_run source (snd (GetOptimizationMetrics now c))"
| reset: "collector_run source c \<Longrightarrow> collector_run source (collector_Reset c)"

definition share :: "int \<Rightarrow> int \<Rightarrow> f64" where
  "share n m = (if m > 0 then f64_div (f64_of_int n) (f64_of_int m) else Fin 0)"

text \<open>The metrics a collector reports are always those of its source, its counters and their ratios, after any sequence of calls.\<close>

theorem collector_consistent:
  assumes "collector_run source c"
  shows "om_Source (fst (GetOptimizationMetrics now c)) = source \<and>
    om_FilterEffectiveness (fst (GetOptimizationMetrics now c)) = share (eventsFiltered c) (eventsProcessed c) \<and>
    DeduplicationRate (fst (GetOptimizationMetrics now c)) = share (eventsDeduped c) (eventsProcessed c)"
  using assms
  by (induction rule: collector_run.induct)
    (auto simp: GetOptimizationMetrics_def Let_def NewPerSourceMetricsCollector_def RecordProcessing_def RecordFiltered_def RecordDeduped_def
      updateDerivedMetrics_def collector_Reset_def share_def)

section \<open>The strategy\<close>

text \<open>Deciding the strategy dereferences nil exactly when a configuration has no processing settings, or when there is no
  configuration and no measurement that decides. Otherwise the configured order decides if it is one of the two, and any other fixed order
  means filter first.\<close>

theorem strategy_decided:
  "(DetermineStrategy sd metrics config = None \<longleftrightarrow>
      (case config of
         Some c \<Rightarrow> Processing c = None
       | None \<Rightarrow> (case metrics of None \<Rightarrow> True
           | Some m \<Rightarrow> \<not> f64_geq (LowSeverityPercent m) (FilterFirstThresholdLowSeverity (sd_config sd)) \<and>
               \<not> f64_geq (DeduplicationRate m) (DedupFirstThresholdEffectiveness (sd_config sd))))) \<and>
   (\<forall>c order. config = Some c \<and> Processing c = Some order \<and> order \<noteq> [] \<and> order \<noteq> ''auto'' \<longrightarrow>
      map_option strategy_String (DetermineStrategy sd metrics config) = Some (if order = ''dedup_first'' then order else ''filter_first''))"
  by (auto simp: DetermineStrategy_def parseStrategy_def Let_def split: option.splits)

text \<open>What two processors know of a source.\<close>

definition same_for :: "string \<Rightarrow> SmartProcessor \<Rightarrow> SmartProcessor \<Rightarrow> bool" where
  "same_for source sp sp' \<longleftrightarrow> map_of (metricsCollectors sp) source = map_of (metricsCollectors sp') source \<and>
     map_of (performanceTrackers sp) source = map_of (performanceTrackers sp') source"

lemma isolated_parts:
  assumes "other \<noteq> source"
  shows "same_for other (snd (GetOrCreateMetricsCollector source sp)) sp" "same_for other (snd (GetOrCreatePerformanceTracker source sp)) sp"
  using assms by (simp_all add: same_for_def GetOrCreateMetricsCollector_def GetOrCreatePerformanceTracker_def Let_def split: option.split)

lemma isolated_strategy:
  assumes "other \<noteq> source"
  shows "same_for other (snd (DetermineOptimalStrategy now source config sp)) sp"
  using assms isolated_parts(1) [OF assms, of sp]
  by (auto simp: same_for_def DetermineOptimalStrategy_def GetSourceMetrics_def split: prod.split)

text \<open>Processing an event of one source leaves the measurements of every other source as they are.\<close>

theorem smart_isolated:
  assumes "other \<noteq> source"
  shows "same_for other (snd (smart_ProcessEvent start mid now source config sp)) sp"
proof -
  obtain c sp1 where 1: "GetOrCreateMetricsCollector source sp = (c, sp1)" by force
  obtain t sp2 where 2: "GetOrCreatePerformanceTracker source sp1 = (t, sp2)" by force
  obtain strategy sp3 where 3: "DetermineOptimalStrategy mid source config sp2 = (strategy, sp3)" by force
  obtain c' sp4 where 4: "GetOrCreateMetricsCollector source sp3 = (c', sp4)" by force
  obtain t' sp5 where 5: "GetOrCreatePerformanceTracker source sp4 = (t', sp5)" by force
  have "same_for other sp1 sp" "same_for other sp2 sp1" "same_for other sp3 sp2" "same_for other sp4 sp3" "same_for other sp5 sp4"
    using isolated_parts(1) [OF assms, of sp] isolated_parts(2) [OF assms, of sp1] isolated_strategy [OF assms, of mid config sp2]
      isolated_parts(1) [OF assms, of sp3] isolated_parts(2) [OF assms, of sp4] 1 2 3 4 5 by simp_all
  then show ?thesis using assms by (simp add: smart_ProcessEvent_def 1 2 3 4 5 same_for_def)
qed

end
