(* ===== verification/Optimization_State.thy ===== *)
theory Optimization_State
  imports Optimization Zen_Values
begin

text \<open>
  The decisions of \<^verbatim>\<open>pkg/optimization\<close> and where they are kept: \<^verbatim>\<open>state_manager.go\<close>, the files of \<^verbatim>\<open>persistence.go\<close> and the engine of
  \<^verbatim>\<open>optimization_engine.go\<close> and \<^verbatim>\<open>optimizer.go\<close>. The persistence is an interface of the source, and a locale here; the files are an
  interpretation of it. A file system is a map from paths to contents with its directories and the faults still to come; a path is
  the list of its components. The JSON encoder and decoder are arguments.

  Results: for sources without a slash in their name, a decision that was recorded without an error survives a restart unless its file cannot be read then, the others are as they were; a save that fails, wherever it does, leaves
  the old file; a source with slashes is never saved; a file that cannot be read is taken for none and overwritten; the state of a source is a function of the log of its decisions.
\<close>

section \<open>State (state_manager.go)\<close>

record OptimizationDecision =
  dec_Timestamp :: int
  dec_Type :: string
  PreviousValue :: val
  NewValue :: val
  Confidence :: f64
  dec_Reason :: string
  ImpactMetrics :: "(string, f64) gomap"

record DynamicFilterRule =
  dfr_Expression :: string
  dfr_Enabled :: bool
  dfr_Priority :: f64
  dfr_Source :: string

record OptimizationState =
  os_Source :: string
  CurrentStrategy :: string
  LastDecision :: "int option"
  DecisionHistory :: "OptimizationDecision list"
  os_PerformanceData :: "PerformanceData option"
  ActiveRules :: "DynamicFilterRule list"
  os_Metrics :: "(string, f64) gomap"
  LastUpdated :: int

record 'p StatePersistence =
  sp_Save :: "string \<Rightarrow> OptimizationState \<Rightarrow> 'p \<Rightarrow> string option \<times> 'p"
  sp_Load :: "string \<Rightarrow> 'p \<Rightarrow> (string + OptimizationState option) \<times> 'p"
  sp_Delete :: "string \<Rightarrow> 'p \<Rightarrow> string option \<times> 'p"

text \<open>The persistence of a manager, if it has one, with what is stored there.\<close>

record 'p OptimizationStateManager =
  states :: "(string, OptimizationState) gomap"
  persistence :: "('p StatePersistence \<times> 'p) option"
  maxHistorySize :: nat

definition NewOptimizationStateManager :: "'p OptimizationStateManager" where
  "NewOptimizationStateManager = \<lparr>states = [], persistence = None, maxHistorySize = nat (MaxHistorySize DefaultOptimizationConfig)\<rparr>"

definition NewOptimizationStateManagerWithPersistence :: "'p StatePersistence \<Rightarrow> 'p \<Rightarrow> 'p OptimizationStateManager" where
  "NewOptimizationStateManagerWithPersistence sp p =
     \<lparr>states = [], persistence = Some (sp, p), maxHistorySize = nat (MaxHistorySize DefaultOptimizationConfig)\<rparr>"

definition new_state :: "int \<Rightarrow> string \<Rightarrow> OptimizationState" where
  "new_state now source =
     \<lparr>os_Source = source, CurrentStrategy = ''filter_first'', LastDecision = None, DecisionHistory = [], os_PerformanceData = None, ActiveRules = [],
      os_Metrics = [], LastUpdated = now\<rparr>"

definition loaded_state :: "string \<Rightarrow> 'p OptimizationStateManager \<Rightarrow> OptimizationState option \<times> 'p OptimizationStateManager" where
  "loaded_state source m =
     (case persistence m of None \<Rightarrow> (None, m)
      | Some (sp, p) \<Rightarrow>
          (case sp_Load sp source p of (r, p') \<Rightarrow>
             (case r of Inr (Some st) \<Rightarrow> Some st | _ \<Rightarrow> None, m\<lparr>persistence := Some (sp, p')\<rparr>)))"

definition GetState :: "int \<Rightarrow> string \<Rightarrow> 'p OptimizationStateManager \<Rightarrow> OptimizationState \<times> 'p OptimizationStateManager" where
  "GetState now source m =
     (case map_of (states m) source of
        Some st \<Rightarrow> (st, m)
      | None \<Rightarrow>
          (let (loaded, m1) = loaded_state source m; st = (case loaded of Some st \<Rightarrow> st | None \<Rightarrow> new_state now source)
           in (st, m1\<lparr>states := put source st (states m1)\<rparr>)))"

definition decided :: "nat \<Rightarrow> int \<Rightarrow> OptimizationDecision \<Rightarrow> OptimizationState \<Rightarrow> OptimizationState" where
  "decided maxHistory now decision st =
     (let d = decision\<lparr>dec_Timestamp := now\<rparr>; history = DecisionHistory st @ [d]
      in st\<lparr>DecisionHistory := drop (length history - maxHistory) history, LastDecision := Some now, LastUpdated := now,
           CurrentStrategy := (if dec_Type d = ''strategy_change'' then (case as_string (NewValue d) of Some s \<Rightarrow> s | None \<Rightarrow> CurrentStrategy st)
                               else CurrentStrategy st)\<rparr>)"

text \<open>The result is the error of the save; the decision is kept in memory even then.\<close>

definition RecordDecision :: "int \<Rightarrow> string \<Rightarrow> OptimizationDecision \<Rightarrow> 'p OptimizationStateManager \<Rightarrow> string option \<times> 'p OptimizationStateManager" where
  "RecordDecision now source decision m =
     (let (st, m1) = GetState now source m; st' = decided (maxHistorySize m1) now decision st; m2 = m1\<lparr>states := put source st' (states m1)\<rparr>
      in case persistence m2 of None \<Rightarrow> (None, m2)
         | Some (sp, p) \<Rightarrow> (case sp_Save sp source st' p of (err, p') \<Rightarrow> (err, m2\<lparr>persistence := Some (sp, p')\<rparr>)))"

definition update_state :: "int \<Rightarrow> string \<Rightarrow> (OptimizationState \<Rightarrow> OptimizationState) \<Rightarrow> 'p OptimizationStateManager \<Rightarrow> 'p OptimizationStateManager" where
  "update_state now source f m =
     (let (st, m1) = GetState now source m in m1\<lparr>states := put source ((f st)\<lparr>LastUpdated := now\<rparr>) (states m1)\<rparr>)"

definition UpdatePerformanceData :: "int \<Rightarrow> string \<Rightarrow> PerformanceData option \<Rightarrow> 'p OptimizationStateManager \<Rightarrow> 'p OptimizationStateManager" where
  "UpdatePerformanceData now source d = update_state now source (\<lambda>st. st\<lparr>os_PerformanceData := d\<rparr>)"

definition UpdateActiveRules :: "int \<Rightarrow> string \<Rightarrow> DynamicFilterRule list \<Rightarrow> 'p OptimizationStateManager \<Rightarrow> 'p OptimizationStateManager" where
  "UpdateActiveRules now source rules = update_state now source (\<lambda>st. st\<lparr>ActiveRules := rules\<rparr>)"

definition sm_UpdateMetrics :: "int \<Rightarrow> string \<Rightarrow> (string, f64) gomap \<Rightarrow> 'p OptimizationStateManager \<Rightarrow> 'p OptimizationStateManager" where
  "sm_UpdateMetrics now source metrics = update_state now source (\<lambda>st. st\<lparr>os_Metrics := fold (\<lambda>(k, v). put k v) metrics (os_Metrics st)\<rparr>)"

definition GetDecisionHistory :: "int \<Rightarrow> string \<Rightarrow> int \<Rightarrow> 'p OptimizationStateManager \<Rightarrow> OptimizationDecision list \<times> 'p OptimizationStateManager" where
  "GetDecisionHistory now source limit m =
     (let (st, m1) = GetState now source m; history = DecisionHistory st
      in (if limit > 0 \<and> limit < int (length history) then drop (length history - nat limit) history else history, m1))"

definition GetAllStates :: "'p OptimizationStateManager \<Rightarrow> (string, OptimizationState) gomap" where
  "GetAllStates m = states m"

section \<open>Files (persistence.go)\<close>

text \<open>What happens to the next operation on a file: nothing, or an error, after which a file that was to be written may hold something else.\<close>

datatype fault = NoFault | Fault string "string option"

record disk =
  files :: "(string list \<times> string) list"
  dirs :: "string list list"
  faults :: "fault list"

definition next_fault :: "disk \<Rightarrow> fault \<times> disk" where
  "next_fault d = (case faults d of [] \<Rightarrow> (NoFault, d) | f # fs \<Rightarrow> (f, d\<lparr>faults := fs\<rparr>))"

text \<open>\<^verbatim>\<open>filepath.Join\<close> of a directory and a name.\<close>

definition resolve :: "string \<Rightarrow> string list \<Rightarrow> string list" where
  "resolve c path = (if c = [] \<or> c = ''.'' then path else if c = ''..'' then butlast path else path @ [c])"

definition join_path :: "string list \<Rightarrow> string \<Rightarrow> string list" where
  "join_path base name = fold resolve (split_on (CHR ''/'') name) base"

definition WriteFile :: "string list \<Rightarrow> string \<Rightarrow> disk \<Rightarrow> string option \<times> disk" where
  "WriteFile path content d =
     (if butlast path \<notin> set (dirs d) then (Some ''no such file or directory'', d)
      else (case next_fault d of
              (NoFault, d1) \<Rightarrow> (None, d1\<lparr>files := put path content (files d1)\<rparr>)
            | (Fault e None, d1) \<Rightarrow> (Some e, d1)
            | (Fault e (Some part), d1) \<Rightarrow> (Some e, d1\<lparr>files := put path part (files d1)\<rparr>)))"

datatype read_error = NotExist | ReadError string

definition ReadFile :: "string list \<Rightarrow> disk \<Rightarrow> (read_error + string) \<times> disk" where
  "ReadFile path d =
     (case next_fault d of
        (Fault e _, d1) \<Rightarrow> (Inl (ReadError e), d1)
      | (NoFault, d1) \<Rightarrow> (case map_of (files d1) path of None \<Rightarrow> Inl NotExist | Some content \<Rightarrow> Inr content, d1))"

definition Rename :: "string list \<Rightarrow> string list \<Rightarrow> disk \<Rightarrow> string option \<times> disk" where
  "Rename old new d =
     (case next_fault d of
        (Fault e _, d1) \<Rightarrow> (Some e, d1)
      | (NoFault, d1) \<Rightarrow>
          (case map_of (files d1) old of
             None \<Rightarrow> (Some ''no such file or directory'', d1)
           | Some content \<Rightarrow>
               if butlast new \<notin> set (dirs d1) then (Some ''no such file or directory'', d1)
               else (None, d1\<lparr>files := put new content (del old (files d1))\<rparr>)))"

definition Remove :: "string list \<Rightarrow> disk \<Rightarrow> string option \<times> disk" where
  "Remove path d =
     (case next_fault d of
        (Fault e _, d1) \<Rightarrow> (Some e, d1)
      | (NoFault, d1) \<Rightarrow> (if map_of (files d1) path = None then (Some ''no such file or directory'', d1) else (None, d1\<lparr>files := del path (files d1)\<rparr>)))"

record codec =
  Marshal :: "OptimizationState \<Rightarrow> string + string"
  Unmarshal :: "string \<Rightarrow> string + OptimizationState"

definition state_file :: "string list \<Rightarrow> string \<Rightarrow> string list" where
  "state_file base source = join_path base (source @ ''.json'')"

definition temp_file :: "string list \<Rightarrow> string \<Rightarrow> string list" where
  "temp_file base source = join_path base (''.'' @ source @ ''.tmp'')"

definition Save :: "codec \<Rightarrow> string list \<Rightarrow> string \<Rightarrow> OptimizationState \<Rightarrow> disk \<Rightarrow> string option \<times> disk" where
  "Save cd base source state d =
     (case Marshal cd state of
        Inl e \<Rightarrow> (Some (''failed to marshal state: '' @ e), d)
      | Inr content \<Rightarrow>
          (case WriteFile (temp_file base source) content d of
             (Some e, d1) \<Rightarrow> (Some (''failed to write temp file: '' @ e), d1)
           | (None, d1) \<Rightarrow>
               (case Rename (temp_file base source) (state_file base source) d1 of
                  (Some e, d2) \<Rightarrow> (Some (''failed to rename temp file: '' @ e), snd (Remove (temp_file base source) d2))
                | (None, d2) \<Rightarrow> (None, d2))))"

definition Load :: "codec \<Rightarrow> string list \<Rightarrow> string \<Rightarrow> disk \<Rightarrow> (string + OptimizationState option) \<times> disk" where
  "Load cd base source d =
     (case ReadFile (state_file base source) d of
        (Inl NotExist, d1) \<Rightarrow> (Inr None, d1)
      | (Inl (ReadError e), d1) \<Rightarrow> (Inl (''failed to read state file: '' @ e), d1)
      | (Inr content, d1) \<Rightarrow>
          (case Unmarshal cd content of Inl e \<Rightarrow> Inl (''failed to unmarshal state: '' @ e) | Inr st \<Rightarrow> Inr (Some st), d1))"

definition fsp_Delete :: "string list \<Rightarrow> string \<Rightarrow> disk \<Rightarrow> string option \<times> disk" where
  "fsp_Delete base source d = Remove (state_file base source) d"

text \<open>\<^verbatim>\<open>MkdirAll\<close> makes the directory and those above it; a fault leaves none of them.\<close>

definition MkdirAll :: "string list \<Rightarrow> disk \<Rightarrow> string option \<times> disk" where
  "MkdirAll path d =
     (let above = map (\<lambda>n. take n path) [0..<Suc (length path)]
      in if path \<in> set (dirs d) then (None, d)
         else if list_ex (\<lambda>p. map_of (files d) p \<noteq> None) above then (Some ''not a directory'', d)
         else (case next_fault d of
                 (Fault e _, d1) \<Rightarrow> (Some e, d1)
               | (NoFault, d1) \<Rightarrow> (None, d1\<lparr>dirs := dirs d1 @ filter (\<lambda>p. p \<notin> set (dirs d1)) above\<rparr>)))"

definition NewFileStatePersistence :: "string list \<Rightarrow> disk \<Rightarrow> (string + string list) \<times> disk" where
  "NewFileStatePersistence base d =
     (case MkdirAll base d of (Some err, d1) \<Rightarrow> (Inl (''failed to create persistence directory: '' @ err), d1) | (None, d1) \<Rightarrow> (Inr base, d1))"

definition FileStatePersistence :: "codec \<Rightarrow> string list \<Rightarrow> disk StatePersistence" where
  "FileStatePersistence cd base = \<lparr>sp_Save = Save cd base, sp_Load = Load cd base, sp_Delete = fsp_Delete base\<rparr>"

section \<open>The engine (optimization_engine.go, optimizer.go)\<close>

text \<open>A cycle visits every configuration and does nothing with it.\<close>

record 'p OptimizationEngine =
  smartProcessor :: SmartProcessor
  stateManager :: "'p OptimizationStateManager"
  allConfigs :: "(string, SourceConfig) gomap option"
  optimizationInterval :: int
  engine_running :: bool

definition NewOptimizationEngine :: "SmartProcessor \<Rightarrow> 'p OptimizationStateManager \<Rightarrow> (string, SourceConfig) gomap option \<Rightarrow> 'p OptimizationEngine" where
  "NewOptimizationEngine sp m configs =
     \<lparr>smartProcessor = sp, stateManager = m, allConfigs = configs, optimizationInterval = OptimizationInterval DefaultOptimizationConfig, engine_running = False\<rparr>"

definition engine_Start :: "'p OptimizationEngine \<Rightarrow> 'p OptimizationEngine" where
  "engine_Start oe = (if engine_running oe then oe else oe\<lparr>engine_running := True\<rparr>)"

definition engine_Stop :: "'p OptimizationEngine \<Rightarrow> 'p OptimizationEngine" where
  "engine_Stop oe = (if \<not> engine_running oe then oe else oe\<lparr>engine_running := False\<rparr>)"

definition runOptimizationCycle :: "'p OptimizationEngine \<Rightarrow> 'p OptimizationEngine" where
  "runOptimizationCycle oe = (case allConfigs oe of None \<Rightarrow> oe | Some configs \<Rightarrow> fold (\<lambda>_ oe. oe) configs oe)"

record OptimizationStatus =
  st_Source :: string
  st_CurrentStrategy :: string
  st_LastDecision :: "int option"
  st_Metrics :: opt_OptimizationMetrics
  DecisionCount :: int

definition GetOptimizationStatus :: "int \<Rightarrow> string \<Rightarrow> 'p OptimizationEngine \<Rightarrow> OptimizationStatus \<times> 'p OptimizationEngine" where
  "GetOptimizationStatus now source oe =
     (let (st, m) = GetState now source (stateManager oe); (metrics, sp) = GetSourceMetrics now source (smartProcessor oe)
      in (\<lparr>st_Source = source, st_CurrentStrategy = CurrentStrategy st, st_LastDecision = LastDecision st, st_Metrics = metrics,
           DecisionCount = int (length (DecisionHistory st))\<rparr>,
          oe\<lparr>stateManager := m, smartProcessor := sp\<rparr>))"

definition NewOptimizerWithProcessor :: "SmartProcessor \<Rightarrow> (string, SourceConfig) gomap option \<Rightarrow> 'p OptimizationEngine" where
  "NewOptimizerWithProcessor sp configs = NewOptimizationEngine sp NewOptimizationStateManager configs"

definition NewOptimizer :: "(string, SourceConfig) gomap option \<Rightarrow> 'p OptimizationEngine" where
  "NewOptimizer configs = NewOptimizerWithProcessor NewSmartProcessor configs"

section \<open>Persistence as an interface\<close>

text \<open>A store that keeps the states of some sources. \<open>held s p\<close> is what it holds for a source, \<open>reads p\<close> whether the next load is answered: then it gives what is held,
  and an error otherwise; it changes nothing that is held. After a successful save the state is held as the encoding gives it back; a save of one source does not
  touch another; a failed one changes nothing.\<close>

locale state_persistence =
  fixes save :: "string \<Rightarrow> OptimizationState \<Rightarrow> 'p \<Rightarrow> string option \<times> 'p"
    and load :: "string \<Rightarrow> 'p \<Rightarrow> (string + OptimizationState option) \<times> 'p"
    and held :: "string \<Rightarrow> 'p \<Rightarrow> string + OptimizationState option"
    and reads :: "'p \<Rightarrow> bool"
    and keeps :: "string \<Rightarrow> bool"
    and restored :: "OptimizationState \<Rightarrow> string + OptimizationState option"
  assumes load_held: "reads p \<Longrightarrow> fst (load s p) = held s p"
    and load_fails: "\<not> reads p \<Longrightarrow> \<exists>e. fst (load s p) = Inl e"
    and load_keeps: "held t (snd (load s p)) = held t p"
    and held_saved: "keeps s \<Longrightarrow> save s st p = (None, p') \<Longrightarrow> held s p' = restored st"
    and held_other: "keeps s \<Longrightarrow> keeps t \<Longrightarrow> s \<noteq> t \<Longrightarrow> held t (snd (save s st p)) = held t p"
    and held_failed: "keeps s \<Longrightarrow> save s st p = (Some e, p') \<Longrightarrow> held s p' = held s p"

text \<open>A sequence of decisions, and what each source should have on its store after it: its state after the last decision that was saved.\<close>

fun decide_all :: "(OptimizationState \<Rightarrow> string + OptimizationState option) \<Rightarrow> (int \<times> string \<times> OptimizationDecision) list \<Rightarrow>
    'p OptimizationStateManager \<Rightarrow> (string \<Rightarrow> string + OptimizationState option) \<Rightarrow>
    'p OptimizationStateManager \<times> (string \<Rightarrow> string + OptimizationState option)" where
  "decide_all restored [] m saved = (m, saved)"
| "decide_all restored ((now, s, d) # ds) m saved =
     (case RecordDecision now s d m of (err, m') \<Rightarrow>
        decide_all restored ds m'
          (case (err, map_of (states m') s) of (None, Some st) \<Rightarrow> saved(s := restored st) | _ \<Rightarrow> saved))"

lemma record_parts:
  assumes "persistence m = Some (sp, p)"
  obtains st p0 where "map_of (states (snd (RecordDecision now s d m))) s = Some st" "p0 = p \<or> p0 = snd (sp_Load sp s p)"
    "persistence (snd (RecordDecision now s d m)) = Some (sp, snd (sp_Save sp s st p0))" "fst (RecordDecision now s d m) = fst (sp_Save sp s st p0)"
proof -
  obtain st0 m1 where g: "GetState now s m = (st0, m1)" by force
  then obtain p0 where p0: "persistence m1 = Some (sp, p0)" "p0 = p \<or> p0 = snd (sp_Load sp s p)"
    using assms by (auto simp: GetState_def loaded_state_def Let_def split: option.splits prod.splits)
  let ?st = "decided (maxHistorySize m1) now d st0"
  have "map_of (states (snd (RecordDecision now s d m))) s = Some ?st" "persistence (snd (RecordDecision now s d m)) = Some (sp, snd (sp_Save sp s ?st p0))"
    "fst (RecordDecision now s d m) = fst (sp_Save sp s ?st p0)"
    using g p0(1) by (auto simp: RecordDecision_def Let_def split: prod.splits)
  with that p0(2) show ?thesis by blast
qed

context state_persistence
begin

lemma decisions_tracked:
  assumes "\<forall>a \<in> set ds. keeps (fst (snd a))" "persistence m = Some (sp, p)" "sp_Save sp = save" "sp_Load sp = load" "\<forall>t. keeps t \<longrightarrow> saved t = held t p"
  shows "\<exists>p'. persistence (fst (decide_all restored ds m saved)) = Some (sp, p') \<and>
    (\<forall>t. keeps t \<longrightarrow> snd (decide_all restored ds m saved) t = held t p')"
  using assms
proof (induction ds arbitrary: m p saved)
  case (Cons a ds)
  obtain now s d where a: "a = (now, s, d)" by (cases a)
  have keep: "keeps s" using Cons.prems(1) a by simp
  obtain err m' where r: "RecordDecision now s d m = (err, m')" by force
  obtain st p0 where st: "map_of (states m') s = Some st" "persistence m' = Some (sp, snd (save s st p0))" "err = fst (save s st p0)"
      and p0: "p0 = p \<or> p0 = snd (load s p)"
    using record_parts [OF Cons.prems(2), of now s d] r Cons.prems(3,4) by (metis fst_conv snd_conv)
  have same: "held t p0 = held t p" for t using p0 load_keeps by auto
  let ?p = "snd (save s st p0)" let ?saved = "case err of None \<Rightarrow> saved(s := restored st) | Some e \<Rightarrow> saved"
  have track: "?saved t = held t ?p" if "keeps t" for t
  proof (cases "t = s")
    case True
    have sv: "save s st p0 = (err, ?p)" using st(3) by (simp add: prod_eq_iff)
    show ?thesis
    proof (cases err)
      case None
      then show ?thesis using True held_saved [OF keep, of st p0 ?p] sv by simp
    next
      case (Some e)
      then show ?thesis using True held_failed [OF keep, of st p0 e ?p] sv Cons.prems(5) keep same by simp
    qed
  next
    case False
    then show ?thesis using held_other [OF keep that, of st p0] Cons.prems(5) that same by (cases err) auto
  qed
  have "decide_all restored (a # ds) m saved = decide_all restored ds m' ?saved"
    using a r st(1) by (cases err) auto
  then show ?case using Cons.IH [OF _ st(2) Cons.prems(3,4), of ?saved] Cons.prems(1) track by auto
qed simp

lemma restart:
  assumes "\<forall>a \<in> set ds. keeps (fst (snd a))" "keeps s" "sp_Save sp = save" "sp_Load sp = load"
  shows "\<exists>p'. persistence (fst (decide_all restored ds (NewOptimizationStateManagerWithPersistence sp p) (\<lambda>t. held t p))) = Some (sp, p') \<and>
    fst (GetState now s (NewOptimizationStateManagerWithPersistence sp p')) =
      (if reads p' then
         (case snd (decide_all restored ds (NewOptimizationStateManagerWithPersistence sp p) (\<lambda>t. held t p)) s of Inr (Some st) \<Rightarrow> st | _ \<Rightarrow> new_state now s)
       else new_state now s)"
proof -
  let ?r = "decide_all restored ds (NewOptimizationStateManagerWithPersistence sp p) (\<lambda>t. held t p)"
  obtain p' where p': "persistence (fst ?r) = Some (sp, p')" "snd ?r s = held s p'"
    using decisions_tracked [OF assms(1) _ assms(3,4), of "NewOptimizationStateManagerWithPersistence sp p" p "\<lambda>t. held t p"] assms(2)
    by (auto simp: NewOptimizationStateManagerWithPersistence_def)
  have "fst (GetState now s (NewOptimizationStateManagerWithPersistence sp p')) = (case fst (load s p') of Inr (Some st) \<Rightarrow> st | _ \<Rightarrow> new_state now s)"
    using assms(4) by (auto simp: NewOptimizationStateManagerWithPersistence_def GetState_def loaded_state_def Let_def split: sum.splits option.splits prod.splits)
  with p' load_held [of p' s] load_fails [of p' s] show ?thesis by (intro exI [of _ p']) auto
qed

end

section \<open>Files keep the states of plain sources\<close>

definition plain :: "string \<Rightarrow> bool" where
  "plain source \<longleftrightarrow> CHR ''/'' \<notin> set source"

lemma plain_files:
  assumes "plain source"
  shows "state_file base source = base @ [source @ ''.json'']" "temp_file base source = base @ [''.'' @ source @ ''.tmp'']"
proof -
  have "last (source @ ''.json'') = CHR ''n''" "last (''.'' @ source @ ''.tmp'') = CHR ''p''" by simp_all
  then have "source @ ''.json'' \<noteq> ''..''" "''.'' @ source @ ''.tmp'' \<noteq> ''..''" by auto
  then show "state_file base source = base @ [source @ ''.json'']" "temp_file base source = base @ [''.'' @ source @ ''.tmp'']"
    using assms by (auto simp: state_file_def temp_file_def join_path_def plain_def split_on_no_sep resolve_def)
qed

lemma file_names_differ: "plain s \<Longrightarrow> plain t \<Longrightarrow> temp_file base s \<noteq> state_file base t"
proof -
  assume "plain s" "plain t"
  moreover have "''.'' @ s @ ''.tmp'' \<noteq> t @ ''.json''" by (auto dest: arg_cong [of _ _ last])
  ultimately show ?thesis by (simp add: plain_files)
qed

lemma next_fault_files: "next_fault d = (f, d1) \<Longrightarrow> files d1 = files d \<and> dirs d1 = dirs d"
  by (auto simp: next_fault_def split: list.splits)

lemma write_files: "path' \<noteq> path \<Longrightarrow> map_of (files (snd (WriteFile path c d))) path' = map_of (files d) path'"
  by (auto dest!: next_fault_files simp: WriteFile_def split: prod.splits fault.splits option.splits)

lemma write_done: "fst (WriteFile path c d) = None \<Longrightarrow> map_of (files (snd (WriteFile path c d))) path = Some c"
  by (auto dest!: next_fault_files simp: WriteFile_def split: prod.splits fault.splits option.splits if_splits)

lemma remove_files: "path' \<noteq> path \<Longrightarrow> map_of (files (snd (Remove path d))) path' = map_of (files d) path'"
  by (auto dest!: next_fault_files simp: Remove_def split: prod.splits fault.splits)

lemma rename_failed: "fst (Rename old new d) = Some e \<Longrightarrow> files (snd (Rename old new d)) = files d"
  by (auto dest!: next_fault_files simp: Rename_def split: prod.splits fault.splits option.splits if_splits)

lemma rename_done:
  assumes "fst (Rename old new d) = None" "old \<noteq> new"
  shows "map_of (files (snd (Rename old new d))) = (map_of (files d))(old := None, new := map_of (files d) old)"
  using assms by (auto dest!: next_fault_files simp: Rename_def fun_eq_iff split: prod.splits fault.splits option.splits if_splits)

text \<open>What a load makes of a saved state.\<close>

definition through :: "codec \<Rightarrow> OptimizationState \<Rightarrow> string + OptimizationState option" where
  "through cd st =
     (case Marshal cd st of Inl e \<Rightarrow> Inl e
      | Inr c \<Rightarrow> (case Unmarshal cd c of Inl e \<Rightarrow> Inl (''failed to unmarshal state: '' @ e) | Inr st' \<Rightarrow> Inr (Some st')))"

lemma save_cases:
  assumes "plain s"
  shows "(fst (Save cd base s st d) = None \<and> (\<exists>c. Marshal cd st = Inr c \<and>
      map_of (files (snd (Save cd base s st d))) = (map_of (files d))(temp_file base s := None, state_file base s \<mapsto> c))) \<or>
    (fst (Save cd base s st d) \<noteq> None \<and> (\<forall>path. path \<noteq> temp_file base s \<longrightarrow> map_of (files (snd (Save cd base s st d))) path = map_of (files d) path))"
proof (cases "Marshal cd st")
  case (Inr c)
  let ?t = "temp_file base s" let ?f = "state_file base s"
  obtain e1 d1 where w: "WriteFile ?t c d = (e1, d1)" by force
  obtain e2 d2 where r: "Rename ?t ?f d1 = (e2, d2)" by force
  have ne: "?t \<noteq> ?f" using file_names_differ assms by blast
  have w1: "\<And>path. path \<noteq> ?t \<Longrightarrow> map_of (files d1) path = map_of (files d) path" using write_files [of _ ?t c d] w by simp
  consider e where "e1 = Some e" | e where "e1 = None" "e2 = Some e" | "e1 = None" "e2 = None" by (cases e1; cases e2) auto
  then show ?thesis
  proof cases
    case 1
    then show ?thesis using w w1 Inr by (simp add: Save_def)
  next
    case (2 e)
    then have "files d2 = files d1" using rename_failed [of ?t ?f d1] r by simp
    then show ?thesis using 2 w w1 r Inr remove_files [of _ ?t d2] by (simp add: Save_def)
  next
    case 3
    then have "map_of (files d2) = (map_of (files d1))(?t := None, ?f := map_of (files d1) ?t)" using rename_done [of ?t ?f d1] r ne by simp
    moreover have "map_of (files d1) ?t = Some c" using write_done [of ?t c d] w 3 by simp
    ultimately have "map_of (files d2) = (map_of (files d))(?t := None, ?f \<mapsto> c)" using w1 by (auto simp: fun_eq_iff)
    then show ?thesis using 3 w r Inr by (simp add: Save_def)
  qed
qed (simp add: Save_def)

text \<open>What the file of a source holds, and whether the disk answers the next operation.\<close>

definition file_state :: "codec \<Rightarrow> string list \<Rightarrow> string \<Rightarrow> disk \<Rightarrow> string + OptimizationState option" where
  "file_state cd base source d =
     (case map_of (files d) (state_file base source) of
        None \<Rightarrow> Inr None
      | Some content \<Rightarrow> (case Unmarshal cd content of Inl e \<Rightarrow> Inl (''failed to unmarshal state: '' @ e) | Inr st \<Rightarrow> Inr (Some st)))"

definition answers :: "disk \<Rightarrow> bool" where
  "answers d \<longleftrightarrow> fst (next_fault d) = NoFault"

lemma file_state_cong: "map_of (files d') (state_file base s) = map_of (files d) (state_file base s) \<Longrightarrow> file_state cd base s d' = file_state cd base s d"
  by (simp add: file_state_def)

interpretation files: state_persistence "Save cd base" "Load cd base" "file_state cd base" answers plain "through cd" for cd base
proof unfold_locales
  fix s t st p p' e
  show "fst (Load cd base s p) = file_state cd base s p" if ok: "answers p"
  proof -
    obtain p1 where f: "next_fault p = (NoFault, p1)" using ok unfolding answers_def by (metis prod.collapse)
    then have "files p1 = files p" using next_fault_files by blast
    with f show ?thesis by (cases "map_of (files p) (state_file base s)") (simp_all add: Load_def ReadFile_def file_state_def)
  qed
  show "\<exists>e. fst (Load cd base s p) = Inl e" if "\<not> answers p"
    using that by (auto simp: Load_def ReadFile_def answers_def split: prod.splits fault.splits)
  have "files (snd (Load cd base s p)) = files p"
    by (auto dest!: next_fault_files simp: Load_def ReadFile_def split: prod.splits fault.splits option.splits sum.splits read_error.splits)
  then show "file_state cd base t (snd (Load cd base s p)) = file_state cd base t p" by (simp add: file_state_def)
  assume s: "plain s"
  { assume "Save cd base s st p = (None, p')"
    with save_cases [OF s, of cd base st p] obtain c where "Marshal cd st = Inr c" "map_of (files p') (state_file base s) = Some c" by auto
    then show "file_state cd base s p' = through cd st" by (simp add: file_state_def through_def) }
  { assume "plain t" "s \<noteq> t"
    then have "state_file base t \<noteq> state_file base s" "state_file base t \<noteq> temp_file base s" using s file_names_differ [of s t base] by (auto simp: plain_files)
    then have "map_of (files (snd (Save cd base s st p))) (state_file base t) = map_of (files p) (state_file base t)"
      using save_cases [OF s, of cd base st p] by auto
    then show "file_state cd base t (snd (Save cd base s st p)) = file_state cd base t p" by (rule file_state_cong) }
  { assume "Save cd base s st p = (Some e, p')"
    then have "map_of (files p') (state_file base s) = map_of (files p) (state_file base s)"
      using save_cases [OF s, of cd base st p] file_names_differ [OF s s, of base] by auto
    then show "file_state cd base s p' = file_state cd base s p" by (rule file_state_cong) }
qed

section \<open>Decisions survive a restart\<close>

text \<open>C19. Take the files as the store, a disk on which any write, rename or read may fail, and decisions for sources without a slash in their name. A manager that is restarted after any sequence of decisions, and whose first
  read the disk answers, has for such a source
  the state after the last decision whose save reported no error, as the JSON encoding gives it back, or what the file held
  before, or a new state when there is none; a file is never half written. If that read fails, it has a new state.\<close>

theorem decisions_survive:
  assumes "\<forall>a \<in> set ds. plain (fst (snd a))" "plain s"
  shows "\<exists>d'. persistence (fst (decide_all (through cd) ds (NewOptimizationStateManagerWithPersistence (FileStatePersistence cd base) d) (\<lambda>t. file_state cd base t d))) =
      Some (FileStatePersistence cd base, d') \<and>
    fst (GetState now s (NewOptimizationStateManagerWithPersistence (FileStatePersistence cd base) d')) =
      (if answers d' then
         (case snd (decide_all (through cd) ds (NewOptimizationStateManagerWithPersistence (FileStatePersistence cd base) d) (\<lambda>t. file_state cd base t d)) s of
            Inr (Some st) \<Rightarrow> st | _ \<Rightarrow> new_state now s)
       else new_state now s)"
  using files.restart [OF assms, of "FileStatePersistence cd base" cd base d now] by (simp add: FileStatePersistence_def)

text \<open>A codec that writes the strategy only, and a disk whose second save fails halfway.\<close>

definition strategy_codec :: codec where
  "strategy_codec = \<lparr>Marshal = (\<lambda>st. Inr (CurrentStrategy st)), Unmarshal = (\<lambda>c. Inr ((new_state 0 ''s'')\<lparr>CurrentStrategy := c\<rparr>))\<rparr>"

definition change_to :: "string \<Rightarrow> OptimizationDecision" where
  "change_to st = \<lparr>dec_Timestamp = 0, dec_Type = ''strategy_change'', PreviousValue = VNil, NewValue = VStr st, Confidence = Fin 1, dec_Reason = [], ImpactMetrics = []\<rparr>"

definition faulty_disk :: disk where
  "faulty_disk = \<lparr>files = [], dirs = [[''state'']], faults = [NoFault, NoFault, NoFault, Fault ''no space'' (Some ''filt'')]\<rparr>"

text \<open>The run of two decisions on that disk, and the disk it leaves.\<close>

definition two_decisions :: "(int \<times> string \<times> OptimizationDecision) list" where
  "two_decisions = [(1, ''s'', change_to ''dedup_first''), (2, ''s'', change_to ''filter_first'')]"

definition after_two :: "disk OptimizationStateManager" where
  "after_two = fst (decide_all (through strategy_codec) two_decisions
     (NewOptimizationStateManagerWithPersistence (FileStatePersistence strategy_codec [''state'']) faulty_disk)
     (\<lambda>t. file_state strategy_codec [''state''] t faulty_disk))"

theorem decisions_survive_witness:
  "\<exists>d'. persistence after_two = Some (FileStatePersistence strategy_codec [''state''], d') \<and> answers d' \<and>
     map_option CurrentStrategy (map_of (states after_two) ''s'') = Some ''filter_first'' \<and>
     CurrentStrategy (fst (GetState 9 ''s'' (NewOptimizationStateManagerWithPersistence (FileStatePersistence strategy_codec [''state'']) d'))) = ''dedup_first''"
proof -
  let ?r = "decide_all (through strategy_codec) two_decisions (NewOptimizationStateManagerWithPersistence (FileStatePersistence strategy_codec [''state'']) faulty_disk)
    (\<lambda>t. file_state strategy_codec [''state''] t faulty_disk)"
  have "\<forall>a \<in> set two_decisions. plain (fst (snd a))" "plain ''s''" by (simp_all add: plain_def two_decisions_def)
  from decisions_survive [OF this, of strategy_codec "[''state'']" faulty_disk 9]
  obtain d' where d': "persistence after_two = Some (FileStatePersistence strategy_codec [''state''], d')"
    and st: "fst (GetState 9 ''s'' (NewOptimizationStateManagerWithPersistence (FileStatePersistence strategy_codec [''state'']) d')) =
      (if answers d' then (case snd ?r ''s'' of Inr (Some st) \<Rightarrow> st | _ \<Rightarrow> new_state 9 ''s'') else new_state 9 ''s'')"
    unfolding after_two_def by blast
  have "map_option (answers \<circ> snd) (persistence after_two) = Some True" by code_simp
  with d' have "answers d'" by simp
  moreover have "CurrentStrategy (case snd ?r ''s'' of Inr (Some st) \<Rightarrow> st | _ \<Rightarrow> new_state 9 ''s'') = ''dedup_first''" by code_simp
  moreover have "map_option CurrentStrategy (map_of (states after_two) ''s'') = Some ''filter_first''" by code_simp
  ultimately show ?thesis using d' st by metis
qed

text \<open>A file that cannot be read is taken for no file: when the load before a decision fails and the save does not, the history that was stored is
  overwritten by the one decision.\<close>

theorem unreadable_overwritten:
  assumes "plain s" "persistence m = Some (FileStatePersistence cd base, d)" "map_of (states m) s = None" "\<not> answers d" "0 < maxHistorySize m"
    "RecordDecision now s dec m = (None, m')"
  shows "\<exists>d' st. persistence m' = Some (FileStatePersistence cd base, d') \<and> file_state cd base s d' = through cd st \<and>
    DecisionHistory st = [dec\<lparr>dec_Timestamp := now\<rparr>]"
proof -
  obtain r d1 where l: "Load cd base s d = (r, d1)" by force
  obtain e where r: "r = Inl e" using files.load_fails [OF assms(4), of cd base s] l by auto
  let ?st = "decided (maxHistorySize m) now dec (new_state now s)"
  have "fst (Save cd base s ?st d1) = None" "persistence m' = Some (FileStatePersistence cd base, snd (Save cd base s ?st d1))"
    using assms(2,3,6) l r
    by (auto simp: RecordDecision_def GetState_def loaded_state_def FileStatePersistence_def Let_def split: prod.splits)
  moreover from this have "file_state cd base s (snd (Save cd base s ?st d1)) = through cd ?st"
    using files.held_saved [OF assms(1), of cd base ?st d1] by (metis prod.collapse)
  moreover have "DecisionHistory ?st = [dec\<lparr>dec_Timestamp := now\<rparr>]"
    using assms(5) by (simp add: decided_def new_state_def Let_def)
  ultimately show ?thesis by blast
qed

text \<open>The identifier of a source of a multi-source Ingester contains slashes, so its file would be in a directory that nothing
  creates: its state is never saved.\<close>

theorem multi_source_never_saved:
  assumes "plain ns" "plain name" "plain src" "name \<noteq> []" "name \<noteq> ''.''" "name \<noteq> ''..''" "dirs d = [base]" "ns \<noteq> ''.''" "ns \<noteq> []"
  shows "\<exists>e. fst (Save cd base (ns @ ''/'' @ name @ ''/'' @ src) st d) = Some e"
proof -
  have parts: "split_on (CHR ''/'') (''.'' @ (ns @ ''/'' @ name @ ''/'' @ src) @ ''.tmp'') = [''.'' @ ns, name, src @ ''.tmp'']"
    using assms(1-3) split_on_append_sep [of "CHR ''/''" "''.'' @ ns"] split_on_append_sep [of "CHR ''/''" name] by (simp add: plain_def split_on_no_sep)
  have "last (src @ ''.tmp'') = CHR ''p''" by simp
  then have "src @ ''.tmp'' \<noteq> ''..''" by auto
  then have "temp_file base (ns @ ''/'' @ name @ ''/'' @ src) = base @ [''.'' @ ns, name, src @ ''.tmp'']"
    unfolding temp_file_def join_path_def parts using assms(4-6,8,9) by (auto simp: resolve_def)
  then show ?thesis using assms(7) by (auto simp: Save_def WriteFile_def butlast_append split: sum.splits)
qed

section \<open>The state as a function of the log\<close>

definition decide_log :: "(int \<times> string \<times> OptimizationDecision) list \<Rightarrow> 'p OptimizationStateManager \<Rightarrow> 'p OptimizationStateManager" where
  "decide_log ds m = fold (\<lambda>(now, s, d) m. snd (RecordDecision now s d m)) ds m"

definition of_source :: "string \<Rightarrow> (int \<times> string \<times> OptimizationDecision) list \<Rightarrow> (int \<times> OptimizationDecision) list" where
  "of_source s ds = map (\<lambda>(n, _, d). (n, d)) (filter (\<lambda>(_, t, _). t = s) ds)"

definition log_state :: "string \<Rightarrow> (int \<times> OptimizationDecision) list \<Rightarrow> OptimizationState option" where
  "log_state s lg = (case lg of [] \<Rightarrow> None | (n, _) # _ \<Rightarrow> Some (fold (\<lambda>(n, d). decided 100 n d) lg (new_state n s)))"

lemma log_state_snoc:
  "log_state s (lg @ [(n, d)]) = Some (decided 100 n d (case log_state s lg of None \<Rightarrow> new_state n s | Some st \<Rightarrow> st))"
  by (cases lg) (auto simp: log_state_def)

lemma decide_log_states:
  "map_of (states (decide_log ds (NewOptimizationStateManager :: 'p OptimizationStateManager))) s = log_state s (of_source s ds) \<and>
   persistence (decide_log ds (NewOptimizationStateManager :: 'p OptimizationStateManager)) = None \<and> maxHistorySize (decide_log ds (NewOptimizationStateManager :: 'p OptimizationStateManager)) = 100"
proof (induction ds rule: rev_induct)
  case (snoc a ds)
  obtain n t d where a: "a = (n, t, d)" by (cases a)
  let ?m = "decide_log ds (NewOptimizationStateManager :: 'p OptimizationStateManager)"
  have m: "persistence ?m = None" "maxHistorySize ?m = 100" using snoc by simp_all
  have "decide_log (ds @ [a]) (NewOptimizationStateManager :: 'p OptimizationStateManager) = snd (RecordDecision n t d ?m)" using a by (simp add: decide_log_def)
  moreover have "of_source s (ds @ [a]) = of_source s ds @ (if t = s then [(n, d)] else [])" using a by (simp add: of_source_def)
  ultimately show ?case using snoc m
    by (auto simp: RecordDecision_def GetState_def loaded_state_def Let_def log_state_snoc split: option.splits prod.splits)
qed (simp add: decide_log_def of_source_def log_state_def NewOptimizationStateManager_def DefaultOptimizationConfig_def)

definition changes :: "(int \<times> OptimizationDecision) list \<Rightarrow> string list" where
  "changes lg = List.map_filter (\<lambda>(_, d). if dec_Type d = ''strategy_change'' then as_string (NewValue d) else None) lg"

lemma fold_decided:
  "DecisionHistory (fold (\<lambda>(n, d). decided 100 n d) lg (new_state n0 s)) = drop (length lg - 100) (map (\<lambda>(n, d). d\<lparr>dec_Timestamp := n\<rparr>) lg) \<and>
   CurrentStrategy (fold (\<lambda>(n, d). decided 100 n d) lg (new_state n0 s)) = last (''filter_first'' # changes lg)"
proof (induction lg rule: rev_induct)
  case (snoc a lg)
  obtain n d where a: "a = (n, d)" by (cases a)
  let ?h = "map (\<lambda>(n, d). d\<lparr>dec_Timestamp := n\<rparr>) lg"
  have "drop (length (drop (length lg - 100) ?h @ [x]) - 100) (drop (length lg - 100) ?h @ [x]) = drop (Suc (length lg) - 100) (?h @ [x])" for x
  proof (cases "length lg \<ge> 100")
    case True
    then have "Suc (length lg - 100) = length lg - 99" by arith
    with True show ?thesis by simp
  qed simp
  with snoc a show ?case
    by (auto simp: decided_def Let_def changes_def List.map_filter_def split: option.splits)
qed (simp add: new_state_def changes_def List.map_filter_simps)

text \<open>C38. The manager keeps, for every source on its own, what the log of its decisions says: after any interleaving of decisions for any sources, a source has
  a state exactly if it has decisions, its history is the last 100 of them with the times at which they were recorded, and its
  strategy is the last one a strategy change named, or filter first.\<close>

theorem state_follows_log:
  "case map_of (states (decide_log ds NewOptimizationStateManager)) s of
     None \<Rightarrow> of_source s ds = []
   | Some st \<Rightarrow> of_source s ds \<noteq> [] \<and>
       DecisionHistory st = drop (length (of_source s ds) - 100) (map (\<lambda>(n, d). d\<lparr>dec_Timestamp := n\<rparr>) (of_source s ds)) \<and>
       CurrentStrategy st = last (''filter_first'' # changes (of_source s ds))"
proof (cases "of_source s ds")
  case Nil
  then show ?thesis by (simp add: decide_log_states [THEN conjunct1] log_state_def)
next
  case (Cons a lg)
  obtain n d where a: "a = (n, d)" by (cases a)
  have "log_state s (of_source s ds) = Some (fold (\<lambda>(n, d). decided 100 n d) (of_source s ds) (new_state n s))"
    using Cons a by (simp add: log_state_def)
  then show ?thesis using fold_decided [of "of_source s ds" n s] Cons by (simp only: decide_log_states [THEN conjunct1]) simp
qed

end
