(* ===== verification/Advisor.thy ===== *)
theory Advisor
  imports HA_Mode Zen_Values
begin

text \<open>
  The advisor of \<^verbatim>\<open>pkg/advisor\<close>: the rules of \<^verbatim>\<open>metrics_analyzer.go\<close>, the suggestions of \<^verbatim>\<open>suggestion_engine.go\<close>, \<^verbatim>\<open>impact_tracker.go\<close>, the report of \<^verbatim>\<open>report.go\<close> and
  the analysis of \<^verbatim>\<open>advisor.go\<close>. Templates are those of the source, texts with fields in double braces; the metrics of a source are what
  \<^verbatim>\<open>getSourceMetrics\<close> returns, and the rules are stated for any metrics. A calendar date is formatted by an argument.

  Results: every opportunity the analyzer finds has a suggestion, whose texts are fully rendered; the report counts every
  suggestion that was applied; its average is the largest reduction divided by the number of sources; the analysis as
  it stands never finds anything.
\<close>

section \<open>Types (types.go)\<close>

record Opportunity =
  op_Source :: string
  op_Type :: string
  op_Severity :: string
  op_Confidence :: f64
  op_Metrics :: obj
  op_Description :: string

record Suggestion =
  sg_Source :: string
  sg_Type :: string
  Urgency :: string
  sg_Confidence :: f64
  Title :: string
  sg_Description :: string
  Command :: string
  Impact :: string
  Reduction :: f64

record ImpactMetrics =
  im_Source :: string
  OptimizationsApplied :: int
  ObservationsReduced :: int
  ReductionPercent :: f64
  CPUSavingsMinutes :: f64
  LastOptimizedAt :: "int option"
  MostEffective :: string

record adv_SourceMetrics =
  sm_Source :: string
  sm_ObservationsPerMinute :: f64
  sm_LowSeverityPercent :: f64
  DedupEffectiveness :: f64
  FilterPassRate :: f64
  TotalObservations :: int
  FilteredCount :: int
  DedupedCount :: int
  CreatedCount :: int

definition percent :: "f64 \<Rightarrow> f64" where
  "percent x = f64_mul x (Fin 100)"

definition formatPercent :: "f64 \<Rightarrow> string" where
  "formatPercent v = fmt_fixed 1 (percent v) @ ''%''"

abbreviation newline :: string where "newline \<equiv> [CHR 10]"

definition FormatForLog :: "Suggestion \<Rightarrow> string" where
  "FormatForLog s =
     (let urgencyPrefix = (if Urgency s = ''high'' then ''[HIGH PRIORITY]'' else if Urgency s = ''medium'' then ''[MEDIUM PRIORITY]''
                           else if Urgency s = ''low'' then ''[LOW PRIORITY]'' else [])
      in ''[OPTIMIZATION] '' @ urgencyPrefix @ '' '' @ sg_Source s @ '': '' @ sg_Description s @ newline @
         ''  Suggestion: '' @ Title s @ newline @ ''  Command: '' @ Command s @ newline @
         ''  Confidence: '' @ formatPercent (sg_Confidence s) @ newline @ ''  Expected Impact: '' @ Impact s)"

section \<open>The rules (metrics_analyzer.go)\<close>

text \<open>\<^verbatim>\<open>%.0f\<close>: the integer nearest to the value, ties to even, without a point.\<close>

definition fmt_whole :: "f64 \<Rightarrow> string" where
  "fmt_whole x =
     (case x of NaN \<Rightarrow> ''NaN'' | PosInf \<Rightarrow> ''+Inf'' | NegInf \<Rightarrow> ''-Inf'' | NegZero \<Rightarrow> ''-0''
      | Fin q \<Rightarrow> (if q < 0 then ''-'' @ show_int (round_even (- q)) else show_int (round_even q)))"

definition at_least :: "f64 \<Rightarrow> f64 \<Rightarrow> bool" where
  "at_least x y \<longleftrightarrow> x \<noteq> NaN \<and> y \<noteq> NaN \<and> \<not> f64_less x y"

definition determineSeverity :: "f64 \<Rightarrow> f64 \<Rightarrow> f64 \<Rightarrow> string" where
  "determineSeverity v warningThreshold criticalThreshold =
     (if at_least v criticalThreshold then ''high'' else if at_least v warningThreshold then ''medium'' else ''low'')"

definition f64_sub :: "f64 \<Rightarrow> f64 \<Rightarrow> f64" where
  "f64_sub x y = f64_add x (f64_neg y)"

definition adv_getSourceMetrics :: "string \<Rightarrow> adv_SourceMetrics" where
  "adv_getSourceMetrics source =
     \<lparr>sm_Source = source, sm_ObservationsPerMinute = Fin 0, sm_LowSeverityPercent = Fin 0, DedupEffectiveness = Fin 0, FilterPassRate = Fin 0,
      TotalObservations = 0, FilteredCount = 0, DedupedCount = 0, CreatedCount = 0\<rparr>"

text \<open>The four rules of \<^verbatim>\<open>analyzeSource\<close>, on the metrics of a source.\<close>

definition rule_low_severity :: "string \<Rightarrow> adv_SourceMetrics \<Rightarrow> Opportunity list" where
  "rule_low_severity source m =
     (let p = sm_LowSeverityPercent m
      in if f64_greater p (rnd64 (7 / 10))
         then [\<lparr>op_Source = source, op_Type = ''high_low_severity'', op_Severity = determineSeverity p (rnd64 (7 / 10)) (rnd64 (9 / 10)), op_Confidence = p,
                op_Metrics = [(''low_severity_percent'', VFloat p)], op_Description = fmt_whole (percent p) @ ''% of observations are LOW severity''\<rparr>]
         else [])"

definition rule_dedup :: "string \<Rightarrow> adv_SourceMetrics \<Rightarrow> Opportunity list" where
  "rule_dedup source m =
     (let e = DedupEffectiveness m; lack = f64_sub (Fin 1) e
      in if f64_less e (rnd64 (3 / 10)) \<and> DedupedCount m > 0
         then [\<lparr>op_Source = source, op_Type = ''low_dedup_effectiveness'', op_Severity = determineSeverity lack (rnd64 (7 / 10)) (rnd64 (9 / 10)),
                op_Confidence = lack, op_Metrics = [(''dedup_effectiveness'', VFloat e), (''deduped_count'', VInt64 (DedupedCount m))],
                op_Description = ''Deduplication effectiveness is only '' @ fmt_whole (percent e) @ ''%''\<rparr>]
         else [])"

definition rule_rate :: "string \<Rightarrow> adv_SourceMetrics \<Rightarrow> Opportunity list" where
  "rule_rate source m =
     (let r = sm_ObservationsPerMinute m
      in if f64_greater r (Fin 100)
         then [\<lparr>op_Source = source, op_Type = ''high_observation_rate'', op_Severity = (if f64_greater r (Fin 200) then ''high'' else ''medium''),
                op_Confidence = rnd64 (8 / 10), op_Metrics = [(''observations_per_minute'', VFloat r)],
                op_Description = ''Creating '' @ fmt_whole r @ '' observations/minute (threshold: 100/min)''\<rparr>]
         else [])"

definition rule_filter :: "string \<Rightarrow> adv_SourceMetrics \<Rightarrow> Opportunity list" where
  "rule_filter source m =
     (let r = FilterPassRate m
      in if f64_less r (rnd64 (2 / 10)) \<and> FilteredCount m > 0
         then [\<lparr>op_Source = source, op_Type = ''low_filter_pass_rate'', op_Severity = ''medium'', op_Confidence = rnd64 (7 / 10),
                op_Metrics = [(''filter_pass_rate'', VFloat r), (''filtered_count'', VInt64 (FilteredCount m))],
                op_Description = ''Filter pass rate is only '' @ fmt_whole (percent r) @ ''% (may be too aggressive)''\<rparr>]
         else [])"

definition analyzeSource :: "(string \<Rightarrow> adv_SourceMetrics) \<Rightarrow> string \<Rightarrow> Opportunity list" where
  "analyzeSource metrics source =
     (let m = metrics source in rule_low_severity source m @ rule_dedup source m @ rule_rate source m @ rule_filter source m)"

definition Analyze :: "(string \<Rightarrow> adv_SourceMetrics) \<Rightarrow> string list \<Rightarrow> Opportunity list" where
  "Analyze metrics sources = concat (map (analyzeSource metrics) sources)"

section \<open>Suggestions (suggestion_engine.go)\<close>

record SuggestionRule =
  sr_Type :: string
  sr_Title :: string
  DescriptionTmpl :: string
  CommandTmpl :: string
  ImpactTmpl :: string
  sr_Urgency :: string

text \<open>The templates used: \<^verbatim>\<open>{{.name}}\<close> is the value of a field, \<^verbatim>\<open><no value>\<close> when there is none; anything else in double
  braces, or braces that are not closed, is an error here.\<close>

fun until_close :: "string \<Rightarrow> (string \<times> string) option" where
  "until_close [] = None"
| "until_close (c # s) = (if has_prefix (c # s) ''}}'' then Some ([], tl s) else map_option (\<lambda>(n, t). (c # n, t)) (until_close s))"

lemma until_close_shorter: "until_close s = Some (n, t) \<Longrightarrow> length t \<le> length s"
  by (induction s arbitrary: n) (auto split: if_splits)

function render :: "(string \<times> string) list \<Rightarrow> string \<Rightarrow> string option" where
  "render data s =
     (if s = [] then Some []
      else if has_prefix s ''{{.''
      then (case until_close (drop 3 s) of None \<Rightarrow> None
            | Some (name, t) \<Rightarrow> map_option (\<lambda>r. (case map_of data name of Some v \<Rightarrow> v | None \<Rightarrow> ''<no value>'') @ r) (render data t))
      else if has_prefix s ''{{'' then None
      else map_option (\<lambda>r. hd s # r) (render data (tl s)))"
  by pat_completeness auto
termination
  by (relation "measure (length \<circ> snd)") (auto dest!: until_close_shorter simp: neq_Nil_conv)

declare render.simps [simp del]

definition with_fallback :: "string \<Rightarrow> string option \<Rightarrow> string" where
  "with_fallback tmpl r = (case r of Some t \<Rightarrow> t | None \<Rightarrow> tmpl)"

definition template_fields :: "Opportunity \<Rightarrow> f64 \<Rightarrow> (string \<times> string) list" where
  "template_fields opp reduction =
     [(''source'', op_Source opp), (''reduction'', fmt_whole (percent reduction)), (''description'', op_Description opp)]"

definition formatTemplate :: "string \<Rightarrow> Opportunity \<Rightarrow> f64 \<Rightarrow> string" where
  "formatTemplate tmpl opp reduction = with_fallback tmpl (render (template_fields opp reduction) tmpl)"

definition formatCommand :: "string \<Rightarrow> Opportunity \<Rightarrow> f64 \<Rightarrow> string" where
  "formatCommand tmpl opp reduction =
     with_fallback tmpl
       (render ([(''source'', op_Source opp), (''reduction'', fmt_whole (percent reduction))] @
          (if op_Type opp = ''high_low_severity'' then [(''minPriority'', ''0.5'')] else [])) tmpl)"

definition calculateReduction :: "Opportunity \<Rightarrow> f64" where
  "calculateReduction opp =
     (if op_Type opp = ''high_low_severity'' then (case as_float (idx (op_Metrics opp) ''low_severity_percent'') of Some p \<Rightarrow> p | None \<Rightarrow> Fin 0)
      else if op_Type opp = ''low_dedup_effectiveness'' then Fin (1 / 2)
      else if op_Type opp = ''high_observation_rate'' then rnd64 (6 / 10)
      else if op_Type opp = ''low_filter_pass_rate'' then rnd64 (- (3 / 10))
      else Fin 0)"

definition createSuggestion :: "Opportunity \<Rightarrow> SuggestionRule \<Rightarrow> Suggestion" where
  "createSuggestion opp rule =
     (let reduction = calculateReduction opp
      in \<lparr>sg_Source = op_Source opp, sg_Type = op_Type opp, Urgency = sr_Urgency rule, sg_Confidence = op_Confidence opp, Title = sr_Title rule,
          sg_Description = formatTemplate (DescriptionTmpl rule) opp reduction, Command = formatCommand (CommandTmpl rule) opp reduction,
          Impact = formatTemplate (ImpactTmpl rule) opp reduction, Reduction = reduction\<rparr>)"

definition findRule :: "SuggestionRule list \<Rightarrow> string \<Rightarrow> SuggestionRule option" where
  "findRule rules oppType = List.find (\<lambda>r. sr_Type r = oppType) rules"

definition GenerateSuggestions :: "SuggestionRule list \<Rightarrow> Opportunity list \<Rightarrow> Suggestion list" where
  "GenerateSuggestions rules opps = List.map_filter (\<lambda>opp. map_option (createSuggestion opp) (findRule rules (op_Type opp))) opps"

definition getDefaultRules :: "SuggestionRule list" where
  "getDefaultRules =
     [\<lparr>sr_Type = ''high_low_severity'', sr_Title = ''Set filter.minPriority to reduce noise'',
       DescriptionTmpl = ''{{.description}} - Potential: {{.reduction}}% noise reduction with filter.minPriority=0.5'',
       CommandTmpl = ''kubectl patch observationsourceconfig {{.source}} --type=merge -p '' @ [CHR 39] @ ''{'' @ [CHR 34] @ ''spec'' @ [CHR 34] @ '':{'' @ [CHR 34] @ ''filter'' @
         [CHR 34] @ '':{'' @ [CHR 34] @ ''minPriority'' @ [CHR 34] @ '':{{.minPriority}}}}}'' @ [CHR 39],
       ImpactTmpl = ''Expected to reduce observations by {{.reduction}}% by filtering out LOW severity events'', sr_Urgency = ''medium''\<rparr>,
      \<lparr>sr_Type = ''low_dedup_effectiveness'', sr_Title = ''Switch to dedup_first processing order'',
       DescriptionTmpl = ''{{.description}} - Consider switching processing order to dedup_first'',
       CommandTmpl = ''kubectl patch observationsourceconfig {{.source}} --type=merge -p '' @ [CHR 39] @ ''{'' @ [CHR 34] @ ''spec'' @ [CHR 34] @ '':{'' @ [CHR 34] @ ''processing'' @
         [CHR 34] @ '':{'' @ [CHR 34] @ ''order'' @ [CHR 34] @ '':'' @ [CHR 34] @ ''dedup_first'' @ [CHR 34] @ ''}}}'' @ [CHR 39],
       ImpactTmpl = ''Expected to improve deduplication effectiveness by processing duplicates earlier'', sr_Urgency = ''low''\<rparr>,
      \<lparr>sr_Type = ''high_observation_rate'', sr_Title = ''Optimize filter and dedup settings'',
       DescriptionTmpl = ''{{.description}} - Consider optimizing filter rules or dedup window'', CommandTmpl = ''kubectl get observationsourceconfig {{.source}} -o yaml'',
       ImpactTmpl = ''Review current configuration and optimize to reduce observation rate'', sr_Urgency = ''high''\<rparr>,
      \<lparr>sr_Type = ''low_filter_pass_rate'', sr_Title = ''Review filter configuration'',
       DescriptionTmpl = ''{{.description}} - Filter may be too aggressive'', CommandTmpl = ''kubectl get observationsourceconfig {{.source}} -o yaml'',
       ImpactTmpl = ''Consider relaxing filter rules to allow more observations through'', sr_Urgency = ''low''\<rparr>]"

section \<open>Impact (impact_tracker.go)\<close>

type_synonym ImpactTracker = "(string, ImpactMetrics) gomap"

definition empty_impact :: "string \<Rightarrow> ImpactMetrics" where
  "empty_impact source =
     \<lparr>im_Source = source, OptimizationsApplied = 0, ObservationsReduced = 0, ReductionPercent = Fin 0, CPUSavingsMinutes = Fin 0, LastOptimizedAt = None, MostEffective = []\<rparr>"

definition GetImpact :: "string \<Rightarrow> ImpactTracker \<Rightarrow> ImpactMetrics" where
  "GetImpact source it = (case map_of it source of Some i \<Rightarrow> i | None \<Rightarrow> empty_impact source)"

definition getOrCreateImpact :: "string \<Rightarrow> ImpactTracker \<Rightarrow> ImpactMetrics \<times> ImpactTracker" where
  "getOrCreateImpact source it = (case map_of it source of Some i \<Rightarrow> (i, it) | None \<Rightarrow> (empty_impact source, put source (empty_impact source) it))"

definition RecordSuggestion :: "Suggestion \<Rightarrow> ImpactTracker \<Rightarrow> ImpactTracker" where
  "RecordSuggestion s it = snd (getOrCreateImpact (sg_Source s) it)"

definition RecordApplication :: "int \<Rightarrow> Suggestion \<Rightarrow> ImpactTracker \<Rightarrow> ImpactTracker" where
  "RecordApplication now s it =
     (let (i, it1) = getOrCreateImpact (sg_Source s) it; i1 = i\<lparr>OptimizationsApplied := wrap64 (OptimizationsApplied i + 1), LastOptimizedAt := Some now\<rparr>
      in put (sg_Source s) (if f64_greater (Reduction s) (Fin 0) then i1\<lparr>ReductionPercent := Reduction s, MostEffective := Title s\<rparr> else i1) it1)"

definition UpdateImpact :: "string \<Rightarrow> int \<Rightarrow> f64 \<Rightarrow> ImpactTracker \<Rightarrow> ImpactTracker" where
  "UpdateImpact source observationsReduced cpuSavings it =
     (let (i, it1) = getOrCreateImpact source it in put source (i\<lparr>ObservationsReduced := observationsReduced, CPUSavingsMinutes := cpuSavings\<rparr>) it1)"

section \<open>The report (report.go)\<close>

record WeeklyReport =
  StartDate :: int
  EndDate :: int
  TotalOptimizations :: int
  TotalObservationsReduced :: int
  AverageReductionPercent :: f64
  TotalCPUSavingsMinutes :: f64
  MostEffectiveSource :: string
  MostEffectiveAction :: string
  SourcesOptimized :: "string list"

definition report_impact :: "string \<times> ImpactMetrics \<Rightarrow> WeeklyReport \<Rightarrow> WeeklyReport" where
  "report_impact si r =
     (case si of (source, i) \<Rightarrow>
        if OptimizationsApplied i > 0
        then (let r1 = r\<lparr>TotalOptimizations := wrap64 (TotalOptimizations r + OptimizationsApplied i),
                         TotalObservationsReduced := wrap64 (TotalObservationsReduced r + ObservationsReduced i),
                         TotalCPUSavingsMinutes := f64_add (TotalCPUSavingsMinutes r) (CPUSavingsMinutes i), SourcesOptimized := SourcesOptimized r @ [source]\<rparr>
              in if f64_greater (ReductionPercent i) (AverageReductionPercent r)
                 then r1\<lparr>AverageReductionPercent := ReductionPercent i, MostEffectiveSource := source, MostEffectiveAction := MostEffective i\<rparr> else r1)
        else r)"

definition GenerateWeeklyReport :: "int \<Rightarrow> int \<Rightarrow> ImpactTracker \<Rightarrow> WeeklyReport" where
  "GenerateWeeklyReport start now it =
     (let r = fold report_impact it
            \<lparr>StartDate = start, EndDate = now, TotalOptimizations = 0, TotalObservationsReduced = 0, AverageReductionPercent = Fin 0, TotalCPUSavingsMinutes = Fin 0,
             MostEffectiveSource = [], MostEffectiveAction = [], SourcesOptimized = []\<rparr>
      in if SourcesOptimized r \<noteq> []
         then r\<lparr>AverageReductionPercent := f64_div (AverageReductionPercent r) (f64_of_int (int (length (SourcesOptimized r))))\<rparr> else r)"

definition Format :: "(int \<Rightarrow> string) \<Rightarrow> WeeklyReport \<Rightarrow> string" where
  "Format date wr =
     newline @ ''=== Weekly Optimization Report ==='' @ newline @ newline @
     ''Period: '' @ date (StartDate wr) @ '' to '' @ date (EndDate wr) @ newline @ newline @ ''Summary:'' @ newline @
     ''  Total Optimizations Applied: '' @ show_int (TotalOptimizations wr) @ newline @
     ''  Total Observations Reduced: '' @ show_int (TotalObservationsReduced wr) @ newline @
     ''  Average Reduction: '' @ fmt_fixed 1 (percent (AverageReductionPercent wr)) @ ''%'' @ newline @
     ''  CPU Savings: '' @ fmt_fixed 1 (TotalCPUSavingsMinutes wr) @ '' minutes'' @ newline @ newline @
     ''Most Effective:'' @ newline @ ''  Source: '' @ MostEffectiveSource wr @ newline @ ''  Action: '' @ MostEffectiveAction wr @ newline @ newline @
     ''Sources Optimized: '' @ show_int (int (length (SourcesOptimized wr))) @ newline @
     concat (map (\<lambda>s. ''  - '' @ s @ newline) (SourcesOptimized wr)) @ newline"

section \<open>The advisor (advisor.go)\<close>

text \<open>\<open>handled\<close> are the suggestions passed to the handler, if one is registered.\<close>

record Advisor =
  adv_sources :: "string list"
  adv_rules :: "SuggestionRule list"
  impacts :: ImpactTracker
  analysisInterval :: int
  has_handler :: bool
  handled :: "Suggestion list"
  adv_running :: bool

definition NewAdvisor :: "string list \<Rightarrow> SuggestionRule list \<Rightarrow> ImpactTracker \<Rightarrow> Advisor" where
  "NewAdvisor sources rules it =
     \<lparr>adv_sources = sources, adv_rules = rules, impacts = it, analysisInterval = 15 * 60 * second, has_handler = False, handled = [], adv_running = False\<rparr>"

definition processSuggestion :: "Suggestion \<Rightarrow> Advisor \<Rightarrow> Advisor" where
  "processSuggestion s a =
     a\<lparr>impacts := RecordSuggestion s (impacts a),
       handled := (if has_handler a \<and> at_least (sg_Confidence s) (rnd64 (7 / 10)) then handled a @ [s] else handled a)\<rparr>"

definition runAnalysis :: "(string \<Rightarrow> adv_SourceMetrics) \<Rightarrow> Advisor \<Rightarrow> Advisor" where
  "runAnalysis metrics a =
     (let opportunities = Analyze metrics (adv_sources a)
      in if opportunities = [] then a else fold processSuggestion (GenerateSuggestions (adv_rules a) opportunities) a)"

definition ApplySuggestion :: "int \<Rightarrow> Suggestion \<Rightarrow> Advisor \<Rightarrow> Advisor" where
  "ApplySuggestion now s a = a\<lparr>impacts := RecordApplication now s (impacts a)\<rparr>"

definition SetAnalysisInterval :: "int \<Rightarrow> Advisor \<Rightarrow> Advisor" where
  "SetAnalysisInterval interval a = a\<lparr>analysisInterval := interval\<rparr>"

definition OnSuggestion :: "Advisor \<Rightarrow> Advisor" where
  "OnSuggestion a = a\<lparr>has_handler := True\<rparr>"

text \<open>A whole \<^verbatim>\<open>Start\<close>, from the first analysis over those of the ticks until its context ends, with the metrics each analysis sees. \<^verbatim>\<open>NewTicker\<close> panics
  (\<open>None\<close>) on an interval that is not positive.\<close>

definition advisor_Start :: "(string \<Rightarrow> adv_SourceMetrics) \<Rightarrow> (string \<Rightarrow> adv_SourceMetrics) list \<Rightarrow> Advisor \<Rightarrow> Advisor option" where
  "advisor_Start first ticks a =
     (if adv_running a then Some a
      else if analysisInterval a \<le> 0 then None
      else Some ((fold runAnalysis ticks (runAnalysis first (a\<lparr>adv_running := True\<rparr>)))\<lparr>adv_running := False\<rparr>))"

definition GetAllImpacts :: "ImpactTracker \<Rightarrow> (string, ImpactMetrics) gomap" where
  "GetAllImpacts it = it"

section \<open>Suggestions for opportunities\<close>

lemma rule_types:
  "\<forall>opp \<in> set (Analyze metrics sources). op_Type opp \<in> {''high_low_severity'', ''low_dedup_effectiveness'', ''high_observation_rate'', ''low_filter_pass_rate''}"
  by (auto simp: Analyze_def analyzeSource_def rule_low_severity_def rule_dedup_def rule_rate_def rule_filter_def Let_def split: if_splits)

lemma rules_found:
  "list_all (\<lambda>t. findRule getDefaultRules t \<noteq> None) [''high_low_severity'', ''low_dedup_effectiveness'', ''high_observation_rate'', ''low_filter_pass_rate'']"
  by code_simp

lemma suggestions_map:
  "\<forall>opp \<in> set opps. findRule rules (op_Type opp) \<noteq> None \<Longrightarrow>
   map (\<lambda>s. (sg_Source s, sg_Type s, sg_Confidence s)) (GenerateSuggestions rules opps) = map (\<lambda>opp. (op_Source opp, op_Type opp, op_Confidence opp)) opps"
proof (induction opps)
  case (Cons opp opps)
  then obtain rule where "findRule rules (op_Type opp) = Some rule" by auto
  with Cons show ?case by (simp add: GenerateSuggestions_def List.map_filter_simps createSuggestion_def Let_def)
qed (simp add: GenerateSuggestions_def List.map_filter_simps)

text \<open>Whether a template can be rendered does not depend on the values.\<close>

lemma render_total: "render [] s \<noteq> None \<Longrightarrow> render data s \<noteq> None"
proof (induction s rule: length_induct)
  case (1 s)
  show ?case
  proof (cases "s = [] \<or> \<not> has_prefix s ''{{.''")
    case True
    show ?thesis
    proof (cases s)
      case Nil
      then show ?thesis by (simp add: render.simps)
    next
      case (Cons c cs)
      then have "render [] cs \<noteq> None" "\<not> has_prefix s ''{{''" using True "1.prems" by (auto simp: render.simps [of _ "c # cs"] split: if_splits)
      then show ?thesis using "1.IH" Cons True by (auto simp: render.simps [of _ "c # cs"])
    qed
  next
    case False
    then obtain name t where u: "until_close (drop 3 s) = Some (name, t)" using "1.prems" by (auto simp: render.simps [of _ s] split: option.splits)
    then have "length t < length s" using until_close_shorter [OF u] False by (cases s) auto
    with 1 False u show ?thesis by (auto simp: render.simps [of _ s])
  qed
qed

lemma default_templates:
  "list_all (\<lambda>r. render [] (DescriptionTmpl r) \<noteq> None \<and> render [] (CommandTmpl r) \<noteq> None \<and> render [] (ImpactTmpl r) \<noteq> None) getDefaultRules"
  by code_simp

text \<open>Whatever the metrics are, the advisor makes exactly one suggestion for each opportunity the rules find, in order, with its source, type and
  confidence, and no template of the rules falls back to its unrendered text.\<close>

theorem opportunities_suggested:
  "map (\<lambda>s. (sg_Source s, sg_Type s, sg_Confidence s)) (GenerateSuggestions getDefaultRules (Analyze metrics sources)) =
     map (\<lambda>opp. (op_Source opp, op_Type opp, op_Confidence opp)) (Analyze metrics sources) \<and>
   list_all (\<lambda>r. render data (DescriptionTmpl r) \<noteq> None \<and> render data (CommandTmpl r) \<noteq> None \<and> render data (ImpactTmpl r) \<noteq> None) getDefaultRules"
proof
  have "\<forall>opp \<in> set (Analyze metrics sources). findRule getDefaultRules (op_Type opp) \<noteq> None"
    using rule_types rules_found by (fastforce simp: list_all_iff)
  then show "map (\<lambda>s. (sg_Source s, sg_Type s, sg_Confidence s)) (GenerateSuggestions getDefaultRules (Analyze metrics sources)) =
     map (\<lambda>opp. (op_Source opp, op_Type opp, op_Confidence opp)) (Analyze metrics sources)" by (rule suggestions_map)
  show "list_all (\<lambda>r. render data (DescriptionTmpl r) \<noteq> None \<and> render data (CommandTmpl r) \<noteq> None \<and> render data (ImpactTmpl r) \<noteq> None) getDefaultRules"
    using default_templates render_total by (simp add: list_all_iff)
qed

text \<open>As the source stands the metrics of every source are empty, so the analysis changes nothing.\<close>

theorem advisor_silent: "runAnalysis adv_getSourceMetrics a = a"
proof -
  have "\<not> f64_less (rnd64 (7 / 10)) (Fin 0)" by code_simp
  then have "analyzeSource adv_getSourceMetrics s = []" for s
    by (simp add: analyzeSource_def rule_low_severity_def rule_dedup_def rule_rate_def rule_filter_def adv_getSourceMetrics_def Let_def)
  then show ?thesis by (simp add: runAnalysis_def Analyze_def)
qed

section \<open>The report counts what was applied\<close>

datatype tracker_call = Suggested Suggestion | Applied int Suggestion | Updated string int f64

fun track :: "tracker_call \<Rightarrow> ImpactTracker \<Rightarrow> ImpactTracker" where
  "track (Suggested s) it = RecordSuggestion s it"
| "track (Applied now s) it = RecordApplication now s it"
| "track (Updated source n cpu) it = UpdateImpact source n cpu it"

definition applied :: "tracker_call list \<Rightarrow> nat" where
  "applied calls = length (filter (\<lambda>c. case c of Applied _ _ \<Rightarrow> True | _ \<Rightarrow> False) calls)"

definition total_applied :: "ImpactTracker \<Rightarrow> int" where
  "total_applied it = sum_list (map (\<lambda>(_, i). OptimizationsApplied i) it)"

lemma total_put:
  "total_applied (put k i it) = total_applied it - (case map_of it k of None \<Rightarrow> 0 | Some j \<Rightarrow> OptimizationsApplied j) + OptimizationsApplied i"
  by (induction it) (auto simp: total_applied_def split: option.splits)

lemma total_create: "total_applied (snd (getOrCreateImpact k it)) = total_applied it"
  by (simp add: getOrCreateImpact_def total_put empty_impact_def split: option.split)

lemma created: "map_of (snd (getOrCreateImpact k it)) k = Some (fst (getOrCreateImpact k it))"
  by (simp add: getOrCreateImpact_def split: option.split)

definition counts_ok :: "ImpactTracker \<Rightarrow> bool" where
  "counts_ok it \<longleftrightarrow> (\<forall>(_, i) \<in> set it. 0 \<le> OptimizationsApplied i)"

lemma counts_put: "counts_ok it \<Longrightarrow> 0 \<le> OptimizationsApplied i \<Longrightarrow> counts_ok (put k i it)"
  by (induction it) (auto simp: counts_ok_def)

lemma counts_create: "counts_ok it \<Longrightarrow> counts_ok (snd (getOrCreateImpact k it)) \<and> 0 \<le> OptimizationsApplied (fst (getOrCreateImpact k it))"
  by (auto simp: getOrCreateImpact_def counts_put empty_impact_def counts_ok_def [of it] dest: map_of_SomeD split: option.split)

lemma one_count: "counts_ok it \<Longrightarrow> map_of it k = Some i \<Longrightarrow> OptimizationsApplied i \<le> total_applied it"
proof (induction it)
  case (Cons a it)
  have "0 \<le> total_applied it" using Cons.prems(1) by (auto simp: total_applied_def counts_ok_def intro!: sum_list_nonneg)
  with Cons show ?case by (auto simp: total_applied_def counts_ok_def split: if_splits)
qed simp

lemma track_counts:
  assumes "counts_ok it" "total_applied it + (case c of Applied _ _ \<Rightarrow> 1 | _ \<Rightarrow> 0) < 2 ^ 63"
  shows "counts_ok (track c it) \<and> total_applied (track c it) = total_applied it + (case c of Applied _ _ \<Rightarrow> 1 | _ \<Rightarrow> 0)"
proof (cases c)
  case (Suggested s)
  then show ?thesis using assms counts_create by (simp add: RecordSuggestion_def total_create)
next
  case (Applied now s)
  let ?g = "getOrCreateImpact (sg_Source s) it"
  have g: "counts_ok (snd ?g)" "0 \<le> OptimizationsApplied (fst ?g)" using counts_create [OF assms(1)] by auto
  have "OptimizationsApplied (fst ?g) \<le> total_applied it" using one_count [OF g(1) created] total_create by metis
  then have w: "wrap64 (OptimizationsApplied (fst ?g) + 1) = OptimizationsApplied (fst ?g) + 1"
    using g(2) assms(2) Applied by (intro wrap64_id) (simp add: in_int64_def)
  define i where "i = (let i1 = (fst ?g)\<lparr>OptimizationsApplied := OptimizationsApplied (fst ?g) + 1, LastOptimizedAt := Some now\<rparr>
    in if f64_greater (Reduction s) (Fin 0) then i1\<lparr>ReductionPercent := Reduction s, MostEffective := Title s\<rparr> else i1)"
  have i: "OptimizationsApplied i = OptimizationsApplied (fst ?g) + 1" by (simp add: i_def Let_def)
  have "track c it = put (sg_Source s) i (snd ?g)" using Applied w by (auto simp: RecordApplication_def i_def Let_def split: prod.split)
  then show ?thesis using g i Applied by (simp add: counts_put total_put created total_create)
next
  case (Updated source n cpu)
  let ?g = "getOrCreateImpact source it"
  have g: "counts_ok (snd ?g)" "0 \<le> OptimizationsApplied (fst ?g)" using counts_create [OF assms(1)] by auto
  have "track c it = put source ((fst ?g)\<lparr>ObservationsReduced := n, CPUSavingsMinutes := cpu\<rparr>) (snd ?g)"
    using Updated by (simp add: UpdateImpact_def split: prod.split)
  then show ?thesis using g Updated by (simp add: counts_put total_put created total_create)
qed

lemma track_all:
  "int (applied calls) < 2 ^ 63 \<Longrightarrow> counts_ok (fold track calls []) \<and> total_applied (fold track calls []) = int (applied calls)"
proof (induction calls rule: rev_induct)
  case (snoc c calls)
  have n: "applied (calls @ [c]) = applied calls + (case c of Applied _ _ \<Rightarrow> 1 | _ \<Rightarrow> 0)" by (simp add: applied_def split: tracker_call.split)
  then have IH: "counts_ok (fold track calls [])" "total_applied (fold track calls []) = int (applied calls)" using snoc by (auto split: tracker_call.splits)
  have "total_applied (fold track calls []) + (case c of Applied _ _ \<Rightarrow> 1 | _ \<Rightarrow> 0) < 2 ^ 63"
    using IH(2) n snoc.prems by (auto split: tracker_call.splits)
  from track_counts [OF IH(1) this] IH(2) n show ?case by (auto split: tracker_call.splits)
qed (simp add: counts_ok_def total_applied_def applied_def)

lemma report_total:
  "counts_ok it \<Longrightarrow> 0 \<le> TotalOptimizations r \<Longrightarrow> TotalOptimizations r + total_applied it < 2 ^ 63 \<Longrightarrow>
   TotalOptimizations (fold report_impact it r) = TotalOptimizations r + total_applied it"
proof (induction it arbitrary: r)
  case (Cons a it)
  obtain source i where a: "a = (source, i)" by (cases a)
  let ?n = "OptimizationsApplied i"
  have pos: "0 \<le> ?n" "counts_ok it" using Cons.prems(1) a by (auto simp: counts_ok_def)
  have t: "total_applied (a # it) = ?n + total_applied it" "0 \<le> total_applied it"
    using a pos(2) by (auto simp: total_applied_def counts_ok_def intro!: sum_list_nonneg)
  have "wrap64 (TotalOptimizations r + ?n) = TotalOptimizations r + ?n" using Cons.prems pos t by (intro wrap64_id) (simp add: in_int64_def)
  then have r: "TotalOptimizations (report_impact a r) = TotalOptimizations r + ?n" using a pos(1) by (auto simp: report_impact_def Let_def)
  then show ?case using Cons.IH [OF pos(2), of "report_impact a r"] Cons.prems t pos(1) by simp
qed (simp add: total_applied_def)

text \<open>The weekly report counts every suggestion that was applied: after any sequence of suggestions, applications and updates, its total is the number of
  applications, whatever the sources and the order in which the map lists them.\<close>

theorem report_counts_applied:
  assumes "int (applied calls) < 2 ^ 63"
  shows "TotalOptimizations (GenerateWeeklyReport start now (fold track calls [])) = int (applied calls)"
  using track_all [OF assms] report_total [of "fold track calls []"] assms by (simp add: GenerateWeeklyReport_def Let_def)

definition some_suggestion :: "string \<Rightarrow> f64 \<Rightarrow> Suggestion" where
  "some_suggestion source r =
     \<lparr>sg_Source = source, sg_Type = [], Urgency = [], sg_Confidence = Fin 1, Title = ''t'', sg_Description = [], Command = [], Impact = [], Reduction = r\<rparr>"

theorem report_counts_applied_witness:
  "TotalOptimizations (GenerateWeeklyReport 0 1
     (fold track [Applied 0 (some_suggestion ''a'' (Fin (3 / 4))), Suggested (some_suggestion ''b'' (Fin 0)), Applied 1 (some_suggestion ''a'' (Fin 0))] [])) = 2"
  by (subst report_counts_applied) (simp_all add: applied_def)

text \<open>What the report calls the average is the largest reduction divided by the number of sources: with reductions of 75 and 25 percent it is
  37.5 percent.\<close>

theorem average_is_not_average:
  "AverageReductionPercent (GenerateWeeklyReport 0 1
     (fold track [Applied 0 (some_suggestion ''a'' (Fin (3 / 4))), Applied 1 (some_suggestion ''b'' (Fin (1 / 4)))] [])) = Fin (3 / 8)"
  by code_simp

end
