(* ===== verification/Field_Mapper.thy ===== *)
theory Field_Mapper
  imports Event_Pipeline Zen_Time
begin

text \<open>
  The field mapper of \<^verbatim>\<open>pkg/watcher/field_mapper.go\<close>: constants, static tables and copied fields written into the spec of an
  observation, and times to live in seconds, minutes, hours, days or weeks. The unstructured package is the parameter \<open>uapi\<close>.

  Results: a mapped field can be read back from the observation and nothing beside its path is changed; a field is looked up
  as the pipeline looks it up, except that empty path elements are skipped; a number with a unit is read as their product.
\<close>

section \<open>Paths\<close>

text \<open>The loop of \<^verbatim>\<open>splitPath\<close>, with the element that is being read and those before it.\<close>

fun split_loop :: "string list \<Rightarrow> string \<Rightarrow> string \<Rightarrow> string list" where
  "split_loop parts current [] = (if current \<noteq> [] then parts @ [current] else parts)"
| "split_loop parts current (c # s) =
     (if c = CHR ''.'' then (if current \<noteq> [] then split_loop (parts @ [current]) [] s else split_loop parts current s)
      else split_loop parts (current @ [c]) s)"

definition fm_splitPath :: "string \<Rightarrow> string list" where
  "fm_splitPath path = (if path = [] then [] else split_loop [] [] path)"

fun nested_parts :: "obj \<Rightarrow> string list \<Rightarrow> val" where
  "nested_parts current [] = VNil"
| "nested_parts current [part] = idx current part"
| "nested_parts current (part # part' # parts) =
     (case as_map (idx current part) of Some next \<Rightarrow> nested_parts next (part' # parts) | None \<Rightarrow> VNil)"

definition getNestedField :: "obj \<Rightarrow> string \<Rightarrow> val" where
  "getNestedField data path = nested_parts data (fm_splitPath path)"

section \<open>Setting a field\<close>

record FieldMapper =
  fieldExtractor :: path_cache

definition NewFieldMapper :: FieldMapper where
  "NewFieldMapper = \<lparr>fieldExtractor = []\<rparr>"

text \<open>The observation after the call, with an error or without, or a panic.\<close>

datatype map_result = Mapped obj | MapError string obj | MapPanic

text \<open>The loop over a nested path replaces what is not a map; an empty path has no last element.\<close>

fun set_parts :: "obj \<Rightarrow> string list \<Rightarrow> val \<Rightarrow> obj option" where
  "set_parts current [] v = None"
| "set_parts current [part] v = Some (put part v current)"
| "set_parts current (part # part' # parts) v =
     (let nested = (case as_map (idx current part) of Some nested \<Rightarrow> nested | None \<Rightarrow> [])
      in map_option (\<lambda>sub. put part (VMap sub) current) (set_parts nested (part' # parts) v))"

definition setField :: "uapi \<Rightarrow> obj \<Rightarrow> string \<Rightarrow> val \<Rightarrow> FieldMapper \<Rightarrow> map_result \<times> FieldMapper" where
  "setField u ob fieldPath v fm =
     (let (found, cache) = ExtractMap u (fieldExtractor fm) ob [''spec'']; fm1 = fm\<lparr>fieldExtractor := cache\<rparr>
      in case (case found of Some spec \<Rightarrow> Some (spec, ob) | None \<Rightarrow> map_option (\<lambda>ob1. ([], ob1)) (SetNestedMap u ob [] [''spec''])) of
           None \<Rightarrow> (MapError ''spec'' ob, fm1)
         | Some (spec, ob1) \<Rightarrow>
             (case set_parts spec (fm_splitPath fieldPath) v of
                None \<Rightarrow> (MapPanic, fm1)
              | Some spec1 \<Rightarrow>
                  (case SetNestedMap u ob1 spec1 [''spec''] of
                     None \<Rightarrow> (MapError ''spec'' ob1, fm1)
                   | Some ob2 \<Rightarrow> (Mapped ob2, fm1))))"

definition ApplyFieldMapping :: "uapi \<Rightarrow> obj \<Rightarrow> FieldMapping \<Rightarrow> obj \<Rightarrow> FieldMapper \<Rightarrow> map_result \<times> FieldMapper" where
  "ApplyFieldMapping u ob mapping sourceData fm =
     (if fm_constant mapping \<noteq> [] then setField u ob (fm_to mapping) (VStr (fm_constant mapping)) fm
      else if fm_static mapping \<noteq> [] then
        (if fm_from mapping = [] then (MapError ''static mappings require 'from' field to be set'' ob, fm)
         else (let sourceVal = getNestedField sourceData (fm_from mapping)
               in if sourceVal = VNil then (Mapped ob, fm)
                  else case map_of (fm_static mapping) (fmt_v sourceVal) of
                         Some mappedVal \<Rightarrow> setField u ob (fm_to mapping) (VStr mappedVal) fm
                       | None \<Rightarrow> (Mapped ob, fm)))
      else if fm_from mapping = [] then (MapError (''field mapping requires either 'from', 'constant', or 'staticMappings'' @ [CHR 39]) ob, fm)
      else (let sourceVal = getNestedField sourceData (fm_from mapping)
            in if sourceVal \<noteq> VNil then setField u ob (fm_to mapping) sourceVal fm else (Mapped ob, fm)))"

section \<open>Times to live\<close>

text \<open>The multiplier of a suffix.\<close>

definition ttl_multiplier :: "char \<Rightarrow> int option" where
  "ttl_multiplier c =
     (if c = CHR ''w'' then Some (7 * 24 * 60 * 60) else if c = CHR ''d'' then Some (24 * 60 * 60)
      else if c = CHR ''h'' then Some (60 * 60) else if c = CHR ''m'' then Some 60 else if c = CHR ''s'' then Some 1 else None)"

definition parseTTLToSeconds :: "string \<Rightarrow> string + int" where
  "parseTTLToSeconds ttlStr =
     (if ttlStr = [] then Inl ''empty TTL string''
      else case parse_duration ttlStr of
        Some d \<Rightarrow> Inr (f64_to_int (Seconds d))
      | None \<Rightarrow>
          (case parse_int ttlStr of
             Some seconds \<Rightarrow> Inr seconds
           | None \<Rightarrow>
               (if length ttlStr > 1
                then (case ttl_multiplier (last ttlStr) of
                        None \<Rightarrow> Inl (''unknown TTL suffix: '' @ [last ttlStr])
                      | Some multiplier \<Rightarrow>
                          (case parse_int (butlast ttlStr) of
                             Some num \<Rightarrow> Inr (wrap64 (num * multiplier))
                           | None \<Rightarrow> Inl (''unable to parse TTL: '' @ ttlStr)))
                else Inl (''unable to parse TTL: '' @ ttlStr))))"

text \<open>The text of a time to live: \<open>Inl\<close> an error, \<open>None\<close> when there is nothing to map.\<close>

definition ApplyTTLMapping :: "FieldMapping \<Rightarrow> obj \<Rightarrow> string + int" where
  "ApplyTTLMapping mapping sourceData =
     (let ttlStr =
        (if fm_constant mapping \<noteq> [] then Inr (Some (fm_constant mapping))
         else if fm_static mapping \<noteq> [] then
           (if fm_from mapping = [] then Inl ''static TTL mappings require 'from' field''
            else (let sourceVal = getNestedField sourceData (fm_from mapping)
                  in if sourceVal = VNil then Inr None else Inr (map_of (fm_static mapping) (fmt_v sourceVal))))
         else if fm_from mapping \<noteq> [] then
           (let sourceVal = getNestedField sourceData (fm_from mapping)
            in if sourceVal = VNil then Inr None else Inr (Some (fmt_v sourceVal)))
         else Inr None)
      in case ttlStr of
           Inl e \<Rightarrow> Inl e
         | Inr None \<Rightarrow> Inr 0
         | Inr (Some s) \<Rightarrow>
             (case parseTTLToSeconds s of Inl err \<Rightarrow> Inl (''invalid TTL format '' @ [CHR 39] @ s @ [CHR 39] @ '': '' @ err) | Inr seconds \<Rightarrow> Inr seconds))"


section \<open>Reading paths\<close>

lemma split_loop_on:
  "split_loop parts current s = parts @ filter (\<lambda>w. w \<noteq> []) ((current @ hd (split_on (CHR ''.'') s)) # tl (split_on (CHR ''.'') s))"
proof (induction parts current s rule: split_loop.induct)
  case (2 parts current c s)
  obtain w ws where "split_on (CHR ''.'') s = w # ws" by (metis neq_Nil_conv split_on_not_Nil)
  with 2 show ?case by auto
qed simp

lemma fm_splitPath_split: "fm_splitPath path = filter (\<lambda>w. w \<noteq> []) (split_on (CHR ''.'') path)"
  using split_loop_on [of "[]" "[]" path] by (cases "path = []") (auto simp: fm_splitPath_def)

lemma nested_walk: "ks \<noteq> [] \<Longrightarrow> nested_parts m ks = (case walk (VMap m) ks of None \<Rightarrow> VNil | Some v \<Rightarrow> v)"
  by (induction m ks rule: nested_parts.induct) (auto simp: idx_def split: option.splits)

text \<open>A field is looked up as the pipeline does it, when the path has no empty element.\<close>

theorem lookups_agree:
  assumes "[] \<notin> set (split_on (CHR ''.'') path)"
  shows "getNestedField data path = extractField data path"
proof -
  have "fm_splitPath path = split_on (CHR ''.'') path" using assms by (auto simp: fm_splitPath_split filter_id_conv)
  moreover have "nested_parts m ks = extract_parts m ks" for m ks
    by (induction m ks rule: nested_parts.induct) (auto simp: idx_def split: option.splits val.splits)
  ultimately show ?thesis by (simp add: getNestedField_def extractField_def)
qed

section \<open>A mapped field is read back\<close>

lemma set_parts_store: "set_parts m ks v = store True m ks v"
  by (induction m ks v rule: set_parts.induct) (auto simp: idx_def sub_map_def Let_def split: option.splits)

lemma walk_store_diverge:
  "store True m ks v = Some m' \<Longrightarrow> \<not> prefix q ks \<Longrightarrow> \<not> prefix ks q \<Longrightarrow> walk (VMap m') q = walk (VMap m) q"
proof (induction "True" m ks v arbitrary: m' q rule: store.induct)
  case (2 m k v)
  then show ?case by (cases q) auto
next
  case (3 m k k' ks v)
  then obtain sub z where z: "sub_map True m k = Some sub" "store True sub (k' # ks) v = Some z" "m' = put k (VMap z) m" by (auto split: option.splits)
  obtain a p where q: "q = a # p" using 3(3) by (cases q) auto
  show ?case
  proof (cases "a = k")
    case True
    then have p: "\<not> prefix p (k' # ks)" "\<not> prefix (k' # ks) p" using 3(3,4) q by auto
    then obtain b r where r: "p = b # r" by (cases p) auto
    have "walk (VMap z) p = walk (VMap sub) p" by (rule 3(1) [OF z(1,2) p])
    moreover have "walk (VMap sub) p = (case map_of m k of None \<Rightarrow> None | Some w \<Rightarrow> walk w p)"
      using z(1) r by (auto simp: sub_map_def split: option.splits)
    ultimately show ?thesis using q True z(3) by simp
  qed (use q z(3) in simp)
qed simp

text \<open>Writing a field is storing it below the spec, and never fails.\<close>

lemma setField_stores:
  assumes "unstructured_laws u" "json_obj ob" "json_ok v" "reachable_cache (fieldExtractor fm)" "fm_splitPath path \<noteq> []"
  obtains ob' where "fst (setField u ob path v fm) = Mapped ob'" "store True ob (''spec'' # fm_splitPath path) v = Some ob'"
proof -
  let ?parts = "fm_splitPath path"
  have sp: "plain_path [''spec'']" by (simp add: plain_path_def)
  have get: "fst (ExtractMap u (fieldExtractor fm) ob [''spec'']) = walk_to as_map ob [''spec'']"
    unfolding ExtractMap_def by (rule trans [OF extract_transparent [OF assms(4) sp, where get = "NestedMap u" and obj = ob] unstructured_laws.NestedMap [OF assms(1,2)]])
  define spec where "spec = (case walk_to as_map ob [''spec''] of Some m \<Rightarrow> m | None \<Rightarrow> [])"
  have sub: "sub_map True ob ''spec'' = Some spec" by (auto simp: spec_def sub_map_def split: option.splits)
  have j: "json_obj spec" using assms(2) by (auto simp: spec_def dest: json_lookup simp del: json_ok.simps split: option.splits)
  obtain spec1 where s1: "store True spec ?parts v = Some spec1" using store_forced [OF assms(5)] by blast
  have j1: "json_obj spec1" by (rule json_store [OF s1 j assms(3)])
  have set: "SetNestedMap u m w [''spec''] = Some (put ''spec'' (VMap w) m)" if "json_obj w" for m w
    using assms(1) that by (simp add: unstructured_laws.SetNestedMap)
  obtain found cache where ex: "ExtractMap u (fieldExtractor fm) ob [''spec''] = (found, cache)" by fastforce
  have "fst (setField u ob path v fm) = Mapped (put ''spec'' (VMap spec1) ob)"
    using ex get s1 set [OF j1] set [OF json_Nil] by (auto simp: setField_def set_parts_store spec_def split: option.splits)
  moreover have "store True ob (''spec'' # ?parts) v = Some (put ''spec'' (VMap spec1) ob)"
    using assms(5) sub s1 by (cases ?parts) auto
  ultimately show ?thesis using that by blast
qed


text \<open>What a mapping gives: an error, nothing, or a value.\<close>

definition mapping_value :: "FieldMapping \<Rightarrow> obj \<Rightarrow> unit + val option" where
  "mapping_value mapping data =
     (if fm_constant mapping \<noteq> [] then Inr (Some (VStr (fm_constant mapping)))
      else if fm_from mapping = [] then Inl ()
      else (case walk (VMap data) (fm_splitPath (fm_from mapping)) of
              None \<Rightarrow> Inr None
            | Some v \<Rightarrow> if v = VNil \<or> fm_splitPath (fm_from mapping) = [] then Inr None
                        else if fm_static mapping = [] then Inr (Some v)
                        else Inr (map_option VStr (map_of (fm_static mapping) (fmt_v v)))))"

lemma nested_found:
  "getNestedField data path = (case walk (VMap data) (fm_splitPath path) of None \<Rightarrow> VNil | Some v \<Rightarrow> if fm_splitPath path = [] then VNil else v)"
  by (cases "fm_splitPath path = []") (auto simp: getNestedField_def nested_walk split: option.splits)

lemma apply_value:
  "case mapping_value mapping data of
     Inl _ \<Rightarrow> \<exists>e. fst (ApplyFieldMapping u ob mapping data fm) = MapError e ob
   | Inr None \<Rightarrow> fst (ApplyFieldMapping u ob mapping data fm) = Mapped ob
   | Inr (Some v) \<Rightarrow> ApplyFieldMapping u ob mapping data fm = setField u ob (fm_to mapping) v fm"
  by (auto simp: mapping_value_def ApplyFieldMapping_def nested_found Let_def split: option.splits)

lemma mapping_value_json: "json_obj data \<Longrightarrow> mapping_value mapping data = Inr (Some v) \<Longrightarrow> json_ok v"
  by (auto simp: mapping_value_def json_walk simp del: json_ok.simps(11) split: if_splits option.splits)

text \<open>C24. A field mapping writes what it says and nothing else: a mapping without a constant or a source field is refused and leaves the
  observation alone; one whose source field is missing, or has no entry in the static table, changes nothing; otherwise the value
  is found at the target path in the spec, values on the way that are not maps giving way, and every path that leaves the target path
  reads as before. Setting the field never fails on JSON objects.\<close>

theorem mapping_applied:
  assumes "unstructured_laws u" "json_obj ob" "json_obj data" "reachable_cache (fieldExtractor fm)" "fm_splitPath (fm_to mapping) \<noteq> []"
  shows "case mapping_value mapping data of
     Inl _ \<Rightarrow> \<exists>e. fst (ApplyFieldMapping u ob mapping data fm) = MapError e ob
   | Inr None \<Rightarrow> fst (ApplyFieldMapping u ob mapping data fm) = Mapped ob
   | Inr (Some v) \<Rightarrow> \<exists>ob'. fst (ApplyFieldMapping u ob mapping data fm) = Mapped ob' \<and> json_obj ob' \<and>
       walk (VMap ob') (''spec'' # fm_splitPath (fm_to mapping)) = Some v \<and>
       (\<forall>q. \<not> prefix q (''spec'' # fm_splitPath (fm_to mapping)) \<and> \<not> prefix (''spec'' # fm_splitPath (fm_to mapping)) q \<longrightarrow>
          walk (VMap ob') q = walk (VMap ob) q)"
proof (cases "\<exists>v. mapping_value mapping data = Inr (Some v)")
  case True
  then obtain v where v: "mapping_value mapping data = Inr (Some v)" by blast
  have j: "json_ok v" by (rule mapping_value_json [OF assms(3) v])
  obtain ob' where ob': "fst (setField u ob (fm_to mapping) v fm) = Mapped ob'" "store True ob (''spec'' # fm_splitPath (fm_to mapping)) v = Some ob'"
    by (rule setField_stores [OF assms(1,2) j assms(4,5)])
  have "ApplyFieldMapping u ob mapping data fm = setField u ob (fm_to mapping) v fm" using apply_value [where mapping = mapping and data = data] v by simp
  then have "fst (ApplyFieldMapping u ob mapping data fm) = Mapped ob'" using ob'(1) by simp
  moreover have "json_obj ob'" by (rule json_store [OF ob'(2) assms(2) j])
  moreover note walk_store_same [OF ob'(2)] walk_store_diverge [OF ob'(2)]
  ultimately show ?thesis unfolding v by auto
next
  case False
  then show ?thesis using apply_value [where mapping = mapping and data = data and u = u and ob = ob and fm = fm] by (auto split: sum.splits option.splits)
qed

definition severity_table :: FieldMapping where
  "severity_table = \<lparr>fm_from = ''alert.level'', fm_to = ''resource.labels.severity'', fm_constant = [], fm_static = [(''1'', ''low''), (''9'', ''critical'')]\<rparr>"

theorem mapping_applied_witness:
  "\<exists>ob'. fst (ApplyFieldMapping walk_api [(''spec'', VMap [(''source'', VStr ''falco''), (''resource'', VStr ''?'')])] severity_table
      [(''alert'', VMap [(''level'', VInt64 9)])] NewFieldMapper) = Mapped ob' \<and>
    walk (VMap ob') [''spec'', ''resource'', ''labels'', ''severity''] = Some (VStr ''critical'') \<and> walk (VMap ob') [''spec'', ''source''] = Some (VStr ''falco'')"
proof -
  let ?ob = "[(''spec'', VMap [(''source'', VStr ''falco''), (''resource'', VStr ''?'')])]" and ?data = "[(''alert'', VMap [(''level'', VInt64 9)])]"
  have m: "mapping_value severity_table ?data = Inr (Some (VStr ''critical''))" by code_simp
  have p: "fm_splitPath (fm_to severity_table) = [''resource'', ''labels'', ''severity'']" by code_simp
  have "json_obj ?ob" "json_obj ?data" "reachable_cache (fieldExtractor NewFieldMapper)" "fm_splitPath (fm_to severity_table) \<noteq> []"
    by (simp_all add: NewFieldMapper_def reachable_cache.empty p)
  from mapping_applied [OF walk_api.unstructured_laws_axioms this, unfolded m p] obtain ob' where
    ob': "fst (ApplyFieldMapping walk_api ?ob severity_table ?data NewFieldMapper) = Mapped ob'"
      "walk (VMap ob') [''spec'', ''resource'', ''labels'', ''severity''] = Some (VStr ''critical'')"
      "\<forall>q. \<not> prefix q [''spec'', ''resource'', ''labels'', ''severity''] \<and> \<not> prefix [''spec'', ''resource'', ''labels'', ''severity''] q \<longrightarrow> walk (VMap ob') q = walk (VMap ?ob) q"
    by auto
  from ob'(3) have "walk (VMap ob') [''spec'', ''source''] = walk (VMap ?ob) [''spec'', ''source'']" by (rule allE [where x = "[''spec'', ''source'']"]) simp
  then show ?thesis using ob'(1,2) by auto
qed

text \<open>A target without elements panics, on the index of the last element.\<close>

theorem empty_target_panics:
  assumes "unstructured_laws u" "json_obj ob" "reachable_cache (fieldExtractor fm)" "fm_splitPath (fm_to mapping) = []" "fm_constant mapping \<noteq> []"
  shows "fst (ApplyFieldMapping u ob mapping data fm) = MapPanic"
proof -
  have "SetNestedMap u ob [] [''spec''] \<noteq> None" using assms(1) by (simp add: unstructured_laws.SetNestedMap)
  then show ?thesis using assms(4,5) by (auto simp: ApplyFieldMapping_def setField_def Let_def split: option.splits prod.splits)
qed

section \<open>Times to live are read\<close>

lemma parse_int_digits: "ds \<noteq> [] \<Longrightarrow> list_all is_digit_char ds \<Longrightarrow> digits_val ds < 2 ^ 63 \<Longrightarrow> parse_int ds = Some (digits_val ds)"
  using digits_val_nonneg [of ds] by (cases ds) (auto simp: parse_int_def in_int64_def in_range_def byte_of_def Let_def)

lemma parse_int_not: "ds \<noteq> [] \<Longrightarrow> \<not> is_digit_char c \<Longrightarrow> parse_int (ds @ [c]) = None"
  by (cases ds) (auto simp: parse_int_def Let_def)

lemma ttl_units:
  assumes "ttl_multiplier c = Some k"
  shows "no_number [c] \<and> \<not> is_digit_char c \<and> 0 < k \<and> (duration_unit [c] = None \<or> duration_unit [c] = Some (k * second))"
  using assms by (auto simp: ttl_multiplier_def no_number_def in_range_def byte_of_def duration_unit_def split: if_splits)

text \<open>A time to live is read as it is written: a number alone is a number of seconds, a number with one of the units s, m, h, d and w
  their product in seconds, whichever of the three parsers reads it and whether or not it fits a \<^verbatim>\<open>time.Duration\<close>. A product of
  \<open>2 ^ 63\<close> seconds or more wraps.\<close>

theorem ttl_reads:
  assumes "ds \<noteq> []" "list_all is_digit_char ds" "digits_val ds < 2 ^ 63" "ttl_multiplier c = Some k"
  shows "parseTTLToSeconds ds = Inr (digits_val ds) \<and> parseTTLToSeconds (ds @ [c]) = Inr (wrap64 (digits_val ds * k))"
proof
  have v: "0 \<le> digits_val ds" by (rule digits_val_nonneg [OF assms(2)])
  note u = ttl_units [OF assms(4)]
  have "no_number []" "duration_unit [] = None" by (simp_all add: no_number_def duration_unit_def)
  then have d: "parse_duration ds = (if ds = ''0'' then Some 0 else None)" using parse_number_unit [OF assms(1,2), of "[]"] by simp
  have z: "f64_to_int (Seconds 0) = 0" using whole_seconds [of 0] by simp
  have "digits_val ''0'' = 0" by code_simp
  then show "parseTTLToSeconds ds = Inr (digits_val ds)" using d z assms(1) parse_int_digits [OF assms(1-3)] by (auto simp: parseTTLToSeconds_def)
  have ne: "ds @ [c] \<noteq> ''0''" using assms(1) by (cases ds) auto
  have own: "parseTTLToSeconds (ds @ [c]) = Inr (wrap64 (digits_val ds * k))" if "parse_duration (ds @ [c]) = None"
    using that assms(1,4) parse_int_digits [OF assms(1-3)] parse_int_not [OF assms(1)] u by (simp add: parseTTLToSeconds_def)
  show "parseTTLToSeconds (ds @ [c]) = Inr (wrap64 (digits_val ds * k))"
  proof (cases "parse_duration (ds @ [c])")
    case (Some t)
    with parse_number_unit [OF assms(1,2), of "[c]"] u ne have t: "t = digits_val ds * (k * second)" "t < 2 ^ 63" by (auto split: if_splits)
    then have "0 \<le> digits_val ds * k" "digits_val ds * k * second < 2 ^ 63" using v u by (auto simp: mult.assoc)
    moreover have "x < 2 ^ 53" if "x * second < 2 ^ 63" for x using that by simp
    ultimately have "0 \<le> digits_val ds * k" "digits_val ds * k < 2 ^ 53" by blast+
    then show ?thesis using Some t whole_seconds [of "digits_val ds * k"] by (simp add: parseTTLToSeconds_def wrap64_id in_int64_def mult.assoc)
  qed (rule own)
qed

theorem ttl_reads_witness: "parseTTLToSeconds ''9999999'' = Inr 9999999 \<and> parseTTLToSeconds ''9999999h'' = Inr 35999996400"
proof -
  have "list_all is_digit_char ''9999999''" "ttl_multiplier (CHR ''h'') = Some 3600" by code_simp+
  moreover have v: "digits_val ''9999999'' = 9999999" by code_simp
  moreover have "wrap64 (9999999 * 3600) = 35999996400" by code_simp
  ultimately show ?thesis using ttl_reads [of "''9999999''" "CHR ''h''" 3600] by simp
qed

end
