(* ===== verification/Runtime_Metrics.thy ===== *)
theory Runtime_Metrics
  imports Optimization Advisor
begin

text \<open>
  The metrics of the program: their declaration and registration (\<^verbatim>\<open>pkg/metrics/definitions.go\<close>, \<^verbatim>\<open>ha_metrics.go\<close>, \<^verbatim>\<open>pkg/optimization/decision_metrics.go\<close>), the
  readings of \<^verbatim>\<open>pkg/metrics/system_metrics.go\<close> that the HA mode uses, and the threshold monitor of
  \<^verbatim>\<open>pkg/monitoring/threshold_monitor.go\<close>. The Prometheus client is an interface (locale \<open>prometheus_client\<close>): registering a name a second time panics,
  and so does asking a vector for another number of label values than it has labels. Readings of the operating system and the clock are arguments.

  Results: start-up registers every metric once and cannot panic, unless another collector has one of the names; the metrics of the decisions would fit beside them, but nothing registers them; the percentages are within their bounds; the threshold monitor panics
  on the counter that is declared for it, misses the worst deduplication and calls the mild one critical; the event rate of a busy
  source grows without bound.
\<close>

section \<open>Declarations (definitions.go)\<close>

datatype metric =
    Counter (fqName: string)
  | Gauge (fqName: string)
  | CounterVec (fqName: string) "string list"
  | GaugeVec (fqName: string) "string list"
  | HistogramVec (fqName: string) "string list"

fun label_names :: "metric \<Rightarrow> string list" where
  "label_names (CounterVec n ls) = ls"
| "label_names (GaugeVec n ls) = ls"
| "label_names (HistogramVec n ls) = ls"
| "label_names _ = []"

definition core_metrics :: "(string \<times> metric) list" where
  "core_metrics =
     [(''eventsTotal'', CounterVec ''zen_watcher_events_total'' [''source'', ''category'', ''severity'', ''eventType'', ''namespace'', ''kind'', ''strategy'']),
      (''toolsActive'', GaugeVec ''zen_watcher_tools_active'' [''tool'']),
      (''informerCacheSync'', GaugeVec ''zen_watcher_informer_cache_synced'' [''resource'']),
      (''eventProcessingDuration'', HistogramVec ''zen_watcher_event_processing_duration_seconds'' [''source'', ''processor_type'']),
      (''webhookRequests'', CounterVec ''zen_watcher_webhook_requests_total'' [''endpoint'', ''status'']),
      (''webhookRateLimitRejections'', CounterVec ''zen_watcher_webhook_rate_limit_rejections_total'' [''endpoint'', ''scope'']),
      (''webhookDropped'', CounterVec ''zen_watcher_webhook_events_dropped_total'' [''endpoint'']),
      (''observationsCreated'', CounterVec ''zen_watcher_observations_created_total'' [''source'']),
      (''observationsFiltered'', CounterVec ''zen_watcher_observations_filtered_total'' [''source'', ''reason'']),
      (''observationsDeduped'', Counter ''zen_watcher_observations_deduped_total''),
      (''observationsDeleted'', CounterVec ''zen_watcher_observations_deleted_total'' [''source'', ''reason'']),
      (''gcRunsTotal'', Counter ''zen_watcher_gc_runs_total''),
      (''gcDuration'', HistogramVec ''zen_watcher_gc_duration_seconds'' [''operation'']),
      (''observationsCreateErrors'', CounterVec ''zen_watcher_observations_create_errors_total'' [''source'', ''error_type'']),
      (''gcErrors'', CounterVec ''zen_watcher_gc_errors_total'' [''operation'', ''error_type''])]"

definition filter_metrics :: "(string \<times> metric) list" where
  "filter_metrics =
     [(''filterDecisions'', CounterVec ''zen_watcher_filter_decisions_total'' [''source'', ''action'', ''reason'']),
      (''filterReloadTotal'', CounterVec ''zen_watcher_filter_reload_total'' [''source'', ''result'']),
      (''filterLastReload'', GaugeVec ''zen_watcher_filter_last_reload_timestamp_seconds'' [''source'']),
      (''filterPoliciesActive'', GaugeVec ''zen_watcher_filter_policies_active'' [''type'']),
      (''filterRuleEvaluationDuration'', HistogramVec ''zen_watcher_filter_rule_evaluation_duration_seconds'' [''source'', ''rule_type'']),
      (''adapterRunsTotal'', CounterVec ''zen_watcher_adapter_runs_total'' [''adapter'', ''outcome''])]"

definition ingester_metrics :: "(string \<times> metric) list" where
  "ingester_metrics =
     [(''ingestersActive'', GaugeVec ''zen_watcher_ingesters_active'' [''source'', ''ingester_type'', ''namespace'']),
      (''ingestersStatus'', GaugeVec ''zen_watcher_ingesters_status'' [''source'']),
      (''ingestersConfigErrors'', CounterVec ''zen_watcher_ingesters_config_errors_total'' [''source'', ''error_type'']),
      (''ingestersStartupDuration'', HistogramVec ''zen_watcher_ingesters_startup_duration_seconds'' [''source'']),
      (''ingestersLastEventTimestamp'', GaugeVec ''zen_watcher_ingesters_last_event_timestamp_seconds'' [''source'']),
      (''ingesterEventsProcessed'', CounterVec ''zen_watcher_ingester_events_processed_total'' [''source'', ''ingester_type'']),
      (''ingesterEventsProcessedRate'', GaugeVec ''zen_watcher_ingester_events_processed_rate'' [''source'']),
      (''ingesterProcessingLatency'', HistogramVec ''zen_watcher_ingester_processing_latency_seconds'' [''source'', ''stage'']),
      (''ingesterErrorsTotal'', CounterVec ''zen_watcher_ingester_errors_total'' [''source'', ''error_type'', ''stage'']),
      (''informerCacheSyncDuration'', HistogramVec ''zen_watcher_informer_cache_sync_duration_seconds'' [''source'', ''gvr'']),
      (''informerResyncEvents'', CounterVec ''zen_watcher_informer_resync_events_total'' [''source'', ''gvr''])]"

definition delivery_metrics :: "(string \<times> metric) list" where
  "delivery_metrics =
     [(''destinationDeliveryTotal'', CounterVec ''zen_watcher_destination_delivery_total'' [''source'', ''destination_type'', ''status'']),
      (''destinationDeliveryLatency'', HistogramVec ''zen_watcher_destination_delivery_latency_seconds'' [''source'', ''destination_type'']),
      (''destinationQueueDepth'', GaugeVec ''zen_watcher_destination_queue_depth'' [''source'', ''destination_type'']),
      (''destinationRetriesTotal'', CounterVec ''zen_watcher_destination_retries_total'' [''source'', ''destination_type'']),
      (''configMapLoadTotal'', CounterVec ''zen_watcher_configmap_load_total'' [''configmap'', ''result'']),
      (''configMapReloadDuration'', HistogramVec ''zen_watcher_configmap_reload_duration_seconds'' [''configmap'']),
      (''configMapMergeConflicts'', CounterVec ''zen_watcher_configmap_merge_conflicts_total'' [''configmap'']),
      (''configMapValidationErrors'', CounterVec ''zen_watcher_configmap_validation_errors_total'' [''configmap'', ''error_type'']),
      (''configUpdatePropagationDuration'', HistogramVec ''zen_watcher_config_update_propagation_duration_seconds'' [''component''])]"

definition gate_metrics :: "(string \<times> metric) list" where
  "gate_metrics =
     [(''webhookQueueUsage'', GaugeVec ''zen_watcher_webhook_queue_usage_ratio'' [''endpoint'']),
      (''dedupCacheUsage'', GaugeVec ''zen_watcher_dedup_cache_usage_ratio'' [''source'']),
      (''dedupEvictions'', CounterVec ''zen_watcher_dedup_evictions_total'' [''source'']),
      (''observationsLive'', GaugeVec ''zen_watcher_observations_live'' [''source'']),
      (''dedupEffectivenessPerStrategy'', GaugeVec ''zen_watcher_dedup_effectiveness_per_strategy'' [''source'', ''strategy'']),
      (''dedupDecisionsTotal'', CounterVec ''zen_watcher_dedup_decisions_total'' [''source'', ''strategy'', ''decision''])]"

definition optimization_metrics :: "(string \<times> metric) list" where
  "optimization_metrics =
     [(''filterPassRate'', GaugeVec ''zen_watcher_filter_pass_rate'' [''source'']),
      (''dedupEffectiveness'', GaugeVec ''zen_watcher_dedup_effectiveness'' [''source'']),
      (''lowSeverityPercent'', GaugeVec ''zen_watcher_low_severity_percent'' [''source'']),
      (''observationsPerMinute'', GaugeVec ''zen_watcher_observations_per_minute'' [''source'']),
      (''observationsPerHour'', GaugeVec ''zen_watcher_observations_per_hour'' [''source'']),
      (''severityDistribution'', CounterVec ''zen_watcher_severity_distribution'' [''source'', ''severity'']),
      (''suggestionsGenerated'', CounterVec ''zen_watcher_suggestions_generated_total'' [''source'', ''type'']),
      (''suggestionsApplied'', CounterVec ''zen_watcher_suggestions_applied_total'' [''source'', ''type'']),
      (''optimizationImpact'', GaugeVec ''zen_watcher_optimization_impact'' [''source'']),
      (''thresholdExceeded'', CounterVec ''zen_watcher_threshold_exceeded_total'' [''source'', ''threshold''])]"

definition per_source_metrics :: "(string \<times> metric) list" where
  "per_source_metrics =
     [(''sourceEventsProcessed'', CounterVec ''zen_watcher_optimization_source_events_processed_total'' [''source'']),
      (''sourceEventsFiltered'', CounterVec ''zen_watcher_optimization_source_events_filtered_total'' [''source'']),
      (''sourceEventsDeduped'', CounterVec ''zen_watcher_optimization_source_events_deduped_total'' [''source'']),
      (''sourceProcessingLatency'', HistogramVec ''zen_watcher_optimization_source_processing_latency_seconds'' [''source'']),
      (''sourceFilterEffectiveness'', GaugeVec ''zen_watcher_optimization_filter_effectiveness_ratio'' [''source'']),
      (''sourceDedupRate'', GaugeVec ''zen_watcher_optimization_deduplication_rate_ratio'' [''source'']),
      (''sourceObservationsPerMinute'', GaugeVec ''zen_watcher_optimization_observations_per_minute'' [''source'']),
      (''optimizationDecisions'', CounterVec ''zen_watcher_optimization_decisions_total'' [''source'', ''decision_type'', ''strategy'']),
      (''strategyChanges'', CounterVec ''zen_watcher_optimization_strategy_changes_total'' [''source'', ''old_strategy'', ''new_strategy'']),
      (''optimizationConfidence'', GaugeVec ''zen_watcher_optimization_confidence'' [''source'']),
      (''currentStrategy'', GaugeVec ''zen_watcher_optimization_current_strategy'' [''source'']),
      (''pipelineErrors'', CounterVec ''zen_watcher_pipeline_errors_total'' [''source'', ''stage'', ''error_type''])]"

text \<open>The order of registration, in two groups.\<close>

definition registered_first :: "string list" where
  "registered_first =
     [''eventsTotal'', ''observationsCreated'', ''observationsFiltered'', ''observationsDeduped'', ''observationsDeleted'', ''observationsCreateErrors'',
      ''gcRunsTotal'', ''gcDuration'', ''gcErrors'', ''toolsActive'', ''informerCacheSync'', ''eventProcessingDuration'', ''webhookRequests'',
      ''webhookDropped'', ''filterDecisions'', ''filterReloadTotal'', ''filterLastReload'', ''filterPoliciesActive'', ''filterRuleEvaluationDuration'',
      ''adapterRunsTotal'', ''ingestersActive'', ''ingestersStatus'', ''ingestersConfigErrors'', ''ingestersStartupDuration'',
      ''ingestersLastEventTimestamp'', ''ingesterEventsProcessed'', ''ingesterEventsProcessedRate'', ''ingesterProcessingLatency'', ''ingesterErrorsTotal'',
      ''informerCacheSyncDuration'', ''informerResyncEvents'', ''destinationDeliveryTotal'', ''destinationDeliveryLatency'', ''destinationQueueDepth'',
      ''destinationRetriesTotal'', ''configMapLoadTotal'', ''configMapReloadDuration'', ''configMapMergeConflicts'', ''configMapValidationErrors'',
      ''configUpdatePropagationDuration'', ''webhookQueueUsage'', ''webhookRateLimitRejections'', ''dedupCacheUsage'', ''dedupEvictions'',
      ''observationsLive'', ''dedupEffectivenessPerStrategy'', ''dedupDecisionsTotal'']"

definition registered_last :: "string list" where
  "registered_last =
     [''filterPassRate'', ''dedupEffectiveness'', ''lowSeverityPercent'', ''observationsPerMinute'', ''observationsPerHour'', ''severityDistribution'',
      ''suggestionsGenerated'', ''suggestionsApplied'', ''optimizationImpact'', ''thresholdExceeded'', ''sourceEventsProcessed'', ''sourceEventsFiltered'',
      ''sourceEventsDeduped'', ''sourceProcessingLatency'', ''sourceFilterEffectiveness'', ''sourceDedupRate'', ''sourceObservationsPerMinute'',
      ''optimizationDecisions'', ''strategyChanges'', ''optimizationConfidence'', ''currentStrategy'', ''pipelineErrors'']"

text \<open>The fields of the struct, with the variables assigned to them.\<close>

definition metrics_fields :: "(string \<times> string) list" where
  "metrics_fields =
     [(''EventsTotal'', ''eventsTotal''), (''ObservationsCreated'', ''observationsCreated''), (''ObservationsFiltered'', ''observationsFiltered''),
      (''ObservationsDeduped'', ''observationsDeduped''), (''ObservationsDeleted'', ''observationsDeleted''),
      (''ObservationsCreateErrors'', ''observationsCreateErrors''), (''FilterDecisions'', ''filterDecisions''),
      (''FilterReloadTotal'', ''filterReloadTotal''), (''FilterLastReload'', ''filterLastReload''), (''FilterPoliciesActive'', ''filterPoliciesActive''),
      (''FilterRuleEvaluationDuration'', ''filterRuleEvaluationDuration''), (''AdapterRunsTotal'', ''adapterRunsTotal''),
      (''IngestersActive'', ''ingestersActive''), (''IngestersStatus'', ''ingestersStatus''), (''IngestersConfigErrors'', ''ingestersConfigErrors''),
      (''IngestersStartupDuration'', ''ingestersStartupDuration''), (''IngestersLastEventTimestamp'', ''ingestersLastEventTimestamp''),
      (''IngesterEventsProcessed'', ''ingesterEventsProcessed''), (''IngesterEventsProcessedRate'', ''ingesterEventsProcessedRate''),
      (''IngesterProcessingLatency'', ''ingesterProcessingLatency''), (''IngesterErrorsTotal'', ''ingesterErrorsTotal''),
      (''InformerCacheSyncDuration'', ''informerCacheSyncDuration''), (''InformerResyncEvents'', ''informerResyncEvents''),
      (''DestinationDeliveryTotal'', ''destinationDeliveryTotal''), (''DestinationDeliveryLatency'', ''destinationDeliveryLatency''),
      (''DestinationQueueDepth'', ''destinationQueueDepth''), (''DestinationRetriesTotal'', ''destinationRetriesTotal''),
      (''ConfigMapLoadTotal'', ''configMapLoadTotal''), (''ConfigMapReloadDuration'', ''configMapReloadDuration''),
      (''ConfigMapMergeConflicts'', ''configMapMergeConflicts''), (''ConfigMapValidationErrors'', ''configMapValidationErrors''),
      (''ConfigUpdatePropagationDuration'', ''configUpdatePropagationDuration''), (''WebhookRequests'', ''webhookRequests''),
      (''WebhookDropped'', ''webhookDropped''), (''WebhookQueueUsage'', ''webhookQueueUsage''),
      (''WebhookRateLimitRejections'', ''webhookRateLimitRejections''), (''DedupCacheUsage'', ''dedupCacheUsage''),
      (''DedupEvictions'', ''dedupEvictions''), (''DedupEffectivenessPerStrategy'', ''dedupEffectivenessPerStrategy''),
      (''DedupDecisionsTotal'', ''dedupDecisionsTotal''), (''GCRunsTotal'', ''gcRunsTotal''), (''GCDuration'', ''gcDuration''),
      (''GCErrors'', ''gcErrors''), (''ObservationsLive'', ''observationsLive''), (''ToolsActive'', ''toolsActive''),
      (''InformerCacheSync'', ''informerCacheSync''), (''EventProcessingDuration'', ''eventProcessingDuration''), (''FilterPassRate'', ''filterPassRate''),
      (''DedupEffectiveness'', ''dedupEffectiveness''), (''LowSeverityPercent'', ''lowSeverityPercent''),
      (''ObservationsPerMinute'', ''observationsPerMinute''), (''ObservationsPerHour'', ''observationsPerHour''),
      (''SeverityDistribution'', ''severityDistribution''), (''SuggestionsGenerated'', ''suggestionsGenerated''),
      (''SuggestionsApplied'', ''suggestionsApplied''), (''OptimizationImpact'', ''optimizationImpact''), (''ThresholdExceeded'', ''thresholdExceeded''),
      (''SourceEventsProcessed'', ''sourceEventsProcessed''), (''SourceEventsFiltered'', ''sourceEventsFiltered''),
      (''SourceEventsDeduped'', ''sourceEventsDeduped''), (''SourceProcessingLatency'', ''sourceProcessingLatency''),
      (''SourceFilterEffectiveness'', ''sourceFilterEffectiveness''), (''SourceDedupRate'', ''sourceDedupRate''),
      (''SourceObservationsPerMinute'', ''sourceObservationsPerMinute''), (''OptimizationDecisions'', ''optimizationDecisions''),
      (''StrategyChanges'', ''strategyChanges''), (''OptimizationConfidence'', ''optimizationConfidence''), (''CurrentStrategy'', ''currentStrategy''),
      (''PipelineErrors'', ''pipelineErrors'')]"


definition declared_metrics :: "(string \<times> metric) list" where
  "declared_metrics = core_metrics @ filter_metrics @ ingester_metrics @ delivery_metrics @ gate_metrics @ optimization_metrics @ per_source_metrics"

definition variable :: "string \<Rightarrow> metric" where
  "variable v = the (map_of declared_metrics v)"

text \<open>Registering one by one, until a panic (\<open>None\<close>).\<close>

fun register_all :: "(metric list \<Rightarrow> 'r \<Rightarrow> 'r option) \<Rightarrow> metric list \<Rightarrow> 'r \<Rightarrow> 'r option" where
  "register_all MustRegister [] r = Some r"
| "register_all MustRegister (m # ms) r = (case MustRegister [m] r of None \<Rightarrow> None | Some r' \<Rightarrow> register_all MustRegister ms r')"

definition NewMetrics :: "(metric list \<Rightarrow> 'r \<Rightarrow> 'r option) \<Rightarrow> 'r \<Rightarrow> ((string \<times> metric) list \<times> 'r) option" where
  "NewMetrics MustRegister r =
     map_option (\<lambda>r'. (map (\<lambda>(field, v). (field, variable v)) metrics_fields, r')) (register_all MustRegister (map variable (registered_first @ registered_last)) r)"

section \<open>High availability and decisions (ha_metrics.go, decision_metrics.go)\<close>

definition ha_metrics :: "(string \<times> metric) list" where
  "ha_metrics =
     [(''cpuUsagePerReplica'', GaugeVec ''zen_watcher_ha_cpu_usage_percent'' [''replica_id'']),
      (''memoryUsagePerReplica'', GaugeVec ''zen_watcher_ha_memory_usage_bytes'' [''replica_id'']),
      (''eventsPerSecond'', Gauge ''zen_watcher_ha_events_per_second''),
      (''queueDepth'', Gauge ''zen_watcher_ha_queue_depth''),
      (''responseTimePerEvent'', HistogramVec ''zen_watcher_ha_response_time_seconds'' [''replica_id'']),
      (''replicaLoad'', GaugeVec ''zen_watcher_ha_replica_load'' [''replica_id'']),
      (''scalingDecisions'', CounterVec ''zen_watcher_ha_scaling_decisions_total'' [''action'', ''reason''])]"

definition decision_metrics :: "(string \<times> metric) list" where
  "decision_metrics =
     [(''decisionTotal'', CounterVec ''zen_watcher_optimization_decision_total'' [''type'', ''result'', ''source'']),
      (''decisionDuration'', HistogramVec ''zen_watcher_optimization_decision_duration_seconds'' [''type'', ''source'']),
      (''decisionConfidence'', GaugeVec ''zen_watcher_optimization_decision_confidence'' [''type'', ''source'']),
      (''stateVersion'', Gauge ''zen_watcher_optimization_state_version'')]"

definition NewHAMetrics :: "(metric list \<Rightarrow> 'r \<Rightarrow> 'r option) \<Rightarrow> 'r \<Rightarrow> ((string \<times> metric) list \<times> 'r) option" where
  "NewHAMetrics MustRegister r = map_option (\<lambda>r'. (ha_metrics, r')) (register_all MustRegister (map snd ha_metrics) r)"

text \<open>The decision metrics are one collector that describes four metrics; they exist once in the process.\<close>

definition RegisterDecisionMetrics :: "(metric list \<Rightarrow> 'r \<Rightarrow> 'r option) \<Rightarrow> 'r \<Rightarrow> 'r option" where
  "RegisterDecisionMetrics MustRegister r = MustRegister (map snd decision_metrics) r"

text \<open>The children of the vectors that one decision updates.\<close>

definition RecordDecision_metrics :: "(metric \<Rightarrow> string list \<Rightarrow> 'c option) \<Rightarrow> string \<Rightarrow> string \<Rightarrow> string \<Rightarrow> ('c \<times> 'c \<times> 'c) option" where
  "RecordDecision_metrics WithLabelValues decisionType result source =
     (let vec = (\<lambda>v. the (map_of decision_metrics v))
      in case WithLabelValues (vec ''decisionTotal'') [decisionType, result, source] of None \<Rightarrow> None
         | Some c1 \<Rightarrow> (case WithLabelValues (vec ''decisionDuration'') [decisionType, source] of None \<Rightarrow> None
           | Some c2 \<Rightarrow> map_option (\<lambda>c3. (c1, c2, c3)) (WithLabelValues (vec ''decisionConfidence'') [decisionType, source])))"

section \<open>The threshold monitor (threshold_monitor.go)\<close>

text \<open>\<open>exceeded\<close> are the label values of the increments of the counter.\<close>

record ThresholdMonitor =
  sourceConfigLoader :: "(string \<Rightarrow> SourceConfig option) option"
  thresholdExceeded :: "metric option"
  checkInterval :: int
  lastChecks :: "(string, int) gomap"
  exceeded :: "string list list"

definition NewThresholdMonitor :: "(string \<Rightarrow> SourceConfig option) option \<Rightarrow> metric option \<Rightarrow> ThresholdMonitor" where
  "NewThresholdMonitor loader vec = \<lparr>sourceConfigLoader = loader, thresholdExceeded = vec, checkInterval = minute, lastChecks = [], exceeded = []\<rparr>"

definition recordThresholdExceeded :: "(metric \<Rightarrow> string list \<Rightarrow> 'c option) \<Rightarrow> string \<Rightarrow> string \<Rightarrow> string \<Rightarrow> ThresholdMonitor \<Rightarrow> ThresholdMonitor option" where
  "recordThresholdExceeded WithLabelValues source threshold severity tm =
     (case thresholdExceeded tm of
        None \<Rightarrow> Some tm
      | Some vec \<Rightarrow> map_option (\<lambda>_. tm\<lparr>exceeded := exceeded tm @ [[source, threshold, severity]]\<rparr>) (WithLabelValues vec [source, threshold, severity]))"

text \<open>The answer and the state, or a panic. The rate limit of the configuration is looked at and not used.\<close>

definition CheckThreshold ::
    "(metric \<Rightarrow> string list \<Rightarrow> 'c option) \<Rightarrow> string \<Rightarrow> string \<Rightarrow> f64 \<Rightarrow> f64 \<Rightarrow> f64 \<Rightarrow> ThresholdMonitor \<Rightarrow> (bool \<times> ThresholdMonitor) option" where
  "CheckThreshold WithLabelValues source metricName v warningThreshold criticalThreshold tm =
     (case Option.bind (sourceConfigLoader tm) (\<lambda>load. load source) of
        None \<Rightarrow> Some (True, tm)
      | Some _ \<Rightarrow>
          if f64_geq v criticalThreshold then map_option (Pair True) (recordThresholdExceeded WithLabelValues source metricName ''critical'' tm)
          else if f64_geq v warningThreshold then map_option (Pair True) (recordThresholdExceeded WithLabelValues source metricName ''warning'' tm)
          else Some (True, tm))"

definition CheckObservationRate :: "(metric \<Rightarrow> string list \<Rightarrow> 'c option) \<Rightarrow> string \<Rightarrow> f64 \<Rightarrow> ThresholdMonitor \<Rightarrow> ThresholdMonitor option" where
  "CheckObservationRate WithLabelValues source observationsPerMinute tm =
     map_option snd (CheckThreshold WithLabelValues source ''observations_per_minute'' observationsPerMinute (Fin 100) (Fin 200) tm)"

definition CheckLowSeverityPercent :: "(metric \<Rightarrow> string list \<Rightarrow> 'c option) \<Rightarrow> string \<Rightarrow> f64 \<Rightarrow> ThresholdMonitor \<Rightarrow> ThresholdMonitor option" where
  "CheckLowSeverityPercent WithLabelValues source lowSeverityPercent tm =
     map_option snd (CheckThreshold WithLabelValues source ''low_severity_percent'' lowSeverityPercent (rnd64 (7 / 10)) (rnd64 (9 / 10)) tm)"

definition CheckDedupEffectiveness :: "(metric \<Rightarrow> string list \<Rightarrow> 'c option) \<Rightarrow> string \<Rightarrow> f64 \<Rightarrow> ThresholdMonitor \<Rightarrow> ThresholdMonitor option" where
  "CheckDedupEffectiveness WithLabelValues source effectiveness tm =
     (let warningThreshold = rnd64 (3 / 10); criticalThreshold = rnd64 (1 / 10)
      in if f64_less effectiveness criticalThreshold
         then map_option snd (CheckThreshold WithLabelValues source ''dedup_effectiveness'' effectiveness criticalThreshold criticalThreshold tm)
         else if f64_less effectiveness warningThreshold
         then map_option snd (CheckThreshold WithLabelValues source ''dedup_effectiveness'' effectiveness warningThreshold criticalThreshold tm)
         else Some tm)"

section \<open>Readings of the system (system_metrics.go)\<close>

text \<open>What is read of \<^verbatim>\<open>cpu.TimesStat\<close>.\<close>

record TimesStat =
  ts_User :: f64
  ts_System :: f64
  ts_Idle :: f64

record SystemMetrics =
  lastCPUStats :: "TimesStat option"
  lastCheckTime :: int
  sm_eventCount :: int
  lastEventTime :: int
  sm_queueDepth :: int

definition NewSystemMetrics :: "int \<Rightarrow> SystemMetrics" where
  "NewSystemMetrics now = \<lparr>lastCPUStats = None, lastCheckTime = now, sm_eventCount = 0, lastEventTime = now, sm_queueDepth = 0\<rparr>"

text \<open>\<open>current\<close> is the first of the times read, \<open>None\<close> when reading them fails or gives none; \<open>percentage\<close> likewise for the fallback.\<close>

definition GetCPUUsagePercent :: "int \<Rightarrow> TimesStat option \<Rightarrow> f64 option \<Rightarrow> SystemMetrics \<Rightarrow> f64 \<times> SystemMetrics" where
  "GetCPUUsagePercent now current percentage sm =
     (case current of
        None \<Rightarrow> (case percentage of Some p \<Rightarrow> (p, sm) | None \<Rightarrow> (Fin 0, sm))
      | Some cur \<Rightarrow>
          (let total_of = (\<lambda>t. f64_add (f64_add (ts_User t) (ts_System t)) (ts_Idle t));
               sm' = sm\<lparr>lastCPUStats := Some cur, lastCheckTime := now\<rparr>
           in case lastCPUStats sm of
                None \<Rightarrow> (Fin 0, sm')
              | Some before \<Rightarrow>
                  (let totalDiff = f64_sub (total_of cur) (total_of before); idleDiff = f64_sub (ts_Idle cur) (ts_Idle before);
                       usage = f64_mul (f64_sub (Fin 1) (f64_div idleDiff totalDiff)) (Fin 100);
                       usage1 = (if f64_less usage (Fin 0) then Fin 0 else usage);
                       usage2 = (if f64_less (Fin 100) usage1 then Fin 100 else usage1)
                   in if f64_less (Fin 0) (Seconds (now - lastCheckTime sm)) \<and> f64_less (Fin 0) totalDiff then (usage2, sm') else (Fin 0, sm'))))"

definition sm_RecordEvent :: "int \<Rightarrow> SystemMetrics \<Rightarrow> SystemMetrics" where
  "sm_RecordEvent now sm = sm\<lparr>sm_eventCount := wrap64 (sm_eventCount sm + 1), lastEventTime := now\<rparr>"

definition GetEventsPerSecond :: "int \<Rightarrow> SystemMetrics \<Rightarrow> f64 \<times> SystemMetrics" where
  "GetEventsPerSecond now sm =
     (let timeDiff = Seconds (now - lastEventTime sm)
      in if f64_less timeDiff (Fin 1) \<and> lastEventTime sm > now - 5 * second then (f64_div (f64_of_int (sm_eventCount sm)) (Fin 5), sm)
         else if f64_less (Fin 60) timeDiff then (Fin 0, sm\<lparr>sm_eventCount := 0, lastEventTime := now\<rparr>)
         else if f64_less (Fin 0) timeDiff \<and> sm_eventCount sm > 0
         then (f64_div (f64_of_int (sm_eventCount sm)) timeDiff, sm\<lparr>sm_eventCount := 0, lastEventTime := now\<rparr>)
         else (Fin 0, sm))"

definition SetQueueDepth :: "int \<Rightarrow> SystemMetrics \<Rightarrow> SystemMetrics" where
  "SetQueueDepth depth sm = sm\<lparr>sm_queueDepth := (if depth < 0 then 0 else depth)\<rparr>"

definition GetMemoryUsagePercent :: "int \<Rightarrow> int option \<Rightarrow> f64" where
  "GetMemoryUsagePercent alloc memory =
     (case memory of
        None \<Rightarrow> Fin 0
      | Some m \<Rightarrow> if m = 0 then Fin 0
          else (let percentage = f64_mul (f64_div (f64_of_int alloc) (f64_of_int m)) (Fin 100)
                in if f64_less (Fin 100) percentage then Fin 100 else percentage))"

section \<open>Registration\<close>

text \<open>The documented behaviour of the Prometheus client that matters here: a collector whose metrics are new is registered, one with a known name
  panics; a vector panics on a wrong number of label values.\<close>

locale prometheus_client =
  fixes MustRegister :: "metric list \<Rightarrow> 'r \<Rightarrow> 'r option"
    and names :: "'r \<Rightarrow> string set"
    and WithLabelValues :: "metric \<Rightarrow> string list \<Rightarrow> 'c option"
  assumes register_new: "distinct (map fqName ms) \<Longrightarrow> fqName ` set ms \<inter> names r = {} \<Longrightarrow>
      \<exists>r'. MustRegister ms r = Some r' \<and> names r' = names r \<union> fqName ` set ms"
    and register_known: "fqName ` set ms \<inter> names r \<noteq> {} \<Longrightarrow> MustRegister ms r = None"
    and values_fit: "WithLabelValues m vs = None \<longleftrightarrow> length vs \<noteq> length (label_names m)"
begin

lemma register_fresh:
  "distinct (map fqName ms) \<Longrightarrow> fqName ` set ms \<inter> names r = {} \<Longrightarrow>
     \<exists>r'. register_all MustRegister ms r = Some r' \<and> names r' = names r \<union> fqName ` set ms"
proof (induction ms arbitrary: r)
  case (Cons m ms)
  obtain r1 where r1: "MustRegister [m] r = Some r1" "names r1 = names r \<union> {fqName m}" using register_new [of "[m]" r] Cons.prems by auto
  have "fqName ` set ms \<inter> names r1 = {}" using Cons.prems r1(2) by auto
  then obtain r' where "register_all MustRegister ms r1 = Some r'" "names r' = names r1 \<union> fqName ` set ms" using Cons.IH [of r1] Cons.prems(1) by auto
  then show ?case using r1 by auto
qed auto

lemma register_again: "fqName m \<in> names r \<Longrightarrow> register_all MustRegister (m # ms) r = None"
  using register_known [of "[m]" r] by simp

end

text \<open>A registry that keeps the names.\<close>

definition name_registry :: "metric list \<Rightarrow> string list \<Rightarrow> string list option" where
  "name_registry ms r = (if distinct (map fqName ms @ r) then Some (map fqName ms @ r) else if list_ex (\<lambda>m. fqName m \<in> set r) ms then None
     else if distinct (map fqName ms) then Some (map fqName ms @ r) else None)"

definition labelled :: "metric \<Rightarrow> string list \<Rightarrow> (string \<times> string) list option" where
  "labelled m vs = (if length vs = length (label_names m) then Some (zip (label_names m) vs) else None)"

interpretation registry: prometheus_client name_registry set labelled
  by unfold_locales (auto simp: name_registry_def labelled_def list_ex_iff)

definition all_metrics :: "metric list" where
  "all_metrics = map variable (registered_first @ registered_last) @ map snd ha_metrics @ map snd decision_metrics"

lemmas declarations = declared_metrics_def core_metrics_def filter_metrics_def ingester_metrics_def delivery_metrics_def gate_metrics_def
  optimization_metrics_def per_source_metrics_def

lemma variables_distinct: "distinct (map fst declared_metrics)"
  by (simp add: declarations)

lemma suffixes_distinct: "distinct (map (drop 12 \<circ> fqName \<circ> snd) (declared_metrics @ ha_metrics @ decision_metrics))"
  by (simp add: declarations ha_metrics_def decision_metrics_def)

lemma registered_once: "distinct (registered_first @ registered_last)"
  by (simp add: registered_first_def registered_last_def)

lemma registered_declared: "set (registered_first @ registered_last) \<subseteq> fst ` set declared_metrics"
  by (simp add: registered_first_def registered_last_def declarations)

lemma fields_declared: "snd ` set metrics_fields \<subseteq> fst ` set declared_metrics"
  by (simp add: metrics_fields_def declarations)

lemma variable_of: "(v, m) \<in> set declared_metrics \<Longrightarrow> variable v = m"
  by (simp add: variable_def map_of_is_SomeI variables_distinct)

lemma registered_metrics: "mset (map variable (registered_first @ registered_last)) = mset (map snd declared_metrics)"
proof -
  let ?regs = "registered_first @ registered_last"
  have "length ?regs = length declared_metrics" by (simp add: registered_first_def registered_last_def declarations)
  then have "card (set ?regs) = card (set (map fst declared_metrics))"
    using distinct_card [OF registered_once] distinct_card [OF variables_distinct] by simp
  then have "set ?regs = set (map fst declared_metrics)" using registered_declared by (intro card_subset_eq) auto
  then have "mset ?regs = mset (map fst declared_metrics)" by (rule iffD1 [OF set_eq_iff_mset_eq_distinct [OF registered_once variables_distinct]])
  then have "mset (map variable ?regs) = mset (map variable (map fst declared_metrics))" by (metis mset_map)
  also have "map variable (map fst declared_metrics) = map snd declared_metrics" by (auto simp: variable_of)
  finally show ?thesis .
qed

lemma all_metrics_are: "mset all_metrics = mset (map snd (declared_metrics @ ha_metrics @ decision_metrics))"
  using registered_metrics by (simp add: all_metrics_def)

lemma names_distinct: "distinct (map fqName all_metrics)"
proof -
  have "distinct (map (drop 12) (map (fqName \<circ> snd) (declared_metrics @ ha_metrics @ decision_metrics)))"
    using suffixes_distinct unfolding map_map comp_assoc .
  then have "distinct (map (fqName \<circ> snd) (declared_metrics @ ha_metrics @ decision_metrics))" unfolding distinct_map by blast
  then have "distinct (map fqName (map snd (declared_metrics @ ha_metrics @ decision_metrics)))" by (simp only: map_map)
  moreover have "mset (map fqName all_metrics) = mset (map fqName (map snd (declared_metrics @ ha_metrics @ decision_metrics)))"
    using all_metrics_are by (metis mset_map)
  ultimately show ?thesis by (metis mset_eq_imp_distinct_iff)
qed

lemma fields_registered: "(field, v) \<in> set metrics_fields \<Longrightarrow> variable v \<in> set (map variable (registered_first @ registered_last))"
proof -
  assume "(field, v) \<in> set metrics_fields"
  then have "v \<in> fst ` set declared_metrics" using fields_declared by force
  then obtain m where m: "(v, m) \<in> set declared_metrics" by auto
  then have "variable v \<in> set (map snd declared_metrics)" by (force simp: variable_of)
  then show ?thesis by (metis mset_eq_setD registered_metrics)
qed

text \<open>Start-up cannot panic in the Prometheus client: in a registry that holds none of their names yet, the metrics of the program and of the HA mode can be registered, and then also those of the
  decisions, which no code of the repository registers, each name once, and every field of the struct is a registered metric; creating the metrics a second time panics.\<close>

theorem metrics_register:
  assumes "prometheus_client MustRegister names WithLabelValues" "names r \<inter> fqName ` set all_metrics = {}"
  shows "\<exists>fields r1 ha r2 r3. NewMetrics MustRegister r = Some (fields, r1) \<and> NewHAMetrics MustRegister r1 = Some (ha, r2) \<and>
    RegisterDecisionMetrics MustRegister r2 = Some r3 \<and> names r3 = names r \<union> fqName ` set all_metrics \<and>
    (\<forall>(field, m) \<in> set fields. fqName m \<in> names r1) \<and> NewMetrics MustRegister r1 = None"
proof -
  note fresh = prometheus_client.register_fresh [OF assms(1)]
  define ms where "ms = map variable (registered_first @ registered_last)"
  define ha where "ha = map snd ha_metrics"
  define dm where "dm = map snd decision_metrics"
  have all: "all_metrics = ms @ ha @ dm" unfolding all_metrics_def ms_def [symmetric] ha_def dm_def ..
  have d: "distinct (map fqName ms @ map fqName ha @ map fqName dm)" using names_distinct unfolding all by simp
  have free: "fqName ` set ms \<inter> names r = {}" "fqName ` set ha \<inter> names r = {}" "fqName ` set dm \<inter> names r = {}"
    using assms(2) unfolding all by auto
  from d free(1) obtain r1 where r1: "register_all MustRegister ms r = Some r1" "names r1 = names r \<union> fqName ` set ms" using fresh [of ms r] by auto
  have "distinct (map fqName ha)" "fqName ` set ha \<inter> names r1 = {}" using d r1(2) free(2) by auto
  then obtain r2 where r2: "register_all MustRegister ha r1 = Some r2" "names r2 = names r1 \<union> fqName ` set ha" using fresh by blast
  have "distinct (map fqName dm)" "fqName ` set dm \<inter> names r2 = {}" using d r1(2) r2(2) free(3) by auto
  then obtain r3 where r3: "MustRegister dm r2 = Some r3" "names r3 = names r2 \<union> fqName ` set dm"
    using prometheus_client.register_new [OF assms(1)] by blast
  have "names r3 = names r \<union> fqName ` set all_metrics" using r1(2) r2(2) r3(2) unfolding all by auto
  moreover obtain m rest where ms: "ms = m # rest" by (simp add: ms_def registered_first_def)
  have "register_all MustRegister ms r1 = None" unfolding ms
    by (rule prometheus_client.register_again [OF assms(1)]) (simp add: r1(2) ms)
  then have "NewMetrics MustRegister r1 = None" unfolding NewMetrics_def ms_def [symmetric] by simp
  moreover have "variable v \<in> set ms" if "(field, v) \<in> set metrics_fields" for field v using fields_registered [OF that] by (simp only: ms_def)
  then have "\<forall>(field, m) \<in> set (map (\<lambda>(field, v). (field, variable v)) metrics_fields). fqName m \<in> names r1" by (auto simp: r1(2))
  moreover have "NewMetrics MustRegister r = Some (map (\<lambda>(field, v). (field, variable v)) metrics_fields, r1)"
    unfolding NewMetrics_def ms_def [symmetric] by (simp add: r1(1))
  moreover have "NewHAMetrics MustRegister r1 = Some (ha_metrics, r2)" "RegisterDecisionMetrics MustRegister r2 = Some r3"
    using r2(1) r3(1) by (simp_all add: NewHAMetrics_def RegisterDecisionMetrics_def ha_def dm_def)
  ultimately show ?thesis by blast
qed

theorem metrics_register_witness: "\<exists>fields r1. NewMetrics name_registry [] = Some (fields, r1) \<and> NewMetrics name_registry r1 = None"
  using metrics_register [OF registry.prometheus_client_axioms, of "[]"] by auto

section \<open>Label values\<close>

theorem decision_labels_fit:
  assumes "prometheus_client MustRegister names WithLabelValues"
  shows "RecordDecision_metrics WithLabelValues decisionType result source \<noteq> None"
proof -
  have "WithLabelValues (the (map_of decision_metrics v)) vs \<noteq> None" if "length vs = length (label_names (the (map_of decision_metrics v)))" for v vs
    using prometheus_client.values_fit [OF assms] that by blast
  from this [of "[decisionType, result, source]" "''decisionTotal''"] this [of "[decisionType, source]" "''decisionDuration''"] this [of "[decisionType, source]" "''decisionConfidence''"]
  show ?thesis by (auto simp: RecordDecision_metrics_def decision_metrics_def split: option.splits)
qed

text \<open>The threshold monitor and the counter that is declared for it do not fit together: the counter has the labels source and threshold, the
  monitor gives it three values, so the first threshold that is exceeded panics. Below the thresholds, or without a configuration of
  the source, every event is allowed and nothing is counted.\<close>

theorem threshold_monitor_panics:
  assumes "prometheus_client MustRegister names WithLabelValues" "load source = Some conf"
  shows "CheckThreshold WithLabelValues source metricName v warning critical (NewThresholdMonitor (Some load) (Some (variable ''thresholdExceeded''))) =
    (if f64_geq v critical \<or> f64_geq v warning then None
     else Some (True, NewThresholdMonitor (Some load) (Some (variable ''thresholdExceeded''))))"
proof -
  have "label_names (variable ''thresholdExceeded'') = [''source'', ''threshold'']" by code_simp
  then have "WithLabelValues (variable ''thresholdExceeded'') [source, metricName, severity] = None" for severity
    using prometheus_client.values_fit [OF assms(1)] by auto
  then show ?thesis using assms(2) by (simp add: CheckThreshold_def NewThresholdMonitor_def recordThresholdExceeded_def)
qed

theorem threshold_monitor_panics_witness:
  "CheckThreshold labelled ''falco'' ''observations_per_minute'' (Fin 150) (Fin 100) (Fin 200)
     (NewThresholdMonitor (Some (\<lambda>s. Some (source_config s))) (Some (variable ''thresholdExceeded''))) = None"
proof -
  have "f64_geq (Fin 150) (Fin 100)" by code_simp
  then show ?thesis using threshold_monitor_panics [OF registry.prometheus_client_axioms, of "\<lambda>s. Some (source_config s)" "''falco''" "source_config ''falco''"] by simp
qed

text \<open>With a counter of three labels, deduplication below ten percent, documented as critical, is not reported at all, and from ten to thirty percent,
  documented as a warning, it is reported as critical.\<close>

theorem dedup_reports:
  assumes "prometheus_client MustRegister names WithLabelValues" "load source = Some conf" "length (label_names vec) = 3" "effectiveness \<noteq> NaN"
  shows "map_option exceeded (CheckDedupEffectiveness WithLabelValues source effectiveness (NewThresholdMonitor (Some load) (Some vec))) =
    Some (if f64_less effectiveness (rnd64 (1 / 10)) then []
          else if f64_less effectiveness (rnd64 (3 / 10)) then [[source, ''dedup_effectiveness'', ''critical'']] else [])"
proof -
  have "WithLabelValues vec [source, m, severity] \<noteq> None" for m severity using prometheus_client.values_fit [OF assms(1)] assms(3) by auto
  moreover have "rnd64 (1 / 10) \<noteq> NaN" by code_simp
  ultimately show ?thesis using assms(2,4)
    by (auto simp: CheckDedupEffectiveness_def CheckThreshold_def NewThresholdMonitor_def recordThresholdExceeded_def f64_geq_def Let_def)
qed

section \<open>Readings\<close>

text \<open>The percentages never leave their range, whatever is read, and the queue depth is never negative.\<close>

theorem readings_bounded:
  assumes "current \<noteq> None \<or> percentage = None"
  shows "\<not> f64_less (fst (GetCPUUsagePercent now current percentage sm)) (Fin 0) \<and> \<not> f64_less (Fin 100) (fst (GetCPUUsagePercent now current percentage sm)) \<and>
    \<not> f64_less (Fin 100) (GetMemoryUsagePercent alloc memory) \<and> 0 \<le> sm_queueDepth (SetQueueDepth depth sm)"
  using assms by (auto simp: GetCPUUsagePercent_def GetMemoryUsagePercent_def SetQueueDepth_def Let_def split: option.splits)

text \<open>A busy source: events, and readings of the rate that each come less than a second after an event.\<close>

datatype rate_call = Happened int | Read int

fun call_rate :: "rate_call \<Rightarrow> SystemMetrics \<Rightarrow> SystemMetrics" where
  "call_rate (Happened t) sm = sm_RecordEvent t sm"
| "call_rate (Read t) sm = snd (GetEventsPerSecond t sm)"

definition recent :: "int \<Rightarrow> SystemMetrics \<Rightarrow> bool" where
  "recent t sm \<longleftrightarrow> f64_less (Seconds (t - lastEventTime sm)) (Fin 1) \<and> lastEventTime sm > t - 5 * second"

fun busy :: "rate_call list \<Rightarrow> SystemMetrics \<Rightarrow> bool" where
  "busy [] sm = True"
| "busy (c # cs) sm = ((case c of Happened t \<Rightarrow> True | Read t \<Rightarrow> recent t sm) \<and> busy cs (call_rate c sm))"

definition happened :: "rate_call list \<Rightarrow> nat" where
  "happened cs = length (filter (\<lambda>c. case c of Happened t \<Rightarrow> True | Read t \<Rightarrow> False) cs)"

lemma busy_count:
  "busy cs sm \<Longrightarrow> 0 \<le> sm_eventCount sm \<Longrightarrow> sm_eventCount sm + int (happened cs) < 2 ^ 63 \<Longrightarrow>
     sm_eventCount (fold call_rate cs sm) = sm_eventCount sm + int (happened cs)"
proof (induction cs arbitrary: sm)
  case (Cons c cs)
  have step: "sm_eventCount (call_rate c sm) = sm_eventCount sm + int (happened [c])"
  proof (cases c)
    case (Happened t)
    then have "in_int64 (sm_eventCount sm + 1)" using Cons.prems by (simp add: happened_def in_int64_def)
    then show ?thesis using Happened by (simp add: sm_RecordEvent_def happened_def wrap64_id)
  next
    case (Read t)
    then show ?thesis using Cons.prems by (auto simp: happened_def GetEventsPerSecond_def recent_def Let_def)
  qed
  have "happened (c # cs) = happened [c] + happened cs" by (simp add: happened_def)
  with step Cons show ?case by auto
qed (simp add: happened_def)

text \<open>The event rate of a source that is never quiet for a second is not a rate: it is a fifth of all events since the start, however long
  ago they happened, because the counter is not reset on this path and no window is kept.\<close>

theorem busy_rate_unbounded:
  assumes "busy (cs @ [Read t]) (NewSystemMetrics t0)" "int (happened cs) < 2 ^ 63"
  shows "fst (GetEventsPerSecond t (fold call_rate cs (NewSystemMetrics t0))) = f64_div (f64_of_int (int (happened cs))) (Fin 5)"
proof -
  have split: "busy (xs @ ys) sm \<longleftrightarrow> busy xs sm \<and> busy ys (fold call_rate xs sm)" for xs ys sm by (induction xs arbitrary: sm) auto
  then have "busy cs (NewSystemMetrics t0)" "recent t (fold call_rate cs (NewSystemMetrics t0))" using assms(1) by simp_all
  moreover from this(1) have "sm_eventCount (fold call_rate cs (NewSystemMetrics t0)) = int (happened cs)"
    using busy_count [of cs "NewSystemMetrics t0"] assms(2) by (simp add: NewSystemMetrics_def)
  ultimately show ?thesis by (simp add: GetEventsPerSecond_def recent_def Let_def)
qed

text \<open>Twenty events in eighteen seconds, read as four a second.\<close>

definition slow_events :: "rate_call list" where
  "slow_events = map (\<lambda>n. Happened (int n * 900 * millisecond)) [0..<20]"

theorem busy_rate_unbounded_witness:
  "fst (GetEventsPerSecond (18 * second) (fold call_rate slow_events (NewSystemMetrics 0))) = Fin 4"
proof -
  have b: "busy (slow_events @ [Read (18 * second)]) (NewSystemMetrics 0)" by code_simp
  have n: "happened slow_events = 20" by code_simp
  have "f64_div (f64_of_int 20) (Fin 5) = Fin 4" by code_simp
  then show ?thesis using busy_rate_unbounded [OF b] n by simp
qed

end
