(* ===== verification/Obsctl.thy ===== *)
theory Obsctl
  imports GVR_Allowlist K8s_Unstructured Zen_Values
begin

text \<open>
  The command line tool \<^verbatim>\<open>cmd/obsctl\<close>, which lists, counts and shows observations. The API server is an argument, what a list or a get returns for a resource, a
  namespace (empty for all) and a selector; so are the parser of label selectors and the unstructured package. Output is the rows of the table, before the
  tabulator aligns them, the lines printed, or the value that is printed as JSON.

  Results: the counts of the statistics are exact, their table shows the sources without a slash; a name is found when it exists; the tool
  looks at a version of the resource that the watcher does not write.
\<close>

section \<open>The tool (main.go)\<close>

definition observationGVR :: GVR where
  "observationGVR = \<lparr>Group = ''zen.kube-zen.io'', Version = ''v1'', Resource = ''observations''\<rparr>"

record obs_flags =
  fl_namespace :: string
  fl_output :: string

record obs_api =
  api_list :: "GVR \<Rightarrow> string \<Rightarrow> string \<Rightarrow> string + obj list"
  api_get :: "GVR \<Rightarrow> string \<Rightarrow> string \<Rightarrow> string + obj"

datatype shown = Rows "string list list" | Json val | Lines "string list"

definition spec_string :: "uapi \<Rightarrow> obj \<Rightarrow> string \<Rightarrow> string" where
  "spec_string u ob field = (case NestedString u ob [''spec'', field] of Some s \<Rightarrow> s | None \<Rightarrow> [])"

definition getAge :: string where
  "getAge = ''<unknown>''"

definition listObservations :: "uapi \<Rightarrow> obs_api \<Rightarrow> (string \<Rightarrow> string + string) \<Rightarrow> obs_flags \<Rightarrow> string \<Rightarrow> string + shown" where
  "listObservations u api labels_Parse fl selectorStr =
     (case (if selectorStr \<noteq> [] then labels_Parse selectorStr else Inr []) of
        Inl e \<Rightarrow> Inl (''invalid selector: '' @ e)
      | Inr selector \<Rightarrow>
          (case api_list api observationGVR (fl_namespace fl) selector of
             Inl e \<Rightarrow> Inl e
           | Inr observations \<Rightarrow>
               if fl_output fl = ''json'' then Inr (Json (VList (map VMap observations)))
               else Inr (Rows ([[''NAME'', ''SOURCE'', ''CATEGORY'', ''SEVERITY'', ''EVENT TYPE'', ''AGE''], [''----'', ''------'', ''--------'', ''--------'', ''----------'', ''---'']] @
                      map (\<lambda>ob. [GetName u ob, spec_string u ob ''source'', spec_string u ob ''category'', spec_string u ob ''severity'', spec_string u ob ''eventType'', getAge])
                        observations))))"

text \<open>The key of an observation, and the loop that counts the keys.\<close>

definition stats_key :: "uapi \<Rightarrow> obj \<Rightarrow> string" where
  "stats_key u ob = spec_string u ob ''source'' @ ''/'' @ spec_string u ob ''severity''"

definition count_stats :: "uapi \<Rightarrow> obj list \<Rightarrow> (string, int) gomap" where
  "count_stats u obs = fold (\<lambda>ob stats. put (stats_key u ob) ((case map_of stats (stats_key u ob) of Some n \<Rightarrow> n | None \<Rightarrow> 0) + 1) stats) obs []"

definition stats_row :: "string \<times> int \<Rightarrow> string list list" where
  "stats_row = (\<lambda>(key, count). let parts = split_on (CHR ''/'') key in if length parts = 2 then [[parts ! 0, parts ! 1, show_int count]] else [])"

definition showStats :: "uapi \<Rightarrow> obs_api \<Rightarrow> obs_flags \<Rightarrow> string \<Rightarrow> string + shown" where
  "showStats u api fl groupBy =
     (case api_list api observationGVR (fl_namespace fl) [] of
        Inl e \<Rightarrow> Inl e
      | Inr observations \<Rightarrow>
          (let stats = count_stats u observations
           in if fl_output fl = ''json'' then Inr (Json (VMap (map (map_prod id VInt) stats)))
              else Inr (Rows ([[''SOURCE'', ''SEVERITY'', ''COUNT''], [''------'', ''--------'', ''-----'']] @ concat (map stats_row stats)))))"

definition findObservationInAllNamespaces :: "uapi \<Rightarrow> obs_api \<Rightarrow> string \<Rightarrow> string + obj" where
  "findObservationInAllNamespaces u api name =
     (case api_list api observationGVR [] [] of
        Inl e \<Rightarrow> Inl e
      | Inr observations \<Rightarrow>
          (case find (\<lambda>ob. GetName u ob = name) observations of Some ob \<Rightarrow> Inr ob | None \<Rightarrow> Inl (''observation '' @ name @ '' not found'')))"

definition getObservation :: "uapi \<Rightarrow> obs_api \<Rightarrow> obs_flags \<Rightarrow> string \<Rightarrow> string + shown" where
  "getObservation u api fl name =
     (case (if fl_namespace fl \<noteq> [] then api_get api observationGVR (fl_namespace fl) name else findObservationInAllNamespaces u api name) of
        Inl e \<Rightarrow> Inl e
      | Inr ob \<Rightarrow>
          if fl_output fl = ''json'' then Inr (Json (VMap ob))
          else Inr (Lines [''Name: '' @ GetName u ob, ''Namespace: '' @ GetNamespace u ob, ''Source: '' @ spec_string u ob ''source'', ''Category: '' @ spec_string u ob ''category'',
                 ''Severity: '' @ spec_string u ob ''severity'', ''Event Type: '' @ spec_string u ob ''eventType'']))"

text \<open>\<^verbatim>\<open>main\<close> once the client is built, from the arguments to the output or to the messages of an exit with status 1.\<close>

definition argument :: "string list \<Rightarrow> nat \<Rightarrow> string" where
  "argument args n = (if n < length args then args ! n else [])"

definition with_error :: "string \<Rightarrow> string + shown \<Rightarrow> string list + shown" where
  "with_error what r = (case r of Inl e \<Rightarrow> Inl [what @ e] | Inr s \<Rightarrow> Inr s)"

definition obsctl_main :: "uapi \<Rightarrow> obs_api \<Rightarrow> (string \<Rightarrow> string + string) \<Rightarrow> obs_flags \<Rightarrow> string list \<Rightarrow> string list + shown" where
  "obsctl_main u api labels_Parse fl args =
     (if args = [] then Inl [''Usage: obsctl <command> [flags]'', ''Commands: list, stats, get'']
      else if argument args 0 = ''list'' then with_error ''Error listing observations: '' (listObservations u api labels_Parse fl (argument args 1))
      else if argument args 0 = ''stats'' then with_error ''Error showing stats: '' (showStats u api fl (argument args 1))
      else if argument args 0 = ''get'' then
        (if argument args 1 = [] then Inl [''Error: name required for 'get' command'']
         else with_error ''Error getting observation: '' (getObservation u api fl (argument args 1)))
      else Inl [''Unknown command: '' @ argument args 0])"

section \<open>The counts are exact\<close>

definition with_key :: "uapi \<Rightarrow> string \<Rightarrow> obj list \<Rightarrow> nat" where
  "with_key u key obs = length (filter (\<lambda>ob. stats_key u ob = key) obs)"

lemma count_stats_snoc:
  "count_stats u (obs @ [ob]) = put (stats_key u ob) ((case map_of (count_stats u obs) (stats_key u ob) of Some n \<Rightarrow> n | None \<Rightarrow> 0) + 1) (count_stats u obs)"
  by (simp add: count_stats_def)

lemma count_stats_map:
  "wf_map (count_stats u obs) \<and> map_of (count_stats u obs) key = (if with_key u key obs = 0 then None else Some (int (with_key u key obs)))"
proof (induction obs arbitrary: key rule: rev_induct)
  case (snoc ob obs)
  have "with_key u key (obs @ [ob]) = with_key u key obs + (if stats_key u ob = key then 1 else 0)" by (simp add: with_key_def)
  then show ?case using snoc [of "stats_key u ob"] snoc [of key] by (auto simp: count_stats_snoc)
qed (simp add: count_stats_def with_key_def wf_map_def)

lemma key_parts:
  assumes "CHR ''/'' \<notin> set s" "CHR ''/'' \<notin> set v"
  shows "split_on (CHR ''/'') (s @ CHR ''/'' # v) = [s, v]"
  using split_on_append_sep [OF assms(1), of v] split_on_no_sep [OF assms(2)] by simp

lemma one_slash:
  assumes "s' @ ''/'' @ v' = s @ ''/'' @ v" "CHR ''/'' \<notin> set s" "CHR ''/'' \<notin> set v"
  shows "s' = s \<and> v' = v"
proof -
  have none: "filter (\<lambda>c. c = CHR ''/'') x = []" if "CHR ''/'' \<notin> set x" for x using that by (auto simp: filter_empty_conv)
  have "filter (\<lambda>c. c = CHR ''/'') (s' @ ''/'' @ v') = ''/''" unfolding assms(1) by (simp add: none assms(2,3))
  then have "filter (\<lambda>c. c = CHR ''/'') s' = [] \<and> filter (\<lambda>c. c = CHR ''/'') v' = []" by (auto simp: append_eq_Cons_conv)
  then have "CHR ''/'' \<notin> set s'" "CHR ''/'' \<notin> set v'" by (auto simp: filter_empty_conv)
  then have "[s', v'] = [s, v]" using key_parts [OF assms(2,3)] key_parts [of s' v'] assms(1) by simp
  then show ?thesis by simp
qed

definition counted :: "uapi \<Rightarrow> string \<Rightarrow> string \<Rightarrow> obj list \<Rightarrow> nat" where
  "counted u source severity obs = length (filter (\<lambda>ob. spec_string u ob ''source'' = source \<and> spec_string u ob ''severity'' = severity) obs)"

lemma with_plain_key:
  assumes "CHR ''/'' \<notin> set s" "CHR ''/'' \<notin> set v"
  shows "with_key u (s @ ''/'' @ v) obs = counted u s v obs"
proof -
  have "stats_key u ob = s @ ''/'' @ v \<longleftrightarrow> spec_string u ob ''source'' = s \<and> spec_string u ob ''severity'' = v" for ob
    using one_slash [OF _ assms] by (auto simp: stats_key_def)
  then show ?thesis by (simp add: with_key_def counted_def)
qed

lemma stats_row_iff:
  "row \<in> set (stats_row (key, n)) \<longleftrightarrow> (\<exists>s v. CHR ''/'' \<notin> set s \<and> CHR ''/'' \<notin> set v \<and> key = s @ ''/'' @ v \<and> row = [s, v, show_int n])"
proof
  assume "row \<in> set (stats_row (key, n))"
  then have two: "length (split_on (CHR ''/'') key) = 2" "row = [split_on (CHR ''/'') key ! 0, split_on (CHR ''/'') key ! 1, show_int n]"
    by (auto simp: stats_row_def Let_def split: if_splits)
  then obtain s v where sv: "split_on (CHR ''/'') key = [s, v]" by (auto simp: numeral_2_eq_2 length_Suc_conv)
  then have "CHR ''/'' \<notin> set s" "CHR ''/'' \<notin> set v" using split_on_parts [of _ "CHR ''/''" key] by auto
  moreover have "key = s @ ''/'' @ v" using join_split_on [of "CHR ''/''" key] sv by simp
  ultimately show "\<exists>s v. CHR ''/'' \<notin> set s \<and> CHR ''/'' \<notin> set v \<and> key = s @ ''/'' @ v \<and> row = [s, v, show_int n]" using two(2) sv by auto
qed (auto simp: stats_row_def key_parts Let_def)

lemma sum_put: "sum_list (map (f \<circ> snd) (put k i m)) = sum_list (map (f \<circ> snd) m) - (case map_of m k of None \<Rightarrow> 0 | Some j \<Rightarrow> f j) + (f i :: int)"
  by (induction m) (auto split: option.splits)

lemma stats_sum: "sum_list (map snd (count_stats u obs)) = int (length obs)"
proof (induction obs rule: rev_induct)
  case (snoc ob obs)
  then show ?case using sum_put [of id "stats_key u ob" _ "count_stats u obs"] by (auto simp: count_stats_snoc split: option.splits)
qed (simp add: count_stats_def)

lemma stats_rows:
  "set (concat (map stats_row (count_stats u obs))) =
     {[s, v, show_int (int (counted u s v obs))] | s v. CHR ''/'' \<notin> set s \<and> CHR ''/'' \<notin> set v \<and> 0 < counted u s v obs}" (is "?l = ?r")
proof (rule set_eqI)
  fix row
  have l: "row \<in> ?l \<longleftrightarrow> (\<exists>key n. map_of (count_stats u obs) key = Some n \<and> row \<in> set (stats_row (key, n)))"
    using map_of_eq_Some_iff [of "count_stats u obs"] count_stats_map [of u obs] by (auto simp: wf_map_def)
  have plain: "map_of (count_stats u obs) (s @ ''/'' @ v) = (if counted u s v obs = 0 then None else Some (int (counted u s v obs)))"
    if "CHR ''/'' \<notin> set s" "CHR ''/'' \<notin> set v" for s v using count_stats_map [of u obs "s @ ''/'' @ v"] with_plain_key [OF that] by metis
  show "row \<in> ?l \<longleftrightarrow> row \<in> ?r"
  proof
    assume "row \<in> ?l"
    then obtain s v n where "map_of (count_stats u obs) (s @ ''/'' @ v) = Some n" "CHR ''/'' \<notin> set s" "CHR ''/'' \<notin> set v" "row = [s, v, show_int n]"
      unfolding l stats_row_iff by metis
    then show "row \<in> ?r" using plain [of s v] by (auto split: if_splits)
  next
    assume "row \<in> ?r"
    then obtain s v where sv: "CHR ''/'' \<notin> set s" "CHR ''/'' \<notin> set v" "0 < counted u s v obs" "row = [s, v, show_int (int (counted u s v obs))]" by blast
    then have "map_of (count_stats u obs) (s @ ''/'' @ v) = Some (int (counted u s v obs))" using plain by simp
    then show "row \<in> ?l" unfolding l stats_row_iff using sv by blast
  qed
qed

text \<open>The table of the statistics is exact: it has a row for a source and a severity, neither with a slash, exactly when there are observations
  of both, and the row gives their number; a source with a slash, which every source of a multi-source Ingester has, is in no row. In any
  case the numbers of the statistics sum to the number of observations.\<close>

theorem stats_exact:
  assumes "api_list api observationGVR (fl_namespace fl) [] = Inr obs" "fl_output fl \<noteq> ''json''"
  shows "\<exists>h1 h2 rows. showStats u api fl groupBy = Inr (Rows (h1 # h2 # rows)) \<and>
    set rows = {[s, v, show_int (int (counted u s v obs))] | s v. CHR ''/'' \<notin> set s \<and> CHR ''/'' \<notin> set v \<and> 0 < counted u s v obs} \<and>
    sum_list (map snd (count_stats u obs)) = int (length obs)"
  using assms stats_rows [of u obs] stats_sum [of u obs] by (simp add: showStats_def Let_def)

definition two_observations :: "obj list" where
  "two_observations = [[(''spec'', VMap [(''source'', VStr ''falco''), (''severity'', VStr ''high'')])], [(''spec'', VMap [(''source'', VStr ''ns/ing/falco''), (''severity'', VStr ''high'')])]]"

theorem stats_exact_witness:
  "\<exists>h1 h2. showStats walk_api \<lparr>api_list = (\<lambda>g ns sel. Inr two_observations), api_get = (\<lambda>g ns n. Inl ''none'')\<rparr> \<lparr>fl_namespace = [], fl_output = ''table''\<rparr> [] =
     Inr (Rows [h1, h2, [''falco'', ''high'', ''1'']])"
proof -
  let ?api = "\<lparr>api_list = (\<lambda>g ns sel. Inr two_observations), api_get = (\<lambda>g ns n. Inl ''none'')\<rparr>" and ?fl = "\<lparr>fl_namespace = [], fl_output = ''table''\<rparr>"
  have "api_list ?api observationGVR (fl_namespace ?fl) [] = Inr two_observations" "fl_output ?fl \<noteq> ''json''" by simp_all
  from stats_exact [OF this, of walk_api "[]"] obtain h1 h2 rows where rows: "showStats walk_api ?api ?fl [] = Inr (Rows (h1 # h2 # rows))" by blast
  moreover have "showStats walk_api ?api ?fl [] = Inr (Rows [[''SOURCE'', ''SEVERITY'', ''COUNT''], [''------'', ''--------'', ''-----''], [''falco'', ''high'', ''1'']])" by code_simp
  ultimately show ?thesis by simp
qed

text \<open>A name is found in all namespaces exactly when an observation has it.\<close>

theorem find_complete:
  assumes "api_list api observationGVR [] [] = Inr obs"
  shows "(\<exists>ob. findObservationInAllNamespaces u api name = Inr ob) \<longleftrightarrow> (\<exists>ob \<in> set obs. GetName u ob = name)"
  using assms by (auto simp: findObservationInAllNamespaces_def find_None_iff find_Some_iff split: option.splits)

text \<open>The tool asks for version v1 of the fixed API group, which is never what the watcher resolves \<^verbatim>\<open>observations\<close> to.\<close>

theorem obsctl_other_version: "observationGVR \<noteq> ResolveDestinationGVR getenv ''observations''"
  by (simp add: observationGVR_def ResolveDestinationGVR_def ObservationsGVR_def DefaultAPIVersion_def)

end
