(* ===== verification/Informer_Manager.thy ===== *)
theory Informer_Manager
  imports Generic_Adapters
begin

text \<open>
  The informer manager (\<^verbatim>\<open>internal/informers/manager.go\<close>) and the start of an informer adapter with it (\<^verbatim>\<open>informer_adapter.go\<close>). The
  informer factories of client-go are an interface: the operations are the record \<open>factory_api\<close>, their documented behaviour the locale
  \<open>informer_factory\<close>: a factory knows the resources it was asked for, starting it starts their informers, and waiting for it
  waits for the caches of the started ones. Whether the cache of a resource ever fills is an argument, and so is whether the context
  ends.

  Results: starting an adapter starts its informer and every one requested before; the first custom period of a resource stays in
  force; an adapter is started exactly when every resource requested so far, also by other adapters, can be cached.
\<close>

section \<open>Factories\<close>

record 'f factory_api =
  NewDynamicSharedInformerFactory :: "int \<Rightarrow> 'f"
  ForResource :: "GVRConfig \<Rightarrow> 'f \<Rightarrow> 'f"
  StartFactory :: "'f \<Rightarrow> 'f"
  fa_requested :: "'f \<Rightarrow> GVRConfig list"
  fa_started :: "'f \<Rightarrow> GVRConfig list"
  fa_resync :: "'f \<Rightarrow> int"

locale informer_factory =
  fixes fa :: "'f factory_api"
  assumes new_factory: "set (fa_requested fa (NewDynamicSharedInformerFactory fa r)) = {}" "set (fa_started fa (NewDynamicSharedInformerFactory fa r)) = {}" "fa_resync fa (NewDynamicSharedInformerFactory fa r) = r"
    and for_resource: "set (fa_requested fa (ForResource fa g f)) = insert g (set (fa_requested fa f))" "set (fa_started fa (ForResource fa g f)) = set (fa_started fa f)"
      "fa_resync fa (ForResource fa g f) = fa_resync fa f"
    and start_factory: "set (fa_requested fa (StartFactory fa f)) = set (fa_requested fa f)" "set (fa_started fa (StartFactory fa f)) = set (fa_requested fa f)"
      "fa_resync fa (StartFactory fa f) = fa_resync fa f"

text \<open>Factories that keep the two lists.\<close>

definition list_factory :: "(int \<times> GVRConfig list \<times> GVRConfig list) factory_api" where
  "list_factory = \<lparr>NewDynamicSharedInformerFactory = (\<lambda>r. (r, [], [])), ForResource = (\<lambda>g (r, req, st). (r, List.insert g req, st)), StartFactory = (\<lambda>(r, req, st). (r, req, req)),
     fa_requested = (\<lambda>(r, req, st). req), fa_started = (\<lambda>(r, req, st). st), fa_resync = (\<lambda>(r, req, st). r)\<rparr>"

interpretation lists: informer_factory list_factory
  by unfold_locales (auto simp: list_factory_def)

section \<open>The manager (manager.go)\<close>

record 'f Manager =
  factory :: 'f
  defaultResync :: int
  customFactories :: "(string, 'f) gomap"

definition NewManager :: "'f factory_api \<Rightarrow> int \<Rightarrow> 'f Manager" where
  "NewManager fa resync = \<lparr>factory = NewDynamicSharedInformerFactory fa resync, defaultResync = resync, customFactories = []\<rparr>"

text \<open>The informer is that of the default factory (\<open>None\<close>) or of the custom one of the key. \<open>gs\<close> is the text of a resource.\<close>

definition GetInformer :: "'f factory_api \<Rightarrow> (GVRConfig \<Rightarrow> string) \<Rightarrow> GVRConfig \<Rightarrow> int \<Rightarrow> 'f Manager \<Rightarrow> string option \<times> 'f Manager" where
  "GetInformer fa gs g resyncPeriod m =
     (if resyncPeriod > 0 \<and> resyncPeriod \<noteq> defaultResync m
      then (let custom = (case map_of (customFactories m) (gs g) of Some f \<Rightarrow> f | None \<Rightarrow> NewDynamicSharedInformerFactory fa resyncPeriod)
            in (Some (gs g), m\<lparr>customFactories := put (gs g) (ForResource fa g custom) (customFactories m)\<rparr>))
      else (None, m\<lparr>factory := ForResource fa g (factory m)\<rparr>))"

text \<open>A filtered informer has a factory of its own, which the manager does not keep.\<close>

definition GetFilteredInformer :: "'f factory_api \<Rightarrow> GVRConfig \<Rightarrow> int \<Rightarrow> 'f Manager \<Rightarrow> 'f \<times> 'f Manager" where
  "GetFilteredInformer fa g resyncPeriod m = (ForResource fa g (NewDynamicSharedInformerFactory fa resyncPeriod), m)"

definition manager_Start :: "'f factory_api \<Rightarrow> 'f Manager \<Rightarrow> 'f Manager" where
  "manager_Start fa m = m\<lparr>factory := StartFactory fa (factory m), customFactories := map (map_prod id (StartFactory fa)) (customFactories m)\<rparr>"

text \<open>Waiting for a factory returns when all its caches are filled, or when the context ends with one that is not; otherwise it
  blocks. The custom factories come in the order of their creation (Go leaves it open), the first cache that is not filled gives the
  error.\<close>

datatype waited = Synced | NotSynced string | Blocked

definition wait_factory :: "'f factory_api \<Rightarrow> (GVRConfig \<Rightarrow> bool) \<Rightarrow> bool \<Rightarrow> (GVRConfig \<Rightarrow> string) \<Rightarrow> 'f \<Rightarrow> waited" where
  "wait_factory fa syncs ends err f = (case find (\<lambda>g. \<not> syncs g) (fa_started fa f) of None \<Rightarrow> Synced | Some g \<Rightarrow> if ends then NotSynced (err g) else Blocked)"

fun wait_all :: "'f factory_api \<Rightarrow> (GVRConfig \<Rightarrow> bool) \<Rightarrow> bool \<Rightarrow> ((GVRConfig \<Rightarrow> string) \<times> 'f) list \<Rightarrow> waited" where
  "wait_all fa syncs ends [] = Synced"
| "wait_all fa syncs ends ((err, f) # fs) = (case wait_factory fa syncs ends err f of Synced \<Rightarrow> wait_all fa syncs ends fs | w \<Rightarrow> w)"

definition manager_WaitForCacheSync :: "'f factory_api \<Rightarrow> (GVRConfig \<Rightarrow> string) \<Rightarrow> (GVRConfig \<Rightarrow> bool) \<Rightarrow> bool \<Rightarrow> 'f Manager \<Rightarrow> waited" where
  "manager_WaitForCacheSync fa gs syncs ends m =
     wait_all fa syncs ends
       ((\<lambda>g. ''failed to sync informer cache for '' @ gs g, factory m) #
        map (\<lambda>(k, f). (\<lambda>g. ''failed to sync custom informer cache for '' @ gs g @ '' (key: '' @ k @ '')'', f)) (customFactories m))"

section \<open>Starting an adapter (informer_adapter.go)\<close>

definition resync_period :: "InformerConfig \<Rightarrow> int" where
  "resync_period ic = (if if_resync ic \<noteq> [] \<and> if_resync ic \<noteq> ''0'' then (case parse_duration (if_resync ic) of Some d \<Rightarrow> d | None \<Rightarrow> 0) else 0)"

datatype started = StartedWith informer_state | StartFailed string | StartBlocked

text \<open>The whole \<^verbatim>\<open>Start\<close>: the informer is requested before the manager starts, then all caches are awaited, then its own. \<open>handler_error\<close> is the error of
  registering the handlers, if there is one.\<close>

definition adapter_Start ::
    "'f factory_api \<Rightarrow> (GVRConfig \<Rightarrow> string) \<Rightarrow> (GVRConfig \<Rightarrow> bool) \<Rightarrow> bool \<Rightarrow> string option \<Rightarrow> SourceConfig \<Rightarrow> 'f Manager \<Rightarrow> started \<times> 'f Manager" where
  "adapter_Start fa gs syncs ends handler_error conf m =
     (case informer_Start conf of
        Inl err \<Rightarrow> (StartFailed err, m)
      | Inr st \<Rightarrow>
          (let ic = the (Informer conf); m1 = snd (GetInformer fa gs (if_gvr ic) (resync_period ic) m)
           in case handler_error of
                Some err \<Rightarrow> (StartFailed (''failed to add event handlers: '' @ err), m1)
              | None \<Rightarrow>
                  (let m2 = manager_Start fa m1
                   in (case manager_WaitForCacheSync fa gs syncs ends m2 of
                         Blocked \<Rightarrow> StartBlocked
                       | NotSynced err \<Rightarrow> StartFailed (''failed to sync informer cache for '' @ gs (if_gvr ic) @ '': '' @ err)
                       | Synced \<Rightarrow> if syncs (if_gvr ic) then StartedWith st
                                   else if ends then StartFailed (''informer cache for '' @ gs (if_gvr ic) @ '' did not sync in time'') else StartBlocked, m2))))"

section \<open>Adapters start together\<close>

text \<open>The resources a manager was asked for, and that it started all of them.\<close>

definition factories :: "'f Manager \<Rightarrow> 'f list" where
  "factories m = factory m # map snd (customFactories m)"

definition watched :: "'f factory_api \<Rightarrow> 'f Manager \<Rightarrow> GVRConfig set" where
  "watched fa m = (\<Union>f \<in> set (factories m). set (fa_requested fa f))"

definition all_started :: "'f factory_api \<Rightarrow> 'f Manager \<Rightarrow> bool" where
  "all_started fa m \<longleftrightarrow> (\<forall>f \<in> set (factories m). set (fa_started fa f) = set (fa_requested fa f))"

lemma wait_all_iff: "wait_all fa syncs False fs = (if \<forall>f \<in> set (map snd fs). \<forall>g \<in> set (fa_started fa f). syncs g then Synced else Blocked)"
  by (induction fs) (auto simp: wait_factory_def find_None_iff find_Some_iff split: option.splits waited.splits)

lemma wait_manager:
  "manager_WaitForCacheSync fa gs syncs False m = (if \<forall>f \<in> set (factories m). \<forall>g \<in> set (fa_started fa f). syncs g then Synced else Blocked)"
  unfolding manager_WaitForCacheSync_def wait_all_iff by (simp add: factories_def comp_def case_prod_unfold)

context informer_factory
begin

lemma put_requested:
  "(\<Union>f \<in> snd ` set (put k (ForResource fa g (case map_of m k of Some f \<Rightarrow> f | None \<Rightarrow> NewDynamicSharedInformerFactory fa r)) m). set (fa_requested fa f)) =
     insert g (\<Union>f \<in> snd ` set m. set (fa_requested fa f))"
  by (induction m) (auto simp: for_resource new_factory split: option.splits)

lemma get_watched: "watched fa (snd (GetInformer fa gs g r m)) = insert g (watched fa m)"
  using put_requested [where k = "gs g" and g = g and m = "customFactories m" and r = r] by (auto simp: GetInformer_def watched_def factories_def for_resource Let_def)

lemma start_watched: "watched fa (manager_Start fa m) = watched fa m" "all_started fa (manager_Start fa m)"
  by (auto simp: manager_Start_def watched_def all_started_def factories_def start_factory)

lemma wait_watched:
  "all_started fa m \<Longrightarrow> manager_WaitForCacheSync fa gs syncs False m = (if \<forall>g \<in> watched fa m. syncs g then Synced else Blocked)"
  by (simp add: wait_manager watched_def all_started_def)

lemma adapter_starts:
  assumes "informer_Start conf = Inr st" "Informer conf = Some ic"
  shows "adapter_Start fa gs syncs False None conf m =
      (if \<forall>g \<in> insert (if_gvr ic) (watched fa m). syncs g then StartedWith st else StartBlocked,
       manager_Start fa (snd (GetInformer fa gs (if_gvr ic) (resync_period ic) m)))"
  using assms wait_watched [OF start_watched(2)] by (auto simp: adapter_Start_def start_watched get_watched Let_def)

end

text \<open>C34. Adapters start together or not at all: while the context lasts, starting a valid informer adapter returns exactly when its own resource and every resource
  that was requested before, by whichever adapter, can be cached, and blocks otherwise; one Ingester for a resource that does not exist
  keeps every later informer adapter from starting. All requested informers are started.\<close>

theorem adapters_start_together:
  assumes "informer_factory fa" "informer_Start conf = Inr st" "Informer conf = Some ic"
  shows "\<exists>m'. adapter_Start fa gs syncs False None conf m =
      (if \<forall>g \<in> insert (if_gvr ic) (watched fa m). syncs g then StartedWith st else StartBlocked, m') \<and>
    all_started fa m' \<and> watched fa m' = insert (if_gvr ic) (watched fa m)"
  using informer_factory.adapter_starts [OF assms] informer_factory.start_watched [OF assms(1)] informer_factory.get_watched [OF assms(1)] by metis

definition watch_of :: "string \<Rightarrow> string \<Rightarrow> SourceConfig" where
  "watch_of version resource =
     (source_config resource)\<lparr>Informer := Some \<lparr>if_gvr = \<lparr>gc_group = [], gc_version = version, gc_resource = resource\<rparr>, if_namespace = [], if_label_selector = [], if_field_selector = [], if_resync = []\<rparr>\<rparr>"

text \<open>An adapter for a resource that does not exist, then one for pods.\<close>

theorem adapters_start_together_witness:
  "fst (adapter_Start list_factory gc_resource (\<lambda>g. gc_resource g = ''pods'') False None (watch_of ''v1'' ''pods'')
     (snd (adapter_Start list_factory gc_resource (\<lambda>g. gc_resource g = ''pods'') False None (watch_of ''v1'' ''podz'') (NewManager list_factory 0)))) = StartBlocked"
proof -
  let ?m = "snd (adapter_Start list_factory gc_resource (\<lambda>g. gc_resource g = ''pods'') False None (watch_of ''v1'' ''podz'') (NewManager list_factory 0))"
  obtain st where st: "informer_Start (watch_of ''v1'' ''pods'') = Inr st" by (simp add: informer_Start_def informer_Validate_def watch_of_def)
  obtain ic where ic: "Informer (watch_of ''v1'' ''pods'') = Some ic" by (simp add: watch_of_def)
  have "?m = \<lparr>factory = (0, [\<lparr>gc_group = [], gc_version = ''v1'', gc_resource = ''podz''\<rparr>], [\<lparr>gc_group = [], gc_version = ''v1'', gc_resource = ''podz''\<rparr>]), defaultResync = 0, customFactories = []\<rparr>"
    by code_simp
  then have "\<exists>g \<in> watched list_factory ?m. gc_resource g \<noteq> ''pods''" by (simp add: watched_def factories_def list_factory_def)
  then show ?thesis using adapters_start_together [OF lists.informer_factory_axioms st ic, of gc_resource "\<lambda>g. gc_resource g = ''pods''" ?m] by auto
qed

text \<open>The namespace and the selectors of an informer are ignored: the informer watches the resource in all namespaces.\<close>

theorem selectors_ignored:
  "adapter_Start fa gs syncs ends he (conf\<lparr>Informer := Some (ic\<lparr>if_namespace := ns, if_label_selector := ls, if_field_selector := fs\<rparr>)\<rparr>) m =
   adapter_Start fa gs syncs ends he (conf\<lparr>Informer := Some ic\<rparr>) m"
  by (simp add: adapter_Start_def informer_Start_def informer_Validate_def resync_period_def Let_def cong: waited.case_cong option.case_cong)

section \<open>The first period wins\<close>

text \<open>The custom periods of a series of requests: the first for a resource is the one that stays.\<close>

fun request_all :: "'f factory_api \<Rightarrow> (GVRConfig \<Rightarrow> string) \<Rightarrow> (GVRConfig \<times> int) list \<Rightarrow> 'f Manager \<Rightarrow> 'f Manager" where
  "request_all fa gs [] m = m"
| "request_all fa gs ((g, r) # rs) m = request_all fa gs rs (snd (GetInformer fa gs g r m))"

lemma request_snoc: "request_all fa gs (rs @ [(g, r)]) m = snd (GetInformer fa gs g r (request_all fa gs rs m))"
  by (induction rs arbitrary: m) auto

definition first_period :: "int \<Rightarrow> GVRConfig \<Rightarrow> (GVRConfig \<times> int) list \<Rightarrow> int option" where
  "first_period dflt g rs = map_option snd (find (\<lambda>(g', r). g' = g \<and> r > 0 \<and> r \<noteq> dflt) rs)"

lemma first_period_snoc:
  "first_period dflt g (rs @ [(g', r)]) =
     (case first_period dflt g rs of Some p \<Rightarrow> Some p | None \<Rightarrow> if g' = g \<and> r > 0 \<and> r \<noteq> dflt then Some r else None)"
  by (induction rs) (auto simp: first_period_def)

theorem first_period_wins:
  assumes "informer_factory fa" "inj gs"
  shows "map_option (fa_resync fa) (map_of (customFactories (request_all fa gs rs (NewManager fa dflt))) (gs g)) = first_period dflt g rs \<and>
    defaultResync (request_all fa gs rs (NewManager fa dflt)) = dflt"
proof (induction rs arbitrary: g rule: rev_induct)
  case (snoc a rs)
  obtain g' r where a: "a = (g', r)" by fastforce
  note laws = informer_factory.for_resource(3) [OF assms(1)] informer_factory.new_factory(3) [OF assms(1)]
  define M where "M = request_all fa gs rs (NewManager fa dflt)"
  have ih: "first_period dflt g rs = map_option (fa_resync fa) (map_of (customFactories M) (gs g))" and d: "defaultResync M = dflt" using snoc [of g] by (simp_all add: M_def)
  have after: "request_all fa gs (rs @ [(g', r)]) (NewManager fa dflt) = snd (GetInformer fa gs g' r M)" by (simp add: request_snoc M_def)
  show ?case
  proof (cases "g' = g")
    case True
    then show ?thesis unfolding a after first_period_snoc ih by (auto simp: GetInformer_def laws d Let_def split: option.splits)
  next
    case False
    then have "gs g' \<noteq> gs g" using inj_eq [OF assms(2)] by simp
    then show ?thesis unfolding a after first_period_snoc ih using False by (auto simp: GetInformer_def d Let_def split: option.splits)
  qed
qed (simp add: NewManager_def first_period_def)

end
