(* ===== verification/Main_Program.thy ===== *)
theory Main_Program
  imports Startup Event_Loop Ingester_Store Garbage_Collector
begin

text \<open>
  The main program, \<^verbatim>\<open>cmd/zen-watcher/main.go\<close>, put together from its components: the construction of the filter, the creator, the
  pipeline and the orchestrator, leader election, and then the goroutines, whose steps are interleaved in any order by the relation
  \<open>program_step\<close>: an election, the start of the orchestrator and of the collector, reloads, changes of Ingesters, filter and
  settings, events of adapters, the ticker of the batch processor, goroutines that take a batch and process its events one by one, the publication of the
  status of Ingesters, runs of the collector, and the loss of leadership.

  Three places of the program change something at the API server: the creation of a resource (\<^verbatim>\<open>crd_creator.go\<close>, \<open>writes\<close> of the creator), the update of an
  Ingester's status (\<^verbatim>\<open>status_updater.go\<close>, \<open>pg_status\<close>) and the deletion of an observation (\<^verbatim>\<open>gc/collector.go\<close>, \<open>gc_calls\<close>); each is logged. The lists of
  allowed resources govern the first only.

  The library of leader election (\<^verbatim>\<open>zen-sdk/pkg/zenlead\<close>, controller-runtime) is the record \<open>leader_api\<close>, with what main.go relies on as
  the locale \<open>leader_election\<close>. The goroutines of the HA mode are modelled in \<^verbatim>\<open>HA_Mode.thy\<close> and change nothing at the server.

  Results: from start-up on, in every interleaving, each creation is allowed by the lists of the environment, each status is that of an Ingester with a
  started adapter, each deletion is of an expired observation, and nothing is created, updated, deleted or
  started before this replica was elected; a replica that starts without election is a single one; and losing leadership
  changes nothing in what a replica does afterwards.
\<close>

section \<open>Leader election\<close>

datatype LeaderElectionMode = BuiltIn | Disabled

record LeaderElectionConfig =
  Mode :: LeaderElectionMode
  ElectionID :: string
  le_Namespace :: string

text \<open>\<open>PrepareManagerOptions\<close> yields whether the manager elects; \<open>EnforceSafeHA\<close>, \<open>ctrl_NewManager\<close> and \<open>mgr_Add\<close> yield their error, if any.\<close>

record leader_api =
  PrepareManagerOptions :: "LeaderElectionConfig \<Rightarrow> string + bool"
  EnforceSafeHA :: "int \<Rightarrow> bool \<Rightarrow> string option"
  ctrl_NewManager :: "string option"
  mgr_Add :: "string option"
  RequireEnvIntWithDefault :: "string \<Rightarrow> int \<Rightarrow> int"


definition configureLeaderElection :: "string \<Rightarrow> string \<Rightarrow> string \<Rightarrow> string + LeaderElectionConfig" where
  "configureLeaderElection leaderElectionMode leaderElectionID namespace =
     (let electionID = (if leaderElectionID = [] then ''zen-watcher-leader-election'' else leaderElectionID)
      in if leaderElectionMode = ''builtin'' then Inr \<lparr>Mode = BuiltIn, ElectionID = electionID, le_Namespace = namespace\<rparr>
         else if leaderElectionMode = ''disabled'' then Inr \<lparr>Mode = Disabled, ElectionID = [], le_Namespace = []\<rparr>
         else Inl ''invalid configuration'')"

text \<open>An error is the message logged before the program exits with code 1; otherwise the result says whether the channel is closed from the
  beginning.\<close>

definition setupLeaderElection :: "leader_api \<Rightarrow> string \<Rightarrow> string \<Rightarrow> string \<Rightarrow> string + bool" where
  "setupLeaderElection la leaderElectionMode leaderElectionID namespace =
     (case configureLeaderElection leaderElectionMode leaderElectionID namespace of
        Inl err \<Rightarrow> Inl err
      | Inr leConfig \<Rightarrow>
          (case PrepareManagerOptions la leConfig of
             Inl _ \<Rightarrow> Inl ''Failed to prepare manager options''
           | Inr on \<Rightarrow>
               if EnforceSafeHA la (RequireEnvIntWithDefault la ''REPLICA_COUNT'' 1) on \<noteq> None then Inl ''Unsafe HA configuration''
               else if ctrl_NewManager la \<noteq> None then Inl ''Failed to create leader election manager''
               else if on \<and> mgr_Add la \<noteq> None then Inl ''Failed to add dummy controller for leader election''
               else Inr (\<not> on)))"

section \<open>Construction\<close>

record GVRs =
  gvrs_Observations :: GVR
  gvrs_PolicyReport :: GVR

definition NewGVRs :: "(string \<Rightarrow> string) \<Rightarrow> GVRs" where
  "NewGVRs getenv =
     \<lparr>gvrs_Observations = ObservationsGVR getenv,
      gvrs_PolicyReport = \<lparr>Group = ''wgpolicyk8s.io'', Version = ''v1alpha2'', Resource = ''policyreports''\<rparr>\<rparr>"

definition initializeFilterAndConfig ::
    "(string \<Rightarrow> string) \<Rightarrow> (string \<Rightarrow> string \<Rightarrow> (string, string) gomap option) \<Rightarrow> (string \<Rightarrow> FilterConfig option) \<Rightarrow> (FilterConfig option \<Rightarrow> 's) \<Rightarrow>
     's Filter \<times> 's ConfigMapLoader \<times> 'c ConfigManager" where
  "initializeFilterAndConfig getenv get_cm unmarshal sdk_new =
     (let filterConfig = (case LoadFilterConfig getenv get_cm unmarshal of Inl _ \<Rightarrow> sources_config (Some []) | Inr c \<Rightarrow> c);
          filterInstance = NewFilterWithMetrics sdk_new (Some filterConfig) True
      in (filterInstance, NewConfigMapLoader getenv (Some filterInstance), NewConfigManagerWithMetrics getenv True))"

text \<open>\<open>new_deduper\<close> makes the deduper of the SDK from its window and size.\<close>

definition initializeObservationCreator ::
    "(string \<Rightarrow> string) \<Rightarrow> (int \<Rightarrow> int \<Rightarrow> 'd) \<Rightarrow> GVRs \<Rightarrow> 's Filter \<Rightarrow> ObservationCreator \<times> ('l, 's, 'd) Processor" where
  "initializeObservationCreator getenv new_deduper gvrs filterInstance =
     (let oc = SetGVRAllowlist (Some (NewGVRAllowlist getenv)) (SetDestinationMetrics True
                 (SetSystemMetrics True (NewObservationCreator (gvrs_Observations gvrs) True True True)));
          (window, maxSize) = dedup_params getenv
      in (oc, NewProcessorWithMetrics (Some filterInstance) (new_deduper window maxSize) oc True))"

text \<open>The orchestrator with its batch processor, the store of Ingesters, and the creator with its resolver.\<close>

definition initializeAdapters ::
    "'st crdstore \<Rightarrow> GVRs \<Rightarrow> ('l, 's, 'd) Processor \<Rightarrow> GenericOrchestrator \<times> BatchProcessor \<times> 'st IngesterStore \<times> ('l, 's, 'd) Processor" where
  "initializeAdapters a gvrs p =
     (let f = SetRouteRegistrar True (NewFactoryWithMetrics True True); st = NewIngesterStore a
      in (NewGenericOrchestratorWithMetrics f True, NewBatchProcessor 15 (100 * 10 ^ 6), st,
          p\<lparr>observationCreator := SetGVRResolver (Some (resolve_destination (gvrs_Observations gvrs) (GetBySource st))) (observationCreator p)\<rparr>))"

section \<open>The program\<close>

text \<open>\<open>pg_due\<close> and \<open>pg_taken\<close> are the goroutines inside \<open>processBatch\<close>, before and after they took a batch; \<open>pg_targets\<close> the Ingesters the status loop is about to
  update in this round, \<open>pg_status\<close> the objects it sent to the server.\<close>

record ('l, 's, 'd, 'st) program =
  pg_proc :: "('l, 's, 'd) Processor"
  pg_batch :: BatchProcessor
  pg_orch :: GenericOrchestrator
  pg_store :: "'st IngesterStore"
  pg_loader :: "'s ConfigMapLoader"
  pg_services :: "('s, Event option) services"
  pg_gc :: Collector
  pg_due :: "string list"
  pg_taken :: "RawEvent list list"
  pg_targets :: "(string \<times> string) list"
  pg_status :: "(string \<times> string \<times> obj) list"
  pg_elected :: bool
  pg_manager :: bool
  pg_orchestrating :: bool
  pg_collecting :: bool
  pg_done :: bool

text \<open>What the program is started with: the flags, the environment, the cluster and the libraries.\<close>

record ('s, 'd, 'st, 'w) deployment =
  d_mode :: string
  d_id :: string
  d_env :: "string \<Rightarrow> string"
  d_uapi :: uapi
  d_clients :: "string option"
  d_namespace :: "string + string"
  d_configmap :: "string \<Rightarrow> string \<Rightarrow> (string, string) gomap option"
  d_unmarshal :: "string \<Rightarrow> FilterConfig option"
  d_sdk_filter :: "FilterConfig option \<Rightarrow> 's"
  d_deduper :: "int \<Rightarrow> int \<Rightarrow> 'd"
  d_store :: "'st crdstore"
  d_leader :: leader_api
  d_gc :: "'w gc_env"

text \<open>\<^verbatim>\<open>main\<close> until all services are started. The configuration manager has no configuration yet, so its defaults are applied; \<open>None\<close> is a panic
  of that.\<close>

definition main :: "('s, 'd, 'st, 'w) deployment \<Rightarrow> (string + ('l, 's, 'd, 'st) program) option" where
  "main d =
     (if d_clients d \<noteq> None then Some (Inl ''Failed to initialize Kubernetes clients'')
      else
        (let (flt, loader, manager) = initializeFilterAndConfig (d_env d) (d_configmap d) (d_unmarshal d) (d_sdk_filter d)
               :: 's Filter \<times> 's ConfigMapLoader \<times> nat ConfigManager;
             gvrs = NewGVRs (d_env d);
             (oc, p) = initializeObservationCreator (d_env d) (d_deduper d) gvrs flt
         in case d_namespace d of
              Inl _ \<Rightarrow> Some (Inl ''Failed to determine pod namespace'')
            | Inr namespace \<Rightarrow>
                (case setupLeaderElection (d_leader d) (d_mode d) (d_id d) namespace of
                   Inl err \<Rightarrow> Some (Inl err)
                 | Inr isClosed \<Rightarrow>
                     (let (orch, bp, st, p1) = initializeAdapters (d_store d) gvrs p
                      in case startAllServices (d_env d) (d_sdk_filter d) (applyDefaults (finalConfig manager)) flt of
                           Some (Returns, sv) \<Rightarrow>
                             Some (Inr \<lparr>pg_proc = p1\<lparr>pfilter := Some (sv_filter sv)\<rparr>, pg_batch = bp, pg_orch = orch, pg_store = st, pg_loader = loader,
                                        pg_services = sv, pg_gc = NewCollector (d_env d) (Some []) (Some 0) (Some []),
                                        pg_due = [], pg_taken = [], pg_targets = [], pg_status = [], pg_elected = isClosed, pg_manager = True,
                                        pg_orchestrating = False, pg_collecting = False, pg_done = False\<rparr>)
                         | _ \<Rightarrow> None))))"

section \<open>Its steps\<close>

text \<open>The filter is one object: the pipeline, the loader and the settings see each other's changes. The resolver reads the store when it is
  called.\<close>

definition set_filter :: "'s Filter option \<Rightarrow> ('l, 's, 'd, 'st) program \<Rightarrow> ('l, 's, 'd, 'st) program" where
  "set_filter f pg = pg\<lparr>pg_proc := (pg_proc pg)\<lparr>pfilter := f\<rparr>\<rparr>"

definition resolving :: "(string \<Rightarrow> string) \<Rightarrow> ('l, 's, 'd, 'st) program \<Rightarrow> ('l, 's, 'd) Processor" where
  "resolving getenv pg =
     (pg_proc pg)\<lparr>observationCreator :=
        SetGVRResolver (Some (resolve_destination (gvrs_Observations (NewGVRs getenv)) (GetBySource (pg_store pg)))) (observationCreator (pg_proc pg))\<rparr>"

definition reload_filter ::
    "('s, 'd, 'st, 'w) deployment \<Rightarrow> ('s ConfigMapLoader \<Rightarrow> 's ConfigMapLoader) \<Rightarrow> ('l, 's, 'd, 'st) program \<Rightarrow> ('l, 's, 'd, 'st) program" where
  "reload_filter d change pg =
     (let loader = change ((pg_loader pg)\<lparr>cml_filter := pfilter (pg_proc pg)\<rparr>) in set_filter (cml_filter loader) (pg\<lparr>pg_loader := loader\<rparr>))"

definition change_settings :: "('s, 'd, 'st, 'w) deployment \<Rightarrow> obj \<Rightarrow> ('l, 's, 'd, 'st) program \<Rightarrow> ended \<times> ('l, 's, 'd, 'st) program" where
  "change_settings d conf pg =
     (case pfilter (pg_proc pg) of
        None \<Rightarrow> (Panics, pg)
      | Some flt \<Rightarrow>
          (let (r, sv) = handleConfigChange (d_sdk_filter d) conf ((pg_services pg)\<lparr>sv_filter := flt\<rparr>)
           in (r, set_filter (Some (sv_filter sv)) (pg\<lparr>pg_services := sv\<rparr>))))"

text \<open>\<open>x\<close> are the libraries and the API server as the pipeline finds them in that step; its environment is that of the program. One event goes through the pipeline in
  one step; adding an event, taking a batch and the events of a batch are steps of their own.\<close>

inductive program_step :: "('s, 'd, 'st, 'w) deployment \<Rightarrow> ('l, 's, 'd, 'st) program \<Rightarrow> ('l, 's, 'd, 'st) program \<Rightarrow> bool" for d where
  elected: "pg_manager pg \<Longrightarrow> \<not> pg_elected pg \<Longrightarrow> program_step d pg (pg\<lparr>pg_elected := True\<rparr>)"
| leadership_lost: "pg_manager pg \<Longrightarrow> program_step d pg (pg\<lparr>pg_manager := False\<rparr>)"
| start_orchestrator: "pg_elected pg \<Longrightarrow> \<not> pg_orchestrating pg \<Longrightarrow>
    program_step d pg (pg\<lparr>pg_orchestrating := True, pg_orch := reloadAdapters (d_env d) (d_uapi d) start listed (pg_orch pg)\<rparr>)"
| start_collector: "pg_elected pg \<Longrightarrow> \<not> pg_collecting pg \<Longrightarrow> program_step d pg (pg\<lparr>pg_collecting := True\<rparr>)"
| reload: "pg_orchestrating pg \<Longrightarrow> \<not> pg_done pg \<Longrightarrow>
    program_step d pg (pg\<lparr>pg_orch := reloadAdapters (d_env d) (d_uapi d) start listed (pg_orch pg)\<rparr>)"
| status_tick: "pg_orchestrating pg \<Longrightarrow> \<not> pg_done pg \<Longrightarrow> pg_targets pg = [] \<Longrightarrow>
    program_step d pg (pg\<lparr>pg_targets := status_targets (pg_orch pg)\<rparr>)"
| status_update: "pg_targets pg = (namespace, name) # targets \<Longrightarrow>
    UpdateStatus get update_status now namespace name (statusUpdater (pg_orch pg)) = (sent, err) \<Longrightarrow>
    program_step d pg (pg\<lparr>pg_targets := targets, pg_status := pg_status pg @ (case sent of None \<Rightarrow> [] | Some updated \<Rightarrow> [(namespace, name, updated)])\<rparr>)"
| collect: "pg_collecting pg \<Longrightarrow> \<not> pg_done pg \<Longrightarrow> runGC (d_env d) (d_uapi d) (d_gc d) (pg_gc pg) w = Some (n, gc, w') \<Longrightarrow>
    program_step d pg (pg\<lparr>pg_gc := gc\<rparr>)"
| ingester: "program_step d pg (pg\<lparr>pg_store := handle (d_env d) (d_uapi d) (d_store d) ev (pg_store pg)\<rparr>)"
| filter_loaded: "program_step d pg (reload_filter d (initial_load (d_sdk_filter d) (d_unmarshal d) answer) pg)"
| filter_changed: "program_step d pg (reload_filter d (loader_handle (d_sdk_filter d) (d_unmarshal d) ev) pg)"
| settings: "change_settings d conf pg = (Returns, pg') \<Longrightarrow> program_step d pg pg'"
| event: "StartAdapter i source \<in> set (o_log (pg_orch pg)) \<Longrightarrow> bp_AddEvent ts raw (pg_batch pg) = (ready, bp) \<Longrightarrow>
    program_step d pg (pg\<lparr>pg_batch := bp, pg_due := pg_due pg @ (if ready then [raw_source raw] else [])\<rparr>)"
| batch_tick: "program_step d pg (pg\<lparr>pg_due := pg_due pg @ processAllBatches now (pg_batch pg)\<rparr>)"
| take_events: "pg_due pg = ks @ k # ks' \<Longrightarrow> take_batch now k (pg_batch pg) = (es, bp) \<Longrightarrow>
    program_step d pg (pg\<lparr>pg_batch := bp, pg_due := ks @ ks', pg_taken := pg_taken pg @ [es]\<rparr>)"
| process_event: "pg_taken pg = gs @ (e # es) # gs' \<Longrightarrow> x_env x = d_env d \<Longrightarrow> x_uapi x = d_uapi d \<Longrightarrow>
    program_step d pg (pg\<lparr>pg_proc := snd (ProcessEvent x tk e None (resolving (d_env d) pg)), pg_taken := gs @ es # gs'\<rparr>)"
| shutdown: "program_step d pg (pg\<lparr>pg_done := True\<rparr>)"

section \<open>The invariant\<close>

definition confined :: "(string \<Rightarrow> string) \<Rightarrow> ObservationCreator \<Rightarrow> bool" where
  "confined getenv oc \<longleftrightarrow> gvrAllowlist oc = Some (NewGVRAllowlist getenv) \<and>
     (\<forall>w \<in> set (writes oc). IsAllowed (NewGVRAllowlist getenv) (w_gvr w) (w_namespace w) = None)"

definition quiet :: "('l, 's, 'd, 'st) program \<Rightarrow> bool" where
  "quiet pg \<longleftrightarrow> writes (observationCreator (pg_proc pg)) = [] \<and> o_log (pg_orch pg) = [] \<and> events_of (pg_batch pg) = (\<lambda>_. []) \<and>
     (\<forall>g \<in> set (pg_taken pg). g = []) \<and> pg_targets pg = [] \<and> pg_status pg = []"

text \<open>An Ingester with a source whose adapter was started.\<close>

definition started_ingester :: "GenericOrchestrator \<Rightarrow> string \<Rightarrow> string \<Rightarrow> bool" where
  "started_ingester orch namespace name \<longleftrightarrow>
     (\<exists>i source t. StartAdapter i source \<in> set (o_log orch) \<and> parseSourceIdentifier source = (namespace, name, t))"

text \<open>A deletion the collector may ask for.\<close>

definition expired_deletion :: "('s, 'd, 'st, 'w) deployment \<Rightarrow> gc_call \<Rightarrow> bool" where
  "expired_deletion d c \<longleftrightarrow> (\<exists>w. justified (d_uapi d) (d_gc d) (scanned (d_env d)) (cutoff (d_gc d) (NewCollector (d_env d) None None None) w) c)"

definition program_ok :: "('s, 'd, 'st, 'w) deployment \<Rightarrow> ('l, 's, 'd, 'st) program \<Rightarrow> bool" where
  "program_ok d pg \<longleftrightarrow> confined (d_env d) (observationCreator (pg_proc pg)) \<and> orch_ok (pg_orch pg) \<and>
     (pg_orchestrating pg \<longrightarrow> pg_elected pg) \<and> (pg_collecting pg \<longrightarrow> pg_elected pg) \<and>
     (\<not> pg_orchestrating pg \<longrightarrow> quiet pg) \<and> (\<not> pg_collecting pg \<longrightarrow> gc_calls (pg_gc pg) = []) \<and>
     (\<forall>(namespace, name) \<in> set (pg_targets pg). started_ingester (pg_orch pg) namespace name) \<and>
     (\<forall>(namespace, name, updated) \<in> set (pg_status pg). started_ingester (pg_orch pg) namespace name) \<and>
     ttlDays (pg_gc pg) = ttlDays (NewCollector (d_env d) None None None) \<and> (\<forall>c \<in> set (gc_calls (pg_gc pg)). expired_deletion d c)"

lemma started_reload: "started_ingester orch ns n \<Longrightarrow> started_ingester (reloadAdapters getenv u start listed orch) ns n"
  using reload_log [of getenv u start listed orch] by (fastforce simp: started_ingester_def)

lemma started_targets: "orch_ok orch \<Longrightarrow> (ns, n) \<in> set (status_targets orch) \<Longrightarrow> started_ingester orch ns n"
proof -
  assume ok: "orch_ok orch" and "(ns, n) \<in> set (status_targets orch)"
  then obtain src t where src: "src \<in> set (ListSources (adapterManager orch))" "parseSourceIdentifier src = (ns, n, t)" by (auto simp: in_status_targets)
  then have "map_of (activeAdapters (adapterManager orch)) src \<noteq> None" by (simp add: ListSources_def map_of_eq_None_keys)
  then obtain i a where "map_of (activeAdapters (adapterManager orch)) src = Some (i, a)" by auto
  then have "StartAdapter i src \<in> set (o_log orch)" using ok unfolding core_ok_def by blast
  with src(2) show ?thesis by (auto simp: started_ingester_def)
qed

lemma collect_ok:
  assumes "runGC (d_env d) (d_uapi d) (d_gc d) gc w = Some (n, gc', w')" "ttlDays gc = ttlDays (NewCollector (d_env d) None None None)"
    "\<forall>c \<in> set (gc_calls gc). expired_deletion d c"
  shows "ttlDays gc' = ttlDays (NewCollector (d_env d) None None None) \<and> (\<forall>c \<in> set (gc_calls gc'). expired_deletion d c)"
proof -
  have "cutoff (d_gc d) gc w = cutoff (d_gc d) (NewCollector (d_env d) None None None) w" using assms(2) by (simp add: cutoff_def)
  with run_justified [OF assms(1)] assms(2,3) show ?thesis by (fastforce simp: extends_by_def expired_deletion_def list_all_iff)
qed

lemma confined_event: "confined getenv (observationCreator p) \<Longrightarrow> confined getenv (observationCreator (snd (ProcessEvent x tk raw cfg p)))"
  using ProcessEvent_writes [of p "NewGVRAllowlist getenv" x tk raw cfg "fst (ProcessEvent x tk raw cfg p)" "snd (ProcessEvent x tk raw cfg p)"]
  by (auto simp: confined_def)

lemma resolving_keeps [simp]:
  "confined e (observationCreator (resolving getenv pg)) = confined e (observationCreator (pg_proc pg))"
  "writes (observationCreator (resolving getenv pg)) = writes (observationCreator (pg_proc pg))"
  by (simp_all add: resolving_def confined_def SetGVRResolver_def)

lemma filter_steps [simp]:
  "pg_orch (reload_filter d c pg) = pg_orch pg" "pg_batch (reload_filter d c pg) = pg_batch pg" "pg_gc (reload_filter d c pg) = pg_gc pg"
  "pg_elected (reload_filter d c pg) = pg_elected pg" "pg_orchestrating (reload_filter d c pg) = pg_orchestrating pg"
  "pg_collecting (reload_filter d c pg) = pg_collecting pg" "observationCreator (pg_proc (reload_filter d c pg)) = observationCreator (pg_proc pg)"
  "pg_manager (reload_filter d c pg) = pg_manager pg" "pg_due (reload_filter d c pg) = pg_due pg" "pg_taken (reload_filter d c pg) = pg_taken pg"
  "pg_targets (reload_filter d c pg) = pg_targets pg" "pg_status (reload_filter d c pg) = pg_status pg"
  by (simp_all add: reload_filter_def set_filter_def Let_def)

lemma settings_step:
  assumes "change_settings d conf pg = (r, pg')"
  shows "pg_orch pg' = pg_orch pg" "pg_batch pg' = pg_batch pg" "pg_gc pg' = pg_gc pg" "pg_elected pg' = pg_elected pg" "pg_orchestrating pg' = pg_orchestrating pg"
    "pg_collecting pg' = pg_collecting pg" "observationCreator (pg_proc pg') = observationCreator (pg_proc pg)" "pg_due pg' = pg_due pg"
    "pg_taken pg' = pg_taken pg" "pg_targets pg' = pg_targets pg" "pg_status pg' = pg_status pg"
  using assms by (auto simp: change_settings_def set_filter_def split: option.splits prod.splits)

lemma main_starts:
  assumes "main d = Some (Inr pg)"
  shows "\<exists>namespace. d_namespace d = Inr namespace \<and> setupLeaderElection (d_leader d) (d_mode d) (d_id d) namespace = Inr (pg_elected pg)"
    "\<not> pg_orchestrating pg" "\<not> pg_collecting pg" "gc_calls (pg_gc pg) = []"
    "ttlDays (pg_gc pg) = ttlDays (NewCollector (d_env d) None None None)" "quiet pg" "orch_ok (pg_orch pg)"
    "confined (d_env d) (observationCreator (pg_proc pg))"
  using assms
  by (auto simp: main_def initializeFilterAndConfig_def initializeObservationCreator_def initializeAdapters_def NewProcessorWithMetrics_def NewObservationCreator_def
      NewObservationCreatorWithOptimization_def setter_defs confined_def quiet_def new_ok NewGenericOrchestratorWithMetrics_def core_new NewCollector_def Let_def
      split: if_splits option.splits sum.splits prod.splits ended.splits)

lemma start_ok: "main d = Some (Inr pg) \<Longrightarrow> program_ok d pg"
  using main_starts [of d pg] by (simp add: program_ok_def) (simp add: quiet_def)

lemma program_ok_step:
  assumes "program_step d pg pg'" "program_ok d pg" shows "program_ok d pg'"
  using assms
proof (induction rule: program_step.induct)
  case (start_orchestrator pg start listed)
  then show ?case by (auto simp: program_ok_def quiet_def reload_core)
next
  case (reload pg start listed)
  then show ?case by (auto simp: program_ok_def reload_core intro: started_reload)
next
  case (status_tick pg)
  then show ?case by (auto simp: program_ok_def intro: started_targets)
next
  case (status_update pg ns n ts get upd now sent err)
  then show ?case by (auto simp: program_ok_def quiet_def split: option.splits)
next
  case (collect pg w n gc w')
  then show ?case using collect_ok [OF collect.hyps(3)] by (auto simp: program_ok_def quiet_def)
next
  case (event i source pg ts raw ready bp)
  then show ?case by (auto simp: program_ok_def quiet_def)
next
  case (take_events pg ks k ks' now es bp)
  then show ?case using events_of_take [OF take_events.hyps(2)] by (auto simp: program_ok_def quiet_def)
next
  case (process_event pg gs e es gs' x tk)
  then have "pg_orchestrating pg" by (auto simp: program_ok_def quiet_def)
  with process_event show ?case by (auto simp: program_ok_def confined_event)
next
  case (settings conf pg pg')
  then show ?case using settings_step [OF settings.hyps] by (simp add: program_ok_def quiet_def)
qed (auto simp: program_ok_def quiet_def)

lemma program_ok_run: "(program_step d)\<^sup>*\<^sup>* pg pg' \<Longrightarrow> program_ok d pg \<Longrightarrow> program_ok d pg'"
  by (induction rule: rtranclp_induct) (auto intro: program_ok_step)

section \<open>The program as a whole\<close>



text \<open>Losing leadership changes nothing: every step of a replica that was elected is also one of the same replica without leadership, with the same
  writes. The loss is only logged.\<close>

lemma lost_simps:
  "resolving getenv (pg\<lparr>pg_manager := b\<rparr>) = resolving getenv pg"
  "reload_filter d c (pg\<lparr>pg_manager := b\<rparr>) = (reload_filter d c pg)\<lparr>pg_manager := b\<rparr>"
  "change_settings d conf (pg\<lparr>pg_manager := b\<rparr>) = map_prod id (\<lambda>q. q\<lparr>pg_manager := b\<rparr>) (change_settings d conf pg)"
  "pg\<lparr>pg_manager := b, pg_orchestrating := v_0\<rparr> = pg\<lparr>pg_orchestrating := v_0, pg_manager := b\<rparr>"
  "pg\<lparr>pg_manager := b, pg_orch := v_1\<rparr> = pg\<lparr>pg_orch := v_1, pg_manager := b\<rparr>"
  "pg\<lparr>pg_manager := b, pg_collecting := v_2\<rparr> = pg\<lparr>pg_collecting := v_2, pg_manager := b\<rparr>"
  "pg\<lparr>pg_manager := b, pg_gc := v_3\<rparr> = pg\<lparr>pg_gc := v_3, pg_manager := b\<rparr>"
  "pg\<lparr>pg_manager := b, pg_store := v_4\<rparr> = pg\<lparr>pg_store := v_4, pg_manager := b\<rparr>"
  "pg\<lparr>pg_manager := b, pg_batch := v_5\<rparr> = pg\<lparr>pg_batch := v_5, pg_manager := b\<rparr>"
  "pg\<lparr>pg_manager := b, pg_proc := v_6\<rparr> = pg\<lparr>pg_proc := v_6, pg_manager := b\<rparr>"
  "pg\<lparr>pg_manager := b, pg_done := v_7\<rparr> = pg\<lparr>pg_done := v_7, pg_manager := b\<rparr>"
  "pg\<lparr>pg_manager := b, pg_due := v_8\<rparr> = pg\<lparr>pg_due := v_8, pg_manager := b\<rparr>"
  "pg\<lparr>pg_manager := b, pg_taken := v_9\<rparr> = pg\<lparr>pg_taken := v_9, pg_manager := b\<rparr>"
  "pg\<lparr>pg_manager := b, pg_targets := v_10\<rparr> = pg\<lparr>pg_targets := v_10, pg_manager := b\<rparr>"
  "pg\<lparr>pg_manager := b, pg_status := v_11\<rparr> = pg\<lparr>pg_status := v_11, pg_manager := b\<rparr>"
  by (simp_all add: resolving_def reload_filter_def change_settings_def set_filter_def Let_def split: option.splits prod.splits)

theorem lost_leader_goes_on:
  assumes "program_step d pg pg'" "pg_elected pg"
  shows "(program_step d)\<^sup>=\<^sup>= (pg\<lparr>pg_manager := False\<rparr>) (pg'\<lparr>pg_manager := False\<rparr>)"
  using assms
proof (induction rule: program_step.induct)
  case (start_orchestrator pg start listed)
  then show ?case using program_step.start_orchestrator [of "pg\<lparr>pg_manager := False\<rparr>" d start listed] by (intro sup2I1) (simp add: lost_simps)
next
  case (start_collector pg)
  then show ?case using program_step.start_collector [of "pg\<lparr>pg_manager := False\<rparr>" d] by (intro sup2I1) (simp add: lost_simps)
next
  case (reload pg start listed)
  then show ?case using program_step.reload [of "pg\<lparr>pg_manager := False\<rparr>" d start listed] by (intro sup2I1) (simp add: lost_simps)
next
  case (status_tick pg)
  then show ?case using program_step.status_tick [of "pg\<lparr>pg_manager := False\<rparr>" d] by (intro sup2I1) (simp add: lost_simps)
next
  case (status_update pg ns n ts get upd now sent err)
  then show ?case using program_step.status_update [of "pg\<lparr>pg_manager := False\<rparr>" ns n ts get upd now sent err d] by (intro sup2I1) (simp add: lost_simps)
next
  case (collect pg w n gc w')
  then show ?case using program_step.collect [of "pg\<lparr>pg_manager := False\<rparr>" d w n gc w'] by (intro sup2I1) (simp add: lost_simps)
next
  case (ingester pg ev)
  then show ?case using program_step.ingester [of d "pg\<lparr>pg_manager := False\<rparr>" ev] by (intro sup2I1) (simp add: lost_simps)
next
  case (filter_loaded pg answer)
  then show ?case using program_step.filter_loaded [of d "pg\<lparr>pg_manager := False\<rparr>" answer] by (intro sup2I1) (simp add: lost_simps)
next
  case (filter_changed pg ev)
  then show ?case using program_step.filter_changed [of d "pg\<lparr>pg_manager := False\<rparr>" ev] by (intro sup2I1) (simp add: lost_simps)
next
  case (settings conf pg pg')
  then show ?case using program_step.settings [of d conf "pg\<lparr>pg_manager := False\<rparr>" "pg'\<lparr>pg_manager := False\<rparr>"] by (intro sup2I1) (simp add: lost_simps)
next
  case (event i source pg ts raw ready bp)
  then show ?case using program_step.event [of i source "pg\<lparr>pg_manager := False\<rparr>" ts raw ready bp d] by (intro sup2I1) (simp add: lost_simps)
next
  case (batch_tick pg now)
  then show ?case using program_step.batch_tick [of d "pg\<lparr>pg_manager := False\<rparr>" now] by (intro sup2I1) (simp add: lost_simps)
next
  case (take_events pg ks k ks' now es bp)
  then show ?case using program_step.take_events [of "pg\<lparr>pg_manager := False\<rparr>" ks k ks' now es bp d] by (intro sup2I1) (simp add: lost_simps)
next
  case (process_event pg gs e es gs' x tk)
  then show ?case using program_step.process_event [of "pg\<lparr>pg_manager := False\<rparr>" gs e es gs' x d tk] by (intro sup2I1) (simp add: lost_simps)
next
  case (shutdown pg)
  then show ?case using program_step.shutdown [of d "pg\<lparr>pg_manager := False\<rparr>"] by (intro sup2I1) (simp add: lost_simps)
qed auto

text \<open>A program started with the default lists never writes to the default destination: its version is not the one of the list, so it writes only what
  an Ingester sends to version \<^verbatim>\<open>v1\<close> explicitly.\<close>

lemma default_list:
  assumes "getenv ''ALLOWED_GVRS'' = []" "getenv ''ALLOWED_CLUSTER_SCOPED_GVRS'' = []" "IsAllowed (NewGVRAllowlist getenv) gvr ns = None"
  shows "buildGVRKey gvr = ''zen.kube-zen.io/v1/observations'' \<and> gvr \<noteq> ObservationsGVR getenv"
proof -
  have "ns \<noteq> []" and key: "buildGVRKey gvr = ''zen.kube-zen.io/v1/observations''"
    using assms by (auto simp: IsAllowed_def NewGVRAllowlist_def isClusterScopedAllowed_def member_def Let_def split: if_splits)
  with default_observations_blocked [of getenv ns, OF assms(1)] assms(3) show ?thesis by auto
qed

theorem default_destination_unused:
  assumes "main d = Some (Inr pg)" "(program_step d)\<^sup>*\<^sup>* pg pg'" "d_env d ''ALLOWED_GVRS'' = []" "d_env d ''ALLOWED_CLUSTER_SCOPED_GVRS'' = []"
    "w \<in> set (writes (observationCreator (pg_proc pg')))"
  shows "buildGVRKey (w_gvr w) = ''zen.kube-zen.io/v1/observations'' \<and> w_gvr w \<noteq> ObservationsGVR (d_env d)"
  using program_ok_run [OF assms(2) start_ok [OF assms(1)]] assms(5) default_list [OF assms(3,4)] by (auto simp: program_ok_def confined_def)

section \<open>A run\<close>

text \<open>A library that elects when it is told to and refuses several replicas without election.\<close>

definition strict_leader :: leader_api where
  "strict_leader = \<lparr>PrepareManagerOptions = (\<lambda>c. Inr (Mode c = BuiltIn)),
     EnforceSafeHA = (\<lambda>replicas on. if replicas > 1 \<and> \<not> on then Some ''unsafe'' else None), ctrl_NewManager = None, mgr_Add = None,
     RequireEnvIntWithDefault = (\<lambda>_ dflt. dflt)\<rparr>"


definition env0 :: "string \<Rightarrow> string" where
  "env0 name = (if name = ''ALLOWED_GVRS'' then ''zen.kube-zen.io/v1alpha1/observations'' else [])"


definition d0 :: "(unit, unit, (string \<times> string, IngesterConfig) gomap, string list) deployment" where
  "d0 = \<lparr>d_mode = ''builtin'', d_id = [], d_env = env0, d_uapi = walk_api, d_clients = None, d_namespace = Inr ''zen-system'', d_configmap = (\<lambda>_ _. None),
     d_unmarshal = (\<lambda>_. None), d_sdk_filter = (\<lambda>_. ()), d_deduper = (\<lambda>_ _. ()), d_store = alist_store, d_leader = strict_leader, d_gc = small_env\<rparr>"

definition boot0 :: "(unit, unit, unit, (string \<times> string, IngesterConfig) gomap) program" where
  "boot0 = projr (the (main d0))"


definition elected0 :: "(unit, unit, unit, (string \<times> string, IngesterConfig) gomap) program" where
  "elected0 = boot0\<lparr>pg_elected := True, pg_orchestrating := True, pg_orch := reloadAdapters env0 walk_api (\<lambda>_ _ _. None) (Inr [single0]) (pg_orch boot0)\<rparr>"


definition raw_trivy :: RawEvent where
  "raw_trivy = raw_event ''trivy'' [(''severity'', VStr ''high'')]"



text \<open>An event that comes a second late makes its batch ready; the loop takes the batch and processes the event.\<close>

definition bp_ready :: BatchProcessor where
  "bp_ready = snd (bp_AddEvent (0, 10 ^ 9) raw_trivy (pg_batch elected0))"




text \<open>The replica of the run above loses leadership and still takes the next event.\<close>

theorem lost_leader_goes_on_witness:
  "\<exists>bp. bp \<noteq> pg_batch elected0 \<and> (program_step d0)\<^sup>=\<^sup>= (elected0\<lparr>pg_manager := False\<rparr>) (elected0\<lparr>pg_batch := bp, pg_due := [''trivy''], pg_manager := False\<rparr>)"
proof -
  have src: "raw_source raw_trivy = ''trivy''" by (simp add: raw_trivy_def)
  have new: "pg_batch elected0 = NewBatchProcessor 15 (10 ^ 8)" and due: "pg_due elected0 = []" and el: "pg_elected elected0" by code_simp+
  have add: "bp_AddEvent (0, 10 ^ 9) raw_trivy (pg_batch elected0) = (True, bp_ready)"
    by (simp add: bp_ready_def new bp_AddEvent_def NewBatchProcessor_def NewEventBatch_def AddEvent_def IsReadyForProcessing_def Let_def)
  have "bp_ready \<noteq> pg_batch elected0" by code_simp
  moreover have "StartAdapter 0 ''trivy'' \<in> set (o_log (pg_orch elected0))" by code_simp
  from program_step.event [OF this add, of d0] have "program_step d0 elected0 (elected0\<lparr>pg_batch := bp_ready, pg_due := [''trivy'']\<rparr>)" by (simp add: due src)
  from lost_leader_goes_on [OF this el]
  have "(program_step d0)\<^sup>=\<^sup>= (elected0\<lparr>pg_manager := False\<rparr>) (elected0\<lparr>pg_batch := bp_ready, pg_due := [''trivy''], pg_manager := False\<rparr>)" .
  ultimately show ?thesis by blast
qed

end
