(* ===== verification/Dedup_Window.thy ===== *)
theory Dedup_Window
  imports HA_Mode
begin

text \<open>
  The optimizer of the deduplication window, the rest of \<^verbatim>\<open>pkg/optimization/ha_dedup_optimization.go\<close>: the goroutine that updates the window of a traffic
  analyzer (\<^verbatim>\<open>HA_Mode.thy\<close>), and the calls that forward to the analyzer. A goroutine is waiting in its select statement or, after an
  update that does not return, blocked for good.

  Result: the window never adapts. Before the first update it is the one for low traffic, whatever the traffic; the first update
  blocks, and then asking for the window and stopping the optimizer block too.
\<close>

section \<open>The optimizer\<close>

record HADedupOptimizer =
  opt_analyzer :: TrafficAnalyzer
  eventCounter :: "nat option"
  hasTicker :: bool
  waiting :: nat
  stuck :: nat
  stopChan :: bool

text \<open>The calls of the analyzer that were left: the counter of the events is kept beside it.\<close>

definition ta_RecordEvent :: "nat option \<Rightarrow> nat option" where
  "ta_RecordEvent counter = map_option Suc counter"

definition GetCurrentWindow :: "TrafficAnalyzer \<Rightarrow> int" where
  "GetCurrentWindow ta = currentWindow ta"

definition NewHADedupOptimizer :: "DedupOptimizationConfig option \<Rightarrow> nat option \<Rightarrow> HADedupOptimizer option" where
  "NewHADedupOptimizer haConfig counter =
     (case haConfig of
        None \<Rightarrow> None
      | Some c \<Rightarrow>
          if \<not> do_Enabled c then None
          else Some \<lparr>opt_analyzer = NewTrafficAnalyzer c, eventCounter = counter, hasTicker = False, waiting = 0, stuck = 0, stopChan = False\<rparr>)"

definition opt_Start :: "HADedupOptimizer option \<Rightarrow> HADedupOptimizer option" where
  "opt_Start opt = map_option (\<lambda>o1. o1\<lparr>hasTicker := True, waiting := Suc (waiting o1)\<rparr>) opt"

text \<open>A tick wakes one of the waiting goroutines.\<close>

definition opt_tick :: "int \<Rightarrow> HADedupOptimizer option \<Rightarrow> HADedupOptimizer option" where
  "opt_tick now opt =
     map_option (\<lambda>o1.
       if hasTicker o1 \<and> \<not> stopChan o1 \<and> waiting o1 > 0
       then (case UpdateWindow now (opt_analyzer o1) of
               (ta, True) \<Rightarrow> o1\<lparr>opt_analyzer := ta\<rparr>
             | (ta, False) \<Rightarrow> o1\<lparr>opt_analyzer := ta, waiting := waiting o1 - 1, stuck := Suc (stuck o1)\<rparr>)
       else o1) opt"

datatype stopped = Stopped | StopBlocks | StopPanics

text \<open>Closing the channel twice panics; the wait ends when all goroutines have.\<close>

definition opt_Stop :: "HADedupOptimizer option \<Rightarrow> stopped \<times> HADedupOptimizer option" where
  "opt_Stop opt =
     (case opt of
        None \<Rightarrow> (Stopped, None)
      | Some o1 \<Rightarrow>
          if stopChan o1 then (StopPanics, opt)
          else (if stuck o1 = 0 then Stopped else StopBlocks, Some (o1\<lparr>stopChan := True, waiting := 0\<rparr>)))"

text \<open>\<open>None\<close> is a call that blocks.\<close>

definition opt_GetOptimalWindow :: "int \<Rightarrow> HADedupOptimizer option \<Rightarrow> int option" where
  "opt_GetOptimalWindow now opt = (case opt of None \<Rightarrow> Some (60 * 10 ^ 9) | Some o1 \<Rightarrow> GetOptimalWindow now (opt_analyzer o1))"

definition opt_RecordEvent :: "HADedupOptimizer option \<Rightarrow> HADedupOptimizer option" where
  "opt_RecordEvent opt = map_option (\<lambda>o1. o1\<lparr>eventCounter := ta_RecordEvent (eventCounter o1)\<rparr>) opt"

section \<open>The window never adapts\<close>

datatype opt_call = CallStart | CallTick int | CallRecord

fun opt_do :: "opt_call \<Rightarrow> HADedupOptimizer option \<Rightarrow> HADedupOptimizer option" where
  "opt_do CallStart opt = opt_Start opt"
| "opt_do (CallTick now) opt = opt_tick now opt"
| "opt_do CallRecord opt = opt_RecordEvent opt"

definition unadapted :: "DedupOptimizationConfig \<Rightarrow> bool \<Rightarrow> bool \<Rightarrow> HADedupOptimizer \<Rightarrow> bool" where
  "unadapted c started ticked o1 \<longleftrightarrow>
     ta_config (opt_analyzer o1) = c \<and> windowHistory (opt_analyzer o1) = [] \<and> history_locked (opt_analyzer o1) = ticked \<and> (stuck o1 > 0 \<longleftrightarrow> ticked) \<and>
     (hasTicker o1 \<longleftrightarrow> started) \<and> (waiting o1 > 0 \<longrightarrow> started) \<and> (started \<and> \<not> ticked \<longrightarrow> waiting o1 > 0) \<and> \<not> stopChan o1"

text \<open>Whether a tick has come after the start, from what was so before.\<close>

fun started_ticked :: "opt_call list \<Rightarrow> bool \<times> bool \<Rightarrow> bool \<times> bool" where
  "started_ticked [] st = st"
| "started_ticked (CallStart # cs) (s, t) = started_ticked cs (True, t)"
| "started_ticked (CallTick now # cs) (s, t) = started_ticked cs (s, t \<or> s)"
| "started_ticked (CallRecord # cs) st = started_ticked cs st"

lemma update_blocks:
  assumes "windowHistory ta = []"
  shows "snd (UpdateWindow now ta) = False" "ta_config (fst (UpdateWindow now ta)) = ta_config ta" "windowHistory (fst (UpdateWindow now ta)) = []"
    "history_locked (fst (UpdateWindow now ta))"
  using assms by (auto simp: UpdateWindow_def GetOptimalWindow_def CalculateEventsPerSecond_def Let_def split: option.splits)

lemma unadapted_tick:
  assumes "unadapted c s t o1"
  shows "\<exists>o2. opt_tick now (Some o1) = Some o2 \<and> unadapted c s (t \<or> s) o2"
proof -
  obtain ta r where u: "UpdateWindow now (opt_analyzer o1) = (ta, r)" by fastforce
  have "windowHistory (opt_analyzer o1) = []" using assms by (simp add: unadapted_def)
  from update_blocks [OF this, of now] u have "r = False" "ta_config ta = ta_config (opt_analyzer o1)" "windowHistory ta = []" "history_locked ta" by simp_all
  with assms u show ?thesis by (cases "s \<and> waiting o1 > 0") (auto simp: unadapted_def opt_tick_def)
qed

lemma unadapted_run:
  "unadapted c s t o1 \<Longrightarrow> started_ticked cs (s, t) = (s', t') \<Longrightarrow> \<exists>o2. fold opt_do cs (Some o1) = Some o2 \<and> unadapted c s' t' o2"
proof (induction cs "(s, t)" arbitrary: s t o1 rule: started_ticked.induct)
  case (2 cs s t)
  have "unadapted c True t (o1\<lparr>hasTicker := True, waiting := Suc (waiting o1)\<rparr>)" using 2(2) by (auto simp: unadapted_def)
  with 2 show ?case by (simp add: opt_Start_def)
next
  case (3 now cs s t)
  obtain o2 where "opt_tick now (Some o1) = Some o2" "unadapted c s (t \<or> s) o2" using unadapted_tick [OF 3(2)] by blast
  with 3 show ?case by simp
next
  case (4 cs s t)
  have "unadapted c s t (o1\<lparr>eventCounter := ta_RecordEvent (eventCounter o1)\<rparr>)" using 4(2) by (simp add: unadapted_def)
  with 4 show ?case by (simp add: opt_RecordEvent_def)
qed simp

theorem window_never_adapts:
  assumes "do_Enabled c" "AdaptiveWindows c" "started_ticked cs (False, False) = (s, t)"
  shows "opt_GetOptimalWindow now (fold opt_do cs (NewHADedupOptimizer (Some c) n)) = (if t then None else Some (window_or_zero (GetLowTrafficWindow c))) \<and>
    fst (opt_Stop (fold opt_do cs (NewHADedupOptimizer (Some c) n))) = (if t then StopBlocks else Stopped)"
proof -
  let ?o = "\<lparr>opt_analyzer = NewTrafficAnalyzer c, eventCounter = n, hasTicker = False, waiting = 0, stuck = 0, stopChan = False\<rparr>"
  have new: "NewHADedupOptimizer (Some c) n = Some ?o" using assms(1) by (simp add: NewHADedupOptimizer_def)
  have "unadapted c False False ?o" by (simp add: unadapted_def NewTrafficAnalyzer_def)
  from unadapted_run [OF this assms(3)] obtain o2 where "fold opt_do cs (Some ?o) = Some o2" "unadapted c s t o2" by blast
  then show ?thesis using assms(1,2)
    by (auto simp: new opt_GetOptimalWindow_def GetOptimalWindow_def CalculateEventsPerSecond_def average_since_def unadapted_def opt_Stop_def Let_def)
qed

theorem window_never_adapts_witness:
  "fst (opt_Stop (fold opt_do [CallRecord, CallStart, CallTick 5] (NewHADedupOptimizer
     (Some \<lparr>do_Enabled = True, LowTrafficWindow = ''120s'', HighTrafficWindow = ''30s'', AdaptiveWindows = True\<rparr>) (Some 0)))) = StopBlocks"
  using window_never_adapts [of "\<lparr>do_Enabled = True, LowTrafficWindow = ''120s'', HighTrafficWindow = ''30s'', AdaptiveWindows = True\<rparr>"
      "[CallRecord, CallStart, CallTick 5]" True True 0 "Some 0"] by simp

end
