(* ===== verification/Spec2Isabelle.thy ===== *)
theory Spec2Isabelle
  imports Filter_Eval Filter_Merge Event_Pipeline Processing_Order Event_Batcher Destination_Batcher Worker_Pool Ingester_Store Webhook_Server
    Event_Loop Garbage_Collector Startup HA_Mode Ingester_Lint Sdk_Validate Optimization_State Advisor Field_Mapper Runtime_Metrics Obsctl Informer_Manager
    Main_Program Dedup_Window
begin

text \<open>
  A verification development for zen-watcher, a Kubernetes controller that turns events of many tools into custom
  resources (observations).

  \<^bold>\<open>The program.\<close> Ingester resources describe sources. The loader (\<^verbatim>\<open>pkg/config\<close>) converts them into configurations; the
  orchestrator (\<^verbatim>\<open>pkg/orchestrator\<close>) starts an adapter (\<^verbatim>\<open>pkg/adapter/generic\<close>) for each source, an informer, a webhook
  behind the HTTP server (\<^verbatim>\<open>pkg/server\<close>), or a reader of pod logs. Adapters produce raw events, which the batch
  processor collects and the pipeline (\<^verbatim>\<open>pkg/processor\<close>) processes one by one: thresholds and rate limits
  (\<^verbatim>\<open>pkg/monitoring\<close>), filter (\<^verbatim>\<open>pkg/filter\<close>), deduplication, normalisation, hooks (\<^verbatim>\<open>pkg/hooks\<close>). What is left is written
  by the observation creator (\<^verbatim>\<open>pkg/watcher\<close>) to the destination of its source, if the write policy allows it. The
  garbage collector (\<^verbatim>\<open>pkg/gc\<close>) deletes observations whose time to live has passed.

  \<^bold>\<open>Theories.\<close>
  \<^item> \<open>Zen_Prelude\<close>, \<open>Zen_Float64\<close>, \<open>Zen_Values\<close>, \<open>Zen_Time\<close>, \<open>Zen_Sha256\<close>: what the sources use of Go and its library (strings,
    integers, IEEE doubles with \<^verbatim>\<open>strconv\<close>, dynamic values and \<^verbatim>\<open>%v\<close>, durations and environment variables, SHA-256).
  \<^item> \<open>Filter_Parser\<close>, \<open>Filter_Roundtrip\<close>, \<open>Filter_Eval\<close>: \<^verbatim>\<open>parser.go\<close> and \<^verbatim>\<open>expression.go\<close>. The parser never panics and always
    returns; it reads back every printed filter; evaluation is the boolean meaning of the filter.
  \<^item> \<open>Filter_Merge\<close>: \<^verbatim>\<open>merger.go\<close>, \<^verbatim>\<open>config.go\<close>, \<^verbatim>\<open>rules.go\<close>. The merged filter is the most restrictive one.
  \<^item> \<open>K8s_Unstructured\<close>: the interface to the unstructured package and the cached field access.
  \<^item> \<open>GVR_Allowlist\<close>, \<open>GVR_Validation\<close>: resolution, policy and validation of destinations.
  \<^item> \<open>Observation_Model\<close>, \<open>Observation_Creator\<close>: \<^verbatim>\<open>adapter.go\<close>, \<^verbatim>\<open>crd_creator.go\<close>, \<^verbatim>\<open>observation_creator.go\<close>. Every creation follows the policy,
    counters are exact, written observations are the given ones, normalised and with a time to live.
  \<^item> \<open>Event_Config\<close>, \<open>Threshold_Monitor\<close>, \<open>Event_Fingerprint\<close>, \<open>Event_Pipeline\<close>, \<open>Processing_Order\<close>: an event is written only after it
    passed every gate; the order of filter and deduplication does not change the verdict; sources are isolated.
  \<^item> \<open>Batcher\<close>: batches filled and emptied by concurrent goroutines, as a step relation over an interface (locale
    \<open>batch_laws\<close>); \<open>Event_Batcher\<close> and \<open>Destination_Batcher\<close> interpret it for \<^verbatim>\<open>batch_processor.go\<close> and
    \<^verbatim>\<open>destination_batcher.go\<close>: nothing is lost or processed twice, and everything can be processed.
  \<^item> \<open>Worker_Pool\<close>: \<^verbatim>\<open>worker_pool.go\<close>, the workers, their queues and the goroutines that drain a replaced queue as step relations. Work is conserved, up to the nil items
    of a closed queue; it can be done while the pool is neither stopped nor reconfigured, and where either goes wrong.
  \<^item> \<open>Ingester_Config\<close>, \<open>Ingester_Store\<close>: \<^verbatim>\<open>ingester_extractors.go\<close>, \<^verbatim>\<open>ingester_loader.go\<close>, \<^verbatim>\<open>ingester_to_generic_converter.go\<close>
    and the destination resolver of \<^verbatim>\<open>main.go\<close>. Loaded configurations are usable; the index by source finds exactly the
    live Ingesters when sources are unique and stable, updates stay readable and deletions arrive as such.
  \<^item> \<open>Webhook_Auth\<close>, \<open>Generic_Adapters\<close>, \<open>Webhook_Server\<close>: \<^verbatim>\<open>auth.go\<close>, \<^verbatim>\<open>ratelimit_wrapper.go\<close>, \<^verbatim>\<open>http.go\<close> and the adapters. Whom the
    authenticator admits, by specifications of token, list and client address of their own; callers do not share a rate; what a webhook
    request must pass to become an event; which pods are watched; where stopping an adapter goes wrong.
  \<^item> \<open>Ingester_Status\<close>, \<open>Orchestrator\<close>: \<^verbatim>\<open>status_updater.go\<close>, \<^verbatim>\<open>adapter_manager.go\<close>, \<^verbatim>\<open>generic.go\<close>. Every adapter is accounted for;
    a reload reconciles the adapters with the list of Ingesters, also when adapters fail to start or the list fails; a change within a kind of adapter is ignored.
  \<^item> \<open>Event_Loop\<close>: the goroutines of \<^verbatim>\<open>generic.go\<close>. The batch mode is a step relation of the loop of an adapter
    with those of the others, the ticker and its goroutines: batching keeps the order of the events of a source and drops their configuration. Polling settles
    when sources are distinct.
  \<^item> \<open>Garbage_Collector\<close>: \<^verbatim>\<open>collector.go\<close>. Only expired observations are deleted, all of them in a run that has the time, every deletion
    is counted, and a run ends; how the default time to live acts and where it wraps.
  \<^item> \<open>Config_Manager\<close>, \<open>Startup\<close>: \<^verbatim>\<open>config_manager.go\<close>, \<^verbatim>\<open>configmap_loader.go\<close>, \<^verbatim>\<open>adapter_factory.go\<close> and the settings in \<^verbatim>\<open>main.go\<close>.
    Which setting is in force, that the filter has the last readable configuration, and where announcing a configuration hangs,
    panics or does nothing.
  \<^item> \<open>HA_Mode\<close>: \<^verbatim>\<open>ha_config.go\<close>, \<^verbatim>\<open>load_balancer.go\<close>, \<^verbatim>\<open>hpa_coordinator.go\<close>, the traffic analyzer of \<^verbatim>\<open>ha_dedup_optimization.go\<close>. Only
    healthy replicas are selected; with automatic scaling on, the updates block on a lock they hold.
  \<^item> \<open>Ingester_Lint\<close>: \<^verbatim>\<open>cmd/ingester-lint\<close>. What a clean Ingester means for the loader.
  \<^item> \<open>Sdk_Validate\<close>: \<^verbatim>\<open>pkg/sdk\<close>. What a validated Ingester means for the loader and the pipeline.
  \<^item> \<open>Optimization\<close>, \<open>Optimization_State\<close>: \<^verbatim>\<open>pkg/optimization\<close>, the sliding window of metrics, trackers, strategy and smart processor; the state of the
    decisions over an interface of persistence (locale \<open>state_persistence\<close>), interpreted by the files of \<^verbatim>\<open>persistence.go\<close> on a disk
    whose writes, renames and reads may fail.
  \<^item> \<open>Advisor\<close>: \<^verbatim>\<open>pkg/advisor\<close>, opportunities, suggestions, their impact and the weekly report.
  \<^item> \<open>Field_Mapper\<close>: \<^verbatim>\<open>field_mapper.go\<close>, fields written into the spec of an observation and times to live.
  \<^item> \<open>Runtime_Metrics\<close>: \<^verbatim>\<open>pkg/metrics\<close>, \<^verbatim>\<open>decision_metrics.go\<close> and \<^verbatim>\<open>threshold_monitor.go\<close>: the declared metrics and their registration with the Prometheus client
    (locale \<open>prometheus_client\<close>), readings of the system, warnings.
  \<^item> \<open>Obsctl\<close>: \<^verbatim>\<open>cmd/obsctl\<close>, listing, counting and finding observations.
  \<^item> \<open>Dedup_Window\<close>: the optimizer of \<^verbatim>\<open>ha_dedup_optimization.go\<close>, whose window never adapts.
  \<^item> \<open>Informer_Manager\<close>: \<^verbatim>\<open>internal/informers/manager.go\<close> and the start of an informer adapter, over the factories of client-go (locale \<open>informer_factory\<close>):
    adapters start together or block.
  \<^item> \<open>Main_Program\<close>: \<^verbatim>\<open>cmd/zen-watcher/main.go\<close> as a whole: construction, leader election (locale \<open>leader_election\<close>), and the goroutines as a step
    relation over the state of all components; which resources it creates, which statuses it publishes and which observations
    it deletes, and that it does nothing of this before it is elected, in every interleaving.

  \<^bold>\<open>Conventions.\<close> A struct is a record, a pointer that may be nil an option, a map an association list with distinct keys
  whose order is the iteration order, an error a value. Locks are not modelled: an operation under a lock is one
  step, and goroutines interleave in the step relations. Clocks are arguments. Packages outside the repository
  (unstructured objects, the base store and the filter, deduplication and limiter of the SDK, the token bucket, the
  address parser, the multiplexer, the API server) are parameters; where something is used of them, it is a
  locale with the documented laws, interpreted by a concrete instance. Metrics are the lists of label values.

  \<^bold>\<open>Bounds.\<close> The recursion of the filter parser has fuel four times the length of the text and more; \<open>parse_safe\<close> shows that it
  never runs out. The loop of the garbage collector over the pages of a list
  is a partial function; \<open>gc_run_ends\<close> shows that it returns. All other definitions terminate by construction.

  \<^bold>\<open>Not modelled.\<close> Listening of the HTTP server, construction of Kubernetes clients, logging, the texts of \<^verbatim>\<open>schema-doc-gen\<close> and \<^verbatim>\<open>zen-watcher-optimize\<close>
  (separate tools that print), \<^verbatim>\<open>defaults.go\<close> and \<^verbatim>\<open>errors.go\<close> (constants and wrappers), and Unicode case folding beyond ASCII.
\<close>

end
